(* ===== verification/Prelude.thy ===== *)
theory Prelude
  imports Complex_Main "HOL-Library.AList" "HOL-Library.Multiset"
    "HOL-Library.Char_ord" "HOL-Library.List_Lexorder"
begin

text \<open>
  Shared vocabulary of the development: the names of the basic value types, the JavaScript
  operators the sources use on possibly missing values, the three table statements (select,
  update, insert) that every service issues, decimal rendering of integers, and three interfaces
  stated as locales: a table with a unique index, a transition system with an invariant and an
  append-only log.  The component theories interpret the locales on their own operations.
\<close>

named_theorems index_simps
  \<open>how the operations act on the payload position of an outcome\<close>
named_theorems frame_simps
  \<open>which tables an operation leaves unchanged\<close>

section \<open>Value types\<close>

type_synonym uuid = string
  \<comment> \<open>primary keys: compared for equality and concatenated, never taken apart\<close>
type_synonym instant = int
  \<comment> \<open>a JavaScript Date: milliseconds since the epoch\<close>
type_synonym ustring = "int list"
  \<comment> \<open>text beyond Latin-1 (names, SMS bodies): one number per Unicode code point\<close>

definition utext :: "string \<Rightarrow> ustring" where
  "utext s = map of_char s"

lemma utext_inj [simp]: "utext s = utext t \<longleftrightarrow> s = t"
  by (auto simp: utext_def inj_on_def intro!: map_injective [where f = of_char])

lemma utext_Nil [simp]: "utext [] = []"
  by (simp add: utext_def)

section \<open>JavaScript operators on optional values\<close>

text \<open>A string is truthy when it is neither undefined nor empty.\<close>

definition truthy :: "'a list option \<Rightarrow> bool" where
  "truthy v = (case v of None \<Rightarrow> False | Some s \<Rightarrow> s \<noteq> [])"

lemma truthy_simps [simp]:
  "\<not> truthy None" "truthy (Some s) \<longleftrightarrow> s \<noteq> []"
  by (simp_all add: truthy_def)

lemma truthyE:
  assumes "truthy v" obtains s where "v = Some s" "s \<noteq> []"
  using assms by (cases v) auto

text \<open>\<open>a || b\<close> on optional strings, and \<open>a ?? b\<close> on any optional value.\<close>

definition js_or :: "'a list option \<Rightarrow> 'a list option \<Rightarrow> 'a list option" where
  "js_or a b = (if truthy a then a else b)"

definition nullish :: "'a option \<Rightarrow> 'a option \<Rightarrow> 'a option" where
  "nullish a b = (case a of None \<Rightarrow> b | Some _ \<Rightarrow> a)"

lemma nullish_simps [simp]: "nullish None b = b" "nullish (Some x) b = Some x"
  by (simp_all add: nullish_def)

section \<open>Strings\<close>

definition is_space :: "char \<Rightarrow> bool" where
  "is_space c = ((of_char c :: int) \<in> {9, 10, 11, 12, 13, 32, 160})"

definition js_trim :: "string \<Rightarrow> string" where
  "js_trim s = rev (dropWhile is_space (rev (dropWhile is_space s)))"

lemma dropWhile_no_match: "(\<And>c. c \<in> set s \<Longrightarrow> \<not> P c) \<Longrightarrow> dropWhile P s = s"
  by (cases s) auto

lemma js_trim_no_space: "(\<And>c. c \<in> set s \<Longrightarrow> \<not> is_space c) \<Longrightarrow> js_trim s = s"
  using dropWhile_no_match [of s is_space] dropWhile_no_match [of "rev s" is_space]
  by (simp add: js_trim_def)

lemma set_js_trim: "set (js_trim s) \<subseteq> set s"
  by (auto simp: js_trim_def dest!: set_dropWhileD)

text \<open>What \<open>trim\<close> strips: the white space and line terminators of ECMAScript.\<close>

definition u_space :: "int \<Rightarrow> bool" where
  "u_space c \<longleftrightarrow> c \<in> {9, 10, 11, 12, 13, 32, 160, 5760, 8232, 8233, 8239, 8287, 12288, 65279} \<or> (8192 \<le> c \<and> c \<le> 8202)"

definition utrim :: "ustring \<Rightarrow> ustring" where
  "utrim s = rev (dropWhile u_space (rev (dropWhile u_space s)))"

lemma dropWhile_hd: "s \<noteq> [] \<Longrightarrow> \<not> P (hd s) \<Longrightarrow> dropWhile P s = s"
  by (cases s) simp_all

lemma utrim_fix:
  assumes "s = [] \<or> (\<not> u_space (hd s) \<and> \<not> u_space (last s))"
  shows "utrim s = s"
proof (cases "s = []")
  case False
  then have "dropWhile u_space s = s" "dropWhile u_space (rev s) = rev s"
    using assms by (auto intro!: dropWhile_hd simp: hd_rev)
  then show ?thesis by (simp add: utrim_def)
qed (simp add: utrim_def)

definition upper_char :: "char \<Rightarrow> char" where
  "upper_char c =
     (if 97 \<le> (of_char c :: int) \<and> (of_char c :: int) \<le> 122 then char_of ((of_char c :: int) - 32) else c)"

definition lower_char :: "char \<Rightarrow> char" where
  "lower_char c =
     (if 65 \<le> (of_char c :: int) \<and> (of_char c :: int) \<le> 90 then char_of ((of_char c :: int) + 32) else c)"

definition to_upper :: "string \<Rightarrow> string" where "to_upper s = map upper_char s"
definition to_lower :: "string \<Rightarrow> string" where "to_lower s = map lower_char s"

lemma length_case [simp]: "length (to_upper s) = length s" "length (to_lower s) = length s"
  by (simp_all add: to_upper_def to_lower_def)

text \<open>\<open>s.slice(-n)\<close>\<close>

definition slice_last :: "nat \<Rightarrow> 'a list \<Rightarrow> 'a list" where
  "slice_last n s = drop (length s - n) s"

lemma length_slice_last [simp]: "length (slice_last n s) = min n (length s)"
  by (auto simp: slice_last_def)

text \<open>\<open>String(n)\<close> of an integer.\<close>

function show_pos :: "int \<Rightarrow> string" where
  "show_pos i = (if i < 10 then [char_of (48 + i)] else show_pos (i div 10) @ [char_of (48 + i mod 10)])"
  by auto
termination by (relation "measure nat") auto

declare show_pos.simps [simp del]

definition show_int :: "int \<Rightarrow> string" where
  "show_int i = (if i < 0 then CHR ''-'' # show_pos (- i) else show_pos i)"

definition show_nat :: "nat \<Rightarrow> string" where
  "show_nat n = show_int (int n)"

section \<open>Map objects\<close>

text \<open>
  A JavaScript Map is the association list of its entries in insertion order; \<open>set\<close> is
  \<open>AList.update\<close>, which keeps the position of a key already present.  \<open>new Map(entries)\<close>:
\<close>

definition js_map :: "('k \<times> 'v) list \<Rightarrow> ('k \<times> 'v) list" where
  "js_map entries = foldl (\<lambda>m (k, v). AList.update k v m) [] entries"

lemma map_of_foldl_update:
  "map_of (foldl (\<lambda>m (k, v). AList.update k v m) m0 ps) = map_of m0 ++ map_of (rev ps)"
proof (induction ps arbitrary: m0)
  case (Cons p ps)
  then show ?case by (cases p) (simp add: update_conv' map_add_upd_left map_add_assoc [symmetric] fun_eq_iff map_add_def split: option.splits)
qed simp

lemma map_of_js_map: "map_of (js_map ps) = map_of (rev ps)"
  by (simp add: js_map_def map_of_foldl_update)

lemma map_of_js_map_SomeD: "map_of (js_map ps) k = Some v \<Longrightarrow> (k, v) \<in> set ps"
  by (auto simp: map_of_js_map dest: map_of_SomeD)

lemma map_of_js_map_None_iff: "map_of (js_map ps) k = None \<longleftrightarrow> k \<notin> fst ` set ps"
  by (simp add: map_of_js_map map_of_eq_None_iff)

lemma distinct_js_map: "distinct (map fst (js_map ps))"
proof -
  have "distinct (map fst (foldl (\<lambda>m (k, v). AList.update k v m) m0 ps))" if "distinct (map fst m0)" for m0
    using that by (induction ps arbitrary: m0) (auto simp: distinct_update split: prod.splits)
  then show ?thesis by (simp add: js_map_def)
qed

section \<open>Tables\<close>

text \<open>
  A table is the list of its rows in insertion order.  \<open>sel1\<close> is a destructured select
  (\<open>const [row] = await db.select()...\<close>), \<open>upd\<close> an UPDATE with its WHERE clause.
\<close>

definition sel1 :: "('r \<Rightarrow> bool) \<Rightarrow> 'r list \<Rightarrow> 'r option" where
  "sel1 p t = List.find p t"

definition upd :: "('r \<Rightarrow> bool) \<Rightarrow> ('r \<Rightarrow> 'r) \<Rightarrow> 'r list \<Rightarrow> 'r list" where
  "upd p f t = map (\<lambda>r. if p r then f r else r) t"

lemma sel1_SomeD: "sel1 p t = Some r \<Longrightarrow> r \<in> set t \<and> p r"
  by (auto simp: sel1_def find_Some_iff)

lemma sel1_None_iff: "sel1 p t = None \<longleftrightarrow> (\<forall>r \<in> set t. \<not> p r)"
  by (auto simp: sel1_def find_None_iff)

lemma sel1_simps [simp]:
  "sel1 p [] = None" "sel1 p (r # t) = (if p r then Some r else sel1 p t)"
  by (simp_all add: sel1_def)

lemma sel1_append:
  "sel1 p (t @ u) = (case sel1 p t of None \<Rightarrow> sel1 p u | Some r \<Rightarrow> Some r)"
  by (induction t) auto

lemma upd_simps [simp]:
  "upd p f [] = []" "upd p f (r # t) = (if p r then f r else r) # upd p f t"
  "upd p f (t @ u) = upd p f t @ upd p f u" "length (upd p f t) = length t"
  by (simp_all add: upd_def)

lemma in_upd: "r' \<in> set (upd p f t) \<longleftrightarrow> (\<exists>r \<in> set t. r' = (if p r then f r else r))"
  by (auto simp: upd_def)

lemma upd_id: "(\<And>r. r \<in> set t \<Longrightarrow> p r \<Longrightarrow> f r = r) \<Longrightarrow> upd p f t = t"
  by (induction t) auto

lemma map_key_upd: "(\<And>r. key (f r) = key r) \<Longrightarrow> map key (upd p f t) = map key t"
  by (induction t) auto

lemma filter_upd_other:
  "(\<And>r. p r \<Longrightarrow> q (f r) = q r) \<Longrightarrow> (\<And>r. p r \<Longrightarrow> \<not> q r) \<Longrightarrow> filter q (upd p f t) = filter q t"
  by (induction t) auto

lemma filter_upd_same: "(\<And>r. q (f r) = q r) \<Longrightarrow> filter q (upd p f t) = upd p f (filter q t)"
  by (induction t) auto

lemma upd_Nil_iff [simp]: "upd p f t = [] \<longleftrightarrow> t = []"
  by (simp add: upd_def)

lemma sel1_key_unique:
  assumes "distinct (map key t)" "r \<in> set t"
  shows "sel1 (\<lambda>x. key x = key r) t = Some r"
  using assms by (induction t) (auto simp: rev_image_eqI)

text \<open>The rows a list of values adds when a unique key is violated by none of them.\<close>

fun insert_ignoring :: "('r \<Rightarrow> 'k) \<Rightarrow> 'r list \<Rightarrow> 'r list \<Rightarrow> 'r list" where
  "insert_ignoring key [] t = t"
| "insert_ignoring key (r # rs) t =
     (if key r \<in> key ` set t then insert_ignoring key rs t else insert_ignoring key rs (t @ [r]))"

text \<open>INSERT ... ON CONFLICT (key) DO NOTHING of several rows, in order.\<close>

lemma insert_ignoring_prefix: "\<exists>u. insert_ignoring key rs t = t @ u \<and> set u \<subseteq> set rs"
proof (induction rs arbitrary: t)
  case Nil
  then show ?case by simp
next
  case (Cons r rs)
  show ?case
  proof (cases "key r \<in> key ` set t")
    case True
    with Cons [of t] show ?thesis by auto
  next
    case False
    from Cons [of "t @ [r]"] obtain u
      where "insert_ignoring key rs (t @ [r]) = (t @ [r]) @ u" "set u \<subseteq> set rs" by auto
    with False show ?thesis by (intro exI [of _ "r # u"]) auto
  qed
qed

lemma insert_ignoring_distinct:
  "distinct (map key t) \<Longrightarrow> distinct (map key (insert_ignoring key rs t))"
  by (induction rs arbitrary: t) auto

lemma insert_ignoring_keys: "key ` set (insert_ignoring key rs t) = key ` set t \<union> key ` set rs"
  by (induction rs arbitrary: t) auto

lemma insert_ignoring_present:
  "key ` set rs \<subseteq> key ` set t \<Longrightarrow> insert_ignoring key rs t = t"
  by (induction rs arbitrary: t) auto

section \<open>Slices\<close>

text \<open>A loop over \<open>xs.slice(i, i + n)\<close> in steps of \<open>n\<close>.\<close>

function chunks :: "nat \<Rightarrow> 'a list \<Rightarrow> 'a list list" where
  "chunks n xs = (if xs = [] \<or> n = 0 then [] else take n xs # chunks n (drop n xs))"
  by pat_completeness auto
termination by (relation "measure (length \<circ> snd)") auto

declare chunks.simps [simp del]

lemma concat_chunks: "0 < n \<Longrightarrow> concat (chunks n xs) = xs"
proof (induction n xs rule: chunks.induct)
  case (1 n xs)
  then show ?case by (subst chunks.simps) simp
qed

section \<open>Sorting by a comparison given as a parameter\<close>

fun insort_by :: "('a \<Rightarrow> 'a \<Rightarrow> bool) \<Rightarrow> 'a \<Rightarrow> 'a list \<Rightarrow> 'a list" where
  "insort_by le x [] = [x]"
| "insort_by le x (y # ys) = (if le x y then x # y # ys else y # insort_by le x ys)"

definition sort_by :: "('a \<Rightarrow> 'a \<Rightarrow> bool) \<Rightarrow> 'a list \<Rightarrow> 'a list" where
  "sort_by le xs = foldr (insort_by le) xs []"

lemma mset_insort_by [simp]: "mset (insort_by le x xs) = add_mset x (mset xs)"
  by (induction xs) auto

lemma mset_sort_by [simp]: "mset (sort_by le xs) = mset xs"
  by (induction xs) (auto simp: sort_by_def)

lemma set_sort_by [simp]: "set (sort_by le xs) = set xs"
  using mset_sort_by [of le xs] by (metis set_mset_mset)

lemma map_sort_key_positions:
  assumes "mset (map f xs) = mset [0..<n]"
  shows "map f (sort_key f xs) = [0..<n]"
proof -
  have "sorted (map f (sort_key f xs))" by simp
  moreover have "mset (map f (sort_key f xs)) = mset [0..<n]" using assms by simp
  ultimately have "sort [0..<n] = map f (sort_key f xs)"
    by (intro properties_for_sort) simp_all
  then show ?thesis by (simp add: sorted_sort_id)
qed

section \<open>Interfaces\<close>

text \<open>
  A table with unique indexes: an insert either conflicts with a row and leaves no trace or
  appends the row.  \<open>clash\<close> says that two rows agree on some unique index.
\<close>

locale unique_index =
  fixes clash :: "'r \<Rightarrow> 'r \<Rightarrow> bool"
    and insert_row :: "'r \<Rightarrow> 'r list \<Rightarrow> 'r list option"
  assumes clash_sym: "clash r s \<Longrightarrow> clash s r"
    and insert_conflict: "\<exists>x \<in> set t. clash x r \<Longrightarrow> insert_row r t = None"
    and insert_fresh: "\<not> (\<exists>x \<in> set t. clash x r) \<Longrightarrow> insert_row r t = Some (t @ [r])"
begin

lemma insert_Some_iff: "insert_row r t = Some t' \<longleftrightarrow> \<not> (\<exists>x \<in> set t. clash x r) \<and> t' = t @ [r]"
  by (cases "\<exists>x \<in> set t. clash x r") (auto simp: insert_conflict insert_fresh)

lemma insert_keeps_unique:
  "sorted_wrt (\<lambda>a b. \<not> clash a b) t \<Longrightarrow> insert_row r t = Some t' \<Longrightarrow> sorted_wrt (\<lambda>a b. \<not> clash a b) t'"
  by (auto simp: insert_Some_iff sorted_wrt_append)

lemma insert_None_iff: "insert_row r t = None \<longleftrightarrow> (\<exists>x \<in> set t. clash x r)"
  by (cases "\<exists>x \<in> set t. clash x r") (auto simp: insert_conflict insert_fresh)

lemma insert_grows: "insert_row r t = Some t' \<Longrightarrow> insert_row s t = None \<Longrightarrow> insert_row s t' = None"
  by (auto simp: insert_Some_iff insert_None_iff)

end

text \<open>A transition system whose steps keep an invariant; runs are lists of events.\<close>

locale guarded_machine =
  fixes apply_event :: "'s \<Rightarrow> 'e \<Rightarrow> 's"
    and inv :: "'s \<Rightarrow> bool"
  assumes event_inv: "inv s \<Longrightarrow> inv (apply_event s e)"
begin

lemma run_inv: "inv s \<Longrightarrow> inv (foldl apply_event s es)"
  by (induction es arbitrary: s) (auto intro: event_inv)

end

text \<open>A log that the steps of the machine only ever extend.\<close>

locale append_only = guarded_machine apply_event inv
  for apply_event :: "'s \<Rightarrow> 'e \<Rightarrow> 's" and inv :: "'s \<Rightarrow> bool" +
  fixes log_of :: "'s \<Rightarrow> 'l list"
  assumes event_extends: "inv s \<Longrightarrow> \<exists>new. log_of (apply_event s e) = log_of s @ new"
begin

lemma run_extends: "inv s \<Longrightarrow> \<exists>new. log_of (foldl apply_event s es) = log_of s @ new"
proof (induction es arbitrary: s)
  case Nil
  then show ?case by simp
next
  case (Cons e es)
  from event_extends [OF Cons.prems, of e] Cons.IH [OF event_inv [OF Cons.prems], of e] show ?case by auto
qed

lemma logged_stays: "inv s \<Longrightarrow> l \<in> set (log_of s) \<Longrightarrow> l \<in> set (log_of (foldl apply_event s es))"
  using run_extends [of s es] by auto

end

end
