(* ===== verification/Schema.thy ===== *)
theory Schema
  imports Prelude
begin

text \<open>
  The data the services share: the rows of the PostgreSQL tables of src/src/db/schema.ts (one
  record per table, one field per column; the bookkeeping columns createdAt and updatedAt appear
  where a modelled operation reads them), JSON values, the errors the services throw, the database
  as one record of tables, and the parameters that stand for the runtime (hashing, time zones,
  identifiers, configuration).  A varchar column whose comment or TypeScript type lists its values
  is a datatype; the others are strings.
\<close>

section \<open>JSON values\<close>

text \<open>
  The result of JSON.parse.  A number literal that overflows a double is Infinity, here
  \<open>JNum None\<close>; finite numbers are rationals (no modelled operation rounds them).
\<close>

datatype json =
    JNull
  | JBool bool
  | JNum "rat option"
  | JStr string
  | JArr "json list"
  | JObj "(string \<times> json) list"

text \<open>\<open>typeof v === 'object' && v !== null\<close>; arrays are objects.\<close>

definition is_object :: "json \<Rightarrow> bool" where
  "is_object v = (case v of JArr _ \<Rightarrow> True | JObj _ \<Rightarrow> True | _ \<Rightarrow> False)"

text \<open>
  \<open>r.k\<close> for the named keys the sources read: an array has none of them.
\<close>

definition jprop :: "json \<Rightarrow> string \<Rightarrow> json option" where
  "jprop v k = (case v of JObj kvs \<Rightarrow> map_of kvs k | _ \<Rightarrow> None)"

text \<open>\<open>a ?? b\<close> on properties: undefined and null both fall through.\<close>

definition coalesce :: "json option \<Rightarrow> json option \<Rightarrow> json option" where
  "coalesce a b = (case a of None \<Rightarrow> b | Some JNull \<Rightarrow> b | Some v \<Rightarrow> Some v)"

definition json_truthy :: "json option \<Rightarrow> bool" where
  "json_truthy v = (case v of
       None \<Rightarrow> False | Some JNull \<Rightarrow> False | Some (JBool b) \<Rightarrow> b
     | Some (JNum n) \<Rightarrow> n \<noteq> Some 0 | Some (JStr s) \<Rightarrow> s \<noteq> []
     | Some (JArr _) \<Rightarrow> True | Some (JObj _) \<Rightarrow> True)"

section \<open>Errors\<close>

text \<open>
  \<open>AppErr code status\<close> is an AppError, \<open>JsErr msg\<close> an \<open>Error(msg)\<close>, \<open>DbErr what\<close> an error raised
  by PostgreSQL (a unique index, a NOT NULL column, a value outside its column type).
\<close>

datatype error = AppErr string int | JsErr string | DbErr string

type_synonym 'a result = "error + 'a"

definition bind_result :: "'a result \<Rightarrow> ('a \<Rightarrow> 'b result) \<Rightarrow> 'b result" where
  "bind_result r f = (case r of Inl e \<Rightarrow> Inl e | Inr x \<Rightarrow> f x)"

lemma bind_result_simps [simp]: "bind_result (Inl e) f = Inl e" "bind_result (Inr x) f = f x"
  by (simp_all add: bind_result_def)

lemma bind_result_Inr_iff: "bind_result r f = Inr y \<longleftrightarrow> (\<exists>x. r = Inr x \<and> f x = Inr y)"
  by (cases r) simp_all

text \<open>\<open>if (bad) throw e\<close>\<close>

definition throw_if :: "bool \<Rightarrow> error \<Rightarrow> unit result" where
  "throw_if bad e = (if bad then Inl e else Inr ())"

lemma throw_if_Inr [simp]: "throw_if bad e = Inr u \<longleftrightarrow> \<not> bad"
  by (simp add: throw_if_def)

section \<open>Enumerations\<close>

text \<open>
  The SessionStatus union of attendanceService.ts; the column is a varchar, and the routes cast
  unchecked values into it, hence the last constructor.
\<close>

datatype session_status = DRAFT | OPEN | REVIEW | FINALIZED | REOPENED | OtherStatus string

datatype attendance_status = UNMARKED | PRESENT | LATE | ABSENT | EXCUSED | LEAVE

datatype cred_status = CPending | CActive | CSuspended | CRevoked | CReplaced | CExpired

datatype reader_status = RPending | RActive | RSuspended | RRevoked | RRetired

text \<open>The decisions of the ingest pipeline (rfid/ingest/types.ts).\<close>

datatype decision =
    ACCEPTED | ALREADY_PRESENT
  | DUPLICATE_IN_BATCH | DUPLICATE_DEBOUNCED
  | MALFORMED_READ | FUTURE_SKEW | WRONG_SCHOOL_DAY | UNREGISTERED_CARD | SUSPENDED_CARD
  | CREDENTIAL_ORPHANED | STUDENT_INACTIVE | NOT_ENROLLED | SCHOOL_CLOSED | SESSION_FINALIZED
  | NO_TEACHER_ASSIGNED | NO_ACTIVE_SESSION | MANUAL_OVERRIDE_PRESERVED

datatype review_flag = LateBufferedFlag | ServerTimeFlag

datatype job_status = SCHEDULED | QUEUED | SENDING | SENT | DELIVERED | FAILED
  | PERMANENT_FAILURE | CANCELLED

datatype job_kind = KAbsence | KCorrection

section \<open>Rows\<close>

record school =
  sc_id :: uuid
  sc_name :: ustring
  sc_slug :: ustring
  sc_udiseCode :: ustring
  sc_district :: ustring
  sc_block :: "ustring option"
  sc_preferredLanguage :: string
  sc_timezone :: string
  sc_rfidMode :: string
  sc_status :: string

record academic_year =
  ay_id :: uuid
  ay_schoolId :: uuid
  ay_name :: string
  ay_startDate :: string
  ay_endDate :: string
  ay_isCurrent :: bool

record class_section =
  cs_id :: uuid
  cs_schoolId :: uuid
  cs_academicYearId :: uuid
  cs_className :: ustring
  cs_sectionName :: ustring

record teacher_assignment =
  ta_id :: uuid
  ta_schoolId :: uuid
  ta_teacherId :: uuid
  ta_classSectionId :: uuid
  ta_createdAt :: instant

record student =
  st_id :: uuid
  st_schoolId :: uuid
  st_studentCode :: ustring
  st_banglarShikshaId :: "ustring option"
  st_name :: ustring
  st_nameBn :: "ustring option"
  st_dateOfBirth :: "string option"
  st_gender :: "string option"
  st_photoUrl :: "string option"
  st_status :: string

record guardian =
  gu_id :: uuid
  gu_schoolId :: uuid
  gu_name :: ustring
  gu_phoneNumber :: string
  gu_relationship :: string
  gu_smsOptOut :: bool

record student_guardian =
  sg_studentId :: uuid
  sg_guardianId :: uuid
  sg_isPrimary :: bool

record enrollment =
  en_id :: uuid
  en_schoolId :: uuid
  en_studentId :: uuid
  en_classSectionId :: uuid
  en_academicYearId :: uuid
  en_rollNumber :: int
  en_startDate :: string
  en_status :: string

record qr_credential =
  qr_id :: uuid
  qr_schoolId :: uuid
  qr_studentId :: uuid
  qr_tokenDigest :: string
  qr_version :: int
  qr_status :: string
  qr_issuedAt :: instant
  qr_revokedAt :: "instant option"

record att_session =
  as_id :: uuid
  as_schoolId :: uuid
  as_classSectionId :: uuid
  as_teacherId :: uuid
  as_sessionDate :: string
  as_sessionType :: string
  as_status :: session_status
  as_finalizedAt :: "instant option"
  as_finalizedBy :: "uuid option"
  as_updatedAt :: instant
  as_clientSessionId :: "uuid option"

record roster_row =
  ro_id :: uuid
  ro_schoolId :: uuid
  ro_sessionId :: uuid
  ro_studentId :: uuid
  ro_enrollmentId :: uuid
  ro_rollNumber :: int
  ro_studentName :: ustring
  ro_isExpected :: bool

record att_event =
  ev_id :: uuid
  ev_schoolId :: uuid
  ev_clientEventId :: string
  ev_sessionId :: uuid
  ev_studentId :: uuid
  ev_eventType :: string
  ev_statusValue :: attendance_status
  ev_clientTimestamp :: instant
  ev_serverReceivedAt :: instant
  ev_deviceId :: "uuid option"
  ev_actorType :: string
  ev_actorId :: "uuid option"
  ev_actorReaderId :: "uuid option"
  ev_metadata :: json
  ev_captureMethod :: string
  ev_sourceReaderId :: "uuid option"

record att_record =
  ar_id :: uuid
  ar_schoolId :: uuid
  ar_sessionId :: uuid
  ar_studentId :: uuid
  ar_status :: attendance_status
  ar_firstScannedAt :: "instant option"
  ar_lastUpdatedAt :: instant
  ar_hasConflict :: bool
  ar_captureMethod :: string
  ar_source :: "string option"
  ar_firstSeenAt :: "instant option"
  ar_lastSeenAt :: "instant option"
  ar_needsReview :: bool
  ar_reviewReason :: "review_flag option"

record correction =
  co_id :: uuid
  co_schoolId :: uuid
  co_recordId :: uuid
  co_previousStatus :: attendance_status
  co_newStatus :: attendance_status
  co_reason :: string
  co_correctedBy :: uuid
  co_correctedAt :: instant

record template =
  nt_id :: uuid
  nt_schoolId :: "uuid option"
  nt_code :: string
  nt_language :: string
  nt_content :: ustring
  nt_dltTemplateId :: "string option"

record sms_settings =
  se_id :: uuid
  se_schoolId :: uuid
  se_smsEnabled :: bool
  se_dltPrincipalEntityId :: "string option"
  se_dltHeader :: "string option"
  se_allowlistEnabled :: bool
  se_allowlist :: "string list"
  se_segmentBalance :: "int option"
  se_maxSegments :: int

record job =
  nj_id :: uuid
  nj_schoolId :: uuid
  nj_sessionId :: uuid
  nj_studentId :: uuid
  nj_recipientPhone :: string
  nj_language :: string
  nj_messageBody :: ustring
  nj_status :: job_status
  nj_notificationType :: string
  nj_version :: string
  nj_claimedAt :: "instant option"
  nj_claimedBy :: "string option"
  nj_nextAttemptAt :: "instant option"
  nj_providerMessageId :: "string option"
  nj_attemptCount :: int
  nj_failureReason :: "string option"
  nj_sendAfter :: "instant option"
  nj_recordId :: "uuid option"
  nj_kind :: job_kind
  nj_cancelledReason :: "string option"
  nj_queuedAt :: instant
  nj_sentAt :: "instant option"
  nj_deliveredAt :: "instant option"

record attempt =
  na_jobId :: uuid
  na_attemptNumber :: int
  na_status :: string
  na_errorMessage :: "string option"
  na_attemptedAt :: instant

record audit_log =
  au_schoolId :: "uuid option"
  au_actorId :: "uuid option"
  au_action :: string
  au_resourceType :: string
  au_resourceId :: "string option"
  au_metadata :: json

record rfid_credential =
  rc_id :: uuid
  rc_schoolId :: uuid
  rc_studentId :: uuid
  rc_credentialType :: string
  rc_credentialDigest :: string
  rc_epcLastFour :: "string option"
  rc_tidDigest :: "string option"
  rc_securityMode :: string
  rc_keyVersion :: int
  rc_status :: cred_status
  rc_activatedAt :: "instant option"
  rc_expiresAt :: "instant option"
  rc_revokedAt :: "instant option"
  rc_revocationReason :: "string option"
  rc_replacedBy :: "uuid option"
  rc_createdByUserId :: uuid
  rc_createdAt :: instant

record rfid_reader =
  rr_id :: uuid
  rr_schoolId :: uuid
  rr_deviceId :: string
  rr_name :: ustring
  rr_assignedClassSectionId :: "uuid option"
  rr_sharedSecretEncrypted :: "string option"
  rr_status :: reader_status
  rr_lastSeenAt :: "instant option"
  rr_bearerTokenHash :: "string option"
  rr_bearerTokenLastUsedAt :: "instant option"

record scan_event =
  sv_id :: uuid
  sv_schoolId :: uuid
  sv_readerId :: uuid
  sv_credentialId :: "uuid option"
  sv_sessionId :: "uuid option"
  sv_clientEventId :: string
  sv_idempotencyKey :: "string option"
  sv_epcDigest :: "string option"
  sv_epcLastFour :: "string option"
  sv_tidDigest :: "string option"
  sv_antennaPort :: "int option"
  sv_peakRssi :: "int option"
  sv_scanTimestamp :: instant
  sv_decision :: decision
  sv_studentId :: "uuid option"
  sv_reviewFlag :: "review_flag option"

record calendar_version =
  cv_id :: uuid
  cv_schoolId :: uuid
  cv_academicYear :: int
  cv_version :: int
  cv_status :: string
  cv_sourceType :: string
  cv_sourceReference :: "string option"
  cv_createdBy :: "uuid option"
  cv_approvedBy :: "uuid option"
  cv_approvedAt :: "instant option"
  cv_supersededAt :: "instant option"

record calendar_day =
  cd_id :: uuid
  cd_schoolId :: uuid
  cd_calendarVersionId :: uuid
  cd_calendarDate :: string
  cd_classification :: string
  cd_reason :: "ustring option"
  cd_isWorkingDay :: bool
  cd_sourceType :: string
  cd_sourceReference :: "string option"
  cd_isApproximate :: bool
  cd_createdBy :: "uuid option"

record user =
  us_id :: uuid
  us_fullName :: ustring
  us_phoneNumber :: string
  us_passwordHash :: string
  us_platformRole :: "string option"
  us_status :: string

record membership =
  me_id :: uuid
  me_schoolId :: uuid
  me_userId :: uuid
  me_role :: string
  me_status :: string

record auth_session =
  ses_id :: uuid
  ses_userId :: uuid
  ses_schoolId :: "uuid option"
  ses_sessionToken :: string
  ses_expiresAt :: instant
  ses_lastAccessedAt :: instant

record device =
  de_id :: uuid
  de_schoolId :: uuid
  de_userId :: uuid
  de_deviceIdentifier :: string
  de_deviceModel :: string
  de_status :: string
  de_lastSyncedAt :: "instant option"
  de_updatedAt :: instant

text \<open>A row of an upload that passed validation, and what an import job keeps until it is confirmed.\<close>

record student_row_in =
  ri_rowNumber :: nat
  ri_studentCode :: ustring
  ri_name :: ustring
  ri_nameBn :: "ustring option"
  ri_banglarShikshaId :: "ustring option"
  ri_className :: ustring
  ri_sectionName :: ustring
  ri_rollNumber :: int
  ri_gender :: string
  ri_dateOfBirth :: "string option"
  ri_guardianName :: ustring
  ri_guardianPhone :: string
  ri_guardianRelationship :: string

datatype import_mode = CREATE_ONLY | UPDATE_EXISTING | UPSERT

record staged_data =
  sd_rows :: "student_row_in list"
  sd_confirmToken :: "string option"
  sd_mode :: import_mode
  sd_fileHash :: string
  sd_userId :: uuid
  sd_schoolId :: uuid
  sd_expiresAt :: instant

datatype error_summary = ErrorMsg string | RowErrors "(nat \<times> string \<times> ustring) list" nat

record import_job =
  ij_id :: uuid
  ij_schoolId :: uuid
  ij_fileName :: string
  ij_status :: string
  ij_totalRows :: nat
  ij_successfulRows :: nat
  ij_failedRows :: nat
  ij_errorSummary :: "error_summary option"
  ij_stagedData :: "staged_data option"
  ij_createdBy :: uuid
  ij_createdAt :: instant

record report_approval =
  ra_id :: uuid
  ra_schoolId :: uuid
  ra_reportType :: string
  ra_scopeType :: string
  ra_scopeSections :: "uuid list"
  ra_scopeStudents :: "uuid list"
  ra_periodType :: string
  ra_periodStartDate :: string
  ra_periodEndDate :: string
  ra_profileId :: uuid
  ra_profileVersion :: string
  ra_reportVersion :: int
  ra_status :: string
  ra_fileHashSha256 :: "string option"
  ra_artifactId :: "uuid option"
  ra_generatedBy :: "uuid option"
  ra_generatedAt :: instant
  ra_approvedBy :: "uuid option"
  ra_approvedAt :: "instant option"
  ra_downloadCount :: int
  ra_supersededAt :: "instant option"
  ra_supersededBy :: "uuid option"

record retention_policy =
  rp_schoolId :: uuid
  rp_scanEventsDays :: int
  rp_notificationLogDays :: int

record consent =
  gc_id :: uuid
  gc_schoolId :: uuid
  gc_studentId :: uuid
  gc_guardianId :: "uuid option"
  gc_purpose :: string
  gc_granted :: bool
  gc_evidenceRef :: "string option"
  gc_recordedBy :: "uuid option"
  gc_recordedAt :: instant
  gc_withdrawnAt :: "instant option"

section \<open>The database\<close>

text \<open>
  All tables, and the supply of identifiers: \<open>defaultRandom()\<close> and \<open>randomUUID()\<close> take the next
  one.  A transaction is a function from a database to a result; \<open>Inl\<close> is its rollback.
\<close>

record db =
  t_schools :: "school list"
  t_academicYears :: "academic_year list"
  t_classSections :: "class_section list"
  t_teacherAssignments :: "teacher_assignment list"
  t_students :: "student list"
  t_guardians :: "guardian list"
  t_studentGuardians :: "student_guardian list"
  t_enrollments :: "enrollment list"
  t_qrCredentials :: "qr_credential list"
  t_sessions :: "att_session list"
  t_roster :: "roster_row list"
  t_events :: "att_event list"
  t_records :: "att_record list"
  t_corrections :: "correction list"
  t_templates :: "template list"
  t_smsSettings :: "sms_settings list"
  t_jobs :: "job list"
  t_attempts :: "attempt list"
  t_audit :: "audit_log list"
  t_credentials :: "rfid_credential list"
  t_readers :: "rfid_reader list"
  t_scanEvents :: "scan_event list"
  t_calendar :: "calendar_day list"
  t_consents :: "consent list"
  t_users :: "user list"
  t_memberships :: "membership list"
  t_devices :: "device list"
  t_importJobs :: "import_job list"
  t_authSessions :: "auth_session list"
  t_calendarVersions :: "calendar_version list"
  t_reports :: "report_approval list"
  t_retention :: "retention_policy list"
  seq :: nat

definition empty_db :: db where
  "empty_db = \<lparr>t_schools = [], t_academicYears = [], t_classSections = [], t_teacherAssignments = [],
     t_students = [], t_guardians = [], t_studentGuardians = [], t_enrollments = [],
     t_qrCredentials = [], t_sessions = [], t_roster = [], t_events = [], t_records = [],
     t_corrections = [], t_templates = [], t_smsSettings = [], t_jobs = [], t_attempts = [],
     t_audit = [], t_credentials = [], t_readers = [], t_scanEvents = [], t_calendar = [],
     t_consents = [], t_users = [], t_memberships = [], t_devices = [], t_importJobs = [],
     t_authSessions = [], t_calendarVersions = [], t_reports = [], t_retention = [], seq = 0\<rparr>"

section \<open>The runtime\<close>

text \<open>
  What the services call and this repository does not contain: node:crypto, Intl, the ECMAScript
  conversions whose results depend on the engine, the key management of reader secrets, and the
  environment variables read at start-up.  Each is a parameter; properties that need a law of one
  of them (a hash without collisions, identifiers that do not repeat) assume it.
\<close>

record world =
  sha256 :: "string \<Rightarrow> string"
  hmac_sha256 :: "string \<Rightarrow> string \<Rightarrow> string"
  hkdf_sha256 :: "string \<Rightarrow> string \<Rightarrow> string \<Rightarrow> string"
  gen_uuid :: "nat \<Rightarrow> uuid"
  gen_token :: "nat \<Rightarrow> string"
  local_date :: "string \<Rightarrow> instant \<Rightarrow> string"
  js_number :: "string \<Rightarrow> rat option"
  show_number :: "rat option \<Rightarrow> string"
  date_parse :: "string \<Rightarrow> instant option"
  locale_le :: "string \<Rightarrow> string \<Rightarrow> bool"
  unicode_upper :: "ustring \<Rightarrow> ustring"
  unicode_lower :: "ustring \<Rightarrow> ustring"
  unicode_nfkd :: "ustring \<Rightarrow> ustring"
  argon2_hash :: "nat \<Rightarrow> string \<Rightarrow> string"
  iso_string :: "instant \<Rightarrow> string"
  aes_gcm_open :: "string \<Rightarrow> string \<Rightarrow> string \<Rightarrow> string option"
  env_production :: bool
  env_legacy_bearer :: bool
  env_token_pepper :: "string option"
  env_debounce_seconds :: int
  env_sms_delay_minutes :: int

text \<open>
  An instance used by the witnesses: the hash is the identity, days are UTC days written as their
  number, identifiers are numbered, numbers and dates are not parsed from text.
\<close>

definition example_world :: world where
  "example_world = \<lparr>sha256 = (\<lambda>s. s), hmac_sha256 = (\<lambda>k m. k @ CHR ''|'' # m),
     hkdf_sha256 = (\<lambda>k s i. k @ CHR ''|'' # s @ CHR ''|'' # i),
     gen_uuid = (\<lambda>n. ''id-'' @ show_nat n), gen_token = (\<lambda>n. ''tok-'' @ show_nat n),
     local_date = (\<lambda>tz ts. show_int (ts div 86400000)),
     js_number = (\<lambda>s. None), show_number = (\<lambda>n. ''n''), date_parse = (\<lambda>s. None),
     locale_le = (\<lambda>a b. a \<le> b), unicode_upper = (\<lambda>s. s), unicode_lower = (\<lambda>s. s),
     unicode_nfkd = (\<lambda>s. s), argon2_hash = (\<lambda>n p. p), iso_string = (\<lambda>t. show_int t), aes_gcm_open = (\<lambda>iv tag c. Some c),
     env_production = True, env_legacy_bearer = False, env_token_pepper = None,
     env_debounce_seconds = 30, env_sms_delay_minutes = 15\<rparr>"

end
