(* ===== verification/Crypto.thy ===== *)
theory Crypto
  imports Schema
begin

text \<open>
  Models src/src/services/rfid/cryptoService.ts and src/src/auth/readerTokens.ts: the canonical
  form of EPC and TID codes, their digests, constant-time comparison, redaction, and the
  signature and bearer-token checks readers authenticate with.  SHA-256, HMAC and HKDF are
  parameters (fields of \<open>world\<close>); a Buffer is the string of its bytes.
\<close>

section \<open>Comparison and redaction\<close>

text \<open>\<open>Buffer.from(s, 'utf-8')\<close> of a Latin-1 string.\<close>

definition utf8_char :: "char \<Rightarrow> int list" where
  "utf8_char c = (let n = of_char c in if n < 128 then [n] else [192 + n div 64, 128 + n mod 64])"

definition utf8 :: "string \<Rightarrow> int list" where
  "utf8 s = concat (map utf8_char s)"

definition timingSafeEqual :: "string \<Rightarrow> string \<Rightarrow> bool" where
  "timingSafeEqual a b =
     (let aBuf = utf8 a; bBuf = utf8 b
      in if length aBuf \<noteq> length bBuf then False else aBuf = bBuf)"

definition redactCredentialDigest :: "string \<Rightarrow> string" where
  "redactCredentialDigest digest =
     (if digest = [] \<or> length digest < 8 then ''***''
      else replicate (length digest - 8) (CHR ''*'') @ slice_last 8 digest)"

section \<open>EPC and TID\<close>

definition is_hex :: "char \<Rightarrow> bool" where
  "is_hex c = (let n = (of_char c :: int)
     in 48 \<le> n \<and> n \<le> 57 \<or> 65 \<le> n \<and> n \<le> 70 \<or> 97 \<le> n \<and> n \<le> 102)"

definition strip_0x :: "string \<Rightarrow> string" where
  "strip_0x s = (if take 2 s = ''0x'' \<or> take 2 s = ''0X'' then drop 2 s else s)"

definition hex_digits :: "string \<Rightarrow> string" where
  "hex_digits s = to_upper (filter is_hex s)"

definition canonicalizeEpc :: "string \<Rightarrow> string result" where
  "canonicalizeEpc epc =
     (if epc = [] then Inl (JsErr ''EPC is required and must be a string'')
      else let cleaned = hex_digits (strip_0x (js_trim epc)) in
        if length cleaned < 16 \<or> length cleaned > 64 then
          Inl (JsErr (''Invalid UHF EPC length: '' @ show_nat (length cleaned)
                      @ '' hex chars (expected 16-64 chars / 8-32 bytes).''))
        else if length cleaned mod 2 \<noteq> 0 then
          Inl (JsErr (''Invalid UHF EPC: odd length ('' @ show_nat (length cleaned)
                      @ '' hex digits) is not byte-aligned.''))
        else Inr cleaned)"

definition canonicalizeTid :: "string \<Rightarrow> string result" where
  "canonicalizeTid tid =
     (if tid = [] then Inl (JsErr ''TID is required and must be a string'')
      else let cleaned = hex_digits (strip_0x (js_trim tid)) in
        if length cleaned < 16 \<or> length cleaned > 64 then
          Inl (JsErr (''Invalid UHF TID length: '' @ show_nat (length cleaned)
                      @ '' hex chars (expected 16-64 chars / 8-32 bytes).''))
        else if length cleaned mod 2 \<noteq> 0 then
          Inl (JsErr (''Invalid UHF TID: odd length ('' @ show_nat (length cleaned)
                      @ '' hex digits) is not byte-aligned.''))
        else Inr cleaned)"

definition computeEpcDigest :: "world \<Rightarrow> string \<Rightarrow> string \<Rightarrow> string result" where
  "computeEpcDigest w epc salt =
     (case canonicalizeEpc epc of
        Inl e \<Rightarrow> Inl e
      | Inr canonical \<Rightarrow> Inr (sha256 w (if salt \<noteq> [] then canonical @ '':'' @ salt else canonical)))"

definition computeTidDigest :: "world \<Rightarrow> string \<Rightarrow> string \<Rightarrow> string result" where
  "computeTidDigest w tid salt =
     (case canonicalizeTid tid of
        Inl e \<Rightarrow> Inl e
      | Inr canonical \<Rightarrow> Inr (sha256 w (if salt \<noteq> [] then canonical @ '':'' @ salt else canonical)))"

definition getEpcLastFour :: "string \<Rightarrow> string" where
  "getEpcLastFour epc =
     (case canonicalizeEpc epc of Inl _ \<Rightarrow> ''****'' | Inr canonical \<Rightarrow> slice_last 4 canonical)"

section \<open>Reader secrets and signatures\<close>

definition deriveReaderSecret :: "world \<Rightarrow> string \<Rightarrow> uuid \<Rightarrow> string \<Rightarrow> int \<Rightarrow> string result" where
  "deriveReaderSecret w masterKey schoolId deviceId keyVersion =
     (if masterKey = [] \<or> length masterKey < 16
      then Inl (JsErr ''Master key must be at least 16 bytes'')
      else Inr (hkdf_sha256 w masterKey (''reader-salt-'' @ schoolId)
                 (''attendease-reader-auth-v'' @ show_int keyVersion @ '':'' @ schoolId @ '':'' @ deviceId)))"

text \<open>\<open>s.replace(/^sha256=/i, '')\<close>\<close>

definition strip_sha256_prefix :: "string \<Rightarrow> string" where
  "strip_sha256_prefix s = (if to_lower (take 7 s) = ''sha256='' then drop 7 s else s)"

text \<open>The body is always a Buffer, which is never falsy, so the test of it is left out.\<close>

definition verifyZebraHmacSignature :: "world \<Rightarrow> string \<Rightarrow> string \<Rightarrow> string \<Rightarrow> bool" where
  "verifyZebraHmacSignature w rawBody signatureHex secret =
     (if signatureHex = [] \<or> secret = [] then False
      else let cleanSig = js_trim (strip_sha256_prefix signatureHex);
               expected = hmac_sha256 w secret rawBody
           in timingSafeEqual (to_lower cleanSig) (to_lower expected))"

text \<open>\<open>s.split(c)\<close> at a single character.\<close>

fun split_on :: "char \<Rightarrow> string \<Rightarrow> string list" where
  "split_on c [] = [[]]"
| "split_on c (x # xs) =
     (if x = c then [] # split_on c xs
      else case split_on c xs of [] \<Rightarrow> [[x]] | p # ps \<Rightarrow> (x # p) # ps)"

definition verifyBearerToken :: "world \<Rightarrow> string option \<Rightarrow> string \<Rightarrow> bool" where
  "verifyBearerToken w authHeader expected =
     (case authHeader of
        None \<Rightarrow> False
      | Some h \<Rightarrow>
          if h = [] \<or> expected = [] then False
          else case split_on (CHR '' '') (js_trim h) of
            [scheme, presented] \<Rightarrow>
              if scheme = [] \<or> to_lower scheme \<noteq> ''bearer'' \<or> presented = [] then False
              else if timingSafeEqual presented expected then True
              else timingSafeEqual (sha256 w presented) expected
          | _ \<Rightarrow> False)"

section \<open>Reader tokens (readerTokens.ts)\<close>

definition token_char :: "char \<Rightarrow> bool" where
  "token_char c = (let n = (of_char c :: int)
     in 48 \<le> n \<and> n \<le> 57 \<or> 65 \<le> n \<and> n \<le> 90 \<or> 97 \<le> n \<and> n \<le> 122 \<or> n = 95 \<or> n = 45)"

definition valid_token :: "string \<Rightarrow> bool" where
  "valid_token t = (take 6 t = ''aerdr_'' \<and> length t = 49 \<and> (\<forall>c \<in> set (drop 6 t). token_char c))"

definition pepper :: "world \<Rightarrow> string result" where
  "pepper w =
     (case env_token_pepper w of
        Some p \<Rightarrow> if length p \<ge> 32 then Inr p
                  else if env_production w
                  then Inl (JsErr ''READER_TOKEN_PEPPER (>= 32 chars) must be set in production'')
                  else Inr ''dev-only-reader-token-pepper-32-chars-min!!''
      | None \<Rightarrow> if env_production w
                then Inl (JsErr ''READER_TOKEN_PEPPER (>= 32 chars) must be set in production'')
                else Inr ''dev-only-reader-token-pepper-32-chars-min!!'')"

definition hashReaderToken :: "world \<Rightarrow> string \<Rightarrow> string result" where
  "hashReaderToken w token =
     (case pepper w of Inl e \<Rightarrow> Inl e | Inr p \<Rightarrow> Inr (hmac_sha256 w p token))"

text \<open>\<open>None\<close> as a header stands for a missing or repeated one (not a string).\<close>

definition parseBearer :: "string option \<Rightarrow> string option" where
  "parseBearer header =
     (case header of
        None \<Rightarrow> None
      | Some h \<Rightarrow>
          let t = js_trim h; after = drop 6 t; token = dropWhile is_space after in
          if to_lower (take 6 t) = ''bearer'' \<and> after \<noteq> [] \<and> is_space (hd after)
             \<and> token \<noteq> [] \<and> (\<forall>c \<in> set token. \<not> is_space c) \<and> valid_token token
          then Some token else None)"

section \<open>Facts\<close>

lemma of_char_bounds: "0 \<le> (of_char c :: int) \<and> (of_char c :: int) < 256"
  using pos_mod_bound [of 256 "of_char c :: int"] pos_mod_sign [of 256 "of_char c :: int"] by simp

lemma of_char_upper:
  "(of_char (upper_char c) :: int) =
     (if 97 \<le> (of_char c :: int) \<and> (of_char c :: int) \<le> 122 then of_char c - 32 else of_char c)"
  by (auto simp: upper_char_def of_char_of)

lemma upper_char_idem [simp]: "upper_char (upper_char c) = upper_char c"
  by (rule of_char_eqI [where ?'a = int]) (auto simp: of_char_upper)

lemma to_upper_idem [simp]: "to_upper (to_upper s) = to_upper s"
  by (simp add: to_upper_def)

lemma is_hex_upper [simp]: "is_hex c \<Longrightarrow> is_hex (upper_char c)"
  by (auto simp: is_hex_def Let_def of_char_upper)

lemma is_hex_not_space: "is_hex c \<Longrightarrow> \<not> is_space c"
  by (auto simp: is_hex_def is_space_def Let_def)

lemma set_hex_digits: "c \<in> set (hex_digits s) \<Longrightarrow> is_hex c \<and> upper_char c = c"
  by (auto simp: hex_digits_def to_upper_def)

lemma hex_digits_fixed: "(\<And>c. c \<in> set s \<Longrightarrow> is_hex c \<and> upper_char c = c) \<Longrightarrow> hex_digits s = s"
  by (induction s) (auto simp: hex_digits_def to_upper_def)

lemma filter_dropWhile_other:
  "(\<And>c. p c \<Longrightarrow> \<not> q c) \<Longrightarrow> filter p (dropWhile q s) = filter p s"
  by (induction s) auto

lemma filter_hex_trim [simp]: "filter is_hex (js_trim s) = filter is_hex s"
proof -
  have "filter is_hex (js_trim s) = rev (filter is_hex (dropWhile is_space (rev (dropWhile is_space s))))"
    by (simp add: js_trim_def rev_filter)
  also have "\<dots> = filter is_hex s"
    by (simp add: filter_dropWhile_other is_hex_not_space rev_filter [symmetric])
  finally show ?thesis .
qed

lemma strip_0x_hex: "(\<And>c. c \<in> set s \<Longrightarrow> is_hex c) \<Longrightarrow> strip_0x s = s"
proof (cases s)
  case (Cons a t)
  assume *: "\<And>c. c \<in> set s \<Longrightarrow> is_hex c"
  show ?thesis
  proof (cases t)
    case (Cons b u)
    with * \<open>s = a # t\<close> have "is_hex b" by simp
    then have "b \<noteq> CHR ''x''" "b \<noteq> CHR ''X''" by (auto simp: is_hex_def)
    with Cons \<open>s = a # t\<close> show ?thesis by (auto simp: strip_0x_def)
  qed (simp add: \<open>s = a # t\<close> strip_0x_def)
qed (simp add: strip_0x_def)

lemma js_trim_Nil [simp]: "js_trim [] = []" by (simp add: js_trim_def)
lemma strip_0x_Nil [simp]: "strip_0x [] = []" by (simp add: strip_0x_def)
lemma hex_digits_Nil [simp]: "hex_digits [] = []" by (simp add: hex_digits_def to_upper_def)

lemma canonicalizeEpc_Inr_iff:
  "canonicalizeEpc s = Inr c \<longleftrightarrow>
     c = hex_digits (strip_0x (js_trim s)) \<and> 16 \<le> length c \<and> length c \<le> 64 \<and> even (length c)"
proof (cases "s = []")
  case True
  then show ?thesis by (auto simp: canonicalizeEpc_def)
next
  case False
  define d where "d = hex_digits (strip_0x (js_trim s))"
  from False show ?thesis
    unfolding canonicalizeEpc_def Let_def d_def [symmetric]
    by (cases "length d < 16 \<or> length d > 64"; cases "length d mod 2 = 0") (auto simp: even_iff_mod_2_eq_zero)
qed

lemma utf8_inj [simp]: "utf8 s = utf8 t \<longleftrightarrow> s = t"
proof
  show "utf8 s = utf8 t \<Longrightarrow> s = t"
  proof (induction s arbitrary: t)
    case Nil
    then show ?case by (cases t) (auto simp: utf8_def utf8_char_def Let_def split: if_splits)
  next
    case (Cons a s)
    from Cons.prems obtain b u where t: "t = b # u"
      by (cases t) (auto simp: utf8_def utf8_char_def Let_def split: if_splits)
    have lt: "(of_char a :: int) < 256" "(of_char b :: int) < 256"
      using of_char_bounds by simp_all
    have "(of_char a :: int) = of_char b \<and> utf8 s = utf8 u"
    proof (cases "(of_char a :: int) < 128"; cases "(of_char b :: int) < 128")
      assume "\<not> (of_char a :: int) < 128" "\<not> (of_char b :: int) < 128"
      with Cons.prems t have "(of_char a :: int) div 64 = of_char b div 64"
        "(of_char a :: int) mod 64 = of_char b mod 64" "utf8 s = utf8 u"
        by (simp_all add: utf8_def utf8_char_def Let_def)
      then show ?thesis by (metis div_mult_mod_eq)
    qed (use Cons.prems t lt in \<open>auto simp: utf8_def utf8_char_def Let_def\<close>)
    with Cons.IH t show ?case by (auto simp: of_char_eq_iff)
  qed
qed simp

lemma timingSafeEqual_iff [simp]: "timingSafeEqual a b \<longleftrightarrow> a = b"
  by (auto simp: timingSafeEqual_def Let_def)


text \<open>A canonical form is a fixed point of the canonicalisation.\<close>

lemma canonicalizeEpc_canonical:
  assumes "canonicalizeEpc s = Inr c"
  shows "canonicalizeEpc c = Inr c \<and> 16 \<le> length c \<and> length c \<le> 64 \<and> even (length c)
         \<and> (\<forall>x \<in> set c. is_hex x \<and> upper_char x = x)"
proof -
  from assms have c: "c = hex_digits (strip_0x (js_trim s))" "16 \<le> length c" "length c \<le> 64" "even (length c)"
    by (auto simp: canonicalizeEpc_Inr_iff)
  then have hex: "\<forall>x \<in> set c. is_hex x \<and> upper_char x = x" using set_hex_digits by blast
  then have "js_trim c = c" "strip_0x c = c" "hex_digits c = c"
    by (auto intro!: js_trim_no_space strip_0x_hex hex_digits_fixed simp: is_hex_not_space)
  with c hex show ?thesis by (simp add: canonicalizeEpc_Inr_iff)
qed

text \<open>
  One badge, one code.  Every way of writing the hexadecimal digits of a canonical EPC (lower
  case, with spaces, colons, hyphens or any other separators, as long as it does not look like a
  0x prefix) canonicalizes to it, so its digest and its display suffix do not depend on how the
  reader formats the code; the canonical form itself is 8 to 32 whole bytes of upper-case digits.
\<close>

theorem epc_formatting_invariant:
  assumes "canonicalizeEpc s0 = Inr c" and "to_upper (filter is_hex s) = c"
    and "take 2 (js_trim s) \<notin> {''0x'', ''0X''}"
  shows "canonicalizeEpc s = Inr c \<and> computeEpcDigest w s salt = computeEpcDigest w s0 salt
    \<and> getEpcLastFour s = slice_last 4 c
    \<and> 16 \<le> length c \<and> length c \<le> 64 \<and> even (length c)
    \<and> (\<forall>x \<in> set c. is_hex x \<and> upper_char x = x)"
proof -
  note canon = canonicalizeEpc_canonical [OF assms(1)]
  from assms have "hex_digits (strip_0x (js_trim s)) = c" by (simp add: strip_0x_def hex_digits_def)
  with canon have "canonicalizeEpc s = Inr c" by (simp add: canonicalizeEpc_Inr_iff)
  with assms(1) canon show ?thesis by (simp add: computeEpcDigest_def getEpcLastFour_def)
qed

theorem epc_formatting_invariant_witness:
  "canonicalizeEpc '' e2:00-34 1201b80201'' = Inr ''E200341201B80201''"
proof -
  have "canonicalizeEpc ''0xE200341201B80201'' = Inr ''E200341201B80201''" by code_simp
  moreover have "to_upper (filter is_hex '' e2:00-34 1201b80201'') = ''E200341201B80201''" by code_simp
  moreover have "take 2 (js_trim '' e2:00-34 1201b80201'') \<notin> {''0x'', ''0X''}" by code_simp
  ultimately show ?thesis
    using epc_formatting_invariant [of "''0xE200341201B80201''" "''E200341201B80201''"
        "'' e2:00-34 1201b80201''"] by blast
qed

lemma redact_reveals_suffix:
  "8 \<le> length d \<Longrightarrow> length (redactCredentialDigest d) = length d
    \<and> (\<forall>i < length d - 8. redactCredentialDigest d ! i = CHR ''*'')"
  by (auto simp: redactCredentialDigest_def nth_append)

end
