(* ===== verification/Ingest_Reads.thy ===== *)
theory Ingest_Reads
  imports Crypto
begin

text \<open>
  Models the input side of the RFID ingest pipeline: src/src/services/rfid/ingest/types.ts,
  ingest/normalize.ts and readFreshness.ts.  A raw payload is a JSON value; it is checked,
  flattened into raw reads, each raw read becomes a normalized read or a malformed one, and the
  reads of one tag are reduced to the earliest.  The facts account for every position of the
  payload: each ends as exactly one malformed, kept or duplicate read.
\<close>

section \<open>Data (ingest/types.ts)\<close>

datatype freshness = Fresh | MissingTimestamp | FutureSkew | WrongSchoolDay | LateBuffered
datatype time_source = ReaderTime | ServerTime

record normalized_read =
  nr_index :: nat
  nr_epcDigest :: string
  nr_epcLast4 :: string
  nr_tidDigest :: "string option"
  nr_antenna :: "rat option"
  nr_rssi :: "rat option"
  nr_readAt :: instant
  nr_timeSource :: time_source
  nr_freshness :: freshness
  nr_idempotencyKey :: string

record malformed_read =
  mf_index :: nat
  mf_reason :: string

record outcome =
  oc_index :: nat
  oc_decision :: decision
  oc_read :: "normalized_read option"
  oc_studentId :: "uuid option"
  oc_classSectionId :: "uuid option"
  oc_credentialId :: "uuid option"
  oc_needsSession :: bool
  oc_reviewFlag :: "review_flag option"

definition ACCEPTED_DECISIONS :: "decision set" where
  "ACCEPTED_DECISIONS = {ACCEPTED, ALREADY_PRESENT}"

definition DUPLICATE_DECISIONS :: "decision set" where
  "DUPLICATE_DECISIONS = {DUPLICATE_IN_BATCH, DUPLICATE_DEBOUNCED}"

section \<open>Payload (ingest/normalize.ts)\<close>

definition MAX_BATCH_READS :: nat where "MAX_BATCH_READS = 250"

fun sanitizePayload :: "json \<Rightarrow> bool"
  and sanitize_elems :: "json list \<Rightarrow> bool"
  and sanitize_fields :: "(string \<times> json) list \<Rightarrow> bool" where
  "sanitizePayload (JArr xs) = sanitize_elems xs"
| "sanitizePayload (JObj kvs) = sanitize_fields kvs"
| "sanitizePayload _ = True"
| "sanitize_elems [] = True"
| "sanitize_elems (x # xs) = (sanitizePayload x \<and> sanitize_elems xs)"
| "sanitize_fields [] = True"
| "sanitize_fields ((k, v) # kvs) =
     (if k = ''__proto__'' \<or> k = ''constructor'' \<or> k = ''prototype'' then False
      else sanitizePayload v \<and> sanitize_fields kvs)"

text \<open>Flattening of a \<open>{data: {...}, timestamp}\<close> envelope.\<close>

definition flatten_read :: "json \<Rightarrow> json" where
  "flatten_read el =
     (if \<not> is_object el then JObj []
      else case jprop el ''data'' of
        Some (JObj d) \<Rightarrow>
          (case coalesce (map_of d ''timestamp'') (jprop el ''timestamp'') of
             None \<Rightarrow> JObj (AList.delete ''timestamp'' d)
           | Some ts \<Rightarrow> JObj (AList.update ''timestamp'' ts d))
      | _ \<Rightarrow> el)"

definition payload_list :: "json \<Rightarrow> json option" where
  "payload_list payload =
     (case payload of
        JArr _ \<Rightarrow> Some payload
      | JObj _ \<Rightarrow>
          let l = coalesce (coalesce (jprop payload ''data'') (jprop payload ''tag_reads''))
                    (jprop payload ''events'') in
          if l = None \<and> (json_truthy (jprop payload ''epc'') \<or> json_truthy (jprop payload ''idHex'')
                          \<or> json_truthy (jprop payload ''tag_id''))
          then Some (JArr [payload]) else l
      | _ \<Rightarrow> None)"

definition extractRawReads :: "json \<Rightarrow> json list result" where
  "extractRawReads payload =
     (if \<not> sanitizePayload payload then Inl (AppErr ''MALFORMED_PAYLOAD'' 400)
      else case payload_list payload of
        Some (JArr xs) \<Rightarrow>
          if length xs > MAX_BATCH_READS then Inl (AppErr ''BATCH_TOO_LARGE'' 413)
          else Inr (map flatten_read xs)
      | _ \<Rightarrow> Inl (AppErr ''MALFORMED_PAYLOAD'' 400))"

section \<open>Field conversions\<close>

definition str_field :: "json option \<Rightarrow> string option" where
  "str_field v = (case v of Some (JStr s) \<Rightarrow> if length s \<le> 256 then Some s else None | _ \<Rightarrow> None)"

definition num_field :: "world \<Rightarrow> json option \<Rightarrow> rat option" where
  "num_field w v = (case v of Some (JStr s) \<Rightarrow> js_number w s | Some (JNum n) \<Rightarrow> n | _ \<Rightarrow> None)"

text \<open>\<open>String(v)\<close>: array elements are joined with commas, null elements are empty.\<close>

fun js_string :: "world \<Rightarrow> json \<Rightarrow> string"
  and js_join :: "world \<Rightarrow> json list \<Rightarrow> string" where
  "js_string w JNull = ''null''"
| "js_string w (JBool b) = (if b then ''true'' else ''false'')"
| "js_string w (JNum n) = show_number w n"
| "js_string w (JStr s) = s"
| "js_string w (JArr xs) = js_join w xs"
| "js_string w (JObj _) = ''[object Object]''"
| "js_join w [] = []"
| "js_join w (x # xs) =
     (if x = JNull then [] else js_string w x) @ (if xs = [] then [] else '','' @ js_join w xs)"

text \<open>\<open>new Date(x).getTime()\<close> of a finite number: truncated, and NaN outside 8.64e15.\<close>

definition time_clip :: "rat \<Rightarrow> instant option" where
  "time_clip x =
     (if x < - 8640000000000000 \<or> x > 8640000000000000 then None
      else Some (if x < 0 then \<lceil>x\<rceil> else \<lfloor>x\<rfloor>))"

definition parseTime :: "world \<Rightarrow> json option \<Rightarrow> instant option" where
  "parseTime w v =
     (case v of
        None \<Rightarrow> None
      | Some j \<Rightarrow>
          if j = JNull \<or> j = JStr [] then None
          else case num_field w v of
            Some n \<Rightarrow> time_clip (if n < 1000000000000 then n * 1000 else n)
          | None \<Rightarrow> date_parse w (js_string w j))"

section \<open>Freshness (readFreshness.ts)\<close>

definition classifyReadTime :: "world \<Rightarrow> instant option \<Rightarrow> instant \<Rightarrow> string \<Rightarrow> freshness" where
  "classifyReadTime w readTs now tz =
     (case readTs of
        None \<Rightarrow> MissingTimestamp
      | Some ts \<Rightarrow>
          let delta = ts - now in
          if delta > 2 * 60000 then FutureSkew
          else if local_date w tz ts \<noteq> local_date w tz now then WrongSchoolDay
          else if - delta > 15 * 60000 then LateBuffered
          else Fresh)"

section \<open>Normalization\<close>

definition normalizeOne ::
  "world \<Rightarrow> uuid \<Rightarrow> uuid \<Rightarrow> instant \<Rightarrow> string \<Rightarrow> nat \<Rightarrow> json \<Rightarrow> (malformed_read + normalized_read) result" where
  "normalizeOne w schoolId readerId now tz i r =
     (let epcRaw = nullish (nullish (str_field (jprop r ''epc'')) (str_field (jprop r ''idHex'')))
                     (str_field (jprop r ''tag_id'')) in
      if \<not> truthy epcRaw then Inr (Inl \<lparr>mf_index = i, mf_reason = ''missing_epc''\<rparr>)
      else case canonicalizeEpc (the epcRaw) of
        Inl _ \<Rightarrow> Inr (Inl \<lparr>mf_index = i, mf_reason = ''invalid_epc''\<rparr>)
      | Inr epc \<Rightarrow>
          let tidRaw = nullish (str_field (jprop r ''tid'')) (str_field (jprop r ''tidHex''));
              tidDigest = (if truthy tidRaw
                then (case canonicalizeTid (the tidRaw) of
                        Inl _ \<Rightarrow> None
                      | Inr tid \<Rightarrow> (case computeTidDigest w tid schoolId of Inl _ \<Rightarrow> None | Inr d \<Rightarrow> Some d))
                else None);
              readerTs = parseTime w
                (coalesce (coalesce (jprop r ''firstSeen'') (jprop r ''timestamp'')) (jprop r ''lastSeen''));
              fresh = classifyReadTime w readerTs now tz;
              readAt = (case readerTs of Some ts \<Rightarrow> if fresh \<noteq> MissingTimestamp then ts else now | None \<Rightarrow> now)
          in case computeEpcDigest w epc schoolId of
            Inl e \<Rightarrow> Inl e
          | Inr epcDigest \<Rightarrow>
              let vendorId = nullish (str_field (jprop r ''vendorEventId'')) (str_field (jprop r ''eventId''))
              in Inr (Inr \<lparr>nr_index = i,
                   nr_epcDigest = epcDigest,
                   nr_epcLast4 = getEpcLastFour epc,
                   nr_tidDigest = tidDigest,
                   nr_antenna = num_field w (coalesce (jprop r ''antenna'') (jprop r ''antenna_port'')),
                   nr_rssi = num_field w (coalesce (jprop r ''peakRssi'') (jprop r ''rssi'')),
                   nr_readAt = readAt,
                   nr_timeSource = (if readerTs \<noteq> None then ReaderTime else ServerTime),
                   nr_freshness = fresh,
                   nr_idempotencyKey = sha256 w
                     (if truthy vendorId then ''v:'' @ readerId @ '':'' @ the vendorId
                      else ''t:'' @ readerId @ '':'' @ epcDigest @ '':'' @ show_int readAt)\<rparr>))"

fun normalize_from ::
  "world \<Rightarrow> uuid \<Rightarrow> uuid \<Rightarrow> instant \<Rightarrow> string \<Rightarrow> nat \<Rightarrow> json list
     \<Rightarrow> (normalized_read list \<times> malformed_read list) result" where
  "normalize_from w schoolId readerId now tz i [] = Inr ([], [])"
| "normalize_from w schoolId readerId now tz i (r # rs) =
     (case normalizeOne w schoolId readerId now tz i r of
        Inl e \<Rightarrow> Inl e
      | Inr res \<Rightarrow>
          (case normalize_from w schoolId readerId now tz (Suc i) rs of
             Inl e \<Rightarrow> Inl e
           | Inr (reads, malformed) \<Rightarrow>
               (case res of Inl m \<Rightarrow> Inr (reads, m # malformed) | Inr n \<Rightarrow> Inr (n # reads, malformed))))"

definition normalizeReads ::
  "world \<Rightarrow> uuid \<Rightarrow> uuid \<Rightarrow> instant \<Rightarrow> string \<Rightarrow> json list
     \<Rightarrow> (normalized_read list \<times> malformed_read list) result" where
  "normalizeReads w schoolId readerId now tz rawReads = normalize_from w schoolId readerId now tz 0 rawReads"

section \<open>Duplicates inside one batch\<close>

text \<open>The loop over \<open>best\<close>, a JavaScript Map: \<open>set\<close> on a present key keeps its position.\<close>

definition best_step ::
  "(string \<times> normalized_read) list \<Rightarrow> normalized_read \<Rightarrow> (string \<times> normalized_read) list" where
  "best_step best r =
     (case map_of best (nr_epcDigest r) of
        None \<Rightarrow> AList.update (nr_epcDigest r) r best
      | Some cur \<Rightarrow> if nr_readAt r < nr_readAt cur then AList.update (nr_epcDigest r) r best else best)"

definition duplicate_outcome :: "normalized_read \<Rightarrow> outcome" where
  "duplicate_outcome r = \<lparr>oc_index = nr_index r, oc_decision = DUPLICATE_IN_BATCH, oc_read = Some r,
     oc_studentId = None, oc_classSectionId = None, oc_credentialId = None,
     oc_needsSession = False, oc_reviewFlag = None\<rparr>"

definition dedupeInBatch :: "normalized_read list \<Rightarrow> normalized_read list \<times> outcome list" where
  "dedupeInBatch reads =
     (let best = foldl best_step [] reads;
          keep = set (map nr_index (map snd best));
          dupes = map duplicate_outcome (filter (\<lambda>r. nr_index r \<notin> keep) reads)
      in (map snd best, dupes))"

section \<open>Facts\<close>

lemma computeEpcDigest_canonical:
  "canonicalizeEpc s = Inr c \<Longrightarrow>
     computeEpcDigest w c salt = Inr (sha256 w (if salt \<noteq> [] then c @ '':'' @ salt else c))"
  using canonicalizeEpc_canonical [of s c] by (simp add: computeEpcDigest_def)

text \<open>Normalizing one read never throws; the read it yields carries its position.\<close>

lemma normalizeOne_cases:
  obtains (malformed) m where "normalizeOne w sid rid now tz i r = Inr (Inl m)" "mf_index m = i"
  | (read) n where "normalizeOne w sid rid now tz i r = Inr (Inr n)" "nr_index n = i"
proof (cases "normalizeOne w sid rid now tz i r")
  case (Inl e)
  then show ?thesis
    by (auto simp: normalizeOne_def Let_def computeEpcDigest_canonical split: if_splits sum.splits)
next
  case (Inr x)
  then show ?thesis
    by (cases x) (auto simp: normalizeOne_def Let_def intro: that split: if_splits sum.splits)
qed

lemma normalize_from_positions:
  "\<exists>reads malformed. normalize_from w sid rid now tz i rs = Inr (reads, malformed)
     \<and> mset (map nr_index reads @ map mf_index malformed) = mset [i..<i + length rs]"
proof (induction rs arbitrary: i)
  case Nil
  then show ?case by simp
next
  case (Cons r rs)
  from Cons [of "Suc i"] obtain reads malformed where
    rest: "normalize_from w sid rid now tz (Suc i) rs = Inr (reads, malformed)"
      "mset (map nr_index reads @ map mf_index malformed) = mset [Suc i..<Suc i + length rs]" by blast
  have "{i..<Suc (i + length rs)} = insert i {Suc i..<Suc (i + length rs)}" by auto
  then have upt: "mset_set {i..<Suc (i + length rs)} = add_mset i (mset_set {Suc i..<Suc (i + length rs)})"
    by simp
  show ?case
    by (cases rule: normalizeOne_cases [of w sid rid now tz i r]) (use rest in \<open>simp_all add: upt del: upt_Suc\<close>)
qed

lemma normalize_from_sorted:
  "normalize_from w sid rid now tz i rs = Inr (reads, malformed) \<Longrightarrow>
     sorted_wrt (<) (map nr_index reads) \<and> (\<forall>r \<in> set reads. i \<le> nr_index r)"
proof (induction rs arbitrary: i reads malformed)
  case (Cons r rs)
  show ?case
  proof (cases rule: normalizeOne_cases [of w sid rid now tz i r])
    case (malformed m)
    with Cons.prems Cons.IH [of "Suc i"] show ?thesis by (auto split: sum.splits) (meson Suc_leD)+
  next
    case (read n)
    with Cons.prems obtain reads' where r: "reads = n # reads'"
      "normalize_from w sid rid now tz (Suc i) rs = Inr (reads', malformed)"
      by (auto split: sum.splits)
    from Cons.IH [OF r(2)] read r(1) show ?thesis by (auto simp: Suc_le_eq)
  qed
qed simp

lemma normalizeReads_positions:
  obtains reads malformed where "normalizeReads w sid rid now tz rs = Inr (reads, malformed)"
    "mset (map nr_index reads @ map mf_index malformed) = mset [0..<length rs]"
    "sorted_wrt (<) (map nr_index reads)"
  using normalize_from_positions [of w sid rid now tz 0 rs] normalize_from_sorted [of w sid rid now tz 0 rs]
  by (auto simp: normalizeReads_def)

subsection \<open>The duplicates of a batch\<close>

text \<open>Earlier, and on equal times the one that comes first in the payload.\<close>

definition precedes :: "normalized_read \<Rightarrow> normalized_read \<Rightarrow> bool" where
  "precedes v r \<longleftrightarrow> nr_readAt v < nr_readAt r \<or> nr_readAt v = nr_readAt r \<and> nr_index v \<le> nr_index r"

definition best_inv :: "normalized_read list \<Rightarrow> (string \<times> normalized_read) list \<Rightarrow> bool" where
  "best_inv seen best \<longleftrightarrow>
     distinct (map fst best)
     \<and> (\<forall>k v. map_of best k = Some v \<longrightarrow> k = nr_epcDigest v \<and> v \<in> set seen)
     \<and> (\<forall>r \<in> set seen. \<exists>v. map_of best (nr_epcDigest r) = Some v \<and> precedes v r)"

lemma best_step_inv:
  assumes "best_inv seen best" "\<forall>s \<in> set seen. nr_index s < nr_index r"
  shows "best_inv (seen @ [r]) (best_step best r)"
proof (cases "map_of best (nr_epcDigest r)")
  case None
  with assms show ?thesis
    by (fastforce simp: best_inv_def best_step_def distinct_update update_conv' precedes_def)
next
  case (Some cur)
  from Some assms have cur: "cur \<in> set seen" by (auto simp: best_inv_def)
  show ?thesis
  proof (cases "nr_readAt r < nr_readAt cur")
    case True
    have "\<exists>v. ((map_of best)(nr_epcDigest r \<mapsto> r)) (nr_epcDigest x) = Some v \<and> precedes v x"
      if x: "x \<in> set seen" for x
    proof -
      from assms x obtain v where "map_of best (nr_epcDigest x) = Some v" "precedes v x"
        by (auto simp: best_inv_def)
      with True Some show ?thesis by (cases "nr_epcDigest x = nr_epcDigest r") (auto simp: precedes_def)
    qed
    with True Some assms show ?thesis
      by (auto simp: best_inv_def best_step_def distinct_update update_conv' precedes_def)
  next
    case False
    with cur assms(2) have "precedes cur r" by (auto simp: precedes_def)
    with False assms Some show ?thesis by (auto simp: best_inv_def best_step_def)
  qed
qed

lemma best_inv_fold:
  "best_inv seen best \<Longrightarrow> sorted_wrt (<) (map nr_index (seen @ reads))
     \<Longrightarrow> best_inv (seen @ reads) (foldl best_step best reads)"
proof (induction reads arbitrary: seen best)
  case (Cons r reads)
  from Cons.prems(2) have "\<forall>s \<in> set seen. nr_index s < nr_index r" by (auto simp: sorted_wrt_append)
  from Cons.IH [OF best_step_inv [OF Cons.prems(1) this]] Cons.prems(2) show ?case by simp
qed simp

lemma dedupe_unique:
  assumes "dedupeInBatch reads = (unique, dupes)" "sorted_wrt (<) (map nr_index reads)"
  shows "set unique \<subseteq> set reads" "distinct (map nr_epcDigest unique)"
    "\<And>r. r \<in> set reads \<Longrightarrow> \<exists>u \<in> set unique. nr_epcDigest u = nr_epcDigest r \<and> precedes u r"
proof -
  let ?best = "foldl best_step [] reads"
  have u: "unique = map snd ?best" using assms by (auto simp: dedupeInBatch_def Let_def)
  have "best_inv [] []" by (simp add: best_inv_def)
  from best_inv_fold [OF this, of reads] assms(2) have "best_inv reads ?best" by simp
  then have inv: "distinct (map fst ?best)"
    "\<And>k v. (k, v) \<in> set ?best \<Longrightarrow> k = nr_epcDigest v \<and> v \<in> set reads"
    "\<And>r. r \<in> set reads \<Longrightarrow> \<exists>v. map_of ?best (nr_epcDigest r) = Some v \<and> precedes v r"
    unfolding best_inv_def by (simp, metis map_of_is_SomeI, blast)
  from inv(2) u show "set unique \<subseteq> set reads" by auto
  have "map nr_epcDigest unique = map fst ?best" unfolding u using inv(2) by auto
  with inv(1) show "distinct (map nr_epcDigest unique)" by simp
  show "\<exists>u \<in> set unique. nr_epcDigest u = nr_epcDigest r \<and> precedes u r" if "r \<in> set reads" for r
  proof -
    from inv(3) [OF that] obtain v where "map_of ?best (nr_epcDigest r) = Some v" "precedes v r" by blast
    with inv(2) u show ?thesis by (force dest: map_of_SomeD)
  qed
qed

lemma dedupe_positions:
  assumes "dedupeInBatch reads = (unique, dupes)" "sorted_wrt (<) (map nr_index reads)"
  shows "mset (map nr_index unique @ map oc_index dupes) = mset (map nr_index reads)"
proof -
  let ?keep = "set (map nr_index unique)"
  note uniq = dedupe_unique [OF assms]
  from assms(2) have di: "distinct (map nr_index reads)" by (simp add: strict_sorted_iff)
  have du: "distinct (map nr_index unique)"
    using uniq(1,2) di by (auto simp: distinct_map intro: inj_on_subset)
  have "map oc_index dupes = filter (\<lambda>i. i \<notin> ?keep) (map nr_index reads)"
    using assms(1) by (auto simp: dedupeInBatch_def Let_def duplicate_outcome_def filter_map comp_def image_image)
  moreover have "mset (map nr_index unique) = mset (filter (\<lambda>i. i \<in> ?keep) (map nr_index reads))"
    using du di uniq(1) by (intro set_eq_iff_mset_eq_distinct [THEN iffD1]) auto
  ultimately show ?thesis
    by (simp del: filter_map add: multiset_partition [of "mset (map nr_index reads)" "\<lambda>i. i \<in> ?keep", symmetric] mset_filter)
qed

lemma dedupe_dupes_decision:
  "dedupeInBatch reads = (unique, dupes) \<Longrightarrow> o' \<in> set dupes \<Longrightarrow> oc_decision o' = DUPLICATE_IN_BATCH"
  by (auto simp: dedupeInBatch_def Let_def duplicate_outcome_def)

text \<open>
  C33: every position of a payload is accounted for exactly once, as a malformed read, a kept read
  or a duplicate; the kept reads carry pairwise different EPC digests, and every read is
  represented by a kept read of its tag that is earlier or, on equal times, stands first.
\<close>

theorem batch_positions_partition:
  assumes "normalizeReads w sid rid now tz raw = Inr (reads, malformed)"
    and "dedupeInBatch reads = (unique, dupes)"
  shows "mset (map nr_index unique @ map oc_index dupes @ map mf_index malformed) = mset [0..<length raw]
    \<and> distinct (map nr_epcDigest unique)
    \<and> (\<forall>r \<in> set reads. \<exists>u \<in> set unique. nr_epcDigest u = nr_epcDigest r
         \<and> (nr_readAt u < nr_readAt r \<or> nr_readAt u = nr_readAt r \<and> nr_index u \<le> nr_index r))"
proof -
  from assms(1) normalizeReads_positions [of w sid rid now tz raw]
  have pos: "mset (map nr_index reads @ map mf_index malformed) = mset [0..<length raw]"
    "sorted_wrt (<) (map nr_index reads)" by auto
  from dedupe_positions [OF assms(2) pos(2)] dedupe_unique [OF assms(2) pos(2)] pos(1)
  show ?thesis unfolding precedes_def by (metis append_assoc mset_append)
qed

definition example_read :: "string \<Rightarrow> int \<Rightarrow> json" where
  "example_read epc t = JObj [(''epc'', JStr epc), (''timestamp'', JNum (Some (of_int t)))]"

definition example_batch :: "json list" where
  "example_batch = [example_read ''E200341201B80201'' 1700000000500, JObj [(''epc'', JStr ''zz'')],
     example_read ''e2 00 34 12 01 b8 02 01'' 1700000000100]"

theorem batch_positions_partition_witness:
  "\<exists>reads malformed unique dupes.
     normalizeReads example_world ''s'' ''r'' 1700000000900 ''UTC'' example_batch = Inr (reads, malformed)
     \<and> dedupeInBatch reads = (unique, dupes)
     \<and> map nr_index unique = [2] \<and> map oc_index dupes = [0] \<and> map mf_index malformed = [1]
     \<and> mset (map nr_index unique @ map oc_index dupes @ map mf_index malformed) = mset [0..<3]"
proof -
  obtain reads malformed where n:
    "normalizeReads example_world ''s'' ''r'' 1700000000900 ''UTC'' example_batch = Inr (reads, malformed)"
    by (rule normalizeReads_positions)
  obtain unique dupes where d: "dedupeInBatch reads = (unique, dupes)" by fastforce
  have e: "(case normalizeReads example_world ''s'' ''r'' 1700000000900 ''UTC'' example_batch of
       Inr (reads, malformed) \<Rightarrow> (case dedupeInBatch reads of (unique, dupes) \<Rightarrow>
         map nr_index unique = [2] \<and> map oc_index dupes = [0] \<and> map mf_index malformed = [1]
         \<and> length example_batch = 3)
     | Inl _ \<Rightarrow> False)"
    by code_simp
  with n d batch_positions_partition [OF n d] show ?thesis by auto
qed

end
