(* ===== verification/Ingest_Decide.thy ===== *)
theory Ingest_Decide
  imports Ingest_Reads
begin

text \<open>
  Models src/src/services/rfid/ingest/loadContext.ts and ingest/decide.ts: the five queries that
  collect what a batch needs to know about its badges, and the pure decision for one read.  The
  facts say exactly when a read is accepted, and that everything an accepted read names (badge,
  student, section) is an active row of the same school.
\<close>

section \<open>Context (ingest/types.ts, ingest/loadContext.ts)\<close>

record cred_row =
  cr_id :: uuid
  cr_studentId :: uuid
  cr_epcDigest :: string
  cr_status :: cred_status

record student_row =
  sr_id :: uuid
  sr_name :: ustring
  sr_status :: string
  sr_photoUrl :: "string option"

record enrollment_row =
  er_studentId :: uuid
  er_classSectionId :: uuid
  er_rollNumber :: "int option"

record session_row =
  sn_id :: uuid
  sn_classSectionId :: uuid
  sn_status :: session_status

record ingest_context =
  ic_schoolId :: uuid
  ic_schoolDate :: string
  ic_isSchoolDay :: bool
  ic_debounced :: "string set"
  ic_credsByDigest :: "(string \<times> cred_row) list"
  ic_studentsById :: "(uuid \<times> student_row) list"
  ic_enrollmentByStudent :: "(uuid \<times> enrollment_row) list"
  ic_sessionBySection :: "(uuid \<times> session_row) list"
  ic_teacherBySection :: "(uuid \<times> uuid) list"

definition isSchoolOpen :: "db \<Rightarrow> uuid \<Rightarrow> string \<Rightarrow> bool" where
  "isSchoolOpen d schoolId schoolDate =
     (case sel1 (\<lambda>c. cd_schoolId c = schoolId \<and> cd_calendarDate c = schoolDate) (t_calendar d) of
        Some day \<Rightarrow> cd_isWorkingDay day
      | None \<Rightarrow> True)"

text \<open>Q1: the badges of the school with one of the digests.\<close>

definition load_creds :: "db \<Rightarrow> uuid \<Rightarrow> string list \<Rightarrow> cred_row list" where
  "load_creds d schoolId digests =
     map (\<lambda>c. \<lparr>cr_id = rc_id c, cr_studentId = rc_studentId c, cr_epcDigest = rc_credentialDigest c,
               cr_status = rc_status c\<rparr>)
       (filter (\<lambda>c. rc_schoolId c = schoolId \<and> rc_credentialDigest c \<in> set digests) (t_credentials d))"

text \<open>Q2: students left-joined with their active enrolments of the current academic year.\<close>

definition current_year :: "db \<Rightarrow> uuid \<Rightarrow> uuid option" where
  "current_year d schoolId =
     map_option ay_id (sel1 (\<lambda>y. ay_schoolId y = schoolId \<and> ay_isCurrent y) (t_academicYears d))"

definition active_enrollments :: "db \<Rightarrow> uuid \<Rightarrow> uuid \<Rightarrow> enrollment list" where
  "active_enrollments d schoolId studentId =
     filter (\<lambda>e. en_studentId e = studentId \<and> en_schoolId e = schoolId
                \<and> Some (en_academicYearId e) = current_year d schoolId \<and> en_status e = ''ACTIVE'')
       (t_enrollments d)"

definition load_students :: "db \<Rightarrow> uuid \<Rightarrow> uuid list \<Rightarrow> (student \<times> enrollment option) list" where
  "load_students d schoolId studentIds =
     concat (map (\<lambda>s. case active_enrollments d schoolId (st_id s) of
                       [] \<Rightarrow> [(s, None)]
                     | es \<Rightarrow> map (\<lambda>e. (s, Some e)) es)
       (filter (\<lambda>s. st_schoolId s = schoolId \<and> st_id s \<in> set studentIds) (t_students d)))"

text \<open>Q3: the gate sessions of the day; Q4: assigned teachers, oldest assignment first.\<close>

definition load_sessions :: "db \<Rightarrow> uuid \<Rightarrow> string \<Rightarrow> uuid list \<Rightarrow> session_row list" where
  "load_sessions d schoolId schoolDate sectionIds =
     map (\<lambda>s. \<lparr>sn_id = as_id s, sn_classSectionId = as_classSectionId s, sn_status = as_status s\<rparr>)
       (filter (\<lambda>s. as_schoolId s = schoolId \<and> as_classSectionId s \<in> set sectionIds
                  \<and> as_sessionDate s = schoolDate \<and> as_sessionType s = ''GATE_ARRIVAL'') (t_sessions d))"

definition load_teachers :: "db \<Rightarrow> uuid \<Rightarrow> uuid list \<Rightarrow> teacher_assignment list" where
  "load_teachers d schoolId sectionIds =
     sort_key ta_createdAt
       (filter (\<lambda>t. ta_schoolId t = schoolId \<and> ta_classSectionId t \<in> set sectionIds) (t_teacherAssignments d))"

definition first_teacher :: "teacher_assignment list \<Rightarrow> (uuid \<times> uuid) list" where
  "first_teacher ts =
     foldl (\<lambda>m t. if map_of m (ta_classSectionId t) = None
                  then AList.update (ta_classSectionId t) (ta_teacherId t) m else m) [] ts"

definition loadContext ::
  "db \<Rightarrow> uuid \<Rightarrow> string \<Rightarrow> normalized_read list \<Rightarrow> string set \<Rightarrow> ingest_context" where
  "loadContext d schoolId schoolDate reads debounced =
     (let digests = remdups (map nr_epcDigest reads) in
      if digests = [] then
        \<lparr>ic_schoolId = schoolId, ic_schoolDate = schoolDate, ic_isSchoolDay = True, ic_debounced = debounced,
         ic_credsByDigest = [], ic_studentsById = [], ic_enrollmentByStudent = [],
         ic_sessionBySection = [], ic_teacherBySection = []\<rparr>
      else
        let creds = load_creds d schoolId digests;
            studentIds = remdups (map cr_studentId creds);
            studentRows = (if studentIds \<noteq> [] then load_students d schoolId studentIds else []);
            enrolled = List.map_filter (\<lambda>(s, e). map_option (\<lambda>e. (s, e)) e) studentRows;
            sectionIds = remdups (map (\<lambda>(s, e). en_classSectionId e) enrolled);
            sessions = (if sectionIds \<noteq> [] then load_sessions d schoolId schoolDate sectionIds else []);
            teachers = (if sectionIds \<noteq> [] then load_teachers d schoolId sectionIds else [])
        in \<lparr>ic_schoolId = schoolId, ic_schoolDate = schoolDate,
            ic_isSchoolDay = isSchoolOpen d schoolId schoolDate, ic_debounced = debounced,
            ic_credsByDigest = js_map (map (\<lambda>c. (cr_epcDigest c, c)) creds),
            ic_studentsById = js_map (map (\<lambda>(s, e). (st_id s,
               \<lparr>sr_id = st_id s, sr_name = st_name s, sr_status = st_status s, sr_photoUrl = st_photoUrl s\<rparr>))
               studentRows),
            ic_enrollmentByStudent = js_map (map (\<lambda>(s, e). (st_id s,
               \<lparr>er_studentId = st_id s, er_classSectionId = en_classSectionId e,
                er_rollNumber = Some (en_rollNumber e)\<rparr>)) enrolled),
            ic_sessionBySection = js_map (map (\<lambda>s. (sn_classSectionId s, s)) sessions),
            ic_teacherBySection = first_teacher teachers\<rparr>)"

section \<open>Decision (ingest/decide.ts)\<close>

definition reviewFlagFor :: "normalized_read \<Rightarrow> review_flag option" where
  "reviewFlagFor read =
     (if nr_freshness read = LateBuffered then Some LateBufferedFlag
      else if nr_timeSource read = ServerTime then Some ServerTimeFlag
      else None)"

text \<open>\<open>reject\<close>: the base outcome of the read with a decision and what is known so far.\<close>

definition reject ::
  "normalized_read \<Rightarrow> decision \<Rightarrow> uuid option \<Rightarrow> uuid option \<Rightarrow> uuid option \<Rightarrow> outcome" where
  "reject read dec cred stud sect = \<lparr>oc_index = nr_index read, oc_decision = dec, oc_read = Some read,
     oc_studentId = stud, oc_classSectionId = sect, oc_credentialId = cred,
     oc_needsSession = False, oc_reviewFlag = None\<rparr>"

definition decideRead :: "normalized_read \<Rightarrow> ingest_context \<Rightarrow> outcome" where
  "decideRead read ctx =
     (if nr_freshness read = FutureSkew then reject read FUTURE_SKEW None None None
      else if nr_freshness read = WrongSchoolDay then reject read WRONG_SCHOOL_DAY None None None
      else if nr_epcDigest read \<in> ic_debounced ctx then reject read DUPLICATE_DEBOUNCED None None None
      else case map_of (ic_credsByDigest ctx) (nr_epcDigest read) of
        None \<Rightarrow> reject read UNREGISTERED_CARD None None None
      | Some cred \<Rightarrow>
          if cr_status cred \<noteq> CActive then reject read SUSPENDED_CARD (Some (cr_id cred)) None None
          else case map_of (ic_studentsById ctx) (cr_studentId cred) of
            None \<Rightarrow> reject read CREDENTIAL_ORPHANED (Some (cr_id cred)) None None
          | Some student \<Rightarrow>
              if sr_status student \<noteq> ''ACTIVE''
              then reject read STUDENT_INACTIVE (Some (cr_id cred)) (Some (sr_id student)) None
              else case map_of (ic_enrollmentByStudent ctx) (sr_id student) of
                None \<Rightarrow> reject read NOT_ENROLLED (Some (cr_id cred)) (Some (sr_id student)) None
              | Some enr \<Rightarrow>
                  let rej = (\<lambda>dec. reject read dec (Some (cr_id cred)) (Some (sr_id student))
                                     (Some (er_classSectionId enr)));
                      session = map_of (ic_sessionBySection ctx) (er_classSectionId enr)
                  in if \<not> ic_isSchoolDay ctx then rej SCHOOL_CLOSED
                  else if map_option sn_status session = Some FINALIZED then rej SESSION_FINALIZED
                  else if session = None \<and> map_of (ic_teacherBySection ctx) (er_classSectionId enr) = None
                  then rej NO_TEACHER_ASSIGNED
                  else (rej ACCEPTED)\<lparr>oc_needsSession := (session = None), oc_reviewFlag := reviewFlagFor read\<rparr>)"

definition decisionLabelKey :: "decision \<Rightarrow> string" where
  "decisionLabelKey dec =
     (case dec of
        ACCEPTED \<Rightarrow> ''rfid.decision.accepted''
      | ALREADY_PRESENT \<Rightarrow> ''rfid.decision.alreadyPresent''
      | DUPLICATE_IN_BATCH \<Rightarrow> ''rfid.decision.duplicate''
      | DUPLICATE_DEBOUNCED \<Rightarrow> ''rfid.decision.duplicate''
      | MALFORMED_READ \<Rightarrow> ''rfid.decision.malformed''
      | FUTURE_SKEW \<Rightarrow> ''rfid.decision.clockIssue''
      | WRONG_SCHOOL_DAY \<Rightarrow> ''rfid.decision.clockIssue''
      | UNREGISTERED_CARD \<Rightarrow> ''rfid.decision.unregistered''
      | SUSPENDED_CARD \<Rightarrow> ''rfid.decision.suspended''
      | CREDENTIAL_ORPHANED \<Rightarrow> ''rfid.decision.orphaned''
      | STUDENT_INACTIVE \<Rightarrow> ''rfid.decision.studentInactive''
      | NOT_ENROLLED \<Rightarrow> ''rfid.decision.notEnrolled''
      | SCHOOL_CLOSED \<Rightarrow> ''rfid.decision.schoolClosed''
      | SESSION_FINALIZED \<Rightarrow> ''rfid.decision.sessionFinalized''
      | NO_TEACHER_ASSIGNED \<Rightarrow> ''rfid.decision.noTeacher''
      | NO_ACTIVE_SESSION \<Rightarrow> ''rfid.decision.noActiveSession''
      | MANUAL_OVERRIDE_PRESERVED \<Rightarrow> ''rfid.decision.manualPreserved'')"

section \<open>Facts\<close>

lemma reject_simps [simp]:
  "oc_index (reject r dec c s k) = nr_index r" "oc_read (reject r dec c s k) = Some r"
  "oc_decision (reject r dec c s k) = dec" "oc_studentId (reject r dec c s k) = s"
  "oc_classSectionId (reject r dec c s k) = k" "oc_credentialId (reject r dec c s k) = c"
  by (simp_all add: reject_def)

lemma decideRead_index [index_simps, simp]: "oc_index (decideRead r ctx) = nr_index r"
  and decideRead_read [simp]: "oc_read (decideRead r ctx) = Some r"
  by (simp_all add: decideRead_def Let_def split: option.split)

lemma decideRead_acceptedE:
  assumes "oc_decision (decideRead r ctx) = ACCEPTED"
  obtains cred student enr where
    "nr_freshness r \<notin> {FutureSkew, WrongSchoolDay}" "nr_epcDigest r \<notin> ic_debounced ctx"
    "map_of (ic_credsByDigest ctx) (nr_epcDigest r) = Some cred" "cr_status cred = CActive"
    "map_of (ic_studentsById ctx) (cr_studentId cred) = Some student" "sr_status student = ''ACTIVE''"
    "map_of (ic_enrollmentByStudent ctx) (sr_id student) = Some enr" "ic_isSchoolDay ctx"
    "map_option sn_status (map_of (ic_sessionBySection ctx) (er_classSectionId enr)) \<noteq> Some FINALIZED"
    "map_of (ic_sessionBySection ctx) (er_classSectionId enr) = None \<Longrightarrow>
       map_of (ic_teacherBySection ctx) (er_classSectionId enr) \<noteq> None"
    "decideRead r ctx = (reject r ACCEPTED (Some (cr_id cred)) (Some (sr_id student)) (Some (er_classSectionId enr)))
       \<lparr>oc_needsSession := (map_of (ic_sessionBySection ctx) (er_classSectionId enr) = None),
        oc_reviewFlag := reviewFlagFor r\<rparr>"
proof -
  from assms show thesis
    unfolding decideRead_def Let_def
    by (auto simp del: map_option_eq_Some split: if_splits option.splits intro!: that)
      (auto simp: decideRead_def Let_def)
qed

lemma load_creds_lookup:
  assumes "map_of (js_map (map (\<lambda>c. (cr_epcDigest c, c)) (load_creds d sid ds))) dg = Some c"
  obtains rc where "rc \<in> set (t_credentials d)" "rc_schoolId rc = sid" "rc_credentialDigest rc = dg"
    "rc_id rc = cr_id c" "rc_studentId rc = cr_studentId c" "rc_status rc = cr_status c"
  using map_of_js_map_SomeD [OF assms] by (auto simp: load_creds_def)

lemma load_students_rows:
  assumes "(s, e) \<in> set (load_students d sid ids)"
  shows "s \<in> set (t_students d)" "st_schoolId s = sid"
    "\<And>x. e = Some x \<Longrightarrow> x \<in> set (active_enrollments d sid (st_id s))"
proof -
  from assms obtain x where x: "x \<in> set (t_students d)" "st_schoolId x = sid"
    "(s, e) \<in> set (case active_enrollments d sid (st_id x) of [] \<Rightarrow> [(x, None)] | es \<Rightarrow> map (\<lambda>e. (x, Some e)) es)"
    by (auto simp: load_students_def)
  then have "s = x \<and> (\<forall>y. e = Some y \<longrightarrow> y \<in> set (active_enrollments d sid (st_id x)))"
    by (cases "active_enrollments d sid (st_id x)") auto
  with x show "s \<in> set (t_students d)" "st_schoolId s = sid"
    "\<And>x. e = Some x \<Longrightarrow> x \<in> set (active_enrollments d sid (st_id s))" by auto
qed

lemma first_teacher_lookup:
  "map_of (first_teacher ts) k = Some t \<Longrightarrow>
     \<exists>a \<in> set ts. ta_classSectionId a = k \<and> ta_teacherId a = t"
proof -
  have "map_of (foldl (\<lambda>m t. if map_of m (ta_classSectionId t) = None
          then AList.update (ta_classSectionId t) (ta_teacherId t) m else m) m0 ts) k = Some t
        \<Longrightarrow> map_of m0 k = Some t \<or> (\<exists>a \<in> set ts. ta_classSectionId a = k \<and> ta_teacherId a = t)" for m0
    by (induction ts arbitrary: m0) (force simp: update_conv' split: if_splits)+
  from this [of "[]"] show "map_of (first_teacher ts) k = Some t \<Longrightarrow>
     \<exists>a \<in> set ts. ta_classSectionId a = k \<and> ta_teacherId a = t" by (auto simp: first_teacher_def)
qed

lemma loadContext_creds:
  assumes "map_of (ic_credsByDigest (loadContext d sid date reads deb)) dg = Some c"
  obtains rc where "rc \<in> set (t_credentials d)" "rc_schoolId rc = sid" "rc_credentialDigest rc = dg"
    "rc_id rc = cr_id c" "rc_studentId rc = cr_studentId c" "rc_status rc = cr_status c"
  using assms by (auto simp: loadContext_def Let_def split: if_splits elim!: load_creds_lookup)

lemma loadContext_students:
  assumes "map_of (ic_studentsById (loadContext d sid date reads deb)) k = Some s"
  obtains st where "st \<in> set (t_students d)" "st_schoolId st = sid" "st_id st = k" "sr_id s = k"
    "st_status st = sr_status s"
proof -
  from assms obtain st e where st: "(st, e) \<in> set (load_students d sid
      (remdups (map cr_studentId (load_creds d sid (remdups (map nr_epcDigest reads))))))"
    "st_id st = k" "sr_id s = k" "st_status st = sr_status s"
    by (auto simp: loadContext_def Let_def split: if_splits dest!: map_of_js_map_SomeD)
  with load_students_rows(1,2) [OF st(1)] show thesis by (intro that [of st])
qed

lemma loadContext_enrollments:
  assumes "map_of (ic_enrollmentByStudent (loadContext d sid date reads deb)) k = Some e"
  obtains en where "en \<in> set (t_enrollments d)" "en_schoolId en = sid" "en_studentId en = k"
    "en_classSectionId en = er_classSectionId e" "en_status en = ''ACTIVE''"
    "Some (en_academicYearId en) = current_year d sid"
proof -
  from assms obtain s x where "(s, Some x) \<in> set (load_students d sid
      (remdups (map cr_studentId (load_creds d sid (remdups (map nr_epcDigest reads))))))"
    "st_id s = k" "er_classSectionId e = en_classSectionId x"
    by (auto simp: loadContext_def Let_def List.map_filter_def split: if_splits dest!: map_of_js_map_SomeD)
  with load_students_rows(3) [OF this(1)] show thesis
    by (intro that [of x]) (auto simp: active_enrollments_def)
qed

lemma loadContext_session_Some:
  assumes "map_of (ic_sessionBySection (loadContext d sid date reads deb)) k = Some s"
  obtains a where "a \<in> set (t_sessions d)" "as_schoolId a = sid" "as_classSectionId a = k"
    "as_sessionDate a = date" "as_sessionType a = ''GATE_ARRIVAL''" "sn_id s = as_id a" "sn_status s = as_status a"
  using assms
  by (auto simp: loadContext_def Let_def load_sessions_def split: if_splits dest!: map_of_js_map_SomeD)

lemma loadContext_teacher_Some:
  assumes "map_of (ic_teacherBySection (loadContext d sid date reads deb)) k = Some t"
  obtains a where "a \<in> set (t_teacherAssignments d)" "ta_schoolId a = sid" "ta_classSectionId a = k" "ta_teacherId a = t"
  using assms
  by (auto simp: loadContext_def Let_def load_teachers_def split: if_splits dest!: first_teacher_lookup)

lemma loadContext_day:
  "reads \<noteq> [] \<Longrightarrow> ic_isSchoolDay (loadContext d sid date reads deb) = isSchoolOpen d sid date"
  by (simp add: loadContext_def Let_def)

lemma loadContext_fields [simp]:
  "ic_schoolId (loadContext d sid date reads deb) = sid"
  "ic_schoolDate (loadContext d sid date reads deb) = date"
  "ic_debounced (loadContext d sid date reads deb) = deb"
  by (simp_all add: loadContext_def Let_def)

text \<open>
  C1: soundness of acceptance.  When the pipeline accepts a read against the context it loaded, the
  read was not debounced, the school is open on that date, and the outcome names an active badge
  with that digest, its active student and the student's active enrolment of the current academic
  year, all rows of the requesting school; the section either has a gate session that is not
  finalized or a teacher in whose name one can be opened.
\<close>

theorem accepted_read_is_backed:
  assumes "oc_decision (decideRead r (loadContext d sid date reads deb)) = ACCEPTED" "r \<in> set reads"
  shows "nr_epcDigest r \<notin> deb \<and> isSchoolOpen d sid date \<and>
    (\<exists>rc st en. rc \<in> set (t_credentials d) \<and> rc_schoolId rc = sid \<and> rc_credentialDigest rc = nr_epcDigest r
       \<and> rc_status rc = CActive
       \<and> st \<in> set (t_students d) \<and> st_schoolId st = sid \<and> st_id st = rc_studentId rc \<and> st_status st = ''ACTIVE''
       \<and> en \<in> set (t_enrollments d) \<and> en_schoolId en = sid \<and> en_studentId en = st_id st
       \<and> en_status en = ''ACTIVE'' \<and> Some (en_academicYearId en) = current_year d sid
       \<and> oc_credentialId (decideRead r (loadContext d sid date reads deb)) = Some (rc_id rc)
       \<and> oc_studentId (decideRead r (loadContext d sid date reads deb)) = Some (st_id st)
       \<and> oc_classSectionId (decideRead r (loadContext d sid date reads deb)) = Some (en_classSectionId en)
       \<and> ((\<exists>a \<in> set (t_sessions d). as_schoolId a = sid \<and> as_classSectionId a = en_classSectionId en
              \<and> as_sessionDate a = date \<and> as_sessionType a = ''GATE_ARRIVAL'' \<and> as_status a \<noteq> FINALIZED)
          \<or> (\<exists>t \<in> set (t_teacherAssignments d). ta_schoolId t = sid \<and> ta_classSectionId t = en_classSectionId en)))"
proof -
  let ?ctx = "loadContext d sid date reads deb"
  from assms(2) have ne: "reads \<noteq> []" by auto
  from assms(1) show ?thesis
  proof (cases rule: decideRead_acceptedE)
    case (1 cred student enr)
    from 1(3) obtain rc where rc: "rc \<in> set (t_credentials d)" "rc_schoolId rc = sid"
      "rc_credentialDigest rc = nr_epcDigest r" "rc_id rc = cr_id cred" "rc_studentId rc = cr_studentId cred"
      "rc_status rc = cr_status cred" by (rule loadContext_creds)
    from 1(5) obtain st where st: "st \<in> set (t_students d)" "st_schoolId st = sid" "st_id st = cr_studentId cred"
      "sr_id student = cr_studentId cred" "st_status st = sr_status student" by (rule loadContext_students)
    from 1(7) obtain en where en: "en \<in> set (t_enrollments d)" "en_schoolId en = sid" "en_studentId en = sr_id student"
      "en_classSectionId en = er_classSectionId enr" "en_status en = ''ACTIVE''"
      "Some (en_academicYearId en) = current_year d sid" by (rule loadContext_enrollments)
    have "(\<exists>a \<in> set (t_sessions d). as_schoolId a = sid \<and> as_classSectionId a = en_classSectionId en
              \<and> as_sessionDate a = date \<and> as_sessionType a = ''GATE_ARRIVAL'' \<and> as_status a \<noteq> FINALIZED)
          \<or> (\<exists>t \<in> set (t_teacherAssignments d). ta_schoolId t = sid \<and> ta_classSectionId t = en_classSectionId en)"
    proof (cases "map_of (ic_sessionBySection ?ctx) (er_classSectionId enr)")
      case None
      with 1(10) obtain t where "map_of (ic_teacherBySection ?ctx) (er_classSectionId enr) = Some t" by auto
      then show ?thesis by (rule loadContext_teacher_Some) (use en in auto)
    next
      case (Some s)
      with 1(9) en show ?thesis by (auto elim!: loadContext_session_Some)
    qed
    then show ?thesis
      using 1(1,2,4,6,8,11) rc st en loadContext_day [OF ne]
      by (intro conjI exI [of _ rc] exI [of _ st] exI [of _ en]) simp_all
  qed
qed

text \<open>An example school: one badge, one student enrolled in one section with one teacher.\<close>

definition example_db :: db where
  "example_db = empty_db\<lparr>
     t_schools := [\<lparr>sc_id = ''s'', sc_name = [], sc_slug = [], sc_udiseCode = [], sc_district = [], sc_block = None, sc_preferredLanguage = ''en'', sc_timezone = ''UTC'', sc_rfidMode = ''LIVE'', sc_status = ''ACTIVE''\<rparr>],
     t_academicYears := [\<lparr>ay_id = ''y'', ay_schoolId = ''s'', ay_name = ''2026'', ay_startDate = ''2026-01-01'', ay_endDate = ''2026-12-31'', ay_isCurrent = True\<rparr>],
     t_teacherAssignments := [\<lparr>ta_id = ''ta'', ta_schoolId = ''s'', ta_teacherId = ''t'',
        ta_classSectionId = ''k'', ta_createdAt = 0\<rparr>],
     t_students := [\<lparr>st_id = ''p'', st_schoolId = ''s'', st_studentCode = [49], st_banglarShikshaId = None,
        st_name = [65], st_nameBn = None, st_dateOfBirth = None, st_gender = None,
        st_photoUrl = None, st_status = ''ACTIVE''\<rparr>],
     t_enrollments := [\<lparr>en_id = ''e'', en_schoolId = ''s'', en_studentId = ''p'', en_classSectionId = ''k'',
        en_academicYearId = ''y'', en_rollNumber = 1, en_startDate = ''2026-01-05'', en_status = ''ACTIVE''\<rparr>],
     t_credentials := [\<lparr>rc_id = ''c'', rc_schoolId = ''s'', rc_studentId = ''p'', rc_credentialType = ''UHF_EPC_GEN2'',
        rc_credentialDigest = ''E200341201B80201:s'', rc_epcLastFour = Some ''0201'', rc_tidDigest = None,
        rc_securityMode = ''UHF_EPC'', rc_keyVersion = 1, rc_status = CActive, rc_activatedAt = Some 0, rc_expiresAt = None, rc_revokedAt = None,
        rc_revocationReason = None, rc_replacedBy = None, rc_createdByUserId = ''a'', rc_createdAt = 0\<rparr>]\<rparr>"

definition example_normalized :: "nat \<Rightarrow> instant \<Rightarrow> normalized_read" where
  "example_normalized i ts = \<lparr>nr_index = i, nr_epcDigest = ''E200341201B80201:s'', nr_epcLast4 = ''0201'',
     nr_tidDigest = None, nr_antenna = None, nr_rssi = None, nr_readAt = ts, nr_timeSource = ReaderTime,
     nr_freshness = Fresh, nr_idempotencyKey = ''k1''\<rparr>"

theorem accepted_read_is_backed_witness:
  "\<exists>rc st en. rc \<in> set (t_credentials example_db) \<and> rc_status rc = CActive
     \<and> st \<in> set (t_students example_db) \<and> en \<in> set (t_enrollments example_db)
     \<and> oc_studentId (decideRead (example_normalized 0 5)
         (loadContext example_db ''s'' ''d'' [example_normalized 0 5] {})) = Some (st_id st)"
proof -
  have "oc_decision (decideRead (example_normalized 0 5)
      (loadContext example_db ''s'' ''d'' [example_normalized 0 5] {})) = ACCEPTED" by code_simp
  from accepted_read_is_backed [OF this] show ?thesis by auto
qed

end
