(* ===== verification/Ingest_Write.thy ===== *)
theory Ingest_Write
  imports Ingest_Decide
begin

text \<open>
  Models src/src/services/rfid/ingest/write.ts: the transaction that turns decided reads into gate
  sessions, attendance records, attendance events and scan events.  The code mutates the outcome
  objects it shares between lists; here an outcome is identified by its position in the payload
  and each step returns the updated list.  \<open>now\<close> is the time of every \<open>new Date()\<close> of the call.
\<close>

section \<open>Rows\<close>

text \<open>
  attendance_events has a unique index on client_event_id; the insert of a taken identifier is an
  error that rolls the transaction back.
\<close>

definition insert_event_row :: "att_event \<Rightarrow> att_event list \<Rightarrow> att_event list option" where
  "insert_event_row e t = (if ev_clientEventId e \<in> ev_clientEventId ` set t then None else Some (t @ [e]))"

definition insert_event :: "att_event \<Rightarrow> db \<Rightarrow> db result" where
  "insert_event e d =
     (case insert_event_row e (t_events d) of
        None \<Rightarrow> Inl (DbErr ''attendance_events_client_event_id_unique'')
      | Some t \<Rightarrow> Inr (d\<lparr>t_events := t\<rparr>))"

definition set_decision :: "nat \<Rightarrow> decision \<Rightarrow> outcome list \<Rightarrow> outcome list" where
  "set_decision i dec outcomes = upd (\<lambda>o'. oc_index o' = i) (\<lambda>o'. o'\<lparr>oc_decision := dec\<rparr>) outcomes"

section \<open>Step A: gate sessions\<close>

fun insert_gate_sessions :: "world \<Rightarrow> ingest_context \<Rightarrow> instant \<Rightarrow> uuid list \<Rightarrow> db \<Rightarrow> db result" where
  "insert_gate_sessions w ctx now [] d = Inr d"
| "insert_gate_sessions w ctx now (sectionId # rest) d =
     (case map_of (ic_teacherBySection ctx) sectionId of
        None \<Rightarrow> Inl (DbErr ''attendance_sessions.teacher_id not null'')
      | Some teacherId \<Rightarrow>
          if \<exists>s \<in> set (t_sessions d). as_schoolId s = ic_schoolId ctx \<and> as_classSectionId s = sectionId
               \<and> as_sessionDate s = ic_schoolDate ctx \<and> as_sessionType s = ''GATE_ARRIVAL''
          then insert_gate_sessions w ctx now rest d
          else insert_gate_sessions w ctx now rest
            (d\<lparr>t_sessions := t_sessions d @
                 [\<lparr>as_id = gen_uuid w (seq d), as_schoolId = ic_schoolId ctx, as_classSectionId = sectionId,
                   as_teacherId = teacherId, as_sessionDate = ic_schoolDate ctx,
                   as_sessionType = ''GATE_ARRIVAL'', as_status = OPEN, as_finalizedAt = None,
                   as_finalizedBy = None, as_updatedAt = now, as_clientSessionId = None\<rparr>],
               seq := Suc (seq d)\<rparr>))"

definition missing_sections :: "outcome list \<Rightarrow> uuid list" where
  "missing_sections outcomes =
     remdups (map (\<lambda>o'. the (oc_classSectionId o'))
       (filter (\<lambda>o'. oc_decision o' = ACCEPTED \<and> oc_needsSession o') outcomes))"

text \<open>One row of the second select: a finalized session downgrades, another one is remembered.\<close>

fun absorb_session ::
  "att_session \<Rightarrow> outcome list \<times> (uuid \<times> uuid) list \<Rightarrow> outcome list \<times> (uuid \<times> uuid) list" where
  "absorb_session r (outcomes, sids) =
     (if as_status r = FINALIZED
      then (upd (\<lambda>o'. oc_decision o' = ACCEPTED \<and> oc_classSectionId o' = Some (as_classSectionId r))
              (\<lambda>o'. o'\<lparr>oc_decision := SESSION_FINALIZED\<rparr>) outcomes, sids)
      else (outcomes, AList.update (as_classSectionId r) (as_id r) sids))"

definition ensure_sessions ::
  "world \<Rightarrow> ingest_context \<Rightarrow> instant \<Rightarrow> outcome list \<Rightarrow> db
     \<Rightarrow> (outcome list \<times> (uuid \<times> uuid) list \<times> db) result" where
  "ensure_sessions w ctx now outcomes d =
     (let sids0 = map (\<lambda>(k, s). (k, sn_id s)) (ic_sessionBySection ctx);
          missing = missing_sections outcomes;
          no_session = (\<lambda>sids. upd (\<lambda>o'. oc_decision o' = ACCEPTED \<and> map_of sids (the (oc_classSectionId o')) = None)
                                 (\<lambda>o'. o'\<lparr>oc_decision := NO_ACTIVE_SESSION\<rparr>))
      in if missing = [] then Inr (no_session sids0 outcomes, sids0, d)
      else case insert_gate_sessions w ctx now (sort missing) d of
        Inl e \<Rightarrow> Inl e
      | Inr d1 \<Rightarrow>
          let rows = filter (\<lambda>s. as_schoolId s = ic_schoolId ctx \<and> as_classSectionId s \<in> set missing
                       \<and> as_sessionDate s = ic_schoolDate ctx \<and> as_sessionType s = ''GATE_ARRIVAL'')
                       (t_sessions d1);
              (outcomes1, sids) = fold absorb_session rows (outcomes, sids0)
          in Inr (no_session sids outcomes1, sids, d1))"

section \<open>Step B: one record per student\<close>

definition read_at :: "outcome \<Rightarrow> instant" where
  "read_at o' = nr_readAt (the (oc_read o'))"

text \<open>
  The loop over the accepted outcomes.  A later outcome with an earlier read replaces the entry of
  its student; the replaced outcome keeps its decision, as in the code.
\<close>

fun by_student ::
  "outcome list \<Rightarrow> (uuid \<times> outcome) list \<Rightarrow> outcome list \<times> (uuid \<times> outcome) list" where
  "by_student [] m = ([], m)"
| "by_student (o' # os) m =
     (if oc_decision o' \<noteq> ACCEPTED then let (os', m') = by_student os m in (o' # os', m')
      else
        let better = (case map_of m (the (oc_studentId o')) of
                        None \<Rightarrow> True | Some cur \<Rightarrow> read_at o' < read_at cur) in
        if better
        then let (os', m') = by_student os (AList.update (the (oc_studentId o')) o' m) in (o' # os', m')
        else let (os', m') = by_student os m in (o'\<lparr>oc_decision := ALREADY_PRESENT\<rparr> # os', m'))"

text \<open>Entries paired with their session, sorted so that concurrent batches lock in one order.\<close>

definition to_upsert ::
  "world \<Rightarrow> (uuid \<times> uuid) list \<Rightarrow> (uuid \<times> outcome) list \<Rightarrow> (outcome \<times> uuid) list result" where
  "to_upsert w sids m =
     (if \<exists>(k, o') \<in> set m. map_of sids (the (oc_classSectionId o')) = None
      then Inl (JsErr ''INGEST_INVARIANT: accepted outcome without session'')
      else Inr (sort_by (\<lambda>(a, sa) (b, sb). locale_le w (sa @ the (oc_studentId a)) (sb @ the (oc_studentId b)))
        (map (\<lambda>(k, o'). (o', the (map_of sids (the (oc_classSectionId o'))))) m)))"

section \<open>Step C: the upsert\<close>

record returned_row =
  rt_studentId :: uuid
  rt_recordId :: uuid
  rt_inserted :: bool

text \<open>
  \<open>source <> 'MANUAL' AND capture_method <> 'MANUAL'\<close>: with a null source the condition is null,
  which does not update.
\<close>

definition not_manual :: "att_record \<Rightarrow> bool" where
  "not_manual r = (case ar_source r of None \<Rightarrow> False | Some s \<Rightarrow> s \<noteq> ''MANUAL'' \<and> ar_captureMethod r \<noteq> ''MANUAL'')"

text \<open>\<open>GREATEST\<close> ignores nulls.\<close>

definition greatest :: "instant option \<Rightarrow> instant \<Rightarrow> instant option" where
  "greatest a b = (case a of None \<Rightarrow> Some b | Some x \<Rightarrow> Some (max x b))"

definition gate_record :: "world \<Rightarrow> uuid \<Rightarrow> instant \<Rightarrow> outcome \<Rightarrow> uuid \<Rightarrow> nat \<Rightarrow> att_record" where
  "gate_record w schoolId now o' sessionId n =
     \<lparr>ar_id = gen_uuid w n, ar_schoolId = schoolId, ar_sessionId = sessionId,
      ar_studentId = the (oc_studentId o'), ar_status = PRESENT, ar_firstScannedAt = Some (read_at o'),
      ar_lastUpdatedAt = now, ar_hasConflict = False, ar_captureMethod = ''RFID_GATE'',
      ar_source = Some ''RFID'', ar_firstSeenAt = Some (read_at o'), ar_lastSeenAt = Some (read_at o'),
      ar_needsReview = (oc_reviewFlag o' \<noteq> None), ar_reviewReason = oc_reviewFlag o'\<rparr>"

definition upsert_record ::
  "world \<Rightarrow> uuid \<Rightarrow> instant \<Rightarrow> outcome \<times> uuid \<Rightarrow> db \<times> returned_row list \<Rightarrow> db \<times> returned_row list" where
  "upsert_record w schoolId now = (\<lambda>(o', sessionId) (d, ret).
     (let hit = (\<lambda>r. ar_sessionId r = sessionId \<and> ar_studentId r = the (oc_studentId o')) in
      case sel1 hit (t_records d) of
        None \<Rightarrow>
          (d\<lparr>t_records := t_records d @ [gate_record w schoolId now o' sessionId (seq d)], seq := Suc (seq d)\<rparr>,
           ret @ [\<lparr>rt_studentId = the (oc_studentId o'), rt_recordId = gen_uuid w (seq d), rt_inserted = True\<rparr>])
      | Some r \<Rightarrow>
          if not_manual r then
            (d\<lparr>t_records := upd (\<lambda>x. hit x \<and> not_manual x)
                 (\<lambda>x. x\<lparr>ar_lastSeenAt := greatest (ar_lastSeenAt x) (read_at o'), ar_lastUpdatedAt := now\<rparr>)
                 (t_records d)\<rparr>,
             ret @ [\<lparr>rt_studentId = ar_studentId r, rt_recordId = ar_id r, rt_inserted = False\<rparr>])
          else (d, ret)))"

definition apply_returned ::
  "(uuid \<times> returned_row) list \<Rightarrow> outcome \<times> uuid \<Rightarrow> outcome list \<Rightarrow> outcome list" where
  "apply_returned result = (\<lambda>(o', _) outcomes.
     (case map_of result (the (oc_studentId o')) of
        None \<Rightarrow> set_decision (oc_index o') MANUAL_OVERRIDE_PRESERVED outcomes
      | Some r \<Rightarrow> if \<not> rt_inserted r then set_decision (oc_index o') ALREADY_PRESENT outcomes
                  else outcomes))"

definition presence_event ::
  "world \<Rightarrow> ingest_context \<Rightarrow> uuid \<Rightarrow> instant \<Rightarrow> (uuid \<times> uuid) list \<Rightarrow> (uuid \<times> outcome) list
     \<Rightarrow> returned_row \<Rightarrow> nat \<Rightarrow> att_event" where
  "presence_event w ctx readerId now sids byStudent r n =
     (let outcome = map_of byStudent (rt_studentId r);
          sectionId = (case outcome of None \<Rightarrow> None | Some o' \<Rightarrow> oc_classSectionId o');
          sessionId = (case sectionId of None \<Rightarrow> None | Some k \<Rightarrow> map_of sids k)
      in \<lparr>ev_id = gen_uuid w n, ev_schoolId = ic_schoolId ctx, ev_clientEventId = gen_uuid w (Suc n),
          ev_sessionId = (case sessionId of None \<Rightarrow> [] | Some s \<Rightarrow> s),
          ev_studentId = rt_studentId r, ev_eventType = ''RFID_PRESENT'', ev_statusValue = PRESENT,
          ev_clientTimestamp = (case outcome of None \<Rightarrow> now | Some o' \<Rightarrow> read_at o'),
          ev_serverReceivedAt = now, ev_deviceId = None, ev_actorType = ''READER'', ev_actorId = None,
          ev_actorReaderId = Some readerId, ev_metadata = JNull, ev_captureMethod = ''RFID_GATE'',
          ev_sourceReaderId = Some readerId\<rparr>)"

fun insert_presence_events ::
  "world \<Rightarrow> ingest_context \<Rightarrow> uuid \<Rightarrow> instant \<Rightarrow> (uuid \<times> uuid) list \<Rightarrow> (uuid \<times> outcome) list
     \<Rightarrow> returned_row list \<Rightarrow> db \<Rightarrow> db result" where
  "insert_presence_events w ctx readerId now sids m [] d = Inr d"
| "insert_presence_events w ctx readerId now sids m (r # rs) d =
     (case insert_event (presence_event w ctx readerId now sids m r (seq d)) d of
        Inl e \<Rightarrow> Inl e
      | Inr d' \<Rightarrow> insert_presence_events w ctx readerId now sids m rs (d'\<lparr>seq := Suc (Suc (seq d'))\<rparr>))"

section \<open>Step D: the scan event log\<close>

text \<open>A number in an integer column: PostgreSQL rejects fractions and values beyond 32 bits.\<close>

definition int4 :: "rat option \<Rightarrow> int option result" where
  "int4 q = (case q of
       None \<Rightarrow> Inr None
     | Some x \<Rightarrow> if of_int \<lfloor>x\<rfloor> = x \<and> - 2147483648 \<le> \<lfloor>x\<rfloor> \<and> \<lfloor>x\<rfloor> \<le> 2147483647 then Inr (Some \<lfloor>x\<rfloor>)
                 else Inl (DbErr ''invalid input for type integer''))"

definition loggable :: "outcome \<Rightarrow> bool" where
  "loggable o' = (oc_read o' \<noteq> None \<and> oc_decision o' \<notin> DUPLICATE_DECISIONS)"

definition scan_row ::
  "world \<Rightarrow> ingest_context \<Rightarrow> uuid \<Rightarrow> outcome \<Rightarrow> nat \<Rightarrow> scan_event result" where
  "scan_row w ctx readerId o' n =
     (let read = the (oc_read o') in
      case int4 (nr_antenna read) of
        Inl e \<Rightarrow> Inl e
      | Inr antenna \<Rightarrow>
          (case int4 (nr_rssi read) of
             Inl e \<Rightarrow> Inl e
           | Inr rssi \<Rightarrow> Inr
               \<lparr>sv_id = gen_uuid w n, sv_schoolId = ic_schoolId ctx, sv_readerId = readerId,
                sv_credentialId = oc_credentialId o',
                sv_sessionId = (case oc_classSectionId o' of
                    None \<Rightarrow> None
                  | Some k \<Rightarrow> map_option sn_id (map_of (ic_sessionBySection ctx) k)),
                sv_clientEventId = nr_idempotencyKey read, sv_idempotencyKey = Some (nr_idempotencyKey read),
                sv_epcDigest = Some (nr_epcDigest read), sv_epcLastFour = Some (nr_epcLast4 read),
                sv_tidDigest = nr_tidDigest read, sv_antennaPort = antenna, sv_peakRssi = rssi,
                sv_scanTimestamp = nr_readAt read, sv_decision = oc_decision o',
                sv_studentId = oc_studentId o', sv_reviewFlag = oc_reviewFlag o'\<rparr>))"

text \<open>
  INSERT ... ON CONFLICT (idempotency_key) DO NOTHING, one row at a time: a known key adds nothing; a
  row of the school with the same client_event_id but another key violates the other unique index.
\<close>

fun insert_scan_rows :: "world \<Rightarrow> ingest_context \<Rightarrow> uuid \<Rightarrow> outcome list \<Rightarrow> db \<Rightarrow> db result" where
  "insert_scan_rows w ctx readerId [] d = Inr d"
| "insert_scan_rows w ctx readerId (o' # os) d =
     (case scan_row w ctx readerId o' (seq d) of
        Inl e \<Rightarrow> Inl e
      | Inr r \<Rightarrow>
          if sv_idempotencyKey r \<in> sv_idempotencyKey ` set (t_scanEvents d)
          then insert_scan_rows w ctx readerId os d
          else if \<exists>x \<in> set (t_scanEvents d). sv_schoolId x = sv_schoolId r \<and> sv_clientEventId x = sv_clientEventId r
          then Inl (DbErr ''rfid_scan_events_client_event_idx'')
          else insert_scan_rows w ctx readerId os
            (d\<lparr>t_scanEvents := t_scanEvents d @ [r], seq := Suc (seq d)\<rparr>))"

definition writeScanEvents :: "world \<Rightarrow> ingest_context \<Rightarrow> outcome list \<Rightarrow> uuid \<Rightarrow> db \<Rightarrow> db result" where
  "writeScanEvents w ctx outcomes readerId d =
     (let rows = filter loggable outcomes in
      if rows = [] then Inr d else insert_scan_rows w ctx readerId rows d)"

section \<open>The transaction\<close>

definition writeOutcomes ::
  "world \<Rightarrow> instant \<Rightarrow> ingest_context \<Rightarrow> outcome list \<Rightarrow> uuid \<Rightarrow> db \<Rightarrow> (outcome list \<times> db) result" where
  "writeOutcomes w now ctx outcomes readerId d =
     (case ensure_sessions w ctx now outcomes d of
        Inl e \<Rightarrow> Inl e
      | Inr (outcomes1, sids, d1) \<Rightarrow>
          let (outcomes2, byStudent) = by_student outcomes1 [] in
          (case to_upsert w sids byStudent of
             Inl e \<Rightarrow> Inl e
           | Inr todo \<Rightarrow>
               let (d2, returned) = fold (upsert_record w (ic_schoolId ctx) now) todo (d1, []);
                   result = js_map (map (\<lambda>r. (rt_studentId r, r)) returned);
                   outcomes3 = fold (apply_returned result) todo outcomes2
               in case insert_presence_events w ctx readerId now sids byStudent (filter rt_inserted returned) d2 of
                    Inl e \<Rightarrow> Inl e
                  | Inr d3 \<Rightarrow>
                      (case writeScanEvents w ctx outcomes3 readerId d3 of
                         Inl e \<Rightarrow> Inl e
                       | Inr d4 \<Rightarrow> Inr (outcomes3, d4))))"

end
