(* ===== verification/Ingest_Gate.thy ===== *)
theory Ingest_Gate
  imports Ingest_Write
begin

text \<open>
  What the gate transaction of Ingest_Write guarantees: decisions only move away from ACCEPTED,
  existing attendance records keep their status (manual ones everything), one record per session
  and student, nothing lands in a finalized session, and replays of the scan log change nothing.
\<close>

section \<open>Outcomes\<close>

text \<open>A step changes nothing of an outcome but the decision, and that only if it was ACCEPTED.\<close>

definition decision_step :: "outcome \<Rightarrow> outcome \<Rightarrow> bool" where
  "decision_step a b \<longleftrightarrow> b = a\<lparr>oc_decision := oc_decision b\<rparr> \<and> (oc_decision a \<noteq> ACCEPTED \<longrightarrow> b = a)"

lemma decision_step_refl [simp]: "decision_step a a"
  by (simp add: decision_step_def)

lemma decision_step_set [simp]: "oc_decision a = ACCEPTED \<Longrightarrow> decision_step a (a\<lparr>oc_decision := dec\<rparr>)"
  by (simp add: decision_step_def)

lemma decision_step_trans: "decision_step a b \<Longrightarrow> decision_step b c \<Longrightarrow> decision_step a c"
  unfolding decision_step_def by (cases a; cases b; cases c) auto

lemma decision_step_fields:
  "decision_step a b \<Longrightarrow> oc_index b = oc_index a \<and> oc_read b = oc_read a \<and> oc_studentId b = oc_studentId a
     \<and> oc_classSectionId b = oc_classSectionId a \<and> oc_needsSession b = oc_needsSession a
     \<and> oc_reviewFlag b = oc_reviewFlag a \<and> (oc_decision b = ACCEPTED \<longrightarrow> oc_decision a = ACCEPTED)"
  unfolding decision_step_def by (cases a; cases b) auto

abbreviation decision_steps :: "outcome list \<Rightarrow> outcome list \<Rightarrow> bool" where
  "decision_steps \<equiv> list_all2 decision_step"

lemma decision_steps_trans: "decision_steps a b \<Longrightarrow> decision_steps b c \<Longrightarrow> decision_steps a c"
  by (rule list_all2_trans [OF decision_step_trans])

lemma decision_steps_refl [simp]: "decision_steps a a"
  by (simp add: list_all2_same)

lemma decision_steps_index: "decision_steps a b \<Longrightarrow> map oc_index b = map oc_index a"
  by (induction rule: list_all2_induct) (auto dest: decision_step_fields)

lemma decision_steps_in:
  "decision_steps a b \<Longrightarrow> y \<in> set b \<Longrightarrow> \<exists>x \<in> set a. decision_step x y"
  by (induction rule: list_all2_induct) auto

lemma decision_steps_upd:
  "(\<And>x. p x \<Longrightarrow> oc_decision x = ACCEPTED) \<Longrightarrow> decision_steps a (upd p (\<lambda>x. x\<lparr>oc_decision := dec\<rparr>) a)"
  by (induction a) auto

lemma decision_steps_set_decision:
  assumes "distinct (map oc_index a)" "x \<in> set a" "oc_decision x = ACCEPTED"
  shows "decision_steps a (set_decision (oc_index x) dec a)"
proof -
  have "y = x" if "y \<in> set a" "oc_index y = oc_index x" for y
    using assms(1,2) that by (auto simp: distinct_map inj_on_def)
  with assms(3) have "\<forall>y \<in> set a. oc_index y = oc_index x \<longrightarrow> oc_decision y = ACCEPTED" by auto
  then show ?thesis unfolding set_decision_def by (induction a) auto
qed

subsection \<open>Step A\<close>

lemma fold_absorb_steps:
  "fold absorb_session rows (outs, sids) = (outs', sids') \<Longrightarrow> decision_steps outs outs'"
proof (induction rows arbitrary: outs sids)
  case (Cons r rows)
  show ?case
  proof (cases "as_status r = FINALIZED")
    case True
    with Cons.prems have "fold absorb_session rows (upd (\<lambda>o'. oc_decision o' = ACCEPTED
        \<and> oc_classSectionId o' = Some (as_classSectionId r)) (\<lambda>o'. o'\<lparr>oc_decision := SESSION_FINALIZED\<rparr>) outs, sids)
        = (outs', sids')" by simp
    from Cons.IH [OF this] show ?thesis by (rule decision_steps_trans [rotated]) (rule decision_steps_upd, simp)
  qed (use Cons in auto)
qed simp

lemma fold_absorb_sids:
  "fold absorb_session rows (outs, sids) = (outs', sids') \<Longrightarrow> map_of sids' k = Some s \<Longrightarrow>
     map_of sids k = Some s \<or> (\<exists>r \<in> set rows. as_classSectionId r = k \<and> as_id r = s \<and> as_status r \<noteq> FINALIZED)"
proof (induction rows arbitrary: outs sids)
  case (Cons r rows)
  show ?case
  proof (cases "as_status r = FINALIZED")
    case True
    with Cons show ?thesis by fastforce
  next
    case False
    with Cons.prems have "fold absorb_session rows (outs, AList.update (as_classSectionId r) (as_id r) sids) = (outs', sids')"
      by simp
    from Cons.IH [OF this Cons.prems(2)] False show ?thesis by (auto simp: update_conv' split: if_splits)
  qed
qed simp

definition gate_key :: "ingest_context \<Rightarrow> att_session \<Rightarrow> bool" where
  "gate_key ctx s \<longleftrightarrow> as_schoolId s = ic_schoolId ctx \<and> as_sessionDate s = ic_schoolDate ctx
     \<and> as_sessionType s = ''GATE_ARRIVAL''"

text \<open>Opening sessions appends OPEN gate sessions of the school and day and touches no other table.\<close>

lemma insert_gate_sessions_frame:
  "insert_gate_sessions w ctx now ks d = Inr d' \<Longrightarrow>
     \<exists>new n. d' = d\<lparr>t_sessions := t_sessions d @ new, seq := n\<rparr>
       \<and> (\<forall>s \<in> set new. gate_key ctx s \<and> as_status s = OPEN \<and> as_classSectionId s \<in> set ks)"
proof (induction ks arbitrary: d)
  case Nil
  then show ?case by (intro exI [of _ "[]"] exI [of _ "seq d"]) simp
next
  case (Cons k ks)
  from Cons.prems obtain t where "map_of (ic_teacherBySection ctx) k = Some t" by (auto split: option.splits)
  with Cons.prems show ?case
    by (auto simp: gate_key_def dest!: Cons.IH split: if_splits)
       (fastforce intro!: exI [of _ "_ # _"])+
qed


text \<open>What the session map of step A promises: see the three predicates.\<close>

definition sessions_opened :: "ingest_context \<Rightarrow> db \<Rightarrow> db \<Rightarrow> bool" where
  "sessions_opened ctx d d' \<longleftrightarrow> (\<exists>new n. d' = d\<lparr>t_sessions := t_sessions d @ new, seq := n\<rparr>
     \<and> (\<forall>s \<in> set new. gate_key ctx s \<and> as_status s = OPEN))"

definition sections_covered :: "(uuid \<times> uuid) list \<Rightarrow> outcome list \<Rightarrow> bool" where
  "sections_covered sids outs \<longleftrightarrow>
     (\<forall>o' \<in> set outs. oc_decision o' = ACCEPTED \<longrightarrow> map_of sids (the (oc_classSectionId o')) \<noteq> None)"

definition session_map_ok :: "ingest_context \<Rightarrow> db \<Rightarrow> (uuid \<times> uuid) list \<Rightarrow> bool" where
  "session_map_ok ctx d sids \<longleftrightarrow> (\<forall>k s. map_of sids k = Some s \<longrightarrow>
     map_option sn_id (map_of (ic_sessionBySection ctx) k) = Some s
     \<or> (\<exists>r \<in> set (t_sessions d). gate_key ctx r \<and> as_classSectionId r = k \<and> as_id r = s \<and> as_status r \<noteq> FINALIZED))"

lemma ensure_sessions_facts:
  assumes "ensure_sessions w ctx now outs d = Inr (outs', sids, d')"
  shows "decision_steps outs outs' \<and> sessions_opened ctx d d' \<and> sections_covered sids outs'
    \<and> session_map_ok ctx d' sids"
proof -
  define sids0 where "sids0 = map (\<lambda>(k, s). (k, sn_id s)) (ic_sessionBySection ctx)"
  define no_session where "no_session = (\<lambda>sids :: (uuid \<times> uuid) list.
     upd (\<lambda>o' :: outcome. oc_decision o' = ACCEPTED \<and> map_of sids (the (oc_classSectionId o')) = None)
         (\<lambda>o'. o'\<lparr>oc_decision := NO_ACTIVE_SESSION\<rparr>))"
  have ns: "decision_steps a (no_session ss a)" for a ss
    unfolding no_session_def by (rule decision_steps_upd) simp
  have cov: "sections_covered ss (no_session ss a)" for a ss
    unfolding no_session_def sections_covered_def by (induction a) auto
  have m0: "map_of sids0 k = map_option sn_id (map_of (ic_sessionBySection ctx) k)" for k
    unfolding sids0_def by (simp add: map_of_map)
  show ?thesis
  proof (cases "missing_sections outs = []")
    case True
    with assms have r: "outs' = no_session sids0 outs" "sids = sids0" "d' = d"
      by (auto simp: ensure_sessions_def Let_def sids0_def no_session_def)
    have "sessions_opened ctx d d"
      unfolding sessions_opened_def by (intro exI [of _ "[]"] exI [of _ "seq d"]) simp
    with r ns cov show ?thesis by (simp add: session_map_ok_def m0)
  next
    case False
    define rows where "rows d1 = filter (\<lambda>s. as_schoolId s = ic_schoolId ctx
         \<and> as_classSectionId s \<in> set (missing_sections outs) \<and> as_sessionDate s = ic_schoolDate ctx
         \<and> as_sessionType s = ''GATE_ARRIVAL'') (t_sessions d1)" for d1 :: db
    from False assms obtain d1 where ins: "insert_gate_sessions w ctx now (sort (missing_sections outs)) d = Inr d1"
      by (cases "insert_gate_sessions w ctx now (sort (missing_sections outs)) d")
         (simp_all add: ensure_sessions_def Let_def)
    obtain outs1 sids1 where fa: "fold absorb_session (rows d1) (outs, sids0) = (outs1, sids1)" by fastforce
    from False assms ins fa have eq: "outs' = no_session sids1 outs1" "sids = sids1" "d' = d1"
      by (auto simp: ensure_sessions_def Let_def sids0_def no_session_def rows_def)
    note ins = ins [folded eq] and fa = fa [folded eq] and o = eq(1) [folded eq(2)]
    have rows: "set (rows d') \<subseteq> {r \<in> set (t_sessions d'). gate_key ctx r}"
      by (auto simp: rows_def gate_key_def)
    have "decision_steps outs outs'" unfolding o
      by (rule decision_steps_trans [OF fold_absorb_steps [OF fa] ns])
    moreover have "sessions_opened ctx d d'"
      unfolding sessions_opened_def using insert_gate_sessions_frame [OF ins] by blast
    moreover have "session_map_ok ctx d' sids"
      unfolding session_map_ok_def
    proof (intro allI impI)
      fix k s assume "map_of sids k = Some s"
      from fold_absorb_sids [OF fa this] rows m0 [of k]
      show "map_option sn_id (map_of (ic_sessionBySection ctx) k) = Some s \<or>
        (\<exists>r \<in> set (t_sessions d'). gate_key ctx r \<and> as_classSectionId r = k \<and> as_id r = s \<and> as_status r \<noteq> FINALIZED)"
        by auto
    qed
    ultimately show ?thesis using cov o by simp
  qed
qed

subsection \<open>Step B\<close>

definition entries_of :: "outcome list \<Rightarrow> (uuid \<times> outcome) list \<Rightarrow> bool" where
  "entries_of os m \<longleftrightarrow> (\<forall>k o'. map_of m k = Some o' \<longrightarrow>
     o' \<in> set os \<and> oc_decision o' = ACCEPTED \<and> the (oc_studentId o') = k)"

definition students_covered :: "outcome list \<Rightarrow> (uuid \<times> outcome) list \<Rightarrow> bool" where
  "students_covered os m \<longleftrightarrow>
     (\<forall>o' \<in> set os. oc_decision o' = ACCEPTED \<longrightarrow> map_of m (the (oc_studentId o')) \<noteq> None)"

lemma by_student_accumulates:
  "by_student os m = (os', m') \<Longrightarrow> entries_of done m \<Longrightarrow> students_covered done m \<Longrightarrow> distinct (map fst m) \<Longrightarrow>
     decision_steps os os' \<and> entries_of (done @ os') m' \<and> students_covered (done @ os') m' \<and> distinct (map fst m')"
proof (induction os m arbitrary: os' m' \<open>done\<close> rule: by_student.induct)
  case (1 m)
  then show ?case by simp
next
  case (2 a os m)
  let ?k = "the (oc_studentId a)"
  let ?better = "case map_of m ?k of None \<Rightarrow> True | Some cur \<Rightarrow> read_at a < read_at cur"
  consider (skip) "oc_decision a \<noteq> ACCEPTED" | (take) "oc_decision a = ACCEPTED" "?better"
    | (drop) "oc_decision a = ACCEPTED" "\<not> ?better" by blast
  then show ?case
  proof cases
    case skip
    then obtain os1 where s: "by_student os m = (os1, m')" "os' = a # os1"
      using "2.prems" by (auto simp: Let_def split: prod.splits)
    have "entries_of (done @ [a]) m" "students_covered (done @ [a]) m"
      using "2.prems" skip by (auto simp: entries_of_def students_covered_def)
    from "2.IH"(1) [OF skip s(1) this] "2.prems" s(2) show ?thesis by simp
  next
    case take
    then obtain os1 where s: "by_student os (AList.update ?k a m) = (os1, m')" "os' = a # os1"
      using "2.prems" by (auto simp: Let_def split: prod.splits)
    have "entries_of (done @ [a]) (AList.update ?k a m)" "students_covered (done @ [a]) (AList.update ?k a m)"
      "distinct (map fst (AList.update ?k a m))"
      using "2.prems" take(1) by (auto simp: entries_of_def students_covered_def update_conv' distinct_update split: if_splits)
    from "2.IH"(2) [OF _ refl take(2) s(1) this] take(1) s(2) show ?thesis by simp
  next
    case drop
    let ?b = "a\<lparr>oc_decision := ALREADY_PRESENT\<rparr>"
    from drop obtain os1 where s: "by_student os m = (os1, m')" "os' = ?b # os1"
      using "2.prems" by (auto simp: Let_def split: prod.splits)
    have "entries_of (done @ [?b]) m" "students_covered (done @ [?b]) m"
      using "2.prems" by (auto simp: entries_of_def students_covered_def)
    from "2.IH"(3) [OF _ refl drop(2) s(1) this] "2.prems" drop(1) s(2) show ?thesis by simp
  qed
qed

lemma by_student_facts:
  assumes "by_student os [] = (os', m)"
  shows "decision_steps os os' \<and> entries_of os' m \<and> students_covered os' m \<and> distinct (map fst m)"
proof -
  have "entries_of [] []" "students_covered [] []" by (simp_all add: entries_of_def students_covered_def)
  from by_student_accumulates [OF assms this] show ?thesis by simp
qed

lemma to_upsert_in:
  assumes "to_upsert w sids m = Inr todo"
  shows "mset todo = mset (map (\<lambda>(k, o'). (o', the (map_of sids (the (oc_classSectionId o'))))) m)"
    and "\<And>o' s. (o', s) \<in> set todo \<Longrightarrow> map_of sids (the (oc_classSectionId o')) = Some s \<and> (\<exists>k. (k, o') \<in> set m)"
proof -
  from assms have ok: "\<forall>(k, o') \<in> set m. map_of sids (the (oc_classSectionId o')) \<noteq> None"
    by (auto simp: to_upsert_def split: if_splits)
  from assms show ms: "mset todo = mset (map (\<lambda>(k, o'). (o', the (map_of sids (the (oc_classSectionId o'))))) m)"
    by (auto simp: to_upsert_def split: if_splits)
  show "map_of sids (the (oc_classSectionId o')) = Some s \<and> (\<exists>k. (k, o') \<in> set m)" if "(o', s) \<in> set todo" for o' s
    using that ok mset_eq_setD [OF ms] by fastforce
qed


subsection \<open>Step C\<close>

text \<open>An existing record keeps everything but the two last-seen times, and those too if it is manual.\<close>

lemma not_manual_touch [simp]:
  "not_manual (x\<lparr>ar_lastSeenAt := a, ar_lastUpdatedAt := b\<rparr>) = not_manual x"
  by (simp add: not_manual_def split: option.split)

definition record_touch :: "att_record \<Rightarrow> att_record \<Rightarrow> bool" where
  "record_touch x y \<longleftrightarrow> y = x \<or> (not_manual x \<and> (\<exists>a b. y = x\<lparr>ar_lastSeenAt := a, ar_lastUpdatedAt := b\<rparr>))"

definition record_key :: "att_record \<Rightarrow> uuid \<times> uuid" where
  "record_key r = (ar_sessionId r, ar_studentId r)"

lemma record_touch_refl [simp]: "record_touch x x"
  by (simp add: record_touch_def)

lemma record_touch_fields:
  "record_touch x y \<Longrightarrow> record_key y = record_key x \<and> ar_status y = ar_status x \<and> ar_schoolId y = ar_schoolId x
     \<and> ar_source y = ar_source x \<and> ar_captureMethod y = ar_captureMethod x \<and> ar_id y = ar_id x
     \<and> not_manual y = not_manual x \<and> (\<not> not_manual x \<longrightarrow> y = x)"
  by (auto simp: record_touch_def record_key_def)

lemma record_touch_trans:
  assumes "record_touch x y" "record_touch y z" shows "record_touch x z"
proof (cases "y = x \<or> z = y")
  case False
  with assms obtain a b c e where "not_manual x" "y = x\<lparr>ar_lastSeenAt := a, ar_lastUpdatedAt := b\<rparr>"
    "z = y\<lparr>ar_lastSeenAt := c, ar_lastUpdatedAt := e\<rparr>" by (auto simp: record_touch_def)
  then have "not_manual x" "z = x\<lparr>ar_lastSeenAt := c, ar_lastUpdatedAt := e\<rparr>" by simp_all
  then show ?thesis unfolding record_touch_def by blast
qed (use assms in auto)

text \<open>The records after a sequence of upserts: the old ones touched, and new gate records.\<close>

definition new_gate_record :: "uuid \<Rightarrow> (outcome \<times> uuid) set \<Rightarrow> att_record \<Rightarrow> bool" where
  "new_gate_record schoolId todo r \<longleftrightarrow> ar_schoolId r = schoolId \<and> ar_status r = PRESENT
     \<and> ar_source r = Some ''RFID'' \<and> ar_captureMethod r = ''RFID_GATE''
     \<and> (\<exists>(o', s) \<in> todo. ar_sessionId r = s \<and> ar_studentId r = the (oc_studentId o'))"

definition records_grow :: "uuid \<Rightarrow> (outcome \<times> uuid) set \<Rightarrow> att_record list \<Rightarrow> att_record list \<Rightarrow> bool" where
  "records_grow schoolId todo t t' \<longleftrightarrow> (\<exists>old new. t' = old @ new \<and> list_all2 record_touch t old
     \<and> (\<forall>r \<in> set new. new_gate_record schoolId todo r))"

lemma new_gate_record_touch: "new_gate_record s todo x \<Longrightarrow> record_touch x y \<Longrightarrow> new_gate_record s todo y"
  unfolding new_gate_record_def using record_touch_fields [of x y] by (auto simp: record_key_def)

lemma records_grow_refl [simp]: "records_grow s todo t t"
  unfolding records_grow_def by (intro exI [of _ t] exI [of _ "[]"]) (simp add: list_all2_same)

lemma records_grow_trans:
  assumes "records_grow s todo t u" "records_grow s todo u v"
  shows "records_grow s todo t v"
proof -
  from assms(1) obtain o1 n1 where u: "u = o1 @ n1" "list_all2 record_touch t o1" "\<forall>r \<in> set n1. new_gate_record s todo r"
    by (auto simp: records_grow_def)
  from assms(2) u(1) obtain o2 n2 where v: "v = o2 @ n2" "list_all2 record_touch (o1 @ n1) o2"
    "\<forall>r \<in> set n2. new_gate_record s todo r" by (auto simp: records_grow_def)
  from v(2) obtain p q where pq: "o2 = p @ q" "list_all2 record_touch o1 p" "list_all2 record_touch n1 q"
    by (auto simp: list_all2_append1)
  have "list_all2 record_touch t p" by (rule list_all2_trans [OF record_touch_trans u(2) pq(2)])
  moreover have "\<forall>r \<in> set (q @ n2). new_gate_record s todo r"
    using pq(3) u(3) v(3) new_gate_record_touch by (fastforce simp: list_all2_iff in_set_zip set_zip in_set_conv_nth)
  ultimately show ?thesis unfolding records_grow_def v(1) pq(1) by (intro exI [of _ p] exI [of _ "q @ n2"]) simp
qed

lemma records_grow_upd:
  "(\<And>x. p x \<Longrightarrow> not_manual x) \<Longrightarrow>
     records_grow s todo t (upd p (\<lambda>x. x\<lparr>ar_lastSeenAt := f x, ar_lastUpdatedAt := now\<rparr>) t)"
  unfolding records_grow_def
  by (rule exI [of _ "upd p (\<lambda>x. x\<lparr>ar_lastSeenAt := f x, ar_lastUpdatedAt := now\<rparr>) t"], rule exI [of _ "[]"])
     (fastforce simp: upd_def list_all2_map2 list_all2_same record_touch_def)

lemma records_grow_keys:
  "records_grow s todo t t' \<Longrightarrow> \<exists>ks. map record_key t' = map record_key t @ ks"
proof -
  assume "records_grow s todo t t'"
  then obtain old new where "t' = old @ new" "list_all2 record_touch t old" by (auto simp: records_grow_def)
  moreover from this(2) have "map record_key old = map record_key t"
    by (induction rule: list_all2_induct) (auto dest: record_touch_fields)
  ultimately show ?thesis by simp
qed

text \<open>One upsert.\<close>

lemma upsert_record_facts:
  assumes "upsert_record w school now (o', s) (d, ret) = (d', ret')" "(o', s) \<in> todo"
  shows "records_grow school todo (t_records d) (t_records d')
    \<and> d' = d\<lparr>t_records := t_records d', seq := seq d'\<rparr>
    \<and> (distinct (map record_key (t_records d)) \<longrightarrow> distinct (map record_key (t_records d')))
    \<and> (s, the (oc_studentId o')) \<in> record_key ` set (t_records d')"
proof (cases "sel1 (\<lambda>r. ar_sessionId r = s \<and> ar_studentId r = the (oc_studentId o')) (t_records d)")
  case None
  then have d': "d' = d\<lparr>t_records := t_records d @ [gate_record w school now o' s (seq d)], seq := Suc (seq d)\<rparr>"
    using assms(1) by (simp add: upsert_record_def Let_def)
  have k: "record_key (gate_record w school now o' s n) = (s, the (oc_studentId o'))" for n
    by (simp add: record_key_def gate_record_def)
  from None have "(s, the (oc_studentId o')) \<notin> record_key ` set (t_records d)"
    by (auto simp: sel1_None_iff record_key_def)
  moreover have "new_gate_record school todo (gate_record w school now o' s (seq d))"
    using assms(2) by (auto simp: new_gate_record_def gate_record_def)
  then have "records_grow school todo (t_records d) (t_records d')"
    unfolding records_grow_def d' by (intro exI [of _ "t_records d"] exI [of _ "[_]"]) (simp add: list_all2_same)
  ultimately show ?thesis
    using d' k by auto
next
  case (Some r)
  from sel1_SomeD [OF Some] have key: "(s, the (oc_studentId o')) \<in> record_key ` set (t_records d)"
    by (auto simp: record_key_def)
  show ?thesis
  proof (cases "not_manual r")
    case True
    let ?t = "upd (\<lambda>x. (ar_sessionId x = s \<and> ar_studentId x = the (oc_studentId o')) \<and> not_manual x)
                 (\<lambda>x. x\<lparr>ar_lastSeenAt := greatest (ar_lastSeenAt x) (read_at o'), ar_lastUpdatedAt := now\<rparr>)
                 (t_records d)"
    from True Some assms(1) have d': "d' = d\<lparr>t_records := ?t\<rparr>" by (simp add: upsert_record_def Let_def)
    have m: "map record_key ?t = map record_key (t_records d)"
      by (rule map_key_upd) (simp add: record_key_def)
    from arg_cong [OF m, of set] have img: "record_key ` set ?t = record_key ` set (t_records d)"
      by (simp only: list.set_map)
    have rg: "records_grow school todo (t_records d) ?t" by (rule records_grow_upd) simp
    show ?thesis
    proof (intro conjI impI)
      show "records_grow school todo (t_records d) (t_records d')" using rg by (simp add: d')
      show "d' = d\<lparr>t_records := t_records d', seq := seq d'\<rparr>" by (simp add: d')
      show "distinct (map record_key (t_records d'))" if "distinct (map record_key (t_records d))"
        using m that by (simp add: d')
      show "(s, the (oc_studentId o')) \<in> record_key ` set (t_records d')" using key img by (simp add: d')
    qed
  next
    case False
    with Some assms(1) have "d' = d" by (simp add: upsert_record_def Let_def)
    with key show ?thesis by simp
  qed
qed


lemma records_frame_trans:
  "d1 = d\<lparr>t_records := a, seq := b\<rparr> \<Longrightarrow> d' = d1\<lparr>t_records := c, seq := e\<rparr> \<Longrightarrow> d' = d\<lparr>t_records := c, seq := e\<rparr>"
  by simp

lemma fold_upsert_facts:
  assumes "fold (upsert_record w school now) todo (d, ret) = (d', ret')" "set todo \<subseteq> all"
  shows "records_grow school all (t_records d) (t_records d')
    \<and> d' = d\<lparr>t_records := t_records d', seq := seq d'\<rparr>
    \<and> (distinct (map record_key (t_records d)) \<longrightarrow> distinct (map record_key (t_records d')))
    \<and> (\<forall>(o', s) \<in> set todo. (s, the (oc_studentId o')) \<in> record_key ` set (t_records d'))"
  using assms
proof (induction todo arbitrary: d ret)
  case (Cons a todo)
  obtain o' s where a: "a = (o', s)" by (cases a)
  obtain d1 ret1 where one: "upsert_record w school now (o', s) (d, ret) = (d1, ret1)" by fastforce
  with Cons.prems a have rest: "fold (upsert_record w school now) todo (d1, ret1) = (d', ret')"
    and inall: "(o', s) \<in> all" "set todo \<subseteq> all" by auto
  note f1 = upsert_record_facts [OF one inall(1)]
  note f2 = Cons.IH [OF rest inall(2)]
  from f2 obtain ks where "map record_key (t_records d') = map record_key (t_records d1) @ ks"
    using records_grow_keys by blast
  from arg_cong [OF this, of set] have sub: "record_key ` set (t_records d1) \<subseteq> record_key ` set (t_records d')"
    by auto
  show ?case
  proof (intro conjI)
    show "records_grow school all (t_records d) (t_records d')"
      using records_grow_trans f1 f2 by blast
    show "d' = d\<lparr>t_records := t_records d', seq := seq d'\<rparr>"
      by (rule records_frame_trans [OF f1 [THEN conjunct2, THEN conjunct1] f2 [THEN conjunct2, THEN conjunct1]])
  qed (use f1 f2 sub a in auto)
qed simp

lemma set_decision_other: "x \<in> set os \<Longrightarrow> oc_index x \<noteq> i \<Longrightarrow> x \<in> set (set_decision i dec os)"
  by (auto simp: set_decision_def in_upd)

lemma apply_returned_cases:
  obtains "apply_returned result (o', s) os = os"
  | dec where "apply_returned result (o', s) os = set_decision (oc_index o') dec os"
proof -
  have "apply_returned result (o', s) os = os
    \<or> (\<exists>dec. apply_returned result (o', s) os = set_decision (oc_index o') dec os)"
    by (auto simp: apply_returned_def split: option.split)
  then show thesis using that by blast
qed

lemma decision_steps_fold_returned:
  "distinct (map oc_index os) \<Longrightarrow>
     (\<And>o' s. (o', s) \<in> set todo \<Longrightarrow> o' \<in> set os \<and> oc_decision o' = ACCEPTED) \<Longrightarrow>
     distinct (map (\<lambda>x. oc_index (fst x)) todo) \<Longrightarrow>
     decision_steps os (fold (apply_returned result) todo os)"
proof (induction todo arbitrary: os)
  case (Cons a todo)
  obtain o' s where a: "a = (o', s)" by (cases a)
  let ?os1 = "apply_returned result (o', s) os"
  from Cons.prems(2) a have o': "o' \<in> set os" "oc_decision o' = ACCEPTED" by auto
  have "decision_steps os ?os1"
    by (cases rule: apply_returned_cases [of result o' s os])
       (use decision_steps_set_decision [OF Cons.prems(1) o'] in simp_all)
  moreover from this have "distinct (map oc_index ?os1)" using Cons.prems(1) decision_steps_index by metis
  moreover have "p \<in> set ?os1 \<and> oc_decision p = ACCEPTED" if "(p, t) \<in> set todo" for p t
  proof -
    from that Cons.prems(2) have p: "p \<in> set os" "oc_decision p = ACCEPTED" by auto
    from that Cons.prems(3) a have "oc_index p \<noteq> oc_index o'" by force
    with p show ?thesis by (cases rule: apply_returned_cases [of result o' s os]) (simp_all add: set_decision_other)
  qed
  ultimately have "decision_steps ?os1 (fold (apply_returned result) todo ?os1)"
    using Cons.IH [of ?os1] Cons.prems(3) by auto
  with \<open>decision_steps os ?os1\<close> show ?case unfolding a by (auto intro: decision_steps_trans)
qed simp

subsection \<open>Events and step D\<close>

lemma insert_presence_events_frame:
  "insert_presence_events w ctx rid now sids m rs d = Inr d' \<Longrightarrow>
     \<exists>new n. d' = d\<lparr>t_events := t_events d @ new, seq := n\<rparr> \<and> length new = length rs
       \<and> (distinct (map ev_clientEventId (t_events d)) \<longrightarrow> distinct (map ev_clientEventId (t_events d')))"
proof (induction rs arbitrary: d)
  case Nil
  then show ?case by (intro exI [of _ "[]"] exI [of _ "seq d"]) simp
next
  case (Cons r rs)
  let ?e = "presence_event w ctx rid now sids m r (seq d)"
  from Cons.prems have fresh: "ev_clientEventId ?e \<notin> ev_clientEventId ` set (t_events d)"
    and rest: "insert_presence_events w ctx rid now sids m rs
        (d\<lparr>t_events := t_events d @ [?e], seq := Suc (Suc (seq d))\<rparr>) = Inr d'"
    by (auto simp: insert_event_def insert_event_row_def split: if_splits)
  from Cons.IH [OF rest] fresh show ?case by auto
qed

lemma insert_scan_rows_frame:
  "insert_scan_rows w ctx rid os d = Inr d' \<Longrightarrow>
     \<exists>new n. d' = d\<lparr>t_scanEvents := t_scanEvents d @ new, seq := n\<rparr>"
proof (induction os arbitrary: d)
  case Nil
  then show ?case by (intro exI [of _ "[]"] exI [of _ "seq d"]) simp
next
  case (Cons a os)
  then show ?case by (auto split: sum.splits if_splits dest!: Cons.IH) (metis+)
qed

lemma writeScanEvents_frame:
  assumes "writeScanEvents w ctx os rid d = Inr d'"
  shows "\<exists>new n. d' = d\<lparr>t_scanEvents := t_scanEvents d @ new, seq := n\<rparr>"
proof (cases "filter loggable os = []")
  case True
  with assms show ?thesis
    by (intro exI [of _ "[]"] exI [of _ "seq d"]) (simp add: writeScanEvents_def)
next
  case False
  with assms show ?thesis by (auto simp: writeScanEvents_def Let_def dest: insert_scan_rows_frame)
qed


section \<open>The whole transaction\<close>

lemma writeOutcomesE:
  assumes "writeOutcomes w now ctx outs rid d = Inr (outs', d')" "distinct (map oc_index outs)"
  obtains outs1 sids d1 outs2 m todo d2 ret result d3 where
    "ensure_sessions w ctx now outs d = Inr (outs1, sids, d1)"
    "by_student outs1 [] = (outs2, m)" "to_upsert w sids m = Inr todo"
    "fold (upsert_record w (ic_schoolId ctx) now) todo (d1, []) = (d2, ret)"
    "result = js_map (map (\<lambda>r. (rt_studentId r, r)) ret)"
    "outs' = fold (apply_returned result) todo outs2"
    "insert_presence_events w ctx rid now sids m (filter rt_inserted ret) d2 = Inr d3"
    "writeScanEvents w ctx outs' rid d3 = Inr d'"
    "decision_steps outs outs1" "decision_steps outs1 outs2" "decision_steps outs2 outs'"
    "\<And>o' s. (o', s) \<in> set todo \<Longrightarrow> o' \<in> set outs2 \<and> oc_decision o' = ACCEPTED
       \<and> map_of sids (the (oc_classSectionId o')) = Some s"
    "\<And>o'. o' \<in> set outs2 \<Longrightarrow> oc_decision o' = ACCEPTED \<Longrightarrow>
       \<exists>p s. (p, s) \<in> set todo \<and> the (oc_studentId p) = the (oc_studentId o')"
proof -
  from assms(1) obtain outs1 sids d1 where a: "ensure_sessions w ctx now outs d = Inr (outs1, sids, d1)"
    by (auto simp: writeOutcomes_def split: sum.splits)
  obtain outs2 m where b: "by_student outs1 [] = (outs2, m)" by fastforce
  from assms(1) a b obtain todo where c: "to_upsert w sids m = Inr todo"
    by (auto simp: writeOutcomes_def split: sum.splits)
  obtain d2 ret where u: "fold (upsert_record w (ic_schoolId ctx) now) todo (d1, []) = (d2, ret)" by fastforce
  define result where "result = js_map (map (\<lambda>r. (rt_studentId r, r)) ret)"
  from assms(1) a b c u obtain d3 where e:
    "insert_presence_events w ctx rid now sids m (filter rt_inserted ret) d2 = Inr d3"
    "outs' = fold (apply_returned result) todo outs2" "writeScanEvents w ctx outs' rid d3 = Inr d'"
    by (auto simp: writeOutcomes_def result_def Let_def split: sum.splits)
  have s1: "decision_steps outs outs1" using ensure_sessions_facts [OF a] by blast
  have B: "decision_steps outs1 outs2" "entries_of outs2 m" "students_covered outs2 m" "distinct (map fst m)"
    using by_student_facts [OF b] by auto
  have mem: "p \<in> set outs2 \<and> oc_decision p = ACCEPTED \<and> the (oc_studentId p) = k" if "(k, p) \<in> set m" for k p
    using map_of_is_SomeI [OF B(4) that] B(2) by (auto simp: entries_of_def)
  have todo: "o' \<in> set outs2 \<and> oc_decision o' = ACCEPTED \<and> map_of sids (the (oc_classSectionId o')) = Some s"
    if ts: "(o', s) \<in> set todo" for o' s
  proof -
    from to_upsert_in(2) [OF c ts] obtain k where k: "(k, o') \<in> set m"
      and s: "map_of sids (the (oc_classSectionId o')) = Some s" by blast
    from mem [OF k] s show ?thesis by simp
  qed
  have cov: "\<exists>p s. (p, s) \<in> set todo \<and> the (oc_studentId p) = the (oc_studentId o')"
    if o': "o' \<in> set outs2" "oc_decision o' = ACCEPTED" for o'
  proof -
    from B(3) o' obtain p where p: "map_of m (the (oc_studentId o')) = Some p" by (auto simp: students_covered_def)
    from B(2) p have "the (oc_studentId p) = the (oc_studentId o')" by (auto simp: entries_of_def)
    moreover from map_of_SomeD [OF p] mset_eq_setD [OF to_upsert_in(1) [OF c]]
    have "(p, the (map_of sids (the (oc_classSectionId p)))) \<in> set todo" by force
    ultimately show ?thesis by blast
  qed
  have di2: "distinct (map oc_index outs2)"
    using assms(2) decision_steps_index [OF s1] decision_steps_index [OF B(1)] by simp
  have "distinct (map (\<lambda>x. oc_index (fst x)) todo)"
  proof -
    have "distinct (map snd m)"
      using B(4) mem unfolding distinct_map inj_on_def by (metis prod.collapse)
    moreover have "inj_on oc_index (set (map snd m))"
    proof (rule inj_on_subset)
      show "inj_on oc_index (set outs2)" using di2 by (simp add: distinct_map)
      show "set (map snd m) \<subseteq> set outs2" using mem by auto
    qed
    ultimately have "distinct (map oc_index (map snd m))" by (simp add: distinct_map del: map_map)
    moreover have "mset (map (\<lambda>x. oc_index (fst x)) todo) = mset (map oc_index (map snd m))"
      using to_upsert_in(1) [OF c] by (simp add: image_mset.compositionality comp_def case_prod_beta)
    ultimately show ?thesis by (metis mset_eq_imp_distinct_iff)
  qed
  with di2 todo have "decision_steps outs2 outs'"
    unfolding e(2) by (intro decision_steps_fold_returned) blast+
  with a b c u e s1 B(1) todo cov show thesis by (intro that [OF a b c u result_def e(2) e(1) e(3)])
qed

subsection \<open>Replays\<close>

lemma scan_row_key:
  "scan_row w ctx rid o' n = Inr r \<Longrightarrow>
     sv_idempotencyKey r = Some (nr_idempotencyKey (the (oc_read o')))
     \<and> sv_clientEventId r = nr_idempotencyKey (the (oc_read o'))"
  by (auto simp: scan_row_def Let_def split: sum.splits)

definition int4_ok :: "outcome \<Rightarrow> bool" where
  "int4_ok o' \<longleftrightarrow> (\<exists>a. int4 (nr_antenna (the (oc_read o'))) = Inr a) \<and> (\<exists>b. int4 (nr_rssi (the (oc_read o'))) = Inr b)"

lemma scan_row_Inr_iff: "(\<exists>r. scan_row w ctx rid o' n = Inr r) \<longleftrightarrow> int4_ok o'"
  by (auto simp: scan_row_def int4_ok_def Let_def split: sum.splits)

definition scan_keys :: "db \<Rightarrow> string option set" where
  "scan_keys d = sv_idempotencyKey ` set (t_scanEvents d)"

definition outcome_key :: "outcome \<Rightarrow> string option" where
  "outcome_key o' = Some (nr_idempotencyKey (the (oc_read o')))"

lemma insert_scan_rows_logged:
  "insert_scan_rows w ctx rid os d = Inr d' \<Longrightarrow>
     (\<forall>o' \<in> set os. int4_ok o' \<and> outcome_key o' \<in> scan_keys d') \<and> scan_keys d \<subseteq> scan_keys d'"
proof (induction os arbitrary: d)
  case (Cons a os)
  from Cons.prems obtain r where r: "scan_row w ctx rid a (seq d) = Inr r" by (auto split: sum.splits)
  have ok: "int4_ok a" using scan_row_Inr_iff r by blast
  note key = scan_row_key [OF r]
  show ?case
  proof (cases "sv_idempotencyKey r \<in> sv_idempotencyKey ` set (t_scanEvents d)")
    case True
    with Cons.prems r have "insert_scan_rows w ctx rid os d = Inr d'" by simp
    from Cons.IH [OF this] True ok key show ?thesis by (auto simp: outcome_key_def scan_keys_def)
  next
    case False
    with Cons.prems r have "insert_scan_rows w ctx rid os
        (d\<lparr>t_scanEvents := t_scanEvents d @ [r], seq := Suc (seq d)\<rparr>) = Inr d'"
      by (auto split: if_splits)
    from Cons.IH [OF this] ok key show ?thesis by (auto simp: outcome_key_def scan_keys_def)
  qed
qed simp

lemma insert_scan_rows_known:
  "(\<forall>o' \<in> set os. int4_ok o' \<and> outcome_key o' \<in> scan_keys d) \<Longrightarrow> insert_scan_rows w ctx rid os d = Inr d"
proof (induction os)
  case (Cons a os)
  then obtain r where r: "scan_row w ctx rid a (seq d) = Inr r" using scan_row_Inr_iff by (meson list.set_intros(1))
  with Cons scan_row_key [OF r] show ?case by (simp add: outcome_key_def scan_keys_def)
qed simp

text \<open>
  Replaying reads is harmless.  Once the scan events of some outcomes are written, writing
  outcomes about the same reads again, for whatever decisions, context or reader, succeeds and
  changes nothing, however often it happens.
\<close>

theorem scan_log_idempotent:
  assumes "writeScanEvents w ctx outs rid d = Inr d'"
    and "oc_read ` {o' \<in> set outs'. loggable o'} \<subseteq> oc_read ` {o' \<in> set outs. loggable o'}"
  shows "writeScanEvents w' ctx' outs' rid' d' = Inr d'"
proof -
  have "\<forall>o' \<in> set (filter loggable outs). int4_ok o' \<and> outcome_key o' \<in> scan_keys d'"
  proof (cases "filter loggable outs = []")
    case False
    with assms(1) have "insert_scan_rows w ctx rid (filter loggable outs) d = Inr d'"
      by (simp add: writeScanEvents_def Let_def)
    from insert_scan_rows_logged [OF this] show ?thesis by simp
  qed simp
  note logged = this
  have "\<forall>o' \<in> set (filter loggable outs'). int4_ok o' \<and> outcome_key o' \<in> scan_keys d'"
  proof
    fix a assume "a \<in> set (filter loggable outs')"
    then have "oc_read a \<in> oc_read ` {o' \<in> set outs'. loggable o'}" by auto
    with assms(2) have "oc_read a \<in> oc_read ` {o' \<in> set outs. loggable o'}" by blast
    then obtain b where b: "b \<in> set (filter loggable outs)" "oc_read a = oc_read b" by auto
    from bspec [OF logged b(1)] b(2) show "int4_ok a \<and> outcome_key a \<in> scan_keys d'"
      by (simp add: int4_ok_def outcome_key_def)
  qed
  from insert_scan_rows_known [OF this] show ?thesis by (simp add: writeScanEvents_def Let_def)
qed

text \<open>
  C6: attendance records under the gate.  A successful gate transaction leaves every existing
  record in place; only the last-seen times of records that are not manual may change, never a
  status.  What it adds are PRESENT gate records of students with an accepted read, at most one
  per session and student, and every outcome that is still ACCEPTED has a record of its student.
\<close>

theorem gate_preserves_records:
  assumes "writeOutcomes w now ctx outs rid d = Inr (outs', d')" "distinct (map oc_index outs)"
  shows "\<exists>old new. t_records d' = old @ new
     \<and> list_all2 (\<lambda>x y. y = x \<or> (ar_source x \<noteq> Some ''MANUAL'' \<and> ar_captureMethod x \<noteq> ''MANUAL''
          \<and> (\<exists>a b. y = x\<lparr>ar_lastSeenAt := a, ar_lastUpdatedAt := b\<rparr>))) (t_records d) old
     \<and> (\<forall>r \<in> set new. ar_status r = PRESENT \<and> ar_captureMethod r = ''RFID_GATE'' \<and> ar_schoolId r = ic_schoolId ctx
          \<and> (\<exists>o' \<in> set outs. oc_decision o' = ACCEPTED \<and> the (oc_studentId o') = ar_studentId r))
     \<and> (distinct (map (\<lambda>r. (ar_sessionId r, ar_studentId r)) (t_records d))
          \<longrightarrow> distinct (map (\<lambda>r. (ar_sessionId r, ar_studentId r)) (t_records d')))
     \<and> (\<forall>o' \<in> set outs'. oc_decision o' = ACCEPTED
          \<longrightarrow> (\<exists>r \<in> set (t_records d'). ar_studentId r = the (oc_studentId o')))"
  using assms
proof (cases rule: writeOutcomesE)
  case (1 outs1 sids d1 outs2 m todo d2 ret result d3)
  have rec: "t_records d1 = t_records d" "t_records d' = t_records d2"
    using ensure_sessions_facts [OF 1(1)] insert_presence_events_frame [OF 1(7)] writeScanEvents_frame [OF 1(8)]
    by (auto simp: sessions_opened_def)
  note up = fold_upsert_facts [OF 1(4) order_refl]
  from up obtain old new where on: "t_records d2 = old @ new" "list_all2 record_touch (t_records d1) old"
    "\<forall>r \<in> set new. new_gate_record (ic_schoolId ctx) (set todo) r" by (auto simp: records_grow_def)
  have steps: "decision_steps outs outs2" using 1(9,10) decision_steps_trans by blast
  have touch: "list_all2 (\<lambda>x y. y = x \<or> (ar_source x \<noteq> Some ''MANUAL'' \<and> ar_captureMethod x \<noteq> ''MANUAL''
          \<and> (\<exists>a b. y = x\<lparr>ar_lastSeenAt := a, ar_lastUpdatedAt := b\<rparr>))) (t_records d) old"
    using on(2) unfolding rec(1)
    by (rule list_all2_mono) (auto simp: record_touch_def not_manual_def split: option.splits)
  have news: "\<forall>r \<in> set new. ar_status r = PRESENT \<and> ar_captureMethod r = ''RFID_GATE'' \<and> ar_schoolId r = ic_schoolId ctx
          \<and> (\<exists>o' \<in> set outs. oc_decision o' = ACCEPTED \<and> the (oc_studentId o') = ar_studentId r)"
  proof
    fix r assume "r \<in> set new"
    with on(3) obtain o' s where r: "ar_status r = PRESENT" "ar_captureMethod r = ''RFID_GATE''"
      "ar_schoolId r = ic_schoolId ctx" "(o', s) \<in> set todo" "ar_studentId r = the (oc_studentId o')"
      by (auto simp: new_gate_record_def)
    from 1(12) [OF r(4)] decision_steps_in [OF steps] obtain x where "x \<in> set outs" "decision_step x o'" 
      "oc_decision o' = ACCEPTED" by blast
    with decision_step_fields [of x o'] r show "ar_status r = PRESENT \<and> ar_captureMethod r = ''RFID_GATE''
       \<and> ar_schoolId r = ic_schoolId ctx
       \<and> (\<exists>o' \<in> set outs. oc_decision o' = ACCEPTED \<and> the (oc_studentId o') = ar_studentId r)" by auto
  qed
  have final: "\<forall>o' \<in> set outs'. oc_decision o' = ACCEPTED
          \<longrightarrow> (\<exists>r \<in> set (t_records d'). ar_studentId r = the (oc_studentId o'))"
  proof (intro ballI impI)
    fix o' assume "o' \<in> set outs'" "oc_decision o' = ACCEPTED"
    with decision_steps_in [OF 1(11)] decision_step_fields obtain x where
      "x \<in> set outs2" "oc_decision x = ACCEPTED" "oc_studentId o' = oc_studentId x" by metis
    with 1(13) obtain p s where "(p, s) \<in> set todo" "the (oc_studentId p) = the (oc_studentId o')" by metis
    with up rec(2) show "\<exists>r \<in> set (t_records d'). ar_studentId r = the (oc_studentId o')"
      by (force simp: record_key_def)
  qed
  have uq: "distinct (map (\<lambda>r. (ar_sessionId r, ar_studentId r)) (t_records d))
          \<longrightarrow> distinct (map (\<lambda>r. (ar_sessionId r, ar_studentId r)) (t_records d'))"
    using up rec by (simp add: record_key_def [abs_def])
  show ?thesis
    by (intro exI [of _ old] exI [of _ new] conjI) (use on(1) rec touch news uq final in simp_all)
qed

lemma gate_todo_open:
  assumes "ensure_sessions w ctx now (map (\<lambda>r. decideRead r ctx) reads) d = Inr (outs1, sids, d1)"
    and "decision_steps (map (\<lambda>r. decideRead r ctx) reads) outs2" "ctx = loadContext d sid date reads deb"
    and "o' \<in> set outs2" "oc_decision o' = ACCEPTED" "map_of sids (the (oc_classSectionId o')) = Some s"
  shows "oc_classSectionId o' \<noteq> None \<and> (\<exists>a \<in> set (t_sessions d1). as_id a = s \<and> as_status a \<noteq> FINALIZED \<and> as_schoolId a = sid
    \<and> as_sessionDate a = date \<and> as_sessionType a = ''GATE_ARRIVAL''
    \<and> (\<exists>e \<in> set (t_enrollments d). en_studentId e = the (oc_studentId o') \<and> en_schoolId e = sid
           \<and> en_classSectionId e = as_classSectionId a \<and> en_status e = ''ACTIVE''))"
proof -
  note A = ensure_sessions_facts [OF assms(1)]
  then have sub: "set (t_sessions d) \<subseteq> set (t_sessions d1)" by (auto simp: sessions_opened_def)
  from decision_steps_in [OF assms(2,4)] obtain rd where rd: "decision_step (decideRead rd ctx) o'" by auto
  with assms(5) decision_step_fields [OF rd] have acc: "oc_decision (decideRead rd ctx) = ACCEPTED"
    "oc_classSectionId o' = oc_classSectionId (decideRead rd ctx)" "oc_studentId o' = oc_studentId (decideRead rd ctx)" by auto
  show ?thesis
    using acc(1)
  proof (cases rule: decideRead_acceptedE)
    case k: (1 cred student enr)
    have ids: "oc_classSectionId o' = Some (er_classSectionId enr)" "oc_studentId o' = Some (sr_id student)"
      using k(11) acc by simp_all
    from k(7) assms(3) obtain en where en: "en \<in> set (t_enrollments d)" "en_schoolId en = sid"
      "en_studentId en = sr_id student" "en_classSectionId en = er_classSectionId enr" "en_status en = ''ACTIVE''"
      by (auto elim: loadContext_enrollments)
    from A assms(6) ids(1) have "map_option sn_id (map_of (ic_sessionBySection ctx) (er_classSectionId enr)) = Some s
        \<or> (\<exists>r \<in> set (t_sessions d1). gate_key ctx r \<and> as_classSectionId r = er_classSectionId enr
             \<and> as_id r = s \<and> as_status r \<noteq> FINALIZED)"
      by (auto simp: session_map_ok_def)
    then obtain a where a: "a \<in> set (t_sessions d1)" "as_id a = s" "as_status a \<noteq> FINALIZED" "as_schoolId a = sid"
      "as_sessionDate a = date" "as_sessionType a = ''GATE_ARRIVAL''" "as_classSectionId a = er_classSectionId enr"
    proof
      assume "map_option sn_id (map_of (ic_sessionBySection ctx) (er_classSectionId enr)) = Some s"
      then obtain x where x: "map_of (ic_sessionBySection ctx) (er_classSectionId enr) = Some x" "sn_id x = s" by auto
      with k(9) have "sn_status x \<noteq> FINALIZED" by simp
      with x assms(3) sub show thesis by (fastforce elim!: loadContext_session_Some intro: that)
    qed (use assms(3) in \<open>auto simp: gate_key_def intro: that\<close>)
    show ?thesis
      by (intro conjI bexI [OF _ a(1)] bexI [OF _ en(1)]) (use a en ids in simp_all)
  qed
qed

lemma gate_records_open:
  assumes "writeOutcomes w now ctx (map (\<lambda>r. decideRead r ctx) reads) rid d = Inr (outs', d')"
    and "ctx = loadContext d sid date reads deb" "distinct (map nr_index reads)"
  shows "\<forall>r \<in> set (drop (length (t_records d)) (t_records d')). \<exists>s \<in> set (t_sessions d').
     as_id s = ar_sessionId r \<and> as_status s \<noteq> FINALIZED \<and> as_schoolId s = sid \<and> as_sessionDate s = date
     \<and> as_sessionType s = ''GATE_ARRIVAL''
     \<and> (\<exists>e \<in> set (t_enrollments d). en_studentId e = ar_studentId r \<and> en_schoolId e = sid
           \<and> en_classSectionId e = as_classSectionId s \<and> en_status e = ''ACTIVE'')"
proof -
  let ?outs = "map (\<lambda>r. decideRead r ctx) reads"
  have "distinct (map oc_index ?outs)" using assms(3) by (simp add: comp_def)
  with assms(1) show ?thesis
  proof (cases rule: writeOutcomesE)
    case (1 outs1 sids d1 outs2 m todo d2 ret result d3)
    have "d2 = d1\<lparr>t_records := t_records d2, seq := seq d2\<rparr>"
      using fold_upsert_facts [OF 1(4) order_refl] by blast
    from arg_cong [OF this, of t_sessions] have "t_sessions d2 = t_sessions d1" by simp
    then have fr: "t_records d1 = t_records d" "t_records d' = t_records d2" "t_sessions d' = t_sessions d1"
      using ensure_sessions_facts [OF 1(1)] insert_presence_events_frame [OF 1(7)] writeScanEvents_frame [OF 1(8)]
      by (auto simp: sessions_opened_def)
    from fold_upsert_facts [OF 1(4) order_refl] obtain old new where on: "t_records d2 = old @ new"
      "list_all2 record_touch (t_records d1) old" "\<forall>r \<in> set new. new_gate_record (ic_schoolId ctx) (set todo) r"
      by (auto simp: records_grow_def)
    from list_all2_lengthD [OF on(2)] on(1) fr have drop: "drop (length (t_records d)) (t_records d') = new" by simp
    have steps: "decision_steps ?outs outs2" using 1(9,10) decision_steps_trans by blast
    show ?thesis unfolding drop
    proof
      fix r assume "r \<in> set new"
      with on(3) obtain o' s where r: "(o', s) \<in> set todo" "ar_studentId r = the (oc_studentId o')" "ar_sessionId r = s"
        by (auto simp: new_gate_record_def)
      from 1(12) [OF r(1)] have o': "o' \<in> set outs2" "oc_decision o' = ACCEPTED"
        "map_of sids (the (oc_classSectionId o')) = Some s" by auto
      from gate_todo_open [OF 1(1) steps assms(2) o'] r(2,3)
      show "\<exists>s \<in> set (t_sessions d').
         as_id s = ar_sessionId r \<and> as_status s \<noteq> FINALIZED \<and> as_schoolId s = sid \<and> as_sessionDate s = date
         \<and> as_sessionType s = ''GATE_ARRIVAL''
         \<and> (\<exists>e \<in> set (t_enrollments d). en_studentId e = ar_studentId r \<and> en_schoolId e = sid
           \<and> en_classSectionId e = as_classSectionId s \<and> en_status e = ''ACTIVE'')"
        unfolding fr(3) by simp
    qed
  qed
qed

text \<open>
  A fractional signal strength rejects the whole batch.  The payload parser lets any finite RSSI
  through while the column is an integer: when one loggable outcome carries a fractional RSSI,
  writing the scan events of the batch fails, whatever the other reads are.
\<close>

theorem fractional_signal_rejects_batch:
  assumes "o' \<in> set outs" "loggable o'" "nr_rssi (the (oc_read o')) = Some q" "of_int \<lfloor>q\<rfloor> \<noteq> q"
  shows "\<exists>e. writeScanEvents w ctx outs rid d = Inl e"
proof -
  from assms(1,2) have ne: "filter loggable outs \<noteq> []" by (auto simp: filter_empty_conv)
  have "\<not> int4_ok o'" using assms(3,4) by (simp add: int4_ok_def int4_def)
  then have "insert_scan_rows w ctx rid (filter loggable outs) d \<noteq> Inr d'" for d'
    using insert_scan_rows_logged [of w ctx rid "filter loggable outs" d d'] assms(1,2) by auto
  with ne show ?thesis
    by (cases "insert_scan_rows w ctx rid (filter loggable outs) d") (auto simp: writeScanEvents_def Let_def)
qed

definition example_gate_db :: db where
  "example_gate_db = example_db\<lparr>
     t_records := [(gate_record example_world ''s'' 0 (decideRead (example_normalized 0 5)
        (loadContext example_db ''s'' ''d'' [example_normalized 0 5] {})) ''old'' 90)\<lparr>ar_captureMethod := ''MANUAL''\<rparr>]\<rparr>"

definition example_gate_ctx :: ingest_context where
  "example_gate_ctx = loadContext example_gate_db ''s'' ''d'' [example_normalized 0 5] {}"

definition example_gate_run :: "(outcome list \<times> db) result" where
  "example_gate_run = writeOutcomes example_world 7 example_gate_ctx
     (map (\<lambda>r. decideRead r example_gate_ctx) [example_normalized 0 5]) ''r'' example_gate_db"

definition inr_or :: "'a \<Rightarrow> 'a result \<Rightarrow> 'a" where
  "inr_or x r = (case r of Inl _ \<Rightarrow> x | Inr y \<Rightarrow> y)"

lemma inr_or_eq: "(case r of Inl _ \<Rightarrow> False | Inr _ \<Rightarrow> True) \<Longrightarrow> r = Inr (inr_or x r)"
  by (cases r) (auto simp: inr_or_def)

lemma example_gate_run_Inr:
  "example_gate_run = Inr (fst (inr_or ([], example_gate_db) example_gate_run), snd (inr_or ([], example_gate_db) example_gate_run))"
proof -
  have "case example_gate_run of Inl _ \<Rightarrow> False | Inr _ \<Rightarrow> True" by code_simp
  from inr_or_eq [OF this] show ?thesis by simp
qed

theorem gate_preserves_records_witness:
  "\<exists>old new. t_records (snd (inr_or ([], example_gate_db) example_gate_run)) = old @ new \<and> length new = 1
     \<and> (\<forall>r \<in> set new. ar_status r = PRESENT)"
proof -
  have "distinct (map oc_index (map (\<lambda>r. decideRead r example_gate_ctx) [example_normalized 0 5]))" by simp
  from gate_preserves_records [OF example_gate_run_Inr [unfolded example_gate_run_def] this]
  obtain old new where *: "t_records (snd (inr_or ([], example_gate_db) example_gate_run)) = old @ new"
    "\<forall>r \<in> set new. ar_status r = PRESENT" "length old = length (t_records example_gate_db)"
    unfolding example_gate_run_def by (fastforce dest: list_all2_lengthD)
  moreover have "length (t_records (snd (inr_or ([], example_gate_db) example_gate_run))) = 2"
    "length (t_records example_gate_db) = 1" by code_simp+
  ultimately have "length new = 1" by simp
  with * show ?thesis by blast
qed

definition example_outcome :: outcome where
  "example_outcome = reject (example_normalized 0 5) UNREGISTERED_CARD None None None"

theorem scan_log_idempotent_witness:
  "writeScanEvents example_world example_gate_ctx [example_outcome\<lparr>oc_decision := SUSPENDED_CARD\<rparr>] ''r2''
     (inr_or example_db (writeScanEvents example_world example_gate_ctx [example_outcome] ''r'' example_db))
   = Inr (inr_or example_db (writeScanEvents example_world example_gate_ctx [example_outcome] ''r'' example_db))"
proof (rule scan_log_idempotent [of example_world example_gate_ctx "[example_outcome]" "''r''" example_db])
  have "case writeScanEvents example_world example_gate_ctx [example_outcome] ''r'' example_db of
      Inl _ \<Rightarrow> False | Inr _ \<Rightarrow> True" by code_simp
  from inr_or_eq [OF this] show "writeScanEvents example_world example_gate_ctx [example_outcome] ''r'' example_db
    = Inr (inr_or example_db (writeScanEvents example_world example_gate_ctx [example_outcome] ''r'' example_db))" .
  show "oc_read ` {o' \<in> set [example_outcome\<lparr>oc_decision := SUSPENDED_CARD\<rparr>]. loggable o'}
    \<subseteq> oc_read ` {o' \<in> set [example_outcome]. loggable o'}"
    by (auto simp: example_outcome_def loggable_def DUPLICATE_DECISIONS_def)
qed

definition example_half_outcome :: outcome where
  "example_half_outcome = \<lparr>oc_index = 0, oc_decision = UNREGISTERED_CARD,
     oc_read = Some ((example_normalized 0 5)\<lparr>nr_rssi := Some (-123/2)\<rparr>), oc_studentId = None,
     oc_classSectionId = None, oc_credentialId = None, oc_needsSession = False, oc_reviewFlag = None\<rparr>"

theorem fractional_signal_rejects_batch_witness:
  "\<exists>e. writeScanEvents example_world example_gate_ctx [example_half_outcome] ''r'' example_db = Inl e"
proof (rule fractional_signal_rejects_batch)
  show "example_half_outcome \<in> set [example_half_outcome]" by simp
  show "loggable example_half_outcome" by code_simp
  show "nr_rssi (the (oc_read example_half_outcome)) = Some (-123/2)"
    by (simp add: example_half_outcome_def)
  show "of_int \<lfloor>-123/2 :: rat\<rfloor> \<noteq> (-123/2 :: rat)" by code_simp
qed

section \<open>Interfaces\<close>

text \<open>The unique index of attendance_events, and the gate transaction as an append-only log.\<close>

interpretation events_index: unique_index "\<lambda>a b. ev_clientEventId a = ev_clientEventId b" insert_event_row
proof unfold_locales
  have key: "ev_clientEventId r \<in> ev_clientEventId ` set t \<longleftrightarrow> (\<exists>x \<in> set t. ev_clientEventId x = ev_clientEventId r)" for r t
    by (auto simp: image_iff) metis+
  show "insert_event_row r t = None" if "\<exists>x \<in> set t. ev_clientEventId x = ev_clientEventId r" for r t
    using that unfolding insert_event_row_def key by simp
  show "insert_event_row r t = Some (t @ [r])" if "\<not> (\<exists>x \<in> set t. ev_clientEventId x = ev_clientEventId r)" for r t
    using that unfolding insert_event_row_def key by simp
qed simp

lemma writeOutcomes_log:
  assumes "writeOutcomes w now ctx outs rid d = Inr (outs', d')" "distinct (map oc_index outs)"
  shows "(\<exists>new. t_events d' = t_events d @ new)
    \<and> (distinct (map ev_clientEventId (t_events d)) \<longrightarrow> distinct (map ev_clientEventId (t_events d')))"
  using assms
proof (cases rule: writeOutcomesE)
  case (1 outs1 sids d1 outs2 m todo d2 ret result d3)
  have "d2 = d1\<lparr>t_records := t_records d2, seq := seq d2\<rparr>"
    using fold_upsert_facts [OF 1(4) order_refl] by blast
  from arg_cong [OF this, of t_events] have "t_events d2 = t_events d1" by simp
  then show ?thesis
    using ensure_sessions_facts [OF 1(1)] insert_presence_events_frame [OF 1(7)] writeScanEvents_frame [OF 1(8)]
    by (auto simp: sessions_opened_def)
qed

end
