(* ===== verification/Zebra_Auth.thy ===== *)
theory Zebra_Auth
  imports Crypto
begin

text \<open>
  Models the tenant guard of src/src/db/index.ts and the reader authentication of
  src/src/services/rfid/zebraAuth.ts: a request is signed with the reader's shared secret (HMAC),
  carries a dedicated bearer token, or, while the legacy fallback is on, the shared secret itself.
  Headers are a function from lower-case names to values (the HTTP server joins repeated headers).
  The fire-and-forget stamp of the last use is applied at once.
\<close>

section \<open>Tenant context (db/index.ts, lib/ids.ts)\<close>

definition isUuid :: "string \<Rightarrow> bool" where
  "isUuid s = (length s = 36 \<and> (\<forall>i \<in> {8, 13, 18, 23}. s ! i = CHR ''-'')
     \<and> (\<forall>i < 36. i \<notin> {8, 13, 18, 23} \<longrightarrow> is_hex (s ! i)))"

datatype db_context = NoContext | TenantContext uuid | SystemContext

definition withTenantContext :: "db_context \<Rightarrow> uuid \<Rightarrow> 'a result \<Rightarrow> 'a result" where
  "withTenantContext active schoolId body =
     (if \<not> isUuid schoolId then Inl (JsErr ''INVALID_SCHOOL_ID'')
      else case active of
        SystemContext \<Rightarrow> Inl (JsErr ''TENANT_CONTEXT_INSIDE_SYSTEM_CONTEXT_FORBIDDEN'')
      | TenantContext sid \<Rightarrow>
          if sid \<noteq> schoolId then Inl (JsErr ''TENANT_CONTEXT_SWITCH_FORBIDDEN'') else body
      | NoContext \<Rightarrow> body)"

definition withSystemContext :: "db_context \<Rightarrow> 'a result \<Rightarrow> 'a result" where
  "withSystemContext active body =
     (case active of
        TenantContext _ \<Rightarrow> Inl (JsErr ''SYSTEM_CONTEXT_INSIDE_TENANT_CONTEXT_FORBIDDEN'')
      | _ \<Rightarrow> body)"

lemma withTenantContext_Inr:
  "withTenantContext active sid body = Inr x \<longleftrightarrow>
     isUuid sid \<and> active \<in> {NoContext, TenantContext sid} \<and> body = Inr x"
  by (auto simp: withTenantContext_def split: db_context.splits)

section \<open>Reader secrets (readerService.ts)\<close>

definition decryptReaderSecret :: "world \<Rightarrow> string \<Rightarrow> string result" where
  "decryptReaderSecret w s =
     (if CHR '':'' \<notin> set s then
        if env_production w
        then Inl (JsErr ''READER_SECRET_DECRYPT_FAILED: Plaintext or malformed reader secret in production database'')
        else Inr s
      else case split_on (CHR '':'') s of
        [iv, tag, cipher] \<Rightarrow>
          if iv = [] \<or> tag = [] \<or> cipher = [] then Inl (JsErr ''READER_SECRET_DECRYPT_FAILED'')
          else (case aes_gcm_open w iv tag cipher of
                  None \<Rightarrow> Inl (JsErr ''READER_SECRET_DECRYPT_FAILED'')
                | Some secret \<Rightarrow> Inr secret)
      | _ \<Rightarrow> Inl (JsErr ''READER_SECRET_DECRYPT_FAILED''))"

section \<open>Finding the reader (zebraAuth.ts)\<close>

text \<open>
  The text PostgreSQL accepts as a uuid, read to its canonical form: 16 bytes of two digits, a
  hyphen allowed after every second byte.
\<close>

fun pg_uuid_digits :: "nat \<Rightarrow> string \<Rightarrow> string option" where
  "pg_uuid_digits i (a # b # rest) =
     (if \<not> is_hex a \<or> \<not> is_hex b then None
      else let rest' = (if odd i \<and> i < 15 \<and> rest \<noteq> [] \<and> hd rest = CHR ''-'' then tl rest else rest)
           in if i = 15 then (if rest = [] then Some [lower_char a, lower_char b] else None)
              else map_option (\<lambda>t. lower_char a # lower_char b # t) (pg_uuid_digits (Suc i) rest'))"
| "pg_uuid_digits i s = None"

definition pg_uuid :: "string \<Rightarrow> uuid option" where
  "pg_uuid s = map_option (\<lambda>h. take 8 h @ ''-'' @ take 4 (drop 8 h) @ ''-'' @ take 4 (drop 12 h) @ ''-''
                                @ take 4 (drop 16 h) @ ''-'' @ drop 20 h) (pg_uuid_digits 0 s)"

definition findReaderByIdentifier ::
  "db_context \<Rightarrow> db \<Rightarrow> uuid \<Rightarrow> string \<Rightarrow> rfid_reader option result" where
  "findReaderByIdentifier active d schoolId ident =
     withTenantContext active schoolId
       (let byDevice = sel1 (\<lambda>r. rr_deviceId r = ident \<and> rr_schoolId r = schoolId) (t_readers d) in
        if length ident = 36 \<and> (\<forall>c \<in> set ident. is_hex c \<or> c = CHR ''-'') then
          (case pg_uuid ident of
             None \<Rightarrow> Inl (DbErr ''invalid input syntax for type uuid'')
           | Some u \<Rightarrow>
               (case sel1 (\<lambda>r. rr_id r = u \<and> rr_schoolId r = schoolId) (t_readers d) of
                  Some r \<Rightarrow> Inr (Some r)
                | None \<Rightarrow> Inr byDevice))
        else Inr byDevice)"

definition touchLastUsed :: "instant \<Rightarrow> uuid \<Rightarrow> uuid \<Rightarrow> db \<Rightarrow> db" where
  "touchLastUsed now schoolId readerId d =
     d\<lparr>t_readers := upd (\<lambda>r. rr_id r = readerId \<and> rr_schoolId r = schoolId)
        (\<lambda>r. r\<lparr>rr_bearerTokenLastUsedAt := Some now, rr_lastSeenAt := Some now\<rparr>) (t_readers d)\<rparr>"

section \<open>Authentication\<close>

datatype auth_method = HMAC | BEARER | LEGACY_SECRET_AS_BEARER

record authenticated_reader =
  ad_id :: uuid
  ad_name :: ustring
  ad_schoolId :: uuid
  ad_status :: reader_status
  ad_authMethod :: auth_method
  ad_assignedClassSectionId :: "uuid option"

definition readerAuthFailed :: error where
  "readerAuthFailed = AppErr ''UNAUTHORIZED_READER'' 401"

text \<open>\<open>finalize\<close>: only an authenticated caller learns that a reader is not active.\<close>

definition finalize_reader :: "instant \<Rightarrow> rfid_reader \<Rightarrow> auth_method \<Rightarrow> db \<Rightarrow> (authenticated_reader \<times> db) result" where
  "finalize_reader now r m d =
     (if rr_status r \<noteq> RActive then Inl (AppErr ''FORBIDDEN_READER'' 403)
      else Inr (\<lparr>ad_id = rr_id r, ad_name = rr_name r, ad_schoolId = rr_schoolId r, ad_status = rr_status r,
                 ad_authMethod = m, ad_assignedClassSectionId = js_or (rr_assignedClassSectionId r) None\<rparr>,
                touchLastUsed now (rr_schoolId r) (rr_id r) d))"

type_synonym headers = "string \<Rightarrow> string option"

definition signature_header :: "headers \<Rightarrow> string option" where
  "signature_header h = js_or (h ''x-zebra-signature'') (js_or (h ''x-reader-signature'')
     (js_or (h ''x-signature'') (h ''x-hub-signature-256'')))"

text \<open>\<open>s.replace(/^Bearer\s+/i, '')\<close>\<close>

definition strip_bearer :: "string \<Rightarrow> string" where
  "strip_bearer s =
     (let after = drop 6 s in
      if to_lower (take 6 s) = ''bearer'' \<and> after \<noteq> [] \<and> is_space (hd after)
      then dropWhile is_space after else s)"

text \<open>Path C, and the final refusal.\<close>

definition authenticate_legacy ::
  "world \<Rightarrow> db_context \<Rightarrow> instant \<Rightarrow> uuid \<Rightarrow> headers \<Rightarrow> string option \<Rightarrow> db \<Rightarrow> (authenticated_reader \<times> db) result" where
  "authenticate_legacy w active now schoolId h ident d =
     (case h ''authorization'' of
        None \<Rightarrow> Inl readerAuthFailed
      | Some auth \<Rightarrow>
          if \<not> env_legacy_bearer w \<or> \<not> truthy ident then Inl readerAuthFailed
          else let legacyToken = js_trim (strip_bearer auth) in
            (case findReaderByIdentifier active d schoolId (the ident) of
               Inl e \<Rightarrow> Inl e
             | Inr None \<Rightarrow> Inl readerAuthFailed
             | Inr (Some r) \<Rightarrow>
                 if \<not> truthy (rr_sharedSecretEncrypted r) then Inl readerAuthFailed
                 else (case decryptReaderSecret w (the (rr_sharedSecretEncrypted r)) of
                         Inl e \<Rightarrow> Inl e
                       | Inr secret \<Rightarrow>
                           if timingSafeEqual legacyToken secret
                           then finalize_reader now r LEGACY_SECRET_AS_BEARER d
                           else Inl readerAuthFailed)))"

definition authenticateZebraRequest ::
  "world \<Rightarrow> db_context \<Rightarrow> instant \<Rightarrow> uuid \<Rightarrow> headers \<Rightarrow> string \<Rightarrow> string option \<Rightarrow> db
     \<Rightarrow> (authenticated_reader \<times> db) result" where
  "authenticateZebraRequest w active now schoolId h rawBody ident d =
     (if signature_header h \<noteq> None \<and> truthy ident then
        (case findReaderByIdentifier active d schoolId (the ident) of
           Inl e \<Rightarrow> Inl e
         | Inr None \<Rightarrow> Inl readerAuthFailed
         | Inr (Some r) \<Rightarrow>
             if \<not> truthy (rr_sharedSecretEncrypted r) then Inl readerAuthFailed
             else (case decryptReaderSecret w (the (rr_sharedSecretEncrypted r)) of
                     Inl e \<Rightarrow> Inl e
                   | Inr secret \<Rightarrow>
                       if \<not> verifyZebraHmacSignature w rawBody (the (signature_header h)) secret
                       then Inl readerAuthFailed
                       else finalize_reader now r HMAC d))
      else case parseBearer (h ''authorization'') of
        None \<Rightarrow> authenticate_legacy w active now schoolId h ident d
      | Some token \<Rightarrow>
          (case hashReaderToken w token of
             Inl e \<Rightarrow> Inl e
           | Inr tokenHash \<Rightarrow>
               (case withTenantContext active schoolId
                       (Inr (sel1 (\<lambda>r. rr_schoolId r = schoolId \<and> rr_bearerTokenHash r = Some tokenHash) (t_readers d))) of
                  Inl e \<Rightarrow> Inl e
                | Inr (Some r) \<Rightarrow> finalize_reader now r BEARER d
                | Inr None \<Rightarrow> authenticate_legacy w active now schoolId h ident d)))"

section \<open>Facts\<close>

lemma finalize_reader_Inr:
  "finalize_reader now r m d = Inr (a, d') \<Longrightarrow>
     rr_status r = RActive \<and> ad_id a = rr_id r \<and> ad_schoolId a = rr_schoolId r \<and> ad_authMethod a = m
     \<and> (\<exists>rs. d' = d\<lparr>t_readers := rs\<rparr>)"
  by (auto simp: finalize_reader_def touchLastUsed_def split: if_splits)

lemma findReaderByIdentifier_Inr:
  assumes "findReaderByIdentifier active d sid ident = Inr (Some r)"
  shows "r \<in> set (t_readers d) \<and> rr_schoolId r = sid"
proof -
  from assms have "\<exists>p. sel1 (\<lambda>r. p r \<and> rr_schoolId r = sid) (t_readers d) = Some r"
    by (auto simp: findReaderByIdentifier_def withTenantContext_Inr Let_def split: if_splits option.splits)
  then show ?thesis by (auto dest: sel1_SomeD)
qed

lemma authenticate_legacy_Inr:
  assumes "authenticate_legacy w active now sid h ident d = Inr (a, d')"
  obtains r secret auth where "r \<in> set (t_readers d)" "rr_schoolId r = sid" "env_legacy_bearer w"
    "h ''authorization'' = Some auth" "rr_sharedSecretEncrypted r \<noteq> None"
    "decryptReaderSecret w (the (rr_sharedSecretEncrypted r)) = Inr secret" "js_trim (strip_bearer auth) = secret"
    "finalize_reader now r LEGACY_SECRET_AS_BEARER d = Inr (a, d')"
  using assms
  by (auto simp: authenticate_legacy_def Let_def dest: findReaderByIdentifier_Inr elim!: truthyE
        split: option.splits if_splits sum.splits intro!: that)

text \<open>Authenticating changes reader rows only.\<close>

lemma authenticated_tables:
  "authenticateZebraRequest w active now sid h body ident d = Inr (a, d') \<Longrightarrow> \<exists>rs. d' = d\<lparr>t_readers := rs\<rparr>"
  by (auto simp: authenticateZebraRequest_def authenticate_legacy_def Let_def dest!: finalize_reader_Inr
        split: sum.splits option.splits if_splits)

text \<open>
  C26: nobody ingests without a credential.  A request that authenticates does so as an active
  reader of the requested school, by one of three proofs: an HMAC of the raw body under that
  reader's decrypted secret, the exact bearer token whose hash is stored for that reader, or, only
  while the legacy fallback is switched on, the reader's secret itself.  Nothing but reader rows
  (their last-used stamps) changes.
\<close>

theorem authenticated_reader_has_proof:
  assumes "authenticateZebraRequest w active now sid h body ident d = Inr (a, d')"
  shows "\<exists>r \<in> set (t_readers d). rr_schoolId r = sid \<and> rr_status r = RActive \<and> ad_id a = rr_id r
    \<and> (\<exists>rs. d' = d\<lparr>t_readers := rs\<rparr>)
    \<and> (case ad_authMethod a of
         HMAC \<Rightarrow> \<exists>sig secret enc. signature_header h = Some sig \<and> rr_sharedSecretEncrypted r = Some enc
           \<and> decryptReaderSecret w enc = Inr secret
           \<and> to_lower (js_trim (strip_sha256_prefix sig)) = to_lower (hmac_sha256 w secret body)
       | BEARER \<Rightarrow> \<exists>token p. parseBearer (h ''authorization'') = Some token \<and> pepper w = Inr p
           \<and> rr_bearerTokenHash r = Some (hmac_sha256 w p token)
       | LEGACY_SECRET_AS_BEARER \<Rightarrow> env_legacy_bearer w \<and> (\<exists>auth enc. h ''authorization'' = Some auth
           \<and> rr_sharedSecretEncrypted r = Some enc \<and> decryptReaderSecret w enc = Inr (js_trim (strip_bearer auth))))"
proof -
  consider (hmac) r sig secret enc where "r \<in> set (t_readers d)" "rr_schoolId r = sid" "signature_header h = Some sig"
      "rr_sharedSecretEncrypted r = Some enc" "decryptReaderSecret w enc = Inr secret"
      "verifyZebraHmacSignature w body sig secret" "finalize_reader now r HMAC d = Inr (a, d')"
    | (bearer) r token p where "r \<in> set (t_readers d)" "rr_schoolId r = sid"
      "parseBearer (h ''authorization'') = Some token" "pepper w = Inr p"
      "rr_bearerTokenHash r = Some (hmac_sha256 w p token)" "finalize_reader now r BEARER d = Inr (a, d')"
    | (legacy) "authenticate_legacy w active now sid h ident d = Inr (a, d')"
  proof (cases "signature_header h \<noteq> None \<and> truthy ident")
    case True
    with assms show thesis
      by (auto simp: authenticateZebraRequest_def dest: findReaderByIdentifier_Inr elim!: truthyE
            split: sum.splits option.splits if_splits intro!: hmac)
  next
    case False
    show thesis
    proof (cases "parseBearer (h ''authorization'')")
      case None
      with False assms show thesis by (intro legacy) (simp add: authenticateZebraRequest_def split: if_splits)
    next
      case (Some token)
      with False assms obtain p r where p: "pepper w = Inr p" and
        r: "sel1 (\<lambda>r. rr_schoolId r = sid \<and> rr_bearerTokenHash r = Some (hmac_sha256 w p token)) (t_readers d) = r"
           "case r of None \<Rightarrow> authenticate_legacy w active now sid h ident d = Inr (a, d')
                    | Some x \<Rightarrow> finalize_reader now x BEARER d = Inr (a, d')"
        by (auto simp: authenticateZebraRequest_def hashReaderToken_def withTenantContext_Inr
              split: sum.splits option.splits if_splits)
      show thesis
      proof (cases r)
        case None
        with r show thesis by (intro legacy) simp
      next
        case (Some x)
        with r Some p \<open>parseBearer _ = Some token\<close> show thesis by (intro bearer [of x token p]) (auto dest: sel1_SomeD)
      qed
    qed
  qed
  then show ?thesis
  proof cases
    case hmac
    with finalize_reader_Inr [OF hmac(7)] show ?thesis
      by (intro bexI [OF _ hmac(1)]) (auto simp: verifyZebraHmacSignature_def Let_def split: if_splits)
  next
    case bearer
    with finalize_reader_Inr [OF bearer(6)] show ?thesis by (intro bexI [OF _ bearer(1)]) auto
  next
    case legacy
    then show ?thesis
    proof (cases rule: authenticate_legacy_Inr)
      case (1 r secret auth)
      with finalize_reader_Inr [OF 1(8)] show ?thesis by (intro bexI [OF _ 1(1)]) auto
    qed
  qed
qed

definition example_school :: uuid where
  "example_school = ''00000000-0000-0000-0000-00000000000a''"

definition example_reader :: rfid_reader where
  "example_reader = \<lparr>rr_id = ''r'', rr_schoolId = example_school, rr_deviceId = ''gate'', rr_name = [71],
     rr_assignedClassSectionId = None, rr_sharedSecretEncrypted = Some ''00:11:key'', rr_status = RActive,
     rr_lastSeenAt = None, rr_bearerTokenHash = None, rr_bearerTokenLastUsedAt = None\<rparr>"

definition example_headers :: headers where
  "example_headers = (\<lambda>k. if k = ''x-zebra-signature'' then Some ''SHA256=KEY|body'' else None)"

theorem authenticated_reader_has_proof_witness:
  "\<exists>a d'. authenticateZebraRequest example_world NoContext 9 example_school example_headers ''body'' (Some ''gate'')
       (empty_db\<lparr>t_readers := [example_reader]\<rparr>) = Inr (a, d')
     \<and> (\<exists>r \<in> {example_reader}. rr_status r = RActive \<and> ad_id a = rr_id r)"
proof -
  let ?req = "authenticateZebraRequest example_world NoContext 9 example_school example_headers ''body'' (Some ''gate'')
       (empty_db\<lparr>t_readers := [example_reader]\<rparr>)"
  have "case ?req of Inl _ \<Rightarrow> False | Inr _ \<Rightarrow> True" by code_simp
  then obtain a d' where r: "?req = Inr (a, d')" by (cases ?req) auto
  from authenticated_reader_has_proof [OF r] have "\<exists>x \<in> {example_reader}. rr_status x = RActive \<and> ad_id a = rr_id x"
    by auto
  with r show ?thesis by blast
qed

end
