(* ===== verification/Ingest.thy ===== *)
theory Ingest
  imports Ingest_Gate Zebra_Auth
begin

text \<open>
  Models src/src/services/rfid/ingest/index.ts, ingest/debounce.ts and the decision counters of
  ingest/metrics.ts: one webhook call from raw payload to response.  The state of the gateway is
  the database, the Redis debounce keys, the settings cache of the process and its counters; an
  error leaves the state as far as it got (a failed transaction leaves the database as it was).
\<close>

section \<open>State\<close>

record settings_entry =
  ce_timezone :: string
  ce_rfidMode :: string
  ce_expiresAt :: instant

text \<open>\<open>gw_redis\<close> maps keys to expiry times; \<open>None\<close> is a Redis that cannot be reached.\<close>

record gateway =
  gw_db :: db
  gw_redis :: "(string \<times> instant) list option"
  gw_settings :: "(uuid \<times> settings_entry) list"
  gw_counts :: "(decision \<times> nat) list"

section \<open>Debounce (ingest/debounce.ts)\<close>

definition debounce_key :: "uuid \<Rightarrow> string \<Rightarrow> string" where
  "debounce_key schoolId digest = ''rfid:db:'' @ schoolId @ '':'' @ digest"

definition loadDebounced :: "gateway \<Rightarrow> instant \<Rightarrow> uuid \<Rightarrow> string list \<Rightarrow> string set" where
  "loadDebounced g now schoolId digests =
     (case gw_redis g of
        None \<Rightarrow> {}
      | Some keys \<Rightarrow> set (filter (\<lambda>x. case map_of keys (debounce_key schoolId x) of
                                  None \<Rightarrow> False | Some expiry \<Rightarrow> now < expiry) digests))"

definition markDebounced :: "world \<Rightarrow> instant \<Rightarrow> uuid \<Rightarrow> string list \<Rightarrow> gateway \<Rightarrow> gateway" where
  "markDebounced w now schoolId digests g =
     (case gw_redis g of
        None \<Rightarrow> g
      | Some keys \<Rightarrow>
          if env_debounce_seconds w \<le> 0 then g
          else g\<lparr>gw_redis := Some (fold (\<lambda>x m. AList.update (debounce_key schoolId x)
                                            (now + env_debounce_seconds w * 1000) m) digests keys)\<rparr>)"

section \<open>Settings and helpers (ingest/index.ts)\<close>

definition load_settings :: "db_context \<Rightarrow> instant \<Rightarrow> uuid \<Rightarrow> gateway \<Rightarrow> gateway \<times> (string \<times> string) result" where
  "load_settings active now schoolId g =
     (case withTenantContext active schoolId (Inr (sel1 (\<lambda>s. sc_id s = schoolId) (t_schools (gw_db g)))) of
        Inl e \<Rightarrow> (g, Inl e)
      | Inr sc \<Rightarrow>
          let tz = the (js_or (map_option sc_timezone sc) (Some ''Asia/Kolkata''));
              mode = the (js_or (map_option sc_rfidMode sc) (Some ''SHADOW''))
          in (g\<lparr>gw_settings := AList.update schoolId
                 \<lparr>ce_timezone = tz, ce_rfidMode = mode, ce_expiresAt = now + 60000\<rparr> (gw_settings g)\<rparr>,
              Inr (tz, mode)))"

definition getSchoolSettings ::
  "db_context \<Rightarrow> instant \<Rightarrow> uuid \<Rightarrow> gateway \<Rightarrow> gateway \<times> (string \<times> string) result" where
  "getSchoolSettings active now schoolId g =
     (case map_of (gw_settings g) schoolId of
        Some cached \<Rightarrow>
          if now < ce_expiresAt cached then (g, Inr (ce_timezone cached, ce_rfidMode cached))
          else load_settings active now schoolId g
      | None \<Rightarrow> load_settings active now schoolId g)"

definition clearSchoolSettingsCache :: "uuid option \<Rightarrow> gateway \<Rightarrow> gateway" where
  "clearSchoolSettingsCache schoolId g =
     g\<lparr>gw_settings := (if truthy schoolId then AList.delete (the schoolId) (gw_settings g) else [])\<rparr>"

text \<open>\<open>a || b\<close> on JSON properties.\<close>

definition json_or :: "json option \<Rightarrow> json option \<Rightarrow> json option" where
  "json_or a b = (if json_truthy a then a else b)"

definition readerIdFrom :: "json \<Rightarrow> headers \<Rightarrow> string option" where
  "readerIdFrom body h =
     (let headerId = js_or (h ''x-reader-id'') (js_or (h ''x-zebra-reader-id'') (h ''x-device-id'')) in
      if truthy headerId then headerId
      else case json_or (jprop body ''reader_name'') (json_or (jprop body ''hostname'')
                  (json_or (jprop body ''deviceId'') (jprop body ''readerId''))) of
        Some (JStr v) \<Rightarrow> Some v
      | _ \<Rightarrow> None)"

definition toSchoolDate :: "world \<Rightarrow> instant \<Rightarrow> string \<Rightarrow> string" where
  "toSchoolDate w t tz = local_date w tz t"

record batch_summary =
  bs_processed :: nat
  bs_accepted :: nat
  bs_duplicate :: nat
  bs_rejected :: nat

definition count_decisions :: "(decision \<Rightarrow> bool) \<Rightarrow> outcome list \<Rightarrow> nat" where
  "count_decisions p all = length (filter (\<lambda>o'. p (oc_decision o')) all)"

definition summarize :: "world \<Rightarrow> outcome list \<Rightarrow> nat \<Rightarrow> batch_summary result" where
  "summarize w all processedCount =
     (let accepted = count_decisions (\<lambda>x. x \<in> ACCEPTED_DECISIONS) all;
          duplicate = count_decisions (\<lambda>x. x \<notin> ACCEPTED_DECISIONS \<and> x \<in> DUPLICATE_DECISIONS) all;
          rejected = count_decisions (\<lambda>x. x \<notin> ACCEPTED_DECISIONS \<and> x \<notin> DUPLICATE_DECISIONS) all
      in if (accepted + duplicate + rejected \<noteq> processedCount \<or> length all \<noteq> processedCount) \<and> \<not> env_production w
         then Inl (JsErr (''INGEST_INVARIANT: '' @ show_nat (length all) @ '' results for ''
                          @ show_nat processedCount @ '' reads''))
         else Inr \<lparr>bs_processed = processedCount, bs_accepted = accepted, bs_duplicate = duplicate,
                   bs_rejected = rejected\<rparr>)"

text \<open>The decision counters of metrics.ts (the latency histograms are not modelled).\<close>

definition recordBatchMetrics :: "outcome list \<Rightarrow> gateway \<Rightarrow> gateway" where
  "recordBatchMetrics all g =
     g\<lparr>gw_counts := fold (\<lambda>o' m. AList.update (oc_decision o')
         (Suc (case map_of m (oc_decision o') of None \<Rightarrow> 0 | Some n \<Rightarrow> n)) m) all (gw_counts g)\<rparr>"

section \<open>One webhook call\<close>

text \<open>The body of the tenant transaction.\<close>

definition ingest_tx ::
  "world \<Rightarrow> instant \<Rightarrow> uuid \<Rightarrow> string \<Rightarrow> string \<Rightarrow> uuid \<Rightarrow> normalized_read list \<Rightarrow> string set \<Rightarrow> db
     \<Rightarrow> (outcome list \<times> db) result" where
  "ingest_tx w now schoolId schoolDate rfidMode readerId unique debounced d =
     (let ctx = loadContext d schoolId schoolDate unique debounced;
          decided = map (\<lambda>r. decideRead r ctx) unique
      in if rfidMode = ''SHADOW'' then
           (case writeScanEvents w ctx decided readerId d of Inl e \<Rightarrow> Inl e | Inr d' \<Rightarrow> Inr (decided, d'))
         else writeOutcomes w now ctx decided readerId d)"

definition malformed_outcome :: "malformed_read \<Rightarrow> outcome" where
  "malformed_outcome m = \<lparr>oc_index = mf_index m, oc_decision = MALFORMED_READ, oc_read = None, oc_studentId = None,
     oc_classSectionId = None, oc_credentialId = None, oc_needsSession = False, oc_reviewFlag = None\<rparr>"

record result_row =
  rw_index :: nat
  rw_decision :: decision
  rw_epcLastFour :: "string option"
  rw_studentId :: "uuid option"
  rw_reviewFlag :: "review_flag option"

definition result_row_of :: "outcome \<Rightarrow> result_row" where
  "result_row_of o' = \<lparr>rw_index = oc_index o', rw_decision = oc_decision o',
     rw_epcLastFour = map_option nr_epcLast4 (oc_read o'), rw_studentId = oc_studentId o',
     rw_reviewFlag = oc_reviewFlag o'\<rparr>"

record ingest_response =
  ir_readerId :: uuid
  ir_readerName :: ustring
  ir_summary :: batch_summary
  ir_results :: "result_row list"

text \<open>After the reads are normalized: transaction, debounce, summary, metrics.\<close>

definition run_batch ::
  "world \<Rightarrow> db_context \<Rightarrow> instant \<Rightarrow> uuid \<Rightarrow> string \<times> string \<Rightarrow> authenticated_reader \<Rightarrow> nat
     \<Rightarrow> normalized_read list \<Rightarrow> malformed_read list \<Rightarrow> gateway \<Rightarrow> gateway \<times> ingest_response result" where
  "run_batch w active now schoolId = (\<lambda>(timezone, rfidMode) reader processedCount reads malformed g.
     (let (unique, dupes) = dedupeInBatch reads;
          debounced = loadDebounced g now schoolId (map nr_epcDigest unique);
          schoolDate = toSchoolDate w now timezone
      in case withTenantContext active schoolId
                (ingest_tx w now schoolId schoolDate rfidMode (ad_id reader) unique debounced (gw_db g)) of
           Inl e \<Rightarrow> (g, Inl e)
         | Inr (outcomes, d') \<Rightarrow>
             let g1 = markDebounced w now schoolId
                   (map (\<lambda>o'. nr_epcDigest (the (oc_read o')))
                     (filter (\<lambda>o'. oc_decision o' \<in> ACCEPTED_DECISIONS) outcomes)) (g\<lparr>gw_db := d'\<rparr>);
                 all = sort_key oc_index (outcomes @ dupes @ map malformed_outcome malformed)
             in (case summarize w all processedCount of
                   Inl e \<Rightarrow> (g1, Inl e)
                 | Inr summary \<Rightarrow> (recordBatchMetrics all g1,
                     Inr \<lparr>ir_readerId = ad_id reader, ir_readerName = ad_name reader,
                          ir_summary = summary, ir_results = map result_row_of all\<rparr>))))"

definition processZebraBatch ::
  "world \<Rightarrow> db_context \<Rightarrow> instant \<Rightarrow> uuid \<Rightarrow> string \<Rightarrow> json \<Rightarrow> headers \<Rightarrow> gateway
     \<Rightarrow> gateway \<times> ingest_response result" where
  "processZebraBatch w active now schoolId rawBody body h g =
     (case extractRawReads body of
        Inl e \<Rightarrow> (g, Inl e)
      | Inr rawReads \<Rightarrow>
          (case authenticateZebraRequest w active now schoolId h rawBody (readerIdFrom body h) (gw_db g) of
             Inl e \<Rightarrow> (g, Inl e)
           | Inr (reader, d1) \<Rightarrow>
               (case getSchoolSettings active now schoolId (g\<lparr>gw_db := d1\<rparr>) of
                  (g2, Inl e) \<Rightarrow> (g2, Inl e)
                | (g2, Inr settings) \<Rightarrow>
                    (case normalizeReads w schoolId (ad_id reader) now (fst settings) rawReads of
                       Inl e \<Rightarrow> (g2, Inl e)
                     | Inr (reads, malformed) \<Rightarrow>
                         run_batch w active now schoolId settings reader (length rawReads) reads malformed g2))))"

section \<open>Facts\<close>

lemma dedupe_unique_distinct:
  assumes "dedupeInBatch reads = (unique, dupes)" "sorted_wrt (<) (map nr_index reads)"
  shows "distinct (map nr_index unique)"
proof -
  from assms(2) have "distinct (map nr_index reads)" by (simp add: strict_sorted_iff)
  moreover have "mset (map nr_index unique @ map oc_index dupes) = mset (map nr_index reads)"
    by (rule dedupe_positions [OF assms])
  ultimately have "distinct (map nr_index unique @ map oc_index dupes)" by (metis mset_eq_imp_distinct_iff)
  then show ?thesis by simp
qed

text \<open>The transaction answers each read it was given, in both modes.\<close>

lemma ingest_tx_steps:
  assumes "ingest_tx w now sid date mode rid unique deb d = Inr (outs, d')" "distinct (map nr_index unique)"
  shows "decision_steps (map (\<lambda>r. decideRead r (loadContext d sid date unique deb)) unique) outs"
proof (cases "mode = ''SHADOW''")
  case True
  with assms(1) show ?thesis by (auto simp: ingest_tx_def Let_def split: sum.splits)
next
  case False
  let ?outs = "map (\<lambda>r. decideRead r (loadContext d sid date unique deb)) unique"
  have "distinct (map oc_index ?outs)" using assms(2) by (simp add: comp_def)
  moreover from False assms(1) have "writeOutcomes w now (loadContext d sid date unique deb) ?outs rid d = Inr (outs, d')"
    by (simp add: ingest_tx_def Let_def)
  ultimately show ?thesis
    by (elim writeOutcomesE [rotated]) (blast intro: decision_steps_trans)
qed

lemma ingest_tx_index:
  "ingest_tx w now sid date mode rid unique deb d = Inr (outs, d') \<Longrightarrow> distinct (map nr_index unique) \<Longrightarrow>
     map oc_index outs = map nr_index unique"
  using decision_steps_index [OF ingest_tx_steps] by (simp add: comp_def)

text \<open>Only the database can make the transaction fail: the two invariant checks cannot.\<close>

lemma insert_gate_sessions_Inl: "insert_gate_sessions w ctx now ks d = Inl e \<Longrightarrow> \<exists>what. e = DbErr what"
  by (induction ks arbitrary: d) (auto split: option.splits if_splits)

lemma insert_presence_events_Inl: "insert_presence_events w ctx rid now sids m rs d = Inl e \<Longrightarrow> \<exists>what. e = DbErr what"
  by (induction rs arbitrary: d) (auto simp: insert_event_def split: sum.splits option.splits)

lemma scan_row_Inl: "scan_row w ctx rid o' n = Inl e \<Longrightarrow> \<exists>what. e = DbErr what"
  by (auto simp: scan_row_def int4_def Let_def split: sum.splits option.splits if_splits)

lemma insert_scan_rows_Inl: "insert_scan_rows w ctx rid os d = Inl e \<Longrightarrow> \<exists>what. e = DbErr what"
  by (induction os arbitrary: d) (auto split: sum.splits if_splits dest: scan_row_Inl)

lemma writeScanEvents_Inl: "writeScanEvents w ctx os rid d = Inl e \<Longrightarrow> \<exists>what. e = DbErr what"
  by (auto simp: writeScanEvents_def Let_def dest: insert_scan_rows_Inl split: if_splits)

lemma writeOutcomes_Inl:
  assumes "writeOutcomes w now ctx outs rid d = Inl e"
  shows "\<exists>what. e = DbErr what"
proof (cases "ensure_sessions w ctx now outs d")
  case (Inl e')
  with assms show ?thesis
    by (auto simp: writeOutcomes_def ensure_sessions_def Let_def dest: insert_gate_sessions_Inl
          split: if_splits sum.splits prod.splits)
next
  case (Inr x)
  obtain outs1 sids d1 where x: "x = (outs1, sids, d1)" by (cases x)
  obtain outs2 m where b: "by_student outs1 [] = (outs2, m)" by fastforce
  from ensure_sessions_facts [of w ctx now outs d outs1 sids d1] Inr x
  have cov: "sections_covered sids outs1" by simp
  note B = by_student_facts [OF b]
  have ne: "map_of sids (the (oc_classSectionId o')) \<noteq> None" if km: "(k, o') \<in> set m" for k o'
  proof -
    from km B map_of_is_SomeI [of m k o'] have o': "o' \<in> set outs2" "oc_decision o' = ACCEPTED"
      by (auto simp: entries_of_def)
    with B decision_steps_in obtain y where "y \<in> set outs1" "decision_step y o'" by metis
    with o'(2) cov decision_step_fields [of y o'] show ?thesis by (auto simp: sections_covered_def)
  qed
  then have "\<forall>x \<in> set m. \<not> (case x of (k, o') \<Rightarrow> map_of sids (the (oc_classSectionId o')) = None)"
    by (auto simp del: not_None_eq)
  then obtain todo where "to_upsert w sids m = Inr todo" by (auto simp: to_upsert_def simp del: not_None_eq)
  with assms Inr x b show ?thesis
    by (auto simp: writeOutcomes_def Let_def dest: insert_presence_events_Inl writeScanEvents_Inl
          split: sum.splits prod.splits)
qed

lemma ingest_tx_Inl: "ingest_tx w now sid date mode rid unique deb d = Inl e \<Longrightarrow> \<exists>what. e = DbErr what"
  by (auto simp: ingest_tx_def Let_def dest: writeScanEvents_Inl writeOutcomes_Inl split: if_splits sum.splits)

text \<open>The summary: three classes that cover every decision.\<close>

lemma count_decisions_total:
  "count_decisions (\<lambda>x. x \<in> ACCEPTED_DECISIONS) all + count_decisions (\<lambda>x. x \<notin> ACCEPTED_DECISIONS \<and> x \<in> DUPLICATE_DECISIONS) all
     + count_decisions (\<lambda>x. x \<notin> ACCEPTED_DECISIONS \<and> x \<notin> DUPLICATE_DECISIONS) all = length all"
  by (induction all) (auto simp: count_decisions_def)

lemma summarize_ok:
  "length all = n \<Longrightarrow> summarize w all n = Inr \<lparr>bs_processed = n,
     bs_accepted = count_decisions (\<lambda>x. x \<in> ACCEPTED_DECISIONS) all,
     bs_duplicate = count_decisions (\<lambda>x. x \<notin> ACCEPTED_DECISIONS \<and> x \<in> DUPLICATE_DECISIONS) all,
     bs_rejected = count_decisions (\<lambda>x. x \<notin> ACCEPTED_DECISIONS \<and> x \<notin> DUPLICATE_DECISIONS) all\<rparr>"
  using count_decisions_total [of all] by (simp add: summarize_def Let_def)

text \<open>One normalized batch: either the transaction failed or every position is answered in order.\<close>

lemma run_batch_cases:
  assumes "normalizeReads w sid rid0 now tz raw = Inr (reads, malformed)"
  obtains (failed) e what where "run_batch w active now sid (tz, mode) reader (length raw) reads malformed g = (g, Inl e)"
      "withTenantContext active sid (Inr ()) = Inl e \<or> e = DbErr what"
  | (ok) unique dupes deb outs d' all g' resp where
      "dedupeInBatch reads = (unique, dupes)"
      "deb = loadDebounced g now sid (map nr_epcDigest unique)"
      "ingest_tx w now sid (toSchoolDate w now tz) mode (ad_id reader) unique deb (gw_db g) = Inr (outs, d')"
      "all = sort_key oc_index (outs @ dupes @ map malformed_outcome malformed)"
      "map oc_index all = [0..<length raw]"
      "run_batch w active now sid (tz, mode) reader (length raw) reads malformed g = (g', Inr resp)"
      "ir_results resp = map result_row_of all" "summarize w all (length raw) = Inr (ir_summary resp)"
      "g' = recordBatchMetrics all (markDebounced w now sid (map (\<lambda>o'. nr_epcDigest (the (oc_read o')))
         (filter (\<lambda>o'. oc_decision o' \<in> ACCEPTED_DECISIONS) outs)) (g\<lparr>gw_db := d'\<rparr>))"
proof -
  from assms normalizeReads_positions [of w sid rid0 now tz raw]
  have pos: "mset (map nr_index reads @ map mf_index malformed) = mset [0..<length raw]"
    "sorted_wrt (<) (map nr_index reads)" by auto
  obtain unique dupes where dd: "dedupeInBatch reads = (unique, dupes)" by fastforce
  let ?deb = "loadDebounced g now sid (map nr_epcDigest unique)"
  let ?tx = "ingest_tx w now sid (toSchoolDate w now tz) mode (ad_id reader) unique ?deb (gw_db g)"
  show thesis
  proof (cases "withTenantContext active sid ?tx")
    case (Inl e)
    then have "withTenantContext active sid (Inr ()) = Inl e \<or> ?tx = Inl e"
      by (auto simp: withTenantContext_def split: if_splits db_context.splits)
    moreover from Inl dd have "run_batch w active now sid (tz, mode) reader (length raw) reads malformed g = (g, Inl e)"
      by (simp add: run_batch_def Let_def)
    ultimately show thesis using ingest_tx_Inl failed by blast
  next
    case (Inr x)
    obtain outs d' where x: "x = (outs, d')" by (cases x)
    with Inr have tx: "?tx = Inr (outs, d')" by (simp add: withTenantContext_Inr)
    define all where "all = sort_key oc_index (outs @ dupes @ map malformed_outcome malformed)"
    have "map oc_index outs = map nr_index unique"
      by (rule ingest_tx_index [OF tx dedupe_unique_distinct [OF dd pos(2)]])
    moreover have mm: "oc_index \<circ> malformed_outcome = mf_index"
      by (simp add: malformed_outcome_def fun_eq_iff)
    ultimately have "mset (map oc_index (outs @ dupes @ map malformed_outcome malformed)) = mset [0..<length raw]"
      using dedupe_positions [OF dd pos(2)] pos(1) by (simp add: add.assoc [symmetric] mm)
    from map_sort_key_positions [OF this] have idx: "map oc_index all = [0..<length raw]"
      by (simp only: all_def)
    from arg_cong [OF this, of length] have len: "length all = length raw" by simp
    define g1 where "g1 = markDebounced w now sid (map (\<lambda>o'. nr_epcDigest (the (oc_read o')))
         (filter (\<lambda>o'. oc_decision o' \<in> ACCEPTED_DECISIONS) outs)) (g\<lparr>gw_db := d'\<rparr>)"
    from summarize_ok [OF len, of w] obtain S where S: "summarize w all (length raw) = Inr S" by blast
    define resp where "resp = \<lparr>ir_readerId = ad_id reader, ir_readerName = ad_name reader,
       ir_summary = S, ir_results = map result_row_of all\<rparr>"
    have sm: "summarize w all (length raw) = Inr (ir_summary resp)"
      using S by (simp add: resp_def)
    have "run_batch w active now sid (tz, mode) reader (length raw) reads malformed g
        = (recordBatchMetrics all g1, Inr resp)"
      using Inr x dd S [unfolded all_def] unfolding run_batch_def resp_def by (simp add: Let_def all_def g1_def)
    then show thesis
      by (intro ok [OF dd refl tx all_def idx _ _ sm g1_def [THEN arg_cong, of "recordBatchMetrics all"]])
         (simp_all add: resp_def)
  qed
qed

lemma findReader_tenant:
  "findReaderByIdentifier active d sid ident = Inr x \<Longrightarrow> isUuid sid \<and> active \<in> {NoContext, TenantContext sid}"
  by (auto simp: findReaderByIdentifier_def withTenantContext_Inr)

lemma authenticate_tenant:
  assumes "authenticateZebraRequest w active now sid h body ident d = Inr (a, d')"
  shows "isUuid sid \<and> active \<in> {NoContext, TenantContext sid}"
proof -
  have leg: "isUuid sid \<and> active \<in> {NoContext, TenantContext sid}"
    if "authenticate_legacy w active now sid h ident d = Inr (a, d')"
    using that by (auto simp: authenticate_legacy_def Let_def dest!: findReader_tenant split: option.splits if_splits sum.splits)
  from assms show ?thesis
    by (auto simp: authenticateZebraRequest_def withTenantContext_Inr dest: findReader_tenant leg
          split: option.splits if_splits sum.splits)
qed

lemma getSchoolSettings_ok:
  assumes "isUuid sid" "active \<in> {NoContext, TenantContext sid}"
  obtains tz mode st where "getSchoolSettings active now sid g = (g\<lparr>gw_settings := st\<rparr>, Inr (tz, mode))"
proof -
  have "\<exists>tz mode st. load_settings active now sid g = (g\<lparr>gw_settings := st\<rparr>, Inr (tz, mode))"
    using assms by (auto simp: load_settings_def Let_def withTenantContext_def)
  then obtain tz mode st where ld: "load_settings active now sid g = (g\<lparr>gw_settings := st\<rparr>, Inr (tz, mode))"
    by blast
  show thesis
  proof (cases "map_of (gw_settings g) sid")
    case None
    with ld show thesis by (intro that) (simp add: getSchoolSettings_def)
  next
    case (Some c)
    show thesis
    proof (cases "now < ce_expiresAt c")
      case True
      with Some show thesis by (intro that [where st = "gw_settings g"]) (simp add: getSchoolSettings_def)
    next
      case False
      with Some ld show thesis by (intro that) (simp add: getSchoolSettings_def)
    qed
  qed
qed

lemma processZebraBatch_cases:
  obtains (payload) e where "extractRawReads body = Inl e" "processZebraBatch w active now sid rb body h g = (g, Inl e)"
  | (auth) raw e where "extractRawReads body = Inr raw"
      "authenticateZebraRequest w active now sid h rb (readerIdFrom body h) (gw_db g) = Inl e"
      "processZebraBatch w active now sid rb body h g = (g, Inl e)"
  | (batch) raw reader d1 g2 tz mode st reads malformed where "extractRawReads body = Inr raw"
      "authenticateZebraRequest w active now sid h rb (readerIdFrom body h) (gw_db g) = Inr (reader, d1)"
      "g2 = g\<lparr>gw_db := d1, gw_settings := st\<rparr>"
      "getSchoolSettings active now sid (g\<lparr>gw_db := d1\<rparr>) = (g2, Inr (tz, mode))"
      "isUuid sid" "active \<in> {NoContext, TenantContext sid}"
      "normalizeReads w sid (ad_id reader) now tz raw = Inr (reads, malformed)"
      "processZebraBatch w active now sid rb body h g
         = run_batch w active now sid (tz, mode) reader (length raw) reads malformed g2"
proof (cases "extractRawReads body")
  case (Inl e)
  then show thesis by (intro payload) (simp_all add: processZebraBatch_def)
next
  case (Inr raw)
  show thesis
  proof (cases "authenticateZebraRequest w active now sid h rb (readerIdFrom body h) (gw_db g)")
    case (Inl e)
    with Inr show thesis by (intro auth) (simp_all add: processZebraBatch_def)
  next
    case r: (Inr x)
    obtain reader d1 where x: "x = (reader, d1)" by (cases x)
    note ten = authenticate_tenant [OF r [unfolded x]]
    from ten obtain tz mode st where st: "getSchoolSettings active now sid (g\<lparr>gw_db := d1\<rparr>)
        = ((g\<lparr>gw_db := d1\<rparr>)\<lparr>gw_settings := st\<rparr>, Inr (tz, mode))"
      by (blast intro: getSchoolSettings_ok)
    obtain reads malformed where "normalizeReads w sid (ad_id reader) now tz raw = Inr (reads, malformed)"
      by (rule normalizeReads_positions)
    with Inr r x st ten show thesis by (intro batch) (simp_all add: processZebraBatch_def)
  qed
qed

lemma bs_counts:
  "summarize w all n = Inr s \<Longrightarrow> length all = n \<Longrightarrow>
     bs_processed s = n \<and> bs_accepted s + bs_duplicate s + bs_rejected s = n
     \<and> bs_accepted s = length (filter (\<lambda>o'. oc_decision o' \<in> ACCEPTED_DECISIONS) all)"
  using summarize_ok [of all n w] count_decisions_total [of all] by (auto simp: count_decisions_def)

text \<open>
  C13: every read is answered.  A successful call returns one result per raw read of the payload, in
  payload order, and its counters are those of the results and add up to the number of reads.
\<close>

theorem batch_answers_every_read:
  assumes "processZebraBatch w active now sid rb body h g = (g', Inr resp)" "extractRawReads body = Inr raw"
  shows "map rw_index (ir_results resp) = [0..<length raw]
    \<and> bs_processed (ir_summary resp) = length raw
    \<and> bs_accepted (ir_summary resp) + bs_duplicate (ir_summary resp) + bs_rejected (ir_summary resp) = length raw
    \<and> bs_accepted (ir_summary resp) = length (filter (\<lambda>r. rw_decision r \<in> {ACCEPTED, ALREADY_PRESENT}) (ir_results resp))
    \<and> length raw \<le> MAX_BATCH_READS"
proof -
  have mx: "length raw \<le> MAX_BATCH_READS"
    using assms(2) by (auto simp: extractRawReads_def split: option.splits json.splits if_splits)
  show ?thesis
  proof (cases rule: processZebraBatch_cases [of body w active now sid rb h g])
    case (batch raw' reader d1 g2 tz mode st reads malformed)
    from batch(1) assms(2) have raw: "raw' = raw" by simp
    show ?thesis
      using batch(7)
proof (cases rule: run_batch_cases [where active = active and reader = reader and g = g2 and mode = mode])
      case failed
      with batch(8) assms(1) show ?thesis by simp
    next
      case (ok unique dupes deb outs d' all g'' resp')
      from ok(6) batch(8) assms(1) have resp: "resp' = resp" by simp
      from arg_cong [OF ok(5), of length] have len: "length all = length raw" by (simp add: raw)
      from bs_counts [OF ok(8) [unfolded raw resp] len] ok(5,7) mx show ?thesis
        by (simp add: resp raw result_row_of_def comp_def filter_map ACCEPTED_DECISIONS_def)
    qed
  qed (use assms in auto)
qed

text \<open>
  No internal failure.  A call fails only because the payload was refused, the reader was not
  authenticated or the database rejected a row; the pipeline's own invariant checks (an accepted
  outcome without a session, a result count that does not match the reads) never fire.
\<close>

theorem batch_fails_only_for_cause:
  assumes "processZebraBatch w active now sid rb body h g = (g', Inl e)"
  shows "extractRawReads body = Inl e
    \<or> authenticateZebraRequest w active now sid h rb (readerIdFrom body h) (gw_db g) = Inl e
    \<or> (\<exists>what. e = DbErr what)"
proof (cases rule: processZebraBatch_cases [of body w active now sid rb h g])
  case (batch raw reader d1 g2 tz mode st reads malformed)
  show ?thesis
  using batch(7)
proof (cases rule: run_batch_cases [where active = active and reader = reader and g = g2 and mode = mode])
    case (failed e' what)
    with batch assms have "e' = e" "withTenantContext active sid (Inr ()) = Inr ()"
      by (simp_all add: withTenantContext_Inr)
    with failed show ?thesis by simp
  next
    case (ok unique dupes deb outs d' all g'' resp')
    with batch(8) assms show ?thesis by simp
  qed
qed (use assms in auto)

text \<open>
  Shadow mode only observes.  While the school's mode is SHADOW a call leaves every table as it
  was except for new scan events and the last-used stamps of readers.
\<close>

theorem shadow_mode_only_logs:
  assumes "processZebraBatch w active now sid rb body h g = (g', res)"
    and "snd (getSchoolSettings active now sid g) = Inr (tz, ''SHADOW'')"
  shows "\<exists>rs new n. gw_db g' = (gw_db g)\<lparr>t_readers := rs, t_scanEvents := t_scanEvents (gw_db g) @ new, seq := n\<rparr>"
proof -
  have refl: "\<exists>rs new n. d\<lparr>t_readers := r0\<rparr> = d\<lparr>t_readers := rs, t_scanEvents := t_scanEvents d @ new, seq := n\<rparr>"
    for d :: db and r0 by (intro exI [of _ r0] exI [of _ "[]"] exI [of _ "seq d"]) simp
  show ?thesis
  proof (cases rule: processZebraBatch_cases [of body w active now sid rb h g])
    case (payload e)
    with assms(1) refl [where d = "gw_db g" and ?r0.0 = "t_readers (gw_db g)"] show ?thesis by simp
  next
    case (auth raw e)
    with assms(1) refl [where d = "gw_db g" and ?r0.0 = "t_readers (gw_db g)"] show ?thesis by simp
  next
    case (batch raw reader d1 g2 tz' mode st reads malformed)
    from authenticated_tables [OF batch(2)] obtain rs where d1: "d1 = (gw_db g)\<lparr>t_readers := rs\<rparr>" by blast
    from assms(2) batch(4) d1 have mode: "mode = ''SHADOW''"
      by (auto simp: getSchoolSettings_def load_settings_def Let_def split: option.splits sum.splits if_splits)
    show ?thesis
      using batch(7)
proof (cases rule: run_batch_cases [where active = active and reader = reader and g = g2 and mode = mode])
      case (failed e' what)
      with batch(3,8) assms(1) d1 refl [where d = "gw_db g" and ?r0.0 = rs] show ?thesis by simp
    next
      case (ok unique dupes deb outs d' all g'' resp')
      from ok(3) mode batch(3) have "writeScanEvents w (loadContext d1 sid (toSchoolDate w now tz') unique deb)
          (map (\<lambda>r. decideRead r (loadContext d1 sid (toSchoolDate w now tz') unique deb)) unique) (ad_id reader) d1 = Inr d'"
        by (simp add: ingest_tx_def Let_def split: sum.splits)
      from writeScanEvents_frame [OF this] d1 have "\<exists>rs new n. d' = (gw_db g)\<lparr>t_readers := rs,
          t_scanEvents := t_scanEvents (gw_db g) @ new, seq := n\<rparr>" by auto
      moreover have "gw_db g' = d'"
        using ok(6,9) batch(8) assms(1) by (auto simp: recordBatchMetrics_def markDebounced_def split: option.splits)
      ultimately show ?thesis by simp
    qed
  qed
qed


subsection \<open>Debounce\<close>

lemma map_of_fold_update:
  "map_of (fold (\<lambda>x m. AList.update (f x) v m) xs m0) k =
     (if k \<in> f ` set xs then Some v else map_of m0 k)"
  by (induction xs arbitrary: m0) (auto simp: update_conv')

lemma debounced_after_mark:
  assumes "gw_redis g = Some keys" "0 < env_debounce_seconds w" "x \<in> set marked" "x \<in> set digests"
    and "later < now + env_debounce_seconds w * 1000"
  shows "x \<in> loadDebounced (markDebounced w now sid marked g) later sid digests"
  using assms by (auto simp: markDebounced_def loadDebounced_def map_of_fold_update)

text \<open>
  A badge held at the gate counts once.  After a successful call, while Redis answers, a badge
  whose read was accepted is debounced for the configured time: any later read of the same badge
  in that window is rejected or a duplicate and writes nothing to attendance.
\<close>

theorem accepted_badge_is_debounced:
  assumes "processZebraBatch w active now sid rb body h g = (g', Inr resp)" "gw_redis g = Some keys"
    and "extractRawReads body = Inr raw"
    and "authenticateZebraRequest w active now sid h rb (readerIdFrom body h) (gw_db g) = Inr (reader, d1)"
    and "getSchoolSettings active now sid (g\<lparr>gw_db := d1\<rparr>) = (g2, Inr (tz, mode))"
    and "normalizeReads w sid (ad_id reader) now tz raw = Inr (reads, malformed)"
    and "r \<in> set reads" "rw_decision (ir_results resp ! nr_index r) \<in> {ACCEPTED, ALREADY_PRESENT}"
    and "0 < env_debounce_seconds w" "later < now + env_debounce_seconds w * 1000"
    and "nr_epcDigest r' = nr_epcDigest r" "r' \<in> set reads'"
  shows "oc_decision (decideRead r' (loadContext d sid date reads'
           (loadDebounced g' later sid (map nr_epcDigest reads')))) \<in> {FUTURE_SKEW, WRONG_SCHOOL_DAY, DUPLICATE_DEBOUNCED}"
proof -
  from assms(4) have ten: "isUuid sid" "active \<in> {NoContext, TenantContext sid}" using authenticate_tenant by auto
  then obtain tz' mode' st where "getSchoolSettings active now sid (g\<lparr>gw_db := d1\<rparr>)
      = ((g\<lparr>gw_db := d1\<rparr>)\<lparr>gw_settings := st\<rparr>, Inr (tz', mode'))" by (rule getSchoolSettings_ok)
  with assms(5) have g2: "gw_redis g2 = Some keys" using assms(2) by auto
  from assms(1,3-6) have run: "run_batch w active now sid (tz, mode) reader (length raw) reads malformed g2 = (g', Inr resp)"
    by (simp add: processZebraBatch_def)
  from assms(6) have "normalizeReads w sid (ad_id reader) now tz raw = Inr (reads, malformed)" .
  then have "nr_epcDigest r \<in> loadDebounced g' later sid (map nr_epcDigest reads')"
  proof (cases rule: run_batch_cases [where active = active and reader = reader and g = g2 and mode = mode])
    case (failed e' what)
    with run show ?thesis by simp
  next
    case (ok unique dupes deb outs d' all g'' resp')
    from ok(6) run have eq: "g'' = g'" "resp' = resp" by simp_all
    have pos: "mset (map nr_index reads @ map mf_index malformed) = mset [0..<length raw]"
      "sorted_wrt (<) (map nr_index reads)"
      using assms(6) normalizeReads_positions [of w sid "ad_id reader" now tz raw] by auto
    have "nr_index r \<in> set (map nr_index reads @ map mf_index malformed)" using assms(7) by simp
    then have lt: "nr_index r < length raw" unfolding mset_eq_setD [OF pos(1)] by simp
    from arg_cong [OF ok(5), of length] have len: "length all = length raw" by simp
    define a where "a = all ! nr_index r"
    have a: "a \<in> set all" "oc_index a = nr_index r" "oc_decision a \<in> {ACCEPTED, ALREADY_PRESENT}"
      using lt len arg_cong [OF ok(5), of "\<lambda>xs. xs ! nr_index r"] assms(8) ok(7) eq
      by (simp_all add: a_def result_row_of_def)
    from a(1) ok(4) have "a \<in> set outs \<or> a \<in> set dupes \<or> a \<in> malformed_outcome ` set malformed" by simp
    with a(3) dedupe_dupes_decision [OF ok(1)] have outs: "a \<in> set outs" by (auto simp: malformed_outcome_def)
    from decision_steps_in [OF ingest_tx_steps [OF ok(3) dedupe_unique_distinct [OF ok(1) pos(2)]] outs]
    obtain u where u: "u \<in> set unique" "oc_read a = Some u" "nr_index u = nr_index r"
      using decision_step_fields a(2) by fastforce
    from u(1) dedupe_unique [OF ok(1) pos(2)] have "u \<in> set reads" by auto
    with u(3) assms(7) pos(2) have "u = r"
      by (metis strict_sorted_iff distinct_map inj_onD)
    with u(2) outs a(3) have "nr_epcDigest r \<in> set (map (\<lambda>o'. nr_epcDigest (the (oc_read o')))
        (filter (\<lambda>o'. oc_decision o' \<in> ACCEPTED_DECISIONS) outs))"
      by (force simp: ACCEPTED_DECISIONS_def)
    moreover have "nr_epcDigest r \<in> set (map nr_epcDigest reads')" using assms(11,12) by (metis image_eqI list.set_map)
    ultimately have "nr_epcDigest r \<in> loadDebounced (markDebounced w now sid (map (\<lambda>o'. nr_epcDigest (the (oc_read o')))
        (filter (\<lambda>o'. oc_decision o' \<in> ACCEPTED_DECISIONS) outs)) (g2\<lparr>gw_db := d'\<rparr>)) later sid (map nr_epcDigest reads')"
      using g2 assms(9,10) by (intro debounced_after_mark [where keys = keys]) simp_all
    then show ?thesis using ok(9) eq by (simp add: loadDebounced_def recordBatchMetrics_def)
  qed
  then show ?thesis using assms(11) by (simp add: decideRead_def)
qed

section \<open>Examples\<close>

definition example_gateway :: "string \<Rightarrow> gateway" where
  "example_gateway mode = \<lparr>gw_db = example_db\<lparr>
       t_schools := [\<lparr>sc_id = example_school, sc_name = [], sc_slug = [], sc_udiseCode = [], sc_district = [], sc_block = None, sc_preferredLanguage = ''en'', sc_timezone = ''UTC'', sc_rfidMode = mode, sc_status = ''ACTIVE''\<rparr>],
       t_academicYears := map (\<lambda>y. y\<lparr>ay_schoolId := example_school\<rparr>) (t_academicYears example_db),
       t_teacherAssignments := map (\<lambda>t. t\<lparr>ta_schoolId := example_school\<rparr>) (t_teacherAssignments example_db),
       t_students := map (\<lambda>s. s\<lparr>st_schoolId := example_school\<rparr>) (t_students example_db),
       t_enrollments := map (\<lambda>e. e\<lparr>en_schoolId := example_school\<rparr>) (t_enrollments example_db),
       t_credentials := map (\<lambda>c. c\<lparr>rc_schoolId := example_school,
          rc_credentialDigest := ''E200341201B80201:'' @ example_school\<rparr>) (t_credentials example_db),
       t_readers := [example_reader]\<rparr>,
     gw_redis = Some [], gw_settings = [], gw_counts = []\<rparr>"

definition example_body :: json where
  "example_body = JObj [(''deviceId'', JStr ''gate''), (''data'', JArr example_batch)]"

definition example_call :: "string \<Rightarrow> gateway \<times> ingest_response result" where
  "example_call mode = processZebraBatch example_world NoContext 1700000000900 example_school ''body'' example_body
     example_headers (example_gateway mode)"

definition example_response :: ingest_response where
  "example_response = (case snd (example_call ''LIVE'') of Inr r \<Rightarrow> r
     | Inl _ \<Rightarrow> \<lparr>ir_readerId = [], ir_readerName = [], ir_summary = \<lparr>bs_processed = 0, bs_accepted = 0,
          bs_duplicate = 0, bs_rejected = 0\<rparr>, ir_results = []\<rparr>)"

lemma example_call_view:
  "(case snd (example_call ''LIVE'') of Inl _ \<Rightarrow> None | Inr r \<Rightarrow> Some (map rw_decision (ir_results r)))
     = Some [DUPLICATE_IN_BATCH, MALFORMED_READ, ACCEPTED]"
  by code_simp

lemma example_call_live:
  "example_call ''LIVE'' = (fst (example_call ''LIVE''), Inr example_response)"
  using example_call_view
  by (cases "snd (example_call ''LIVE'')") (simp_all add: example_response_def prod_eq_iff)

lemma example_response_decisions:
  "map rw_decision (ir_results example_response) = [DUPLICATE_IN_BATCH, MALFORMED_READ, ACCEPTED]"
  using example_call_view by (subst (asm) example_call_live) simp

theorem batch_answers_every_read_witness:
  "map rw_index (ir_results example_response) = [0..<3]
     \<and> map rw_decision (ir_results example_response) = [DUPLICATE_IN_BATCH, MALFORMED_READ, ACCEPTED]"
proof -
  have "extractRawReads example_body = Inr example_batch" by code_simp
  from batch_answers_every_read [OF example_call_live [unfolded example_call_def] this]
  have "map rw_index (ir_results example_response) = [0..<length example_batch]" by simp
  moreover have "length example_batch = 3" by code_simp
  ultimately show ?thesis using example_response_decisions by simp
qed

theorem batch_fails_only_for_cause_witness:
  "extractRawReads (JStr ''x'') = Inl (AppErr ''MALFORMED_PAYLOAD'' 400)
     \<or> authenticateZebraRequest example_world NoContext 0 example_school (\<lambda>_. None) ''b''
          (readerIdFrom (JStr ''x'') (\<lambda>_. None)) (gw_db (example_gateway ''LIVE'')) = Inl (AppErr ''MALFORMED_PAYLOAD'' 400)
     \<or> (\<exists>what. AppErr ''MALFORMED_PAYLOAD'' 400 = DbErr what)"
  by (rule batch_fails_only_for_cause [of example_world NoContext 0 example_school "''b''" "JStr ''x''" "\<lambda>_. None"
        "example_gateway ''LIVE''" "example_gateway ''LIVE''"])
     (simp add: processZebraBatch_def extractRawReads_def payload_list_def)

theorem shadow_mode_only_logs_witness:
  "\<exists>rs new n. gw_db (fst (example_call ''SHADOW'')) = (gw_db (example_gateway ''SHADOW''))
     \<lparr>t_readers := rs, t_scanEvents := t_scanEvents (gw_db (example_gateway ''SHADOW'')) @ new, seq := n\<rparr>"
proof (rule shadow_mode_only_logs)
  show "processZebraBatch example_world NoContext 1700000000900 example_school ''body'' example_body example_headers
      (example_gateway ''SHADOW'') = (fst (example_call ''SHADOW''), snd (example_call ''SHADOW''))"
    by (simp add: example_call_def)
  show "snd (getSchoolSettings NoContext 1700000000900 example_school (example_gateway ''SHADOW''))
      = Inr (''UTC'', ''SHADOW'')" by code_simp
qed

theorem accepted_badge_is_debounced_witness:
  "\<exists>reads malformed r.
     normalizeReads example_world example_school ''r'' 1700000000900 ''UTC'' example_batch = Inr (reads, malformed)
     \<and> r \<in> set reads \<and> nr_index r = 2
     \<and> oc_decision (decideRead r (loadContext empty_db example_school ''d'' [r]
           (loadDebounced (fst (example_call ''LIVE'')) 1700000030000 example_school [nr_epcDigest r])))
       \<in> {FUTURE_SKEW, WRONG_SCHOOL_DAY, DUPLICATE_DEBOUNCED}"
proof -
  let ?g = "example_gateway ''LIVE''"
  let ?auth = "authenticateZebraRequest example_world NoContext 1700000000900 example_school example_headers ''body''
      (readerIdFrom example_body example_headers) (gw_db ?g)"
  have raw: "extractRawReads example_body = Inr example_batch" by code_simp
  have "case ?auth of Inl _ \<Rightarrow> False | Inr _ \<Rightarrow> True" by code_simp
  then obtain reader d1 where auth: "?auth = Inr (reader, d1)" by (cases ?auth) auto
  have "case snd (getSchoolSettings NoContext 1700000000900 example_school (?g\<lparr>gw_db := gw_db ?g\<rparr>)) of
      Inl _ \<Rightarrow> False | Inr (tz, mode) \<Rightarrow> tz = ''UTC''" by code_simp
  moreover from authenticated_tables [OF auth] obtain rs where "d1 = (gw_db ?g)\<lparr>t_readers := rs\<rparr>" by blast
  ultimately obtain g2 mode where set:
    "getSchoolSettings NoContext 1700000000900 example_school (?g\<lparr>gw_db := d1\<rparr>) = (g2, Inr (''UTC'', mode))"
    by (auto simp: getSchoolSettings_def load_settings_def Let_def withTenantContext_def
          split: option.splits sum.splits if_splits)
  obtain reads malformed where norm:
    "normalizeReads example_world example_school (ad_id reader) 1700000000900 ''UTC'' example_batch = Inr (reads, malformed)"
    by (rule normalizeReads_positions)
  have rid: "ad_id reader = ''r''"
  proof -
    have "case ?auth of Inl _ \<Rightarrow> False | Inr (a, _) \<Rightarrow> ad_id a = ''r''" by code_simp
    with auth show ?thesis by simp
  qed
  have "case normalizeReads example_world example_school ''r'' 1700000000900 ''UTC'' example_batch of
      Inl _ \<Rightarrow> False | Inr (rs, _) \<Rightarrow> map nr_index rs = [0, 2]" by code_simp
  with norm rid have "map nr_index reads = [0, 2]" by simp
  then have "2 \<in> set (map nr_index reads)" by simp
  then obtain r where r: "r \<in> set reads" "nr_index r = 2" by auto
  have call: "processZebraBatch example_world NoContext 1700000000900 example_school ''body'' example_body example_headers ?g
      = (fst (example_call ''LIVE''), Inr example_response)"
    unfolding example_call_def [symmetric] by (rule example_call_live)
  have dec: "rw_decision (ir_results example_response ! 2) \<in> {ACCEPTED, ALREADY_PRESENT}"
    using example_response_decisions by (auto simp: map_eq_Cons_conv)
  have deb: "oc_decision (decideRead r (loadContext empty_db example_school ''d'' [r]
           (loadDebounced (fst (example_call ''LIVE'')) 1700000030000 example_school (map nr_epcDigest [r]))))
       \<in> {FUTURE_SKEW, WRONG_SCHOOL_DAY, DUPLICATE_DEBOUNCED}"
    by (rule accepted_badge_is_debounced [OF call _ raw auth set norm r(1), where keys = "[]"])
       (use r dec in \<open>simp_all add: example_gateway_def example_world_def\<close>)
  with norm rid r show ?thesis by auto
qed

end
