(* ===== verification/Sms.thy ===== *)
theory Sms
  imports Schema
begin

text \<open>
  Models src/src/services/sms/smsUtils.ts and src/src/services/privacy/consent.ts: phone number
  redaction, the estimate of SMS segments, template rendering, and the consent log.  Message
  text is a list of Unicode code points.
\<close>

section \<open>Phone numbers\<close>

definition redactPhoneNumber :: "string \<Rightarrow> string" where
  "redactPhoneNumber phone =
     (if phone = [] then ''***''
      else let trimmed = js_trim phone in
        if length trimmed < 7 then ''***''
        else let prefix = (if hd trimmed = CHR ''+''
                           then take ((if length trimmed > 12 then 3 else 2) + 2) trimmed
                           else take 2 trimmed);
                 suffix = slice_last 4 trimmed;
                 middle = max 1 (int (length trimmed) - int (length prefix) - int (length suffix))
             in prefix @ replicate (nat middle) (CHR ''*'') @ suffix)"

section \<open>Segments\<close>

text \<open>The character class of the GSM 7-bit test, as code points.\<close>

definition gsm_char :: "int \<Rightarrow> bool" where
  "gsm_char c = (97 \<le> c \<and> c \<le> 122 \<or> 65 \<le> c \<and> c \<le> 90 \<or> 48 \<le> c \<and> c \<le> 57
     \<or> c \<in> {10, 13, 32, 64, 163, 36, 165, 232, 233, 249, 236, 242, 199, 216, 248, 197, 229, 916, 95, 934, 915,
            923, 937, 928, 936, 931, 920, 926, 198, 230, 223, 201, 33, 34, 35, 37, 38, 39, 40, 41, 42, 43, 44,
            45, 46, 47, 58, 59, 60, 61, 62, 63, 94, 123, 125, 92, 91, 126, 93, 124, 8364})"

record segment_estimate =
  sm_charCount :: int
  sm_isUnicode :: bool
  sm_segmentCount :: int

text \<open>\<open>Math.ceil(a / b)\<close> of positive integers.\<close>

definition ceil_div :: "int \<Rightarrow> int \<Rightarrow> int" where
  "ceil_div a b = (a + b - 1) div b"

definition estimateSmsSegments :: "ustring \<Rightarrow> segment_estimate" where
  "estimateSmsSegments message =
     (if message = [] then \<lparr>sm_charCount = 0, sm_isUnicode = False, sm_segmentCount = 0\<rparr>
      else let isUnicode = (\<not> list_all gsm_char message);
               charCount = int (length message);
               segmentCount = (if isUnicode then (if charCount \<le> 70 then 1 else ceil_div charCount 67)
                               else (if charCount \<le> 160 then 1 else ceil_div charCount 153))
           in \<lparr>sm_charCount = charCount, sm_isUnicode = isUnicode, sm_segmentCount = segmentCount\<rparr>)"

section \<open>Templates\<close>

definition word_char :: "int \<Rightarrow> bool" where
  "word_char c = (97 \<le> c \<and> c \<le> 122 \<or> 65 \<le> c \<and> c \<le> 90 \<or> 48 \<le> c \<and> c \<le> 57 \<or> c = 95)"

text \<open>
  The matches of \<open>/\{([a-zA-Z0-9_]+)\}/g\<close>: text between matches and the keys of the matches.
\<close>

datatype piece = Chr int | Key ustring

function pieces :: "ustring \<Rightarrow> piece list" where
  "pieces s = (case s of
       [] \<Rightarrow> []
     | c # cs \<Rightarrow>
         let k = takeWhile word_char cs; rest = dropWhile word_char cs in
         if c = 123 \<and> k \<noteq> [] \<and> rest \<noteq> [] \<and> hd rest = 125 then Key k # pieces (tl rest)
         else Chr c # pieces cs)"
  by auto
termination
proof (relation "measure length", goal_cases)
  case (2 s c cs k rest)
  then show ?case using length_dropWhile_le [of word_char cs] by (cases "dropWhile word_char cs") auto
qed auto

declare pieces.simps [simp del]

definition found_vars :: "ustring \<Rightarrow> ustring list" where
  "found_vars t = remdups (List.map_filter (\<lambda>p. case p of Key k \<Rightarrow> Some k | Chr _ \<Rightarrow> None) (pieces t))"

definition validateTemplateVariables :: "ustring \<Rightarrow> ustring list \<Rightarrow> bool \<times> ustring list \<times> ustring list" where
  "validateTemplateVariables template requiredVars =
     (if template = [] then (False, [], requiredVars)
      else let found = found_vars template;
               missing = filter (\<lambda>v. v \<notin> set found) requiredVars
           in (missing = [], found, missing))"

text \<open>Keys that are no variables stay as they are (inherited names of Object.prototype aside).\<close>

definition renderTemplate :: "ustring \<Rightarrow> (ustring \<times> ustring) list \<Rightarrow> ustring" where
  "renderTemplate template variables =
     concat (map (\<lambda>p. case p of
         Chr c \<Rightarrow> [c]
       | Key k \<Rightarrow> (case map_of variables k of Some v \<Rightarrow> v | None \<Rightarrow> 123 # k @ [125])) (pieces template))"

section \<open>Consent (privacy/consent.ts)\<close>

definition consent_rows :: "db \<Rightarrow> uuid \<Rightarrow> uuid \<Rightarrow> string \<Rightarrow> consent list" where
  "consent_rows d schoolId studentId purpose =
     filter (\<lambda>c. gc_schoolId c = schoolId \<and> gc_studentId c = studentId \<and> gc_purpose c = purpose) (t_consents d)"

definition hasConsent :: "db \<Rightarrow> uuid \<Rightarrow> uuid \<Rightarrow> string \<Rightarrow> bool" where
  "hasConsent d schoolId studentId purpose =
     (case sort_key (\<lambda>c. - gc_recordedAt c) (consent_rows d schoolId studentId purpose) of
        [] \<Rightarrow> True
      | row # _ \<Rightarrow> if gc_withdrawnAt row \<noteq> None then False else gc_granted row)"

definition recordConsent ::
  "world \<Rightarrow> instant \<Rightarrow> uuid \<Rightarrow> uuid \<Rightarrow> uuid option \<Rightarrow> string \<Rightarrow> bool \<Rightarrow> uuid option \<Rightarrow> string option \<Rightarrow> db \<Rightarrow> db" where
  "recordConsent w now schoolId studentId guardianId purpose granted recordedBy evidenceRef d =
     d\<lparr>t_consents := t_consents d @
         [\<lparr>gc_id = gen_uuid w (seq d), gc_schoolId = schoolId, gc_studentId = studentId,
           gc_guardianId = js_or guardianId None, gc_purpose = purpose, gc_granted = granted,
           gc_evidenceRef = js_or evidenceRef None, gc_recordedBy = js_or recordedBy None,
           gc_recordedAt = now, gc_withdrawnAt = None\<rparr>],
       seq := Suc (seq d)\<rparr>"

definition withdrawConsent :: "instant \<Rightarrow> uuid \<Rightarrow> uuid \<Rightarrow> string \<Rightarrow> db \<Rightarrow> db" where
  "withdrawConsent now schoolId studentId purpose d =
     d\<lparr>t_consents := upd (\<lambda>c. gc_schoolId c = schoolId \<and> gc_studentId c = studentId \<and> gc_purpose c = purpose
                               \<and> gc_withdrawnAt c = None)
         (\<lambda>c. c\<lparr>gc_withdrawnAt := Some now\<rparr>) (t_consents d)\<rparr>"

section \<open>Facts\<close>

lemma ceil_div_bounds: "0 < b \<Longrightarrow> a \<le> ceil_div a b * b \<and> (ceil_div a b - 1) * b < a"
proof -
  assume b: "0 < b"
  let ?q = "(a + b - 1) div b"
  have "?q * b + (a + b - 1) mod b = a + b - 1" by simp
  moreover have "0 \<le> (a + b - 1) mod b" "(a + b - 1) mod b < b" using b by simp_all
  ultimately have "a \<le> ?q * b" "?q * b - b < a" by linarith+
  then show ?thesis by (simp add: ceil_div_def left_diff_distrib)
qed

text \<open>
  C36: the segment estimate is exact for its alphabet.  A message outside the GSM alphabet holds 70
  characters in one segment and 67 per segment beyond, one inside it 160 and 153; the estimate is
  the least number of segments of that size, and only the empty message needs none.
\<close>

theorem segment_estimate_exact:
  "let e = estimateSmsSegments m; n = sm_segmentCount e; c = sm_charCount e;
       single = (if sm_isUnicode e then 70 else 160); multi = (if sm_isUnicode e then 67 else 153)
   in c = int (length m) \<and> (sm_isUnicode e \<longleftrightarrow> \<not> list_all gsm_char m) \<and> (n = 0 \<longleftrightarrow> m = [])
      \<and> (m \<noteq> [] \<and> c \<le> single \<longrightarrow> n = 1)
      \<and> (c > single \<longrightarrow> 2 \<le> n \<and> c \<le> n * multi \<and> (n - 1) * multi < c)"
proof -
  have "ceil_div c 67 \<ge> 2" if "c > 70" for c
    using ceil_div_bounds [of 67 c] that by linarith
  moreover have "ceil_div c 153 \<ge> 2" if "c > 160" for c
    using ceil_div_bounds [of 153 c] that by linarith
  ultimately show ?thesis
    using ceil_div_bounds [of 67 "int (length m)"] ceil_div_bounds [of 153 "int (length m)"]
    by (auto simp: estimateSmsSegments_def Let_def)
qed

theorem segment_estimate_exact_witness:
  "sm_segmentCount (estimateSmsSegments (replicate 71 2474)) = 2"
proof -
  have "sm_charCount (estimateSmsSegments (replicate 71 2474)) = 71 \<and> sm_isUnicode (estimateSmsSegments (replicate 71 2474))"
    by code_simp
  with segment_estimate_exact [of "replicate 71 2474"] show ?thesis by (simp add: Let_def)
qed

text \<open>The pieces of a template spell the template.\<close>

definition spell :: "piece \<Rightarrow> ustring" where
  "spell p = (case p of Chr c \<Rightarrow> [c] | Key k \<Rightarrow> 123 # k @ [125])"

lemma spell_simps [simp]: "spell (Chr c) = [c]" "spell (Key k) = 123 # k @ [125]"
  by (simp_all add: spell_def)

lemma spell_pieces: "concat (map spell (pieces s)) = s"
proof (induction s rule: pieces.induct)
  case (1 s)
  show ?case
  proof (cases s)
    case Nil
    then show ?thesis by (simp add: pieces.simps)
  next
    case (Cons c cs)
    let ?k = "takeWhile word_char cs" and ?rest = "dropWhile word_char cs"
    show ?thesis
    proof (cases "c = 123 \<and> ?k \<noteq> [] \<and> ?rest \<noteq> [] \<and> hd ?rest = 125")
      case True
      then have p: "pieces s = Key ?k # pieces (tl ?rest)" using Cons by (subst pieces.simps) (simp add: Let_def)
      from True 1(1) [OF Cons refl refl] have ih: "concat (map spell (pieces (tl ?rest))) = tl ?rest" by simp
      from True have r: "?rest = 125 # tl ?rest" by (cases ?rest) auto
      have "cs = ?k @ 125 # tl ?rest" using r takeWhile_dropWhile_id [of word_char cs] by simp
      then have "concat (map spell (Key ?k # pieces (tl ?rest))) = 123 # cs"
        unfolding list.map concat.simps ih by simp
      with p True Cons show ?thesis by simp
    next
      case False
      then have p: "pieces s = Chr c # pieces cs" using Cons by (subst pieces.simps) (simp add: Let_def)
      from 1(2) [OF Cons refl refl] False have "concat (map spell (pieces cs)) = cs" by blast
      with p Cons show ?thesis by simp
    qed
  qed
qed

lemma found_vars_pieces: "set (found_vars t) = {k. Key k \<in> set (pieces t)}"
  by (auto simp: found_vars_def List.map_filter_def split: piece.splits)

text \<open>
  Rendering touches nothing but placeholders.  When no variable of a template is defined the
  template comes back unchanged, and two sets of variables that agree on the placeholders found by
  the validator render the same text.
\<close>

theorem render_only_placeholders:
  "((\<forall>k \<in> set (found_vars t). map_of vs k = None) \<longrightarrow> renderTemplate t vs = t)
   \<and> ((\<forall>k \<in> set (found_vars t). map_of vs k = map_of us k) \<longrightarrow> renderTemplate t vs = renderTemplate t us)"
proof -
  define rp where "rp vs p = (case p of Chr c \<Rightarrow> [c]
      | Key k \<Rightarrow> (case map_of vs k of Some v \<Rightarrow> v | None \<Rightarrow> 123 # k @ [125]))"
    for vs :: "(ustring \<times> ustring) list" and p
  have r: "renderTemplate t xs = concat (map (rp xs) (pieces t))" for xs
    by (simp add: renderTemplate_def rp_def [abs_def])
  show ?thesis unfolding r
  proof (intro conjI impI)
    assume "\<forall>k \<in> set (found_vars t). map_of vs k = None"
    then have "map (rp vs) (pieces t) = map spell (pieces t)"
      by (intro map_cong refl) (auto simp: rp_def found_vars_pieces split: piece.split)
    then show "concat (map (rp vs) (pieces t)) = t" by (simp only: spell_pieces)
  next
    assume "\<forall>k \<in> set (found_vars t). map_of vs k = map_of us k"
    then have "map (rp vs) (pieces t) = map (rp us) (pieces t)"
      by (intro map_cong refl) (auto simp: rp_def found_vars_pieces split: piece.split)
    then show "concat (map (rp vs) (pieces t)) = concat (map (rp us) (pieces t))" by (simp only:)
  qed
qed

theorem render_only_placeholders_witness:
  "renderTemplate (utext ''Hi {name} {x y}'') [(utext ''other'', [1])] = utext ''Hi {name} {x y}''"
proof -
  have "\<forall>k \<in> set (found_vars (utext ''Hi {name} {x y}'')). map_of [(utext ''other'', [1 :: int])] k = None"
    by code_simp
  with render_only_placeholders [of "utext ''Hi {name} {x y}''" "[(utext ''other'', [1])]" "[]"] show ?thesis by blast
qed

subsection \<open>Consent\<close>

lemma sort_key_last_first:
  "(\<forall>y \<in> set xs. f x < f y) \<Longrightarrow> sort_key f (xs @ [x]) = x # sort_key f xs"
  by (induction xs) auto

lemma consent_rows_record:
  "consent_rows (recordConsent w now sid st g purpose granted rby ev d) sid st purpose
     = consent_rows d sid st purpose @
       [\<lparr>gc_id = gen_uuid w (seq d), gc_schoolId = sid, gc_studentId = st, gc_guardianId = js_or g None,
         gc_purpose = purpose, gc_granted = granted, gc_evidenceRef = js_or ev None,
         gc_recordedBy = js_or rby None, gc_recordedAt = now, gc_withdrawnAt = None\<rparr>]"
  by (simp add: consent_rows_def recordConsent_def)

lemma consent_rows_withdraw:
  "consent_rows (withdrawConsent now sid st purpose d) sid st purpose =
     upd (\<lambda>c. gc_schoolId c = sid \<and> gc_studentId c = st \<and> gc_purpose c = purpose \<and> gc_withdrawnAt c = None)
       (\<lambda>c. c\<lparr>gc_withdrawnAt := Some now\<rparr>) (consent_rows d sid st purpose)"
  by (simp add: consent_rows_def withdrawConsent_def filter_upd_same)

lemma consent_row_fields:
  "c \<in> set (consent_rows d sid st purpose) \<Longrightarrow> gc_schoolId c = sid \<and> gc_studentId c = st \<and> gc_purpose c = purpose"
  by (simp add: consent_rows_def)

lemma hasConsent_all_withdrawn:
  assumes "consent_rows d sid st purpose \<noteq> []" "\<And>c. c \<in> set (consent_rows d sid st purpose) \<Longrightarrow> gc_withdrawnAt c \<noteq> None"
  shows "\<not> hasConsent d sid st purpose"
proof -
  let ?rows = "sort_key (\<lambda>c. - gc_recordedAt c) (consent_rows d sid st purpose)"
  obtain r rs where r: "?rows = r # rs" using assms(1) by (cases ?rows) (auto dest: arg_cong [where f = length])
  then have "r \<in> set (consent_rows d sid st purpose)" by (metis list.set_intros(1) set_sort)
  with r assms(2) show ?thesis by (simp add: hasConsent_def)
qed

text \<open>
  The last word counts.  A consent decision recorded after all earlier ones of the student and
  purpose decides, whatever they were.  Once anything is on record a withdrawal ends the consent;
  but with nothing on record a withdrawal leaves no trace and the default consent stays.
\<close>

theorem last_consent_decides:
  assumes "\<forall>c \<in> set (consent_rows d sid st purpose). gc_recordedAt c < now"
  shows "hasConsent (recordConsent w now sid st g purpose granted rby ev d) sid st purpose = granted
    \<and> (consent_rows d sid st purpose \<noteq> [] \<longrightarrow> \<not> hasConsent (withdrawConsent now' sid st purpose d) sid st purpose)
    \<and> (consent_rows d sid st purpose = [] \<longrightarrow> hasConsent (withdrawConsent now' sid st purpose d) sid st purpose)"
proof (intro conjI impI)
  show "hasConsent (recordConsent w now sid st g purpose granted rby ev d) sid st purpose = granted"
    using assms unfolding hasConsent_def consent_rows_record by (subst sort_key_last_first) auto
  show "\<not> hasConsent (withdrawConsent now' sid st purpose d) sid st purpose" if "consent_rows d sid st purpose \<noteq> []"
    using that by (intro hasConsent_all_withdrawn) (auto simp: consent_rows_withdraw in_upd dest: consent_row_fields)
  show "hasConsent (withdrawConsent now' sid st purpose d) sid st purpose" if "consent_rows d sid st purpose = []"
    using that by (simp add: hasConsent_def consent_rows_withdraw)
qed

theorem last_consent_decides_witness:
  "\<not> hasConsent (recordConsent example_world 9 ''s'' ''p'' None ''ABSENCE_SMS'' False None None
       (recordConsent example_world 3 ''s'' ''p'' None ''ABSENCE_SMS'' True None None empty_db)) ''s'' ''p'' ''ABSENCE_SMS''"
proof -
  have "\<forall>c \<in> set (consent_rows (recordConsent example_world 3 ''s'' ''p'' None ''ABSENCE_SMS'' True None None empty_db)
      ''s'' ''p'' ''ABSENCE_SMS''). gc_recordedAt c < 9" by code_simp
  from last_consent_decides [OF this] show ?thesis by blast
qed

end
