(* ===== verification/Notification.thy ===== *)
theory Notification
  imports Sms
begin

text \<open>
  Models src/src/services/notificationService.ts and src/src/services/notifications/absenceScheduler.ts:
  the SMS settings and templates of a school, the absence jobs created when a session is finalized,
  what a later correction of a record does to them, and the usage report.
\<close>

section \<open>Settings and templates\<close>

text \<open>The settings row, created with defaults on first use.\<close>

definition default_settings :: "world \<Rightarrow> uuid \<Rightarrow> nat \<Rightarrow> sms_settings" where
  "default_settings w schoolId n = \<lparr>se_id = gen_uuid w n, se_schoolId = schoolId, se_smsEnabled = True,
     se_dltPrincipalEntityId = Some ''100100100100'', se_dltHeader = Some ''SCHLATT'',
     se_allowlistEnabled = False, se_allowlist = [], se_segmentBalance = None, se_maxSegments = 4\<rparr>"

definition getSchoolSmsSettings :: "world \<Rightarrow> uuid \<Rightarrow> db \<Rightarrow> sms_settings \<times> db" where
  "getSchoolSmsSettings w schoolId d =
     (case sel1 (\<lambda>s. se_schoolId s = schoolId) (t_smsSettings d) of
        Some existing \<Rightarrow> (existing, d)
      | None \<Rightarrow> (default_settings w schoolId (seq d),
          d\<lparr>t_smsSettings := t_smsSettings d @ [default_settings w schoolId (seq d)], seq := Suc (seq d)\<rparr>))"

text \<open>A partial update: only the given fields change.\<close>

record settings_patch =
  sp_smsEnabled :: "bool option"
  sp_dltPrincipalEntityId :: "string option"
  sp_dltHeader :: "string option"
  sp_allowlistEnabled :: "bool option"
  sp_allowlist :: "string list option"

definition apply_patch :: "settings_patch \<Rightarrow> sms_settings \<Rightarrow> sms_settings" where
  "apply_patch p s = s\<lparr>se_smsEnabled := (case sp_smsEnabled p of None \<Rightarrow> se_smsEnabled s | Some v \<Rightarrow> v),
     se_dltPrincipalEntityId := nullish (sp_dltPrincipalEntityId p) (se_dltPrincipalEntityId s),
     se_dltHeader := nullish (sp_dltHeader p) (se_dltHeader s),
     se_allowlistEnabled := (case sp_allowlistEnabled p of None \<Rightarrow> se_allowlistEnabled s | Some v \<Rightarrow> v),
     se_allowlist := (case sp_allowlist p of None \<Rightarrow> se_allowlist s | Some v \<Rightarrow> v)\<rparr>"

definition updateSchoolSmsSettings :: "world \<Rightarrow> uuid \<Rightarrow> settings_patch \<Rightarrow> db \<Rightarrow> sms_settings option \<times> db" where
  "updateSchoolSmsSettings w schoolId patch d =
     (let (current, d1) = getSchoolSmsSettings w schoolId d;
          t = upd (\<lambda>s. se_id s = se_id current) (apply_patch patch) (t_smsSettings d1)
      in (sel1 (\<lambda>s. se_id s = se_id current) t, d1\<lparr>t_smsSettings := t\<rparr>))"

definition getNotificationTemplates :: "uuid \<Rightarrow> db \<Rightarrow> template list" where
  "getNotificationTemplates schoolId d = filter (\<lambda>t. nt_schoolId t = Some schoolId) (t_templates d)"

definition upsertNotificationTemplate ::
  "world \<Rightarrow> uuid \<Rightarrow> string \<Rightarrow> string \<Rightarrow> ustring \<Rightarrow> string option \<Rightarrow> db \<Rightarrow> (template \<times> db) result" where
  "upsertNotificationTemplate w schoolId code lang content dltId d =
     (let (valid, found, missing) = validateTemplateVariables content [] in
      if \<not> valid then Inl (JsErr ''INVALID_TEMPLATE_VARIABLES: Missing '')
      else case sel1 (\<lambda>t. nt_schoolId t = Some schoolId \<and> nt_code t = code \<and> nt_language t = lang) (t_templates d) of
        Some existing \<Rightarrow>
          let new = existing\<lparr>nt_content := content, nt_dltTemplateId := js_or dltId (nt_dltTemplateId existing)\<rparr>
          in Inr (new, d\<lparr>t_templates := upd (\<lambda>t. nt_id t = nt_id existing)
               (\<lambda>t. t\<lparr>nt_content := content, nt_dltTemplateId := js_or dltId (nt_dltTemplateId existing)\<rparr>) (t_templates d)\<rparr>)
      | None \<Rightarrow>
          let new = \<lparr>nt_id = gen_uuid w (seq d), nt_schoolId = Some schoolId, nt_code = code, nt_language = lang,
                     nt_content = content, nt_dltTemplateId = js_or dltId None\<rparr>
          in Inr (new, d\<lparr>t_templates := t_templates d @ [new], seq := Suc (seq d)\<rparr>))"

section \<open>Jobs\<close>

text \<open>The two unique indexes of notification_jobs; nulls are distinct.\<close>

definition job_conflict :: "job \<Rightarrow> job \<Rightarrow> bool" where
  "job_conflict a b \<longleftrightarrow>
     nj_schoolId a = nj_schoolId b \<and> nj_studentId a = nj_studentId b \<and> nj_sessionId a = nj_sessionId b
       \<and> nj_notificationType a = nj_notificationType b \<and> nj_version a = nj_version b
     \<or> nj_recordId a \<noteq> None \<and> nj_recordId a = nj_recordId b \<and> nj_kind a = nj_kind b"

text \<open>INSERT ... ON CONFLICT DO NOTHING RETURNING\<close>

definition insert_job_row :: "job \<Rightarrow> job list \<Rightarrow> job list option" where
  "insert_job_row j t = (if \<exists>x \<in> set t. job_conflict x j then None else Some (t @ [j]))"

definition insert_job :: "job \<Rightarrow> db \<Rightarrow> job option \<times> db" where
  "insert_job j d =
     (case insert_job_row j (t_jobs d) of
        None \<Rightarrow> (None, d)
      | Some t \<Rightarrow> (Some j, d\<lparr>t_jobs := t, seq := Suc (seq d)\<rparr>))"

text \<open>A row with the column defaults.\<close>

definition new_job :: "world \<Rightarrow> instant \<Rightarrow> nat \<Rightarrow> uuid \<Rightarrow> uuid \<Rightarrow> uuid \<Rightarrow> string \<Rightarrow> string \<Rightarrow> ustring \<Rightarrow> job_status \<Rightarrow> job" where
  "new_job w now n schoolId sessionId studentId phone lang body status =
     \<lparr>nj_id = gen_uuid w n, nj_schoolId = schoolId, nj_sessionId = sessionId, nj_studentId = studentId,
      nj_recipientPhone = phone, nj_language = lang, nj_messageBody = body, nj_status = status,
      nj_notificationType = ''ABSENCE'', nj_version = ''v1'', nj_claimedAt = None, nj_claimedBy = None,
      nj_nextAttemptAt = None, nj_providerMessageId = None, nj_attemptCount = 0, nj_failureReason = None,
      nj_sendAfter = None, nj_recordId = None, nj_kind = KAbsence, nj_cancelledReason = None,
      nj_queuedAt = now, nj_sentAt = None, nj_deliveredAt = None\<rparr>"

section \<open>Absence jobs\<close>

definition default_template :: "string \<Rightarrow> ustring" where
  "default_template lang =
     (if lang = ''en'' then utext ''Dear Parent, your child {studentName} (Roll: {rollNumber}) of Class {className}-{sectionName} was marked ABSENT at {schoolName} on {date}.''
      else
     [2474, 2509, 2480, 2495, 2527, 32, 2437, 2477, 2495, 2477, 2494, 2476, 2453, 44, 32, 2438,
     2474, 2472, 2494, 2480, 32, 2488, 2472, 2509, 2468, 2494, 2472, 32, 123, 115, 116, 117, 100,
     101, 110, 116, 78, 97, 109, 101, 66, 110, 125, 32, 40, 2480, 2507, 2482, 58, 32, 123, 114,
     111, 108, 108, 78, 117, 109, 98, 101, 114, 125, 41, 44, 32, 2486, 2509, 2480, 2503, 2467,
     2496, 32, 123, 99, 108, 97, 115, 115, 78, 97, 109, 101, 125, 45, 123, 115, 101, 99, 116, 105,
     111, 110, 78, 97, 109, 101, 125, 44, 32, 123, 100, 97, 116, 101, 125, 32, 2468, 2494, 2480,
     2495, 2454, 2503, 32, 123, 115, 99, 104, 111, 111, 108, 78, 97, 109, 101, 125, 45, 2447, 32,
     2437, 2472, 2497, 2474, 2488, 2509, 2469, 2495, 2468, 32, 2459, 2495, 2482, 2404])"

definition bn_student :: ustring where
  "bn_student = [2486, 2495, 2453, 2509, 2487, 2494, 2480, 2509, 2469, 2496]"

record absence_student =
  ab_studentId :: uuid
  ab_name :: ustring
  ab_nameBn :: "ustring option"
  ab_rollNumber :: int

record absence_guardian =
  ag_studentId :: uuid
  ag_phoneNumber :: string
  ag_smsOptOut :: bool

text \<open>Students joined with their enrolments in the section of the session.\<close>

definition absence_students :: "db \<Rightarrow> uuid \<Rightarrow> uuid \<Rightarrow> uuid list \<Rightarrow> (uuid \<times> absence_student) list" where
  "absence_students d schoolId sectionId studentIds =
     js_map (concat (map (\<lambda>s. map (\<lambda>e. (st_id s,
           \<lparr>ab_studentId = st_id s, ab_name = st_name s, ab_nameBn = st_nameBn s, ab_rollNumber = en_rollNumber e\<rparr>))
         (filter (\<lambda>e. en_studentId e = st_id s \<and> en_classSectionId e = sectionId) (t_enrollments d)))
       (filter (\<lambda>s. st_schoolId s = schoolId \<and> st_id s \<in> set studentIds) (t_students d))))"

definition primary_guardians :: "db \<Rightarrow> uuid \<Rightarrow> uuid list \<Rightarrow> (uuid \<times> absence_guardian) list" where
  "primary_guardians d schoolId studentIds =
     js_map (concat (map (\<lambda>sg. map (\<lambda>g. (sg_studentId sg,
           \<lparr>ag_studentId = sg_studentId sg, ag_phoneNumber = gu_phoneNumber g, ag_smsOptOut = gu_smsOptOut g\<rparr>))
         (filter (\<lambda>g. gu_id g = sg_guardianId sg \<and> gu_schoolId g = schoolId) (t_guardians d)))
       (filter (\<lambda>sg. sg_isPrimary sg \<and> sg_studentId sg \<in> set studentIds) (t_studentGuardians d))))"

definition strip_spaces :: "string \<Rightarrow> string" where
  "strip_spaces s = filter (\<lambda>c. \<not> is_space c) s"

definition absence_message ::
  "ustring \<Rightarrow> absence_student option \<Rightarrow> class_section option \<Rightarrow> school option \<Rightarrow> string \<Rightarrow> ustring" where
  "absence_message content st sec sch date =
     renderTemplate content
       [(utext ''studentName'', the (js_or (map_option ab_name st) (Some (utext ''Student'')))),
        (utext ''studentNameBn'', the (js_or (case st of None \<Rightarrow> None | Some s \<Rightarrow> ab_nameBn s)
            (js_or (map_option ab_name st) (Some bn_student)))),
        (utext ''rollNumber'', (case st of None \<Rightarrow> utext ''-''
            | Some s \<Rightarrow> if ab_rollNumber s \<noteq> 0 then utext (show_int (ab_rollNumber s)) else utext ''-'')),
        (utext ''className'', (case sec of None \<Rightarrow> [] | Some c \<Rightarrow> cs_className c)),
        (utext ''sectionName'', (case sec of None \<Rightarrow> [] | Some c \<Rightarrow> cs_sectionName c)),
        (utext ''schoolName'', the (js_or (map_option sc_name sch) (Some (utext ''School'')))),
        (utext ''date'', utext date)]"

text \<open>What one absence job needs to know besides the record.\<close>

record absence_env =
  ae_schoolId :: uuid
  ae_sessionId :: uuid
  ae_version :: string
  ae_language :: string
  ae_settings :: sms_settings
  ae_students :: "(uuid \<times> absence_student) list"
  ae_guardians :: "(uuid \<times> absence_guardian) list"
  ae_content :: ustring
  ae_section :: "class_section option"
  ae_school :: "school option"
  ae_date :: string

definition absence_job :: "world \<Rightarrow> instant \<Rightarrow> absence_env \<Rightarrow> att_record \<Rightarrow> nat \<Rightarrow> job" where
  "absence_job w now env rec n =
     (let g = map_of (ae_guardians env) (ar_studentId rec);
          phone = (case g of None \<Rightarrow> [] | Some x \<Rightarrow> if ag_phoneNumber x \<noteq> [] then js_trim (ag_phoneNumber x) else []);
          base = (\<lambda>p body status. (new_job w now n (ae_schoolId env) (ae_sessionId env) (ar_studentId rec) p
                    (ae_language env) body status)\<lparr>nj_version := ae_version env\<rparr>)
      in if phone = [] then (base ''MISSING'' (utext ''MISSING_GUARDIAN_PHONE'') PERMANENT_FAILURE)
              \<lparr>nj_failureReason := Some ''MISSING_GUARDIAN_PHONE''\<rparr>
         else if ag_smsOptOut (the g) then (base phone (utext ''GUARDIAN_OPTED_OUT'') CANCELLED)
              \<lparr>nj_failureReason := Some ''GUARDIAN_OPTED_OUT''\<rparr>
         else if se_allowlistEnabled (ae_settings env)
                 \<and> strip_spaces phone \<notin> strip_spaces ` set (se_allowlist (ae_settings env))
         then (base phone (utext ''PHONE_NOT_IN_ALLOWLIST'') CANCELLED)
              \<lparr>nj_failureReason := Some ''PHONE_NOT_IN_ALLOWLIST''\<rparr>
         else (base phone
                (absence_message (ae_content env) (map_of (ae_students env) (ar_studentId rec)) (ae_section env)
                  (ae_school env) (ae_date env))
                (if env_sms_delay_minutes w > 0 then SCHEDULED else QUEUED))
              \<lparr>nj_recordId := Some (ar_id rec),
               nj_sendAfter := (if env_sms_delay_minutes w > 0 then Some (now + env_sms_delay_minutes w * 60000) else None)\<rparr>)"

fun create_jobs :: "world \<Rightarrow> instant \<Rightarrow> absence_env \<Rightarrow> att_record list \<Rightarrow> db \<Rightarrow> job list \<times> db" where
  "create_jobs w now env [] d = ([], d)"
| "create_jobs w now env (rec # recs) d =
     (let (j, d1) = insert_job (absence_job w now env rec (seq d)) d;
          (js, d2) = create_jobs w now env recs d1
      in ((case j of None \<Rightarrow> js | Some x \<Rightarrow> x # js), d2))"

datatype absence_outcome = SKIPPED_SCHOOL_SMS_DISABLED | NO_ABSENT_STUDENTS | JOBS_CREATED "job list"

definition absent_records :: "db \<Rightarrow> uuid \<Rightarrow> uuid \<Rightarrow> att_record list" where
  "absent_records d schoolId sessionId =
     filter (\<lambda>r. ar_sessionId r = sessionId \<and> ar_schoolId r = schoolId \<and> ar_status r = ABSENT) (t_records d)"

definition absence_env_of :: "db \<Rightarrow> uuid \<Rightarrow> att_session \<Rightarrow> sms_settings \<Rightarrow> att_record list \<Rightarrow> absence_env" where
  "absence_env_of d schoolId s settings absent =
     (let sch = sel1 (\<lambda>x. sc_id x = schoolId) (t_schools d);
          lang = the (js_or (map_option sc_preferredLanguage sch) (Some ''bn''));
          custom = sel1 (\<lambda>t. nt_schoolId t = Some schoolId \<and> nt_code t = ''ABSENCE'' \<and> nt_language t = lang) (t_templates d)
      in \<lparr>ae_schoolId = schoolId, ae_sessionId = as_id s,
          ae_version = (case as_finalizedAt s of Some t \<Rightarrow> show_int t | None \<Rightarrow> ''v1''),
          ae_language = lang, ae_settings = settings,
          ae_students = absence_students d schoolId (as_classSectionId s) (map ar_studentId absent),
          ae_guardians = primary_guardians d schoolId (map ar_studentId absent),
          ae_content = (case custom of Some t \<Rightarrow> nt_content t | None \<Rightarrow> default_template lang),
          ae_section = sel1 (\<lambda>c. cs_id c = as_classSectionId s) (t_classSections d),
          ae_school = sch, ae_date = as_sessionDate s\<rparr>)"

definition createAbsenceNotificationJobs ::
  "world \<Rightarrow> instant \<Rightarrow> uuid \<Rightarrow> uuid \<Rightarrow> db \<Rightarrow> (absence_outcome \<times> db) result" where
  "createAbsenceNotificationJobs w now schoolId sessionId d =
     (let (settings, d1) = getSchoolSmsSettings w schoolId d in
      if \<not> se_smsEnabled settings then Inr (SKIPPED_SCHOOL_SMS_DISABLED, d1)
      else case sel1 (\<lambda>s. as_id s = sessionId \<and> as_schoolId s = schoolId) (t_sessions d1) of
        None \<Rightarrow> Inl (JsErr ''ATTENDANCE_SESSION_NOT_FOUND'')
      | Some s \<Rightarrow>
          if as_status s \<noteq> FINALIZED then Inl (JsErr ''SESSION_NOT_FINALIZED'')
          else let absent = absent_records d1 schoolId sessionId in
            if absent = [] then Inr (NO_ABSENT_STUDENTS, d1)
            else let (js, d2) = create_jobs w now (absence_env_of d1 schoolId s settings absent) absent d1
                 in Inr (JOBS_CREATED js, d2))"

section \<open>Corrections (notifications/absenceScheduler.ts)\<close>

definition correction_job :: "world \<Rightarrow> instant \<Rightarrow> nat \<Rightarrow> uuid \<Rightarrow> uuid \<Rightarrow> uuid \<Rightarrow> job \<Rightarrow> job" where
  "correction_job w now n schoolId studentId recordId sent =
     (new_job w now n schoolId (nj_sessionId sent) studentId (nj_recipientPhone sent) (nj_language sent)
        (utext ''CORRECTION: Child marked present'') SCHEDULED)
     \<lparr>nj_recordId := Some recordId, nj_notificationType := ''CORRECTION'', nj_kind := KCorrection,
      nj_sendAfter := Some now\<rparr>"

definition onAttendanceCorrected ::
  "world \<Rightarrow> instant \<Rightarrow> uuid \<Rightarrow> uuid \<Rightarrow> uuid \<Rightarrow> attendance_status \<Rightarrow> attendance_status \<Rightarrow> db \<Rightarrow> db" where
  "onAttendanceCorrected w now recordId schoolId studentId from_status to_status d =
     (if from_status \<noteq> ABSENT \<or> to_status = ABSENT then d
      else let pending = (\<lambda>j. nj_recordId j = Some recordId \<and> nj_kind j = KAbsence \<and> nj_status j = SCHEDULED) in
        if \<exists>j \<in> set (t_jobs d). pending j
        then d\<lparr>t_jobs := upd pending (\<lambda>j. j\<lparr>nj_status := CANCELLED,
                 nj_cancelledReason := Some ''CORRECTED_BEFORE_SEND''\<rparr>) (t_jobs d)\<rparr>
        else case sel1 (\<lambda>j. nj_recordId j = Some recordId \<and> nj_kind j = KAbsence \<and> nj_status j = SENT) (t_jobs d) of
          None \<Rightarrow> d
        | Some sent \<Rightarrow> snd (insert_job (correction_job w now (seq d) schoolId studentId recordId sent) d))"

text \<open>\<open>scheduleAbsenceSms\<close> (exported, called by no other module).\<close>

fun schedule_jobs :: "world \<Rightarrow> instant \<Rightarrow> uuid \<Rightarrow> uuid \<Rightarrow> att_record list \<Rightarrow> db \<Rightarrow> db" where
  "schedule_jobs w now schoolId sessionId [] d = d"
| "schedule_jobs w now schoolId sessionId (r # rs) d =
     schedule_jobs w now schoolId sessionId rs (snd (insert_job
       ((new_job w now (seq d) schoolId sessionId (ar_studentId r) ''PENDING'' ''bn'' (utext ''Child marked absent'') SCHEDULED)
        \<lparr>nj_recordId := Some (ar_id r), nj_sendAfter := Some (now + env_sms_delay_minutes w * 60000)\<rparr>) d))"

definition scheduleAbsenceSms :: "world \<Rightarrow> instant \<Rightarrow> uuid \<Rightarrow> uuid \<Rightarrow> db \<Rightarrow> nat \<times> db" where
  "scheduleAbsenceSms w now schoolId sessionId d =
     (let absent = filter (\<lambda>r. ar_sessionId r = sessionId \<and> ar_status r = ABSENT) (t_records d) in
      if absent = [] then (0, d) else (length absent, schedule_jobs w now schoolId sessionId absent d))"

section \<open>Usage report\<close>

record usage_report =
  ur_totalJobs :: nat
  ur_queued :: nat
  ur_sent :: nat
  ur_delivered :: nat
  ur_failed :: nat
  ur_permanent :: nat
  ur_cancelled :: nat
  ur_segments :: int

text \<open>
  \<open>getSmsUsageReport\<close> over a window of queue times; the caller converts the dates of the request
  to instants (end of day in the server's zone).  The rounded cost and the per-language counts are
  not modelled.
\<close>

definition getSmsUsageReport :: "uuid \<Rightarrow> instant option \<Rightarrow> instant option \<Rightarrow> db \<Rightarrow> usage_report" where
  "getSmsUsageReport schoolId from_time to_time d =
     (let jobs = filter (\<lambda>j. nj_schoolId j = schoolId
                   \<and> (case from_time of None \<Rightarrow> True | Some t \<Rightarrow> t \<le> nj_queuedAt j)
                   \<and> (case to_time of None \<Rightarrow> True | Some t \<Rightarrow> nj_queuedAt j \<le> t)) (t_jobs d);
          count = (\<lambda>s. length (filter (\<lambda>j. nj_status j = s) jobs))
      in \<lparr>ur_totalJobs = length jobs, ur_queued = count QUEUED, ur_sent = count SENT, ur_delivered = count DELIVERED,
          ur_failed = count FAILED, ur_permanent = count PERMANENT_FAILURE, ur_cancelled = count CANCELLED,
          ur_segments = sum_list (map (\<lambda>j. sm_segmentCount (estimateSmsSegments (nj_messageBody j)))
            (filter (\<lambda>j. nj_messageBody j \<noteq> [] \<and> nj_status j \<noteq> CANCELLED
                       \<and> nj_messageBody j \<noteq> utext ''MISSING_GUARDIAN_PHONE'') jobs))\<rparr>)"

section \<open>Facts\<close>

interpretation jobs_index: unique_index job_conflict insert_job_row
  by unfold_locales (auto simp: insert_job_row_def job_conflict_def)

definition jobs_unique :: "db \<Rightarrow> bool" where
  "jobs_unique d = sorted_wrt (\<lambda>a b. \<not> job_conflict a b) (t_jobs d)"

lemma insert_job_skip: "\<exists>x \<in> set (t_jobs d). job_conflict x j \<Longrightarrow> insert_job j d = (None, d)"
  by (simp only: insert_job_def jobs_index.insert_conflict option.simps)

lemma insert_job_add:
  "\<not> (\<exists>x \<in> set (t_jobs d). job_conflict x j) \<Longrightarrow>
   insert_job j d = (Some j, d\<lparr>t_jobs := t_jobs d @ [j], seq := Suc (seq d)\<rparr>)"
  by (simp add: insert_job_def insert_job_row_def)

lemma insert_job_unique: "jobs_unique d \<Longrightarrow> jobs_unique (snd (insert_job j d))"
proof (cases "\<exists>x \<in> set (t_jobs d). job_conflict x j")
  case False
  assume "jobs_unique d"
  with jobs_index.insert_keeps_unique [OF _ jobs_index.insert_fresh [OF False]]
  show ?thesis by (simp add: insert_job_add [OF False] jobs_unique_def)
qed (simp add: insert_job_skip)

lemma insert_job_covers: "\<exists>x \<in> set (t_jobs (snd (insert_job j d))). job_conflict x j \<or> x = j"
  by (cases "\<exists>x \<in> set (t_jobs d). job_conflict x j") (auto simp: insert_job_skip insert_job_add)

text \<open>The identifying fields of an absence job do not depend on the branch taken.\<close>

lemma absence_job_key:
  "nj_schoolId (absence_job w now env rec n) = ae_schoolId env"
  "nj_studentId (absence_job w now env rec n) = ar_studentId rec"
  "nj_sessionId (absence_job w now env rec n) = ae_sessionId env"
  "nj_notificationType (absence_job w now env rec n) = ''ABSENCE''"
  "nj_version (absence_job w now env rec n) = ae_version env"
  "nj_kind (absence_job w now env rec n) = KAbsence"
  "nj_recordId (absence_job w now env rec n) \<in> {None, Some (ar_id rec)}"
  "nj_attemptCount (absence_job w now env rec n) = 0"
  by (simp_all add: absence_job_def new_job_def Let_def)

text \<open>Only the last branch makes a job that will be sent.\<close>

lemma absence_job_sendable:
  assumes "nj_status (absence_job w now env rec n) \<in> {SCHEDULED, QUEUED}"
  shows "\<exists>g. map_of (ae_guardians env) (ar_studentId rec) = Some g \<and> \<not> ag_smsOptOut g
     \<and> nj_recipientPhone (absence_job w now env rec n) = js_trim (ag_phoneNumber g) \<and> js_trim (ag_phoneNumber g) \<noteq> []
     \<and> (se_allowlistEnabled (ae_settings env)
          \<longrightarrow> strip_spaces (js_trim (ag_phoneNumber g)) \<in> strip_spaces ` set (se_allowlist (ae_settings env)))
     \<and> nj_recordId (absence_job w now env rec n) = Some (ar_id rec)
     \<and> nj_sendAfter (absence_job w now env rec n)
         = (if env_sms_delay_minutes w > 0 then Some (now + env_sms_delay_minutes w * 60000) else None)"
  using assms by (auto simp: absence_job_def new_job_def Let_def split: option.splits if_splits)

lemma create_jobs_facts:
  assumes "create_jobs w now env recs d = (js, d')"
  shows "(\<exists>n. d' = d\<lparr>t_jobs := t_jobs d @ js, seq := n\<rparr>)
    \<and> (jobs_unique d \<longrightarrow> jobs_unique d')
    \<and> (\<forall>j \<in> set js. \<exists>rec \<in> set recs. \<exists>n. j = absence_job w now env rec n)
    \<and> (\<forall>rec \<in> set recs. \<exists>n. \<exists>x \<in> set (t_jobs d'). job_conflict x (absence_job w now env rec n) \<or> x = absence_job w now env rec n)
    \<and> (\<forall>j \<in> set js. \<not> (\<exists>x \<in> set (t_jobs d). job_conflict x j))"
  using assms
proof (induction recs arbitrary: d js)
  case Nil
  then have "js = []" "d' = d" by simp_all
  then show ?case by (auto intro: exI [of _ "seq d"])
next
  case (Cons rec recs)
  let ?j = "absence_job w now env rec (seq d)"
  note cov = insert_job_covers [where d = d and j = ?j] and uniq = insert_job_unique [where d = d and j = ?j]
  show ?case
  proof (cases "\<exists>x \<in> set (t_jobs d). job_conflict x ?j")
    case True
    with Cons.prems have rest: "create_jobs w now env recs d = (js, d')"
      by (auto simp: Let_def insert_job_skip split: prod.splits)
    from cov True have here: "\<exists>x \<in> set (t_jobs d). job_conflict x ?j \<or> x = ?j" by blast
    from Cons.IH [OF rest] obtain n where d': "d' = d\<lparr>t_jobs := t_jobs d @ js, seq := n\<rparr>" by blast
    then have "set (t_jobs d) \<subseteq> set (t_jobs d')" by simp
    with here have "\<exists>x \<in> set (t_jobs d'). job_conflict x ?j \<or> x = ?j" by blast
    with Cons.IH [OF rest] show ?thesis by auto
  next
    case False
    let ?d = "d\<lparr>t_jobs := t_jobs d @ [?j], seq := Suc (seq d)\<rparr>"
    from Cons.prems False obtain js' where rest: "create_jobs w now env recs ?d = (js', d')" and js: "js = ?j # js'"
      by (auto simp add: Let_def insert_job_add [OF False] simp del: bex_simps split: prod.splits)
    note IH = Cons.IH [OF rest]
    from IH obtain n where d': "d' = ?d\<lparr>t_jobs := t_jobs ?d @ js', seq := n\<rparr>" by blast
    then have p1: "\<exists>n. d' = d\<lparr>t_jobs := t_jobs d @ js, seq := n\<rparr>" by (auto simp: js)
    have p2: "jobs_unique d \<longrightarrow> jobs_unique d'" using uniq IH by (simp add: insert_job_add [OF False])
    have mem: "?j \<in> set (t_jobs d')" by (simp add: d')
    have old: "\<forall>j \<in> set js'. \<not> (\<exists>x \<in> set (t_jobs d). job_conflict x j)" using IH by simp
    show ?thesis
    proof (intro conjI ballI)
      show "\<exists>rec' \<in> set (rec # recs). \<exists>n. j = absence_job w now env rec' n" if "j \<in> set js" for j
        using that IH unfolding js by auto
      show "\<exists>n. \<exists>x \<in> set (t_jobs d'). job_conflict x (absence_job w now env r n) \<or> x = absence_job w now env r n"
        if "r \<in> set (rec # recs)" for r
        using that IH mem by auto
      show "\<not> (\<exists>x \<in> set (t_jobs d). job_conflict x j)" if "j \<in> set js" for j
        using that old False unfolding js by auto
    qed (fact p1 p2)+
  qed
qed

lemma getSchoolSmsSettings_facts:
  "getSchoolSmsSettings w sid d = (s, d') \<Longrightarrow>
     (\<exists>st n. d' = d\<lparr>t_smsSettings := st, seq := n\<rparr>) \<and> se_schoolId s = sid
     \<and> sel1 (\<lambda>s. se_schoolId s = sid) (t_smsSettings d') = Some s"
proof (cases "sel1 (\<lambda>s. se_schoolId s = sid) (t_smsSettings d)")
  case None
  assume "getSchoolSmsSettings w sid d = (s, d')"
  with None show ?thesis by (auto simp: getSchoolSmsSettings_def default_settings_def sel1_append)
next
  case (Some x)
  assume "getSchoolSmsSettings w sid d = (s, d')"
  with Some have "s = x" "d' = d" by (simp_all add: getSchoolSmsSettings_def)
  moreover have "\<exists>st n. d = d\<lparr>t_smsSettings := st, seq := n\<rparr>"
    by (rule exI [of _ "t_smsSettings d"], rule exI [of _ "seq d"]) simp
  ultimately show ?thesis using Some by (auto dest: sel1_SomeD)
qed

lemma absent_records_frame [frame_simps]:
  "absent_records (d\<lparr>t_smsSettings := st, seq := n\<rparr>) sid ses = absent_records d sid ses"
  by (simp add: absent_records_def)

text \<open>The jobs of a call, and the database it leaves, in terms of \<open>create_jobs\<close>.\<close>

lemma createAbsence_cases:
  assumes "createAbsenceNotificationJobs w now sid ses d = Inr (out, d')"
  obtains (disabled) st n where "out = SKIPPED_SCHOOL_SMS_DISABLED" "d' = d\<lparr>t_smsSettings := st, seq := n\<rparr>"
  | (none) st n where "out = NO_ABSENT_STUDENTS" "d' = d\<lparr>t_smsSettings := st, seq := n\<rparr>" "absent_records d sid ses = []"
  | (created) st n js s env settings where "out = JOBS_CREATED js"
      "create_jobs w now env (absent_records d sid ses) (d\<lparr>t_smsSettings := st, seq := n\<rparr>) = (js, d')"
      "s \<in> set (t_sessions d)" "as_id s = ses" "as_schoolId s = sid" "as_status s = FINALIZED"
      "env = absence_env_of (d\<lparr>t_smsSettings := st, seq := n\<rparr>) sid s settings (absent_records d sid ses)"
      "se_smsEnabled settings" "sel1 (\<lambda>s. se_schoolId s = sid) st = Some settings"
proof -
  obtain settings d1 where s: "getSchoolSmsSettings w sid d = (settings, d1)" by fastforce
  from getSchoolSmsSettings_facts [OF s] obtain st n where d1: "d1 = d\<lparr>t_smsSettings := st, seq := n\<rparr>"
    and sid: "sel1 (\<lambda>s. se_schoolId s = sid) st = Some settings" by auto
  show thesis
  proof (cases "se_smsEnabled settings")
    case False
    with assms s d1 show thesis by (intro disabled [where st = st and n = n]) (auto simp: createAbsenceNotificationJobs_def)
  next
    case True
    with assms s obtain x where x: "sel1 (\<lambda>s. as_id s = ses \<and> as_schoolId s = sid) (t_sessions d1) = Some x"
      "as_status x = FINALIZED"
      by (auto simp: createAbsenceNotificationJobs_def split: option.splits if_splits)
    from sel1_SomeD [OF x(1)] d1 have xs: "x \<in> set (t_sessions d)" "as_id x = ses" "as_schoolId x = sid" by simp_all
    have ab: "absent_records d1 sid ses = absent_records d sid ses" by (simp add: d1 frame_simps)
    show thesis
    proof (cases "absent_records d sid ses = []")
      case empty: True
      with assms s True x ab d1 show thesis
        by (intro none [where st = st and n = n]) (auto simp: createAbsenceNotificationJobs_def)
    next
      case False
      obtain js d2 where c: "create_jobs w now (absence_env_of d1 sid x settings (absent_records d sid ses))
          (absent_records d sid ses) d1 = (js, d2)" by fastforce
      with assms s True x ab False have "out = JOBS_CREATED js" "d' = d2"
        by (simp_all add: createAbsenceNotificationJobs_def)
      with c d1 xs x(2) True sid show thesis
        by (intro created [where js = js and st = st and n = n and s = x and settings = settings]) simp_all
    qed
  qed
qed

lemma absence_env_fields [simp]:
  "ae_schoolId (absence_env_of d sid s settings recs) = sid"
  "ae_sessionId (absence_env_of d sid s settings recs) = as_id s"
  "ae_settings (absence_env_of d sid s settings recs) = settings"
  "ae_version (absence_env_of d sid s settings recs) = (case as_finalizedAt s of Some t \<Rightarrow> show_int t | None \<Rightarrow> ''v1'')"
  "ae_guardians (absence_env_of d sid s settings recs) = primary_guardians d sid (map ar_studentId recs)"
  by (simp_all add: absence_env_of_def Let_def)

lemma primary_guardian_row:
  assumes "map_of (primary_guardians d sid sts) st = Some g"
  shows "\<exists>sg \<in> set (t_studentGuardians d). \<exists>x \<in> set (t_guardians d). sg_studentId sg = st \<and> sg_isPrimary sg
    \<and> gu_id x = sg_guardianId sg \<and> gu_schoolId x = sid \<and> gu_phoneNumber x = ag_phoneNumber g
    \<and> gu_smsOptOut x = ag_smsOptOut g"
  using map_of_js_map_SomeD [OF assms [unfolded primary_guardians_def]] by (auto; blast)

text \<open>
  C30: finalizing tells every family once.  When absence jobs are created for a finalized session,
  only jobs are added and no two jobs clash; every absent record of the session is covered by a
  job for that student, session and version, or by an absence job already linked to the record;
  the school has SMS enabled in the settings in force; and a job that will be sent goes to a primary
  guardian of the school who has not opted out, to a number on the allowlist (spaces aside) when these
  settings enable one, and not before the grace period is over.
\<close>

theorem absence_jobs_cover_and_respect:
  assumes "createAbsenceNotificationJobs w now sid ses d = Inr (JOBS_CREATED js, d')"
  shows "(\<exists>st n. d' = d\<lparr>t_smsSettings := st, t_jobs := t_jobs d @ js, seq := n\<rparr>)
    \<and> (jobs_unique d \<longrightarrow> jobs_unique d')
    \<and> (\<exists>version. \<forall>r \<in> set (absent_records d sid ses). \<exists>j \<in> set (t_jobs d').
          nj_schoolId j = sid \<and> nj_studentId j = ar_studentId r \<and> nj_sessionId j = ses \<and> nj_version j = version
            \<and> nj_notificationType j = ''ABSENCE''
        \<or> nj_recordId j = Some (ar_id r) \<and> nj_kind j = KAbsence)
    \<and> (\<exists>settings. sel1 (\<lambda>x. se_schoolId x = sid) (t_smsSettings d') = Some settings \<and> se_smsEnabled settings
       \<and> (\<forall>j \<in> set js. nj_status j \<in> {SCHEDULED, QUEUED} \<longrightarrow>
         (\<exists>g \<in> set (t_guardians d). gu_schoolId g = sid \<and> \<not> gu_smsOptOut g \<and> nj_recipientPhone j = js_trim (gu_phoneNumber g)
            \<and> (\<exists>sg \<in> set (t_studentGuardians d). sg_guardianId sg = gu_id g \<and> sg_studentId sg = nj_studentId j \<and> sg_isPrimary sg))
         \<and> (se_allowlistEnabled settings \<longrightarrow> strip_spaces (nj_recipientPhone j) \<in> strip_spaces ` set (se_allowlist settings))
         \<and> (env_sms_delay_minutes w > 0 \<longrightarrow> nj_sendAfter j = Some (now + env_sms_delay_minutes w * 60000))))"
  using assms
proof (cases rule: createAbsence_cases)
  case (created st n js' s env settings)
  from created(1) have js: "js' = js" by simp
  note f = create_jobs_facts [OF created(2) [unfolded js]]
  have cov: "\<exists>j \<in> set (t_jobs d').
          nj_schoolId j = sid \<and> nj_studentId j = ar_studentId r \<and> nj_sessionId j = ses \<and> nj_version j = ae_version env
            \<and> nj_notificationType j = ''ABSENCE''
        \<or> nj_recordId j = Some (ar_id r) \<and> nj_kind j = KAbsence" if r: "r \<in> set (absent_records d sid ses)" for r
  proof -
    from f r obtain m x where x: "x \<in> set (t_jobs d')" "job_conflict x (absence_job w now env r m) \<or> x = absence_job w now env r m"
      by blast
    with absence_job_key [of w now env r m] created(4,7) show ?thesis
      by (intro bexI [OF _ x(1)]) (auto simp: job_conflict_def)
  qed
  have send: "(\<exists>g \<in> set (t_guardians d). gu_schoolId g = sid \<and> \<not> gu_smsOptOut g \<and> nj_recipientPhone j = js_trim (gu_phoneNumber g)
            \<and> (\<exists>sg \<in> set (t_studentGuardians d). sg_guardianId sg = gu_id g \<and> sg_studentId sg = nj_studentId j \<and> sg_isPrimary sg))
         \<and> (se_allowlistEnabled settings \<longrightarrow> strip_spaces (nj_recipientPhone j) \<in> strip_spaces ` set (se_allowlist settings))
         \<and> (env_sms_delay_minutes w > 0 \<longrightarrow> nj_sendAfter j = Some (now + env_sms_delay_minutes w * 60000))"
    if j: "j \<in> set js" "nj_status j \<in> {SCHEDULED, QUEUED}" for j
  proof -
    from f j(1) obtain r m where r: "j = absence_job w now env r m" by blast
    from absence_job_sendable [OF j(2) [unfolded r]] obtain g where
      g: "map_of (ae_guardians env) (ar_studentId r) = Some g" "\<not> ag_smsOptOut g"
      "nj_recipientPhone j = js_trim (ag_phoneNumber g)"
      "nj_sendAfter j = (if env_sms_delay_minutes w > 0 then Some (now + env_sms_delay_minutes w * 60000) else None)"
      "se_allowlistEnabled settings \<Longrightarrow> strip_spaces (nj_recipientPhone j) \<in> strip_spaces ` set (se_allowlist settings)"
      using created(7) unfolding r by auto
    from g(1) created(7) have "map_of (primary_guardians (d\<lparr>t_smsSettings := st, seq := n\<rparr>) sid
        (map ar_studentId (absent_records d sid ses))) (ar_studentId r) = Some g" by simp
    from primary_guardian_row [OF this] obtain sg x where "sg \<in> set (t_studentGuardians d)" "x \<in> set (t_guardians d)"
      "sg_studentId sg = ar_studentId r" "sg_isPrimary sg" "gu_id x = sg_guardianId sg" "gu_schoolId x = sid"
      "gu_phoneNumber x = ag_phoneNumber g" "gu_smsOptOut x = ag_smsOptOut g" by auto
    with g absence_job_key(2) [of w now env r m] r show ?thesis by (auto intro!: bexI [of _ x] bexI [of _ sg])
  qed
  from f obtain k where d': "d' = d\<lparr>t_smsSettings := st, t_jobs := t_jobs d @ js, seq := k\<rparr>" by auto
  have "\<exists>st n. d' = d\<lparr>t_smsSettings := st, t_jobs := t_jobs d @ js, seq := n\<rparr>" using d' by blast
  moreover have "jobs_unique d \<longrightarrow> jobs_unique d'" using f unfolding jobs_unique_def by simp
  moreover have "sel1 (\<lambda>x. se_schoolId x = sid) (t_smsSettings d') = Some settings" using created(9) by (simp add: d')
  ultimately show ?thesis using cov send created(8) by blast
qed simp_all

text \<open>
  C35: a correction before sending silences the absence for good.  Once a record's absence job
  exists in any status (in particular CANCELLED by a correction), no later finalization creates a
  job linked to that record, so a child marked absent again is never announced.
\<close>

theorem corrected_absence_is_never_resent:
  assumes "createAbsenceNotificationJobs w now sid ses d = Inr (JOBS_CREATED js, d')"
    and "x \<in> set (t_jobs d)" "nj_recordId x = Some rid" "nj_kind x = KAbsence"
  shows "\<forall>j \<in> set js. nj_recordId j \<noteq> Some rid
    \<and> (nj_status j \<in> {SCHEDULED, QUEUED} \<longrightarrow> (\<exists>r \<in> set (absent_records d sid ses). ar_id r \<noteq> rid \<and> nj_studentId j = ar_studentId r))"
  using assms(1)
proof (cases rule: createAbsence_cases)
  case (created st n js' s env settings)
  from created(1) have js: "js' = js" by simp
  note f = create_jobs_facts [OF created(2) [unfolded js]]
  show ?thesis
  proof
    fix j assume j: "j \<in> set js"
    from f j obtain r m where r: "r \<in> set (absent_records d sid ses)" "j = absence_job w now env r m" by blast
    from f j assms(2) have "\<not> job_conflict x j" by auto
    with assms(3,4) absence_job_key(6) [of w now env r m] r(2) have no: "nj_recordId j \<noteq> Some rid"
      by (auto simp: job_conflict_def)
    moreover have "ar_id r \<noteq> rid" if "nj_status j \<in> {SCHEDULED, QUEUED}"
      using absence_job_sendable [of w now env r m] that r(2) no by auto
    ultimately show "nj_recordId j \<noteq> Some rid
      \<and> (nj_status j \<in> {SCHEDULED, QUEUED} \<longrightarrow> (\<exists>r \<in> set (absent_records d sid ses). ar_id r \<noteq> rid \<and> nj_studentId j = ar_studentId r))"
      using r absence_job_key(2) [of w now env r m] by auto
  qed
qed simp_all

text \<open>
  C34: a correction undoes the announcement.  When a record leaves ABSENT, scheduled absence jobs of the
  record are cancelled, in place, and that is all when there was one.  Otherwise, when an absence job of the
  record has been sent, a correction job of the record is appended, due now, to the same number, in
  the same language and session; it is left out exactly when it clashes with a unique index, that is when the
  record has a correction job already or the student has one of that session.  When there is neither a
  scheduled nor a sent job nothing changes: in particular an announcement that the provider has reported
  as DELIVERED is not followed by a correction.
\<close>

theorem correction_undoes_announcement:
  assumes "from_status = ABSENT" "to_status \<noteq> ABSENT" "d' = onAttendanceCorrected w now rid sid st from_status to_status d"
  shows "\<not> (\<exists>j \<in> set (t_jobs d'). nj_recordId j = Some rid \<and> nj_kind j = KAbsence \<and> nj_status j = SCHEDULED)
    \<and> (if \<exists>j \<in> set (t_jobs d). nj_recordId j = Some rid \<and> nj_kind j = KAbsence \<and> nj_status j = SCHEDULED
       then list_all2 (\<lambda>j j'. if nj_recordId j = Some rid \<and> nj_kind j = KAbsence \<and> nj_status j = SCHEDULED
              then j' = j\<lparr>nj_status := CANCELLED, nj_cancelledReason := Some ''CORRECTED_BEFORE_SEND''\<rparr> else j' = j) (t_jobs d) (t_jobs d')
       else if \<exists>j \<in> set (t_jobs d). nj_recordId j = Some rid \<and> nj_kind j = KAbsence \<and> nj_status j = SENT
       then \<exists>sent \<in> set (t_jobs d). nj_recordId sent = Some rid \<and> nj_kind sent = KAbsence \<and> nj_status sent = SENT
         \<and> (if \<exists>c \<in> set (t_jobs d). nj_recordId c = Some rid \<and> nj_kind c = KCorrection
                \<or> nj_schoolId c = sid \<and> nj_studentId c = st \<and> nj_sessionId c = nj_sessionId sent
                  \<and> nj_notificationType c = ''CORRECTION'' \<and> nj_version c = ''v1''
            then d' = d
            else \<exists>c. t_jobs d' = t_jobs d @ [c] \<and> nj_recordId c = Some rid \<and> nj_kind c = KCorrection \<and> nj_status c = SCHEDULED
                \<and> nj_sendAfter c = Some now \<and> nj_schoolId c = sid \<and> nj_studentId c = st \<and> nj_sessionId c = nj_sessionId sent
                \<and> nj_recipientPhone c = nj_recipientPhone sent \<and> nj_language c = nj_language sent)
       else d' = d)"
proof -
  let ?pending = "\<lambda>j. nj_recordId j = Some rid \<and> nj_kind j = KAbsence \<and> nj_status j = SCHEDULED"
  let ?sent = "\<lambda>j. nj_recordId j = Some rid \<and> nj_kind j = KAbsence \<and> nj_status j = SENT"
  show ?thesis
  proof (cases "\<exists>j \<in> set (t_jobs d). ?pending j")
    case True
    let ?f = "\<lambda>j. j\<lparr>nj_status := CANCELLED, nj_cancelledReason := Some ''CORRECTED_BEFORE_SEND''\<rparr>"
    from True assms have d': "t_jobs d' = upd ?pending ?f (t_jobs d)" by (simp add: onAttendanceCorrected_def)
    have "\<not> (\<exists>j \<in> set (upd ?pending ?f (t_jobs d)). ?pending j)" by (auto simp add: upd_def)
    moreover have "list_all2 (\<lambda>j j'. if ?pending j then j' = ?f j else j' = j) (t_jobs d) (upd ?pending ?f (t_jobs d))"
      unfolding upd_def list_all2_map2 list_all2_same by simp
    ultimately show ?thesis unfolding if_P [OF True] d' by (rule conjI)
  next
    case False
    note here = if_not_P [OF False]
    show ?thesis
    proof (cases "sel1 ?sent (t_jobs d)")
      case None
      then have no: "\<not> (\<exists>j \<in> set (t_jobs d). ?sent j)" by (auto simp: sel1_None_iff)
      have "d' = d"
        by (simp only: assms onAttendanceCorrected_def Let_def here None option.simps simp_thms if_False)
      with False show ?thesis unfolding here if_not_P [OF no] by simp
    next
      case (Some sent)
      let ?c = "correction_job w now (seq d) sid st rid sent"
      from sel1_SomeD [OF Some] have sent: "sent \<in> set (t_jobs d)" "?sent sent" by simp_all
      then have yes: "\<exists>j \<in> set (t_jobs d). ?sent j" by blast
      have d': "d' = snd (insert_job ?c d)"
        using assms(2) by (simp only: assms onAttendanceCorrected_def Let_def here Some option.simps simp_thms if_False)
      have c: "nj_recordId ?c = Some rid" "nj_kind ?c = KCorrection" "nj_studentId ?c = st" "nj_notificationType ?c = ''CORRECTION''"
        "nj_schoolId ?c = sid" "nj_sessionId ?c = nj_sessionId sent" "nj_version ?c = ''v1''" "nj_status ?c = SCHEDULED"
        "nj_sendAfter ?c = Some now" "nj_recipientPhone ?c = nj_recipientPhone sent" "nj_language ?c = nj_language sent"
        by (simp_all add: correction_job_def new_job_def)
      let ?taken = "\<exists>x \<in> set (t_jobs d). nj_recordId x = Some rid \<and> nj_kind x = KCorrection
                \<or> nj_schoolId x = sid \<and> nj_studentId x = st \<and> nj_sessionId x = nj_sessionId sent
                  \<and> nj_notificationType x = ''CORRECTION'' \<and> nj_version x = ''v1''"
      have clash: "(\<exists>x \<in> set (t_jobs d). job_conflict x ?c) \<longleftrightarrow> ?taken"
      proof (intro bex_cong refl)
        show "job_conflict x ?c \<longleftrightarrow> nj_recordId x = Some rid \<and> nj_kind x = KCorrection
                \<or> nj_schoolId x = sid \<and> nj_studentId x = st \<and> nj_sessionId x = nj_sessionId sent
                  \<and> nj_notificationType x = ''CORRECTION'' \<and> nj_version x = ''v1''" for x
          unfolding job_conflict_def c by (cases "nj_recordId x") auto
      qed
      have added: "t_jobs d' = t_jobs d @ [?c]" if "\<not> ?taken"
        using that unfolding d' clash [symmetric] by (simp add: insert_job_add)
      have same: "d' = d" if ?taken using that unfolding d' clash [symmetric] by (simp add: insert_job_skip)
      have gone: "\<not> (\<exists>j \<in> set (t_jobs d'). ?pending j)"
      proof (cases ?taken)
        case True
        with False same show ?thesis by simp
      next
        case no: False
        from False c(2) show ?thesis unfolding added [OF no] by simp
      qed
      have step: "if ?taken then d' = d
            else \<exists>c. t_jobs d' = t_jobs d @ [c] \<and> nj_recordId c = Some rid \<and> nj_kind c = KCorrection \<and> nj_status c = SCHEDULED
                \<and> nj_sendAfter c = Some now \<and> nj_schoolId c = sid \<and> nj_studentId c = st \<and> nj_sessionId c = nj_sessionId sent
                \<and> nj_recipientPhone c = nj_recipientPhone sent \<and> nj_language c = nj_language sent"
      proof (cases ?taken)
        case True
        show ?thesis unfolding if_P [OF True] by (rule same [OF True])
      next
        case no: False
        show ?thesis unfolding if_not_P [OF no] by (rule exI [of _ ?c]) (use added [OF no] c in simp)
      qed
      show ?thesis unfolding here if_P [OF yes]
        by (rule conjI [OF gone], rule bexI [OF _ sent(1)]) (use sent(2) step in blast)
    qed
  qed
qed

section \<open>Examples\<close>

definition example_record :: "uuid \<Rightarrow> attendance_status \<Rightarrow> att_record" where
  "example_record student status = \<lparr>ar_id = ''rec-'' @ student, ar_schoolId = ''s'', ar_sessionId = ''sess'',
     ar_studentId = student, ar_status = status, ar_firstScannedAt = None, ar_lastUpdatedAt = 0,
     ar_hasConflict = False, ar_captureMethod = ''MANUAL'', ar_source = None, ar_firstSeenAt = None,
     ar_lastSeenAt = None, ar_needsReview = False, ar_reviewReason = None\<rparr>"

text \<open>A finalized session with one absent child, her guardian, and one present child.\<close>

definition example_absence_db :: db where
  "example_absence_db = empty_db\<lparr>
     t_schools := [\<lparr>sc_id = ''s'', sc_name = [], sc_slug = [], sc_udiseCode = [], sc_district = [], sc_block = None, sc_preferredLanguage = ''en'', sc_timezone = ''UTC'',
        sc_rfidMode = ''LIVE'', sc_status = ''ACTIVE''\<rparr>],
     t_guardians := [\<lparr>gu_id = ''g'', gu_schoolId = ''s'', gu_name = [], gu_phoneNumber = ''919000000001'',
        gu_relationship = ''MOTHER'', gu_smsOptOut = False\<rparr>],
     t_studentGuardians := [\<lparr>sg_studentId = ''ana'', sg_guardianId = ''g'', sg_isPrimary = True\<rparr>],
     t_sessions := [\<lparr>as_id = ''sess'', as_schoolId = ''s'', as_classSectionId = ''c'', as_teacherId = ''t'',
        as_sessionDate = ''2024-01-01'', as_sessionType = ''MORNING'', as_status = FINALIZED,
        as_finalizedAt = Some 7, as_finalizedBy = Some ''t'', as_updatedAt = 7, as_clientSessionId = None\<rparr>],
     t_records := [example_record ''ana'' ABSENT, example_record ''bo'' PRESENT]\<rparr>"

definition example_absence_jobs :: "db \<Rightarrow> job list \<times> db" where
  "example_absence_jobs d = (case createAbsenceNotificationJobs example_world 1000 ''s'' ''sess'' d of
     Inr (JOBS_CREATED js, d') \<Rightarrow> (js, d') | _ \<Rightarrow> ([], d))"

lemma example_absence_eq:
  assumes "case createAbsenceNotificationJobs example_world 1000 ''s'' ''sess'' d of
     Inr (JOBS_CREATED js, d') \<Rightarrow> True | _ \<Rightarrow> False"
  shows "createAbsenceNotificationJobs example_world 1000 ''s'' ''sess'' d
     = Inr (JOBS_CREATED (fst (example_absence_jobs d)), snd (example_absence_jobs d))"
  using assms by (auto simp: example_absence_jobs_def split: sum.splits absence_outcome.splits)

theorem absence_jobs_cover_and_respect_witness:
  "nj_recipientPhone (hd (fst (example_absence_jobs example_absence_db))) = ''919000000001''
   \<and> nj_sendAfter (hd (fst (example_absence_jobs example_absence_db))) = Some (1000 + 15 * 60000)
   \<and> jobs_unique (snd (example_absence_jobs example_absence_db))"
proof -
  have "createAbsenceNotificationJobs example_world 1000 ''s'' ''sess'' example_absence_db
     = Inr (JOBS_CREATED (fst (example_absence_jobs example_absence_db)), snd (example_absence_jobs example_absence_db))"
    by (rule example_absence_eq) code_simp
  note f = absence_jobs_cover_and_respect [OF this]
  have u: "jobs_unique example_absence_db" by (simp add: jobs_unique_def example_absence_db_def empty_db_def)
  let ?j = "hd (fst (example_absence_jobs example_absence_db))"
  have "?j \<in> set (fst (example_absence_jobs example_absence_db)) \<and> nj_status ?j = SCHEDULED
    \<and> (\<forall>g \<in> set (t_guardians example_absence_db). js_trim (gu_phoneNumber g) = ''919000000001'')
    \<and> env_sms_delay_minutes example_world = 15" by code_simp
  with f u show ?thesis by fastforce
qed

definition example_cancelled_db :: db where
  "example_cancelled_db = (snd (example_absence_jobs example_absence_db))
     \<lparr>t_sessions := map (\<lambda>s. s\<lparr>as_finalizedAt := Some 9\<rparr>) (t_sessions example_absence_db),
      t_jobs := map (\<lambda>j. j\<lparr>nj_status := CANCELLED\<rparr>) (t_jobs (snd (example_absence_jobs example_absence_db)))\<rparr>"

text \<open>The child is marked present and then absent again, and the session finalized a second time.\<close>

theorem corrected_absence_is_never_resent_witness:
  "Some ''rec-ana'' \<notin> nj_recordId ` set (fst (example_absence_jobs example_cancelled_db))"
proof -
  have "createAbsenceNotificationJobs example_world 1000 ''s'' ''sess'' example_cancelled_db
     = Inr (JOBS_CREATED (fst (example_absence_jobs example_cancelled_db)), snd (example_absence_jobs example_cancelled_db))"
    by (rule example_absence_eq) code_simp
  moreover have "hd (t_jobs example_cancelled_db) \<in> set (t_jobs example_cancelled_db)
    \<and> nj_recordId (hd (t_jobs example_cancelled_db)) = Some ''rec-ana'' \<and> nj_kind (hd (t_jobs example_cancelled_db)) = KAbsence"
    by code_simp
  ultimately show ?thesis
    using corrected_absence_is_never_resent [of example_world 1000 "''s''" "''sess''" example_cancelled_db _ _ _ "''rec-ana''"]
    by fastforce
qed

definition example_sent_db :: db where
  "example_sent_db = (snd (example_absence_jobs example_absence_db))
     \<lparr>t_jobs := map (\<lambda>j. j\<lparr>nj_status := SENT\<rparr>) (t_jobs (snd (example_absence_jobs example_absence_db)))\<rparr>"

text \<open>An announcement not yet sent is cancelled, one that was sent is followed by a correction.\<close>

theorem correction_undoes_announcement_witness:
  "\<not> (\<exists>j \<in> set (t_jobs (onAttendanceCorrected example_world 2000 ''rec-ana'' ''s'' ''ana'' ABSENT PRESENT
         (snd (example_absence_jobs example_absence_db)))).
       nj_recordId j = Some ''rec-ana'' \<and> nj_kind j = KAbsence \<and> nj_status j = SCHEDULED)
   \<and> (\<exists>c. t_jobs (onAttendanceCorrected example_world 2000 ''rec-ana'' ''s'' ''ana'' ABSENT PRESENT example_sent_db)
        = t_jobs example_sent_db @ [c] \<and> nj_recipientPhone c = ''919000000001'')"
proof -
  let ?d = example_sent_db
  have no: "\<not> (\<exists>j \<in> set (t_jobs ?d). nj_recordId j = Some ''rec-ana'' \<and> nj_kind j = KAbsence \<and> nj_status j = SCHEDULED)"
    and yes: "\<exists>j \<in> set (t_jobs ?d). nj_recordId j = Some ''rec-ana'' \<and> nj_kind j = KAbsence \<and> nj_status j = SENT"
    and first: "\<forall>c \<in> set (t_jobs ?d). nj_kind c \<noteq> KCorrection \<and> nj_notificationType c \<noteq> ''CORRECTION'' \<and> nj_recipientPhone c = ''919000000001''"
    by code_simp+
  have "\<exists>c. t_jobs (onAttendanceCorrected example_world 2000 ''rec-ana'' ''s'' ''ana'' ABSENT PRESENT ?d)
        = t_jobs ?d @ [c] \<and> nj_recipientPhone c = ''919000000001''"
    using correction_undoes_announcement [of ABSENT PRESENT _ example_world 2000 "''rec-ana''" "''s''" "''ana''" ?d, OF refl _ refl]
    unfolding if_not_P [OF no] if_P [OF yes] using first by (auto split: if_splits)
  with correction_undoes_announcement [of ABSENT PRESENT _ example_world 2000 "''rec-ana''" "''s''" "''ana''"
      "snd (example_absence_jobs example_absence_db)"] show ?thesis by blast
qed

end
