(* ===== verification/Notification_Worker.thy ===== *)
theory Notification_Worker
  imports Notification
begin

text \<open>
  Models src/src/services/notificationWorker.ts (claiming and sending the jobs of the queue) and the
  two operations of src/src/routes/notificationRoutes.ts that change a job: the delivery callback
  and the manual retry.  The SMS provider is a parameter, \<open>send_sms\<close>, with the three ways a call can
  end; the theory Sms_Provider models the providers of the repository.  The worker runs outside a
  request, so its context wrappers open a transaction and do nothing else.
\<close>

section \<open>Provider interface (sms/types.ts)\<close>

record sms_request =
  sq_to :: string
  sq_message :: ustring
  sq_dltPrincipalEntityId :: "string option"
  sq_dltHeader :: "string option"
  sq_dltTemplateId :: "string option"
  sq_jobId :: uuid

datatype send_result =
    SendOk "string option"
  | SendRejected "string option" bool
  | SendThrows string

section \<open>Claiming\<close>

definition claimable :: "instant \<Rightarrow> int \<Rightarrow> uuid option \<Rightarrow> job \<Rightarrow> bool" where
  "claimable now maxRetries schoolId j \<longleftrightarrow>
     nj_status j \<in> {QUEUED, FAILED, SCHEDULED}
     \<and> (case schoolId of None \<Rightarrow> True | Some s \<Rightarrow> nj_schoolId j = s)
     \<and> nj_attemptCount j < maxRetries
     \<and> (case nj_nextAttemptAt j of None \<Rightarrow> True | Some t \<Rightarrow> t \<le> now)
     \<and> (case nj_sendAfter j of None \<Rightarrow> True | Some t \<Rightarrow> t \<le> now)"

definition stale_claim :: "instant \<Rightarrow> uuid option \<Rightarrow> job \<Rightarrow> bool" where
  "stale_claim now schoolId j \<longleftrightarrow>
     nj_status j = SENDING
     \<and> (case nj_claimedAt j of None \<Rightarrow> False | Some t \<Rightarrow> t < now - 10 * 60 * 1000)
     \<and> (case schoolId of None \<Rightarrow> True | Some s \<Rightarrow> nj_schoolId j = s)"

definition release_stale :: "instant \<Rightarrow> uuid option \<Rightarrow> job list \<Rightarrow> job list" where
  "release_stale now schoolId =
     upd (stale_claim now schoolId) (\<lambda>j. j\<lparr>nj_status := QUEUED, nj_claimedAt := None, nj_claimedBy := None\<rparr>)"

definition claim :: "instant \<Rightarrow> string \<Rightarrow> job \<Rightarrow> job" where
  "claim now workerId j = j\<lparr>nj_status := SENDING, nj_claimedAt := Some now, nj_claimedBy := Some workerId\<rparr>"

text \<open>
  The claim statement.  Both branches of the source (one UPDATE ... RETURNING with SKIP LOCKED, or
  select and update one by one) select the same rows; they are returned in queue order.
\<close>

definition claimEligibleJobs ::
  "instant \<Rightarrow> nat \<Rightarrow> int \<Rightarrow> string \<Rightarrow> uuid option \<Rightarrow> db \<Rightarrow> job list \<times> db" where
  "claimEligibleJobs now limit maxRetries workerId schoolId d =
     (let t = release_stale now schoolId (t_jobs d);
          eligible = take limit (sort_key nj_queuedAt (filter (claimable now maxRetries schoolId) t))
      in (map (claim now workerId) eligible,
          d\<lparr>t_jobs := upd (\<lambda>j. nj_id j \<in> nj_id ` set eligible) (claim now workerId) t\<rparr>))"

section \<open>Sending one job\<close>

datatype worker_outcome = W_SENT | W_FAILED | W_PERMANENT | W_CANCELLED

definition release :: "job \<Rightarrow> job" where
  "release j = j\<lparr>nj_claimedAt := None, nj_claimedBy := None\<rparr>"

definition cancel_job :: "uuid \<Rightarrow> string \<Rightarrow> string option \<Rightarrow> db \<Rightarrow> db" where
  "cancel_job jobId reason cancelled d =
     d\<lparr>t_jobs := upd (\<lambda>j. nj_id j = jobId)
        (\<lambda>j. (release j)\<lparr>nj_status := CANCELLED, nj_failureReason := Some reason,
                 nj_cancelledReason := nullish cancelled (nj_cancelledReason j)\<rparr>) (t_jobs d)\<rparr>"

definition add_attempt :: "instant \<Rightarrow> uuid \<Rightarrow> int \<Rightarrow> string \<Rightarrow> string option \<Rightarrow> db \<Rightarrow> db" where
  "add_attempt now jobId n status err d =
     d\<lparr>t_attempts := t_attempts d @ [\<lparr>na_jobId = jobId, na_attemptNumber = n, na_status = status,
        na_errorMessage = err, na_attemptedAt = now\<rparr>]\<rparr>"

text \<open>A guard that fails for good: PERMANENT_FAILURE, one more attempt, and its attempt row.\<close>

definition refuse_job :: "instant \<Rightarrow> job \<Rightarrow> string \<Rightarrow> db \<Rightarrow> db" where
  "refuse_job now job reason d =
     add_attempt now (nj_id job) (nj_attemptCount job + 1) ''PERMANENT_FAILURE'' (Some reason)
       (d\<lparr>t_jobs := upd (\<lambda>j. nj_id j = nj_id job)
          (\<lambda>j. (release j)\<lparr>nj_status := PERMANENT_FAILURE, nj_failureReason := Some reason,
                   nj_attemptCount := nj_attemptCount job + 1\<rparr>) (t_jobs d)\<rparr>)"

definition backoff :: "instant \<Rightarrow> int \<Rightarrow> instant" where
  "backoff now n = now + 2 ^ nat n * 1000"

text \<open>A failed send: FAILED with a backoff, or PERMANENT_FAILURE.\<close>

definition fail_job :: "instant \<Rightarrow> job \<Rightarrow> string \<Rightarrow> bool \<Rightarrow> db \<Rightarrow> db" where
  "fail_job now job reason permanent d =
     add_attempt now (nj_id job) (nj_attemptCount job + 1)
       (if permanent then ''PERMANENT_FAILURE'' else ''FAILED'') (Some reason)
       (d\<lparr>t_jobs := upd (\<lambda>j. nj_id j = nj_id job)
          (\<lambda>j. (release j)\<lparr>nj_status := (if permanent then PERMANENT_FAILURE else FAILED),
                   nj_attemptCount := nj_attemptCount job + 1, nj_failureReason := Some reason,
                   nj_nextAttemptAt := (if permanent then None else Some (backoff now (nj_attemptCount job + 1)))\<rparr>)
          (t_jobs d)\<rparr>)"

definition sent_job :: "instant \<Rightarrow> job \<Rightarrow> string option \<Rightarrow> db \<Rightarrow> db" where
  "sent_job now job messageId d =
     add_attempt now (nj_id job) (nj_attemptCount job + 1) ''SENT'' None
       (d\<lparr>t_jobs := upd (\<lambda>j. nj_id j = nj_id job)
          (\<lambda>j. (release j)\<lparr>nj_status := SENT, nj_providerMessageId := js_or messageId None,
                   nj_attemptCount := nj_attemptCount job + 1, nj_sentAt := Some now,
                   nj_failureReason := None, nj_nextAttemptAt := None\<rparr>) (t_jobs d)\<rparr>)"

text \<open>The settings the worker goes by; the defaults when the school has no row (not in production).\<close>

record effective_settings =
  ef_smsEnabled :: bool
  ef_dltPrincipalEntityId :: "string option"
  ef_dltHeader :: "string option"
  ef_maxSegments :: int
  ef_segmentBalance :: "int option"

definition effective :: "sms_settings option \<Rightarrow> effective_settings" where
  "effective s = (case s of
     Some x \<Rightarrow> \<lparr>ef_smsEnabled = se_smsEnabled x, ef_dltPrincipalEntityId = se_dltPrincipalEntityId x,
        ef_dltHeader = se_dltHeader x, ef_maxSegments = se_maxSegments x, ef_segmentBalance = se_segmentBalance x\<rparr>
   | None \<Rightarrow> \<lparr>ef_smsEnabled = True, ef_dltPrincipalEntityId = None, ef_dltHeader = None,
        ef_maxSegments = 4, ef_segmentBalance = None\<rparr>)"

definition add_balance :: "uuid \<Rightarrow> int \<Rightarrow> db \<Rightarrow> db" where
  "add_balance schoolId n d =
     d\<lparr>t_smsSettings := upd (\<lambda>s. se_schoolId s = schoolId)
         (\<lambda>s. s\<lparr>se_segmentBalance := map_option (\<lambda>b. b + n) (se_segmentBalance s)\<rparr>) (t_smsSettings d)\<rparr>"

text \<open>UPDATE ... WHERE segment_balance >= n RETURNING: None when no row qualifies.\<close>

definition reserve_balance :: "uuid \<Rightarrow> int \<Rightarrow> db \<Rightarrow> db option" where
  "reserve_balance schoolId n d =
     (let enough = (\<lambda>s. se_schoolId s = schoolId \<and> (case se_segmentBalance s of None \<Rightarrow> False | Some b \<Rightarrow> n \<le> b)) in
      if \<exists>s \<in> set (t_smsSettings d). enough s
      then Some (d\<lparr>t_smsSettings := upd enough
             (\<lambda>s. s\<lparr>se_segmentBalance := map_option (\<lambda>b. b - n) (se_segmentBalance s)\<rparr>) (t_smsSettings d)\<rparr>)
      else None)"

definition marker_bodies :: "ustring set" where
  "marker_bodies = {utext ''GUARDIAN_OPTED_OUT'', utext ''MISSING_GUARDIAN_PHONE'', utext ''PHONE_NOT_IN_ALLOWLIST''}"

definition sms_request_of :: "db \<Rightarrow> effective_settings \<Rightarrow> job \<Rightarrow> sms_request" where
  "sms_request_of d ef job =
     (let template = sel1 (\<lambda>t. nt_schoolId t = Some (nj_schoolId job) \<and> nt_code t = nj_notificationType job
                             \<and> nt_language t = nj_language job) (t_templates d)
      in \<lparr>sq_to = nj_recipientPhone job, sq_message = nj_messageBody job,
          sq_dltPrincipalEntityId = js_or (ef_dltPrincipalEntityId ef) None, sq_dltHeader = js_or (ef_dltHeader ef) None,
          sq_dltTemplateId = js_or (case template of None \<Rightarrow> None | Some t \<Rightarrow> nt_dltTemplateId t) None,
          sq_jobId = nj_id job\<rparr>)"

text \<open>From the reservation of the balance to the end; \<open>Some\<close> request when the provider was called.\<close>

definition send_job ::
  "instant \<Rightarrow> (sms_request \<Rightarrow> send_result) \<Rightarrow> int \<Rightarrow> effective_settings \<Rightarrow> job \<Rightarrow> db
     \<Rightarrow> worker_outcome \<times> sms_request option \<times> db" where
  "send_job now send_sms maxRetries ef job d =
     (let segments = sm_segmentCount (estimateSmsSegments (nj_messageBody job));
          reserved = ef_segmentBalance ef \<noteq> None;
          d1 = (if reserved then reserve_balance (nj_schoolId job) segments d else Some d)
      in case d1 of
        None \<Rightarrow> (W_PERMANENT, None, refuse_job now job ''SMS_BALANCE_EXCEEDED'' d)
      | Some d1 \<Rightarrow>
          let req = sms_request_of d1 ef job;
              n = nj_attemptCount job + 1;
              refunded = (if reserved then add_balance (nj_schoolId job) segments d1 else d1)
          in case send_sms req of
               SendOk messageId \<Rightarrow> (W_SENT, Some req, sent_job now job messageId d1)
             | SendRejected err isPermanent \<Rightarrow>
                 let permanent = isPermanent \<or> maxRetries \<le> n in
                 (if permanent then W_PERMANENT else W_FAILED, Some req,
                  fail_job now job (the (js_or err (Some ''PROVIDER_SEND_ERROR''))) permanent refunded)
             | SendThrows message \<Rightarrow>
                 let permanent = maxRetries \<le> n in
                 (if permanent then W_PERMANENT else W_FAILED, Some req,
                  fail_job now job (the (js_or (Some message) (Some ''UNKNOWN_WORKER_ERROR''))) permanent refunded))"

definition status_changed :: "db \<Rightarrow> job \<Rightarrow> bool" where
  "status_changed d job \<longleftrightarrow>
     (case nj_recordId job of None \<Rightarrow> False
      | Some rid \<Rightarrow> rid \<noteq> [] \<and> nj_kind job = KAbsence
          \<and> (case sel1 (\<lambda>r. ar_id r = rid) (t_records d) of None \<Rightarrow> False | Some r \<Rightarrow> ar_status r \<noteq> ABSENT))"

definition processClaimedJob ::
  "world \<Rightarrow> instant \<Rightarrow> string \<Rightarrow> (sms_request \<Rightarrow> send_result) \<Rightarrow> int \<Rightarrow> job \<Rightarrow> db
     \<Rightarrow> worker_outcome \<times> sms_request option \<times> db" where
  "processClaimedJob w now provider send_sms maxRetries job d =
     (let sch = sel1 (\<lambda>s. sc_id s = nj_schoolId job) (t_schools d);
          settings = sel1 (\<lambda>s. se_schoolId s = nj_schoolId job) (t_smsSettings d);
          ef = effective settings;
          segments = sm_segmentCount (estimateSmsSegments (nj_messageBody job))
      in if (case sch of None \<Rightarrow> True | Some s \<Rightarrow> sc_status s \<noteq> ''ACTIVE'')
         then (W_CANCELLED, None, cancel_job (nj_id job) ''SCHOOL_DISABLED'' None d)
         else if settings = None \<and> env_production w
         then (W_PERMANENT, None, refuse_job now job ''SMS_SETTINGS_REQUIRED'' d)
         else if \<not> ef_smsEnabled ef
         then (W_CANCELLED, None, cancel_job (nj_id job) ''SMS_DISABLED'' None d)
         else if status_changed d job
         then (W_CANCELLED, None, cancel_job (nj_id job) ''STATUS_CHANGED'' (Some ''STATUS_CHANGED'') d)
         else if nj_studentId job \<noteq> [] \<and> \<not> hasConsent d (nj_schoolId job) (nj_studentId job) ''ABSENCE_SMS''
         then (W_CANCELLED, None, cancel_job (nj_id job) ''NO_CONSENT'' (Some ''NO_CONSENT'') d)
         else if nj_messageBody job \<in> marker_bodies
         then (W_CANCELLED, None, cancel_job (nj_id job) (map char_of (nj_messageBody job)) None d)
         else if env_production w \<and> provider \<notin> {''fake'', ''console''}
                 \<and> (\<not> truthy (ef_dltPrincipalEntityId ef) \<or> \<not> truthy (ef_dltHeader ef))
         then (W_PERMANENT, None, refuse_job now job ''DLT_CONFIGURATION_REQUIRED'' d)
         else if ef_maxSegments ef \<noteq> 0 \<and> ef_maxSegments ef < segments
         then (W_PERMANENT, None, refuse_job now job ''SMS_SEGMENT_LIMIT_EXCEEDED'' d)
         else send_job now send_sms maxRetries ef job d)"

definition recordFailure :: "instant \<Rightarrow> job \<Rightarrow> string \<Rightarrow> int \<Rightarrow> bool \<Rightarrow> db \<Rightarrow> db" where
  "recordFailure now job message maxRetries permanent d =
     (let nextAttempt = nj_attemptCount job + 1;
          isPermanent = permanent \<or> maxRetries \<le> nextAttempt
      in add_attempt now (nj_id job) nextAttempt (if isPermanent then ''PERMANENT_FAILURE'' else ''FAILED'') (Some message)
           (d\<lparr>t_jobs := upd (\<lambda>j. nj_id j = nj_id job \<and> nj_schoolId j = nj_schoolId job)
              (\<lambda>j. (release j)\<lparr>nj_status := (if isPermanent then PERMANENT_FAILURE else FAILED),
                       nj_attemptCount := nextAttempt, nj_failureReason := Some message,
                       nj_nextAttemptAt := (if isPermanent then None else Some (backoff now nextAttempt))\<rparr>)
              (t_jobs d)\<rparr>))"

section \<open>The queue\<close>

text \<open>
  How the database behaves while a job is processed: it answers; a statement fails, so that the
  transaction of \<open>processClaimedJob\<close> is rolled back and \<open>recordFailure\<close> runs; or that fails as well.
\<close>

datatype db_fault = NoFault | Fault string | DoubleFault

record queue_result =
  qr_processed :: nat
  qr_sent :: nat
  qr_failed :: nat
  qr_permanentFailures :: nat

text \<open>The loop; the second component lists the requests whose sending was committed, with their jobs.\<close>

fun process_jobs ::
  "world \<Rightarrow> instant \<Rightarrow> string \<Rightarrow> (sms_request \<Rightarrow> send_result) \<Rightarrow> int \<Rightarrow> (uuid \<Rightarrow> db_fault) \<Rightarrow> job list \<Rightarrow> db
     \<Rightarrow> (job \<times> worker_outcome \<times> sms_request option) list \<times> db" where
  "process_jobs w now provider send_sms maxRetries faults [] d = ([], d)"
| "process_jobs w now provider send_sms maxRetries faults (job # jobs) d =
     (let (out, d1) = (case faults (nj_id job) of
            NoFault \<Rightarrow> (let (st, req, d1) = processClaimedJob w now provider send_sms maxRetries job d in ([(job, st, req)], d1))
          | Fault message \<Rightarrow> ([(job, W_FAILED, None)],
              recordFailure now job (the (js_or (Some message) (Some ''TENANT_PROCESSING_FAILED''))) maxRetries False d)
          | DoubleFault \<Rightarrow> ([(job, W_FAILED, None)], d));
          (outs, d2) = process_jobs w now provider send_sms maxRetries faults jobs d1
      in (out @ outs, d2))"

definition queue_summary :: "(job \<times> worker_outcome \<times> sms_request option) list \<Rightarrow> queue_result" where
  "queue_summary outs =
     (let count = (\<lambda>st. length (filter (\<lambda>(j, s, r). s = st) outs)) in
      \<lparr>qr_processed = length outs, qr_sent = count W_SENT, qr_failed = count W_FAILED,
       qr_permanentFailures = count W_PERMANENT\<rparr>)"

text \<open>
  \<open>processNotificationQueue\<close>; the worker id is the process id and a fresh UUID, the provider has been
  looked up by the caller, and \<open>limit || 20\<close>, \<open>maxRetries || 3\<close> replace zero or missing options.
\<close>

definition processNotificationQueue ::
  "world \<Rightarrow> instant \<Rightarrow> string \<Rightarrow> (sms_request \<Rightarrow> send_result) \<Rightarrow> nat option \<Rightarrow> int option \<Rightarrow> uuid option
     \<Rightarrow> (uuid \<Rightarrow> db_fault) \<Rightarrow> db \<Rightarrow> (job \<times> worker_outcome \<times> sms_request option) list \<times> queue_result \<times> db" where
  "processNotificationQueue w now provider send_sms limit maxRetries schoolId faults d =
     (let limit' = (case limit of Some n \<Rightarrow> if n = 0 then 20 else n | None \<Rightarrow> 20);
          retries = (case maxRetries of Some n \<Rightarrow> if n = 0 then 3 else n | None \<Rightarrow> 3);
          workerId = ''sms-worker-'' @ gen_uuid w (seq d);
          (jobs, d1) = claimEligibleJobs now limit' retries workerId schoolId (d\<lparr>seq := Suc (seq d)\<rparr>);
          (outs, d2) = process_jobs w now provider send_sms retries faults jobs d1
      in (outs, queue_summary outs, d2))"

section \<open>Delivery callback and retry (notificationRoutes.ts)\<close>

datatype delivery_status = CB_DELIVERED | CB_FAILED | CB_SENT

record callback_payload =
  cb_providerMessageId :: string
  cb_status :: delivery_status
  cb_failureReason :: "string option"
  cb_deliveredAt :: "instant option"

datatype callback_response =
    CallbackAuthFailed string
  | CallbackMalformed string
  | CallbackJobNotFound
  | CallbackAlreadyDelivered uuid
  | CallbackProcessed uuid delivery_status

text \<open>
  The route: the provider's verification (an error or not) and parser are arguments, already
  applied to the request.
\<close>

definition delivery_callback ::
  "instant \<Rightarrow> string option \<Rightarrow> (string + callback_payload) \<Rightarrow> db \<Rightarrow> callback_response \<times> db" where
  "delivery_callback now verification parsed d =
     (case verification of Some err \<Rightarrow> (CallbackAuthFailed err, d)
      | None \<Rightarrow> (case parsed of Inl err \<Rightarrow> (CallbackMalformed err, d)
        | Inr p \<Rightarrow> (case sel1 (\<lambda>j. nj_providerMessageId j = Some (cb_providerMessageId p)) (t_jobs d) of
            None \<Rightarrow> (CallbackJobNotFound, d)
          | Some job \<Rightarrow>
              let mine = (\<lambda>j. nj_id j = nj_id job \<and> nj_schoolId j = nj_schoolId job) in
              if nj_status job = DELIVERED then (CallbackAlreadyDelivered (nj_id job), d)
              else (CallbackProcessed (nj_id job) (cb_status p),
                case cb_status p of
                  CB_DELIVERED \<Rightarrow> add_attempt now (nj_id job) (nj_attemptCount job) ''DELIVERED'' None
                     (d\<lparr>t_jobs := upd mine (\<lambda>j. j\<lparr>nj_status := DELIVERED,
                          nj_deliveredAt := nullish (cb_deliveredAt p) (Some now)\<rparr>) (t_jobs d)\<rparr>)
                | CB_FAILED \<Rightarrow>
                    let reason = js_or (cb_failureReason p) (Some ''CALLBACK_DELIVERY_FAILED'') in
                    add_attempt now (nj_id job) (nj_attemptCount job) ''PERMANENT_FAILURE'' reason
                     (d\<lparr>t_jobs := upd mine (\<lambda>j. j\<lparr>nj_status := PERMANENT_FAILURE, nj_failureReason := reason\<rparr>) (t_jobs d)\<rparr>)
                | CB_SENT \<Rightarrow> d))))"

text \<open>The retry route (without its audit entry): no condition on the status of the job.\<close>

definition retry_job :: "instant \<Rightarrow> uuid \<Rightarrow> uuid \<Rightarrow> db \<Rightarrow> job option \<times> db" where
  "retry_job now schoolId jobId d =
     (let t = upd (\<lambda>j. nj_id j = jobId \<and> nj_schoolId j = schoolId)
                (\<lambda>j. j\<lparr>nj_status := QUEUED, nj_attemptCount := nj_attemptCount j + 1, nj_failureReason := None,
                       nj_nextAttemptAt := Some now\<rparr>) (t_jobs d)
      in (sel1 (\<lambda>j. nj_id j = jobId \<and> nj_schoolId j = schoolId) t, d\<lparr>t_jobs := t\<rparr>))"

section \<open>Facts\<close>

text \<open>What no operation on an existing job changes: its identity and the columns of its unique indexes.\<close>

definition job_core :: "job \<Rightarrow> uuid \<times> uuid \<times> uuid \<times> uuid \<times> string \<times> string \<times> uuid option \<times> job_kind" where
  "job_core j = (nj_id j, nj_schoolId j, nj_studentId j, nj_sessionId j, nj_notificationType j, nj_version j,
                 nj_recordId j, nj_kind j)"

lemma job_core_conflict: "job_core a = job_core a' \<Longrightarrow> job_core b = job_core b' \<Longrightarrow> job_conflict a b = job_conflict a' b'"
  by (auto simp: job_core_def job_conflict_def)

text \<open>\<open>touches_only job d d'\<close>: only the rows with the id of \<open>job\<close> change, and within the attempt budget.\<close>

definition touches_only :: "job \<Rightarrow> db \<Rightarrow> db \<Rightarrow> bool" where
  "touches_only job d d' \<longleftrightarrow>
     (\<exists>f. t_jobs d' = upd (\<lambda>j. nj_id j = nj_id job) f (t_jobs d)
        \<and> (\<forall>j. job_core (f j) = job_core j \<and> nj_attemptCount (f j) \<in> {nj_attemptCount j, nj_attemptCount job + 1}))"

lemma touches_only_same: "t_jobs d' = t_jobs d \<Longrightarrow> touches_only job d d'"
  by (auto simp: touches_only_def upd_def intro!: exI [of _ "\<lambda>j. j"])

lemma touches_only_steps:
  assumes "t_jobs d0 = t_jobs d"
  shows "touches_only job d (cancel_job (nj_id job) r c d0)" "touches_only job d (refuse_job now job r d0)"
    "touches_only job d (fail_job now job r p d0)" "touches_only job d (sent_job now job m d0)"
    "touches_only job d (recordFailure now job r n p d0)"
proof -
  have upd: "touches_only job d d'" if "t_jobs d' = upd (\<lambda>j. nj_id j = nj_id job) f (t_jobs d)"
    "\<And>j. job_core (f j) = job_core j" "\<And>j. nj_attemptCount (f j) \<in> {nj_attemptCount j, nj_attemptCount job + 1}" for f d'
    using that by (auto simp: touches_only_def)
  show "touches_only job d (cancel_job (nj_id job) r c d0)"
    by (rule upd, simp add: assms cancel_job_def release_def job_core_def, simp_all add: cancel_job_def release_def job_core_def)
  show "touches_only job d (refuse_job now job r d0)"
    by (rule upd, simp add: assms refuse_job_def add_attempt_def release_def job_core_def, simp_all add: refuse_job_def add_attempt_def release_def job_core_def)
  show "touches_only job d (fail_job now job r p d0)"
    by (rule upd, simp add: assms fail_job_def add_attempt_def release_def job_core_def, simp_all add: fail_job_def add_attempt_def release_def job_core_def)
  show "touches_only job d (sent_job now job m d0)"
    by (rule upd, simp add: assms sent_job_def add_attempt_def release_def job_core_def, simp_all add: sent_job_def add_attempt_def release_def job_core_def)
  let ?f = "\<lambda>j. if nj_schoolId j = nj_schoolId job then (release j)\<lparr>nj_status := (if p \<or> n \<le> nj_attemptCount job + 1 then PERMANENT_FAILURE else FAILED),
     nj_attemptCount := nj_attemptCount job + 1, nj_failureReason := Some r,
     nj_nextAttemptAt := (if p \<or> n \<le> nj_attemptCount job + 1 then None else Some (backoff now (nj_attemptCount job + 1)))\<rparr> else j"
  have "t_jobs (recordFailure now job r n p d0) = upd (\<lambda>j. nj_id j = nj_id job) ?f (t_jobs d)"
    using assms by (simp add: recordFailure_def add_attempt_def Let_def upd_def)
  then show "touches_only job d (recordFailure now job r n p d0)"
    by (rule upd) (simp_all add: job_core_def release_def)
qed

lemma balance_frames:
  "t_jobs (add_balance sid n d) = t_jobs d"
  "reserve_balance sid n d = Some d1 \<Longrightarrow> t_jobs d1 = t_jobs d"
  by (auto simp: add_balance_def reserve_balance_def Let_def split: if_splits)

lemma send_job_touches_only: "send_job now send maxRetries ef job d = (st, req, d') \<Longrightarrow> touches_only job d d'"
  by (auto simp: send_job_def Let_def balance_frames intro!: touches_only_steps
      split: option.splits if_splits send_result.splits)

lemma processClaimedJob_touches_only:
  "processClaimedJob w now provider send maxRetries job d = (st, req, d') \<Longrightarrow> touches_only job d d'"
  by (auto simp: processClaimedJob_def Let_def intro!: touches_only_steps split: if_splits dest: send_job_touches_only)

lemma touches_onlyD:
  assumes "touches_only job d d'"
  obtains g where "t_jobs d' = map g (t_jobs d)" "\<And>j. job_core (g j) = job_core j"
    "\<And>j. nj_id j \<noteq> nj_id job \<Longrightarrow> g j = j"
    "\<And>j. nj_attemptCount (g j) \<le> max (nj_attemptCount j) (nj_attemptCount job + 1)"
proof -
  from assms obtain f where f: "t_jobs d' = upd (\<lambda>j. nj_id j = nj_id job) f (t_jobs d)"
    "\<And>j. job_core (f j) = job_core j" "\<And>j. nj_attemptCount (f j) \<in> {nj_attemptCount j, nj_attemptCount job + 1}"
    unfolding touches_only_def by blast
  show thesis
  proof
    show "t_jobs d' = map (\<lambda>j. if nj_id j = nj_id job then f j else j) (t_jobs d)" using f(1) by (simp add: upd_def)
    show "nj_attemptCount (if nj_id j = nj_id job then f j else j) \<le> max (nj_attemptCount j) (nj_attemptCount job + 1)" for j
      using f(3) [of j] by auto
  qed (use f(2) in simp_all)
qed

text \<open>A whole pass over claimed jobs.\<close>

lemma process_jobs_step:
  assumes "process_jobs w now provider send m faults (job # jobs) d = (outs, d')"
  obtains st req outs1 d1 where "outs = (job, st, req) # outs1" "process_jobs w now provider send m faults jobs d1 = (outs1, d')"
    "touches_only job d d1"
    "processClaimedJob w now provider send m job d = (st, req, d1)
      \<or> req = None \<and> st = W_FAILED \<and> t_smsSettings d1 = t_smsSettings d"
proof (cases "faults (nj_id job)")
  case NoFault
  obtain st req d1 where c: "processClaimedJob w now provider send m job d = (st, req, d1)"
    by (cases "processClaimedJob w now provider send m job d") auto
  obtain outs1 d2 where r: "process_jobs w now provider send m faults jobs d1 = (outs1, d2)" by fastforce
  from assms NoFault c r have "outs = (job, st, req) # outs1" "d2 = d'" by simp_all
  with c r show ?thesis by (intro that [of st req outs1 d1]) (simp_all add: processClaimedJob_touches_only)
next
  case (Fault message)
  let ?d1 = "recordFailure now job (the (js_or (Some message) (Some ''TENANT_PROCESSING_FAILED''))) m False d"
  obtain outs1 d2 where r: "process_jobs w now provider send m faults jobs ?d1 = (outs1, d2)" by fastforce
  from assms Fault r have "outs = (job, W_FAILED, None) # outs1" "d2 = d'" by simp_all
  moreover have "touches_only job d ?d1" by (rule touches_only_steps(5)) simp
  moreover have "t_smsSettings ?d1 = t_smsSettings d" by (simp add: recordFailure_def add_attempt_def Let_def)
  ultimately show ?thesis using r by (intro that [of W_FAILED None outs1 ?d1]) simp_all
next
  case DoubleFault
  obtain outs1 d2 where r: "process_jobs w now provider send m faults jobs d = (outs1, d2)" by fastforce
  from assms DoubleFault r have "outs = (job, W_FAILED, None) # outs1" "d2 = d'" by simp_all
  with r show ?thesis by (intro that [of W_FAILED None outs1 d]) (simp_all add: touches_only_same)
qed

lemma process_jobs_rewrite:
  assumes "process_jobs w now provider send m faults jobs d = (outs, d')"
  shows "map fst outs = jobs \<and>
    (\<exists>g. t_jobs d' = map g (t_jobs d) \<and> (\<forall>j. job_core (g j) = job_core j)
      \<and> (\<forall>j. nj_id j \<notin> nj_id ` set jobs \<longrightarrow> g j = j)
      \<and> (\<forall>k. (\<forall>j \<in> set jobs. nj_attemptCount j < k) \<longrightarrow> (\<forall>j. nj_attemptCount j \<le> k \<longrightarrow> nj_attemptCount (g j) \<le> k)))"
  using assms
proof (induction jobs arbitrary: d outs)
  case Nil
  then show ?case by (auto intro!: exI [of _ "\<lambda>j. j"])
next
  case (Cons job jobs)
  from Cons.prems obtain st req outs1 d1 where one: "outs = (job, st, req) # outs1"
    "process_jobs w now provider send m faults jobs d1 = (outs1, d')" "touches_only job d d1"
    by (rule process_jobs_step)
  from touches_onlyD [OF one(3)] obtain g where g: "t_jobs d1 = map g (t_jobs d)" "\<And>j. job_core (g j) = job_core j"
    "\<And>j. nj_id j \<noteq> nj_id job \<Longrightarrow> g j = j"
    "\<And>j. nj_attemptCount (g j) \<le> max (nj_attemptCount j) (nj_attemptCount job + 1)" by blast
  from Cons.IH [OF one(2)] obtain h where fsts: "map fst outs1 = jobs"
    and h: "t_jobs d' = map h (t_jobs d1)" "\<forall>j. job_core (h j) = job_core j"
    "\<forall>j. nj_id j \<notin> nj_id ` set jobs \<longrightarrow> h j = j"
    "\<forall>k. (\<forall>j \<in> set jobs. nj_attemptCount j < k) \<longrightarrow> (\<forall>j. nj_attemptCount j \<le> k \<longrightarrow> nj_attemptCount (h j) \<le> k)"
    by blast
  have att: "nj_attemptCount (h (g j)) \<le> k" if "\<forall>j \<in> set (job # jobs). nj_attemptCount j < k" "nj_attemptCount j \<le> k" for j k
  proof -
    from that g(4) [of j] have "nj_attemptCount (g j) \<le> k" by (auto simp: max_def split: if_splits)
    with that h(4) show ?thesis by auto
  qed
  show ?case
    using one(1) fsts g h(1-3) att by (intro conjI exI [of _ "h \<circ> g"]) auto
qed

lemma claimEligibleJobs_rewrite:
  assumes "claimEligibleJobs now limit m workerId schoolId d = (jobs, d')"
  shows "\<exists>g. t_jobs d' = map g (t_jobs d) \<and> (\<forall>j. job_core (g j) = job_core j \<and> nj_attemptCount (g j) = nj_attemptCount j)
     \<and> (\<forall>j. nj_id j \<notin> nj_id ` set jobs \<and> nj_status j \<noteq> SENDING \<longrightarrow> g j = j)"
    and "\<forall>job \<in> set jobs. nj_attemptCount job < m"
    and "\<forall>job \<in> set jobs. \<exists>j \<in> set (t_jobs d). job_core job = job_core j \<and> nj_messageBody job = nj_messageBody j
           \<and> nj_status j \<in> {QUEUED, FAILED, SCHEDULED, SENDING} \<and> (case nj_sendAfter j of None \<Rightarrow> True | Some t \<Rightarrow> t \<le> now)"
    and "t_smsSettings d' = t_smsSettings d"
    and "length jobs \<le> limit"
proof -
  define t where "t = release_stale now schoolId (t_jobs d)"
  define el where "el = take limit (sort_key nj_queuedAt (filter (claimable now m schoolId) t))"
  from assms have jobs: "jobs = map (claim now workerId) el"
    and d': "d' = d\<lparr>t_jobs := upd (\<lambda>j. nj_id j \<in> nj_id ` set el) (claim now workerId) t\<rparr>"
    by (simp_all add: claimEligibleJobs_def Let_def t_def el_def)
  have ids: "nj_id ` set jobs = nj_id ` set el" by (simp add: jobs image_image claim_def)
  have el: "e \<in> set t \<and> claimable now m schoolId e" if "e \<in> set el" for e
    using set_take_subset [of limit "sort_key nj_queuedAt (filter (claimable now m schoolId) t)"] that by (auto simp: el_def)
  let ?r = "\<lambda>j. if stale_claim now schoolId j then j\<lparr>nj_status := QUEUED, nj_claimedAt := None, nj_claimedBy := None\<rparr> else j"
  let ?g = "\<lambda>j. if nj_id (?r j) \<in> nj_id ` set el then claim now workerId (?r j) else ?r j"
  have "t_jobs d' = map ?g (t_jobs d)" by (simp add: d' t_def release_stale_def upd_def)
  moreover have "\<forall>j. job_core (?g j) = job_core j \<and> nj_attemptCount (?g j) = nj_attemptCount j"
    by (auto simp: job_core_def claim_def)
  moreover have "\<forall>j. nj_id j \<notin> nj_id ` set jobs \<and> nj_status j \<noteq> SENDING \<longrightarrow> ?g j = j"
    unfolding ids by (auto simp: stale_claim_def)
  ultimately show "\<exists>g. t_jobs d' = map g (t_jobs d) \<and> (\<forall>j. job_core (g j) = job_core j \<and> nj_attemptCount (g j) = nj_attemptCount j)
     \<and> (\<forall>j. nj_id j \<notin> nj_id ` set jobs \<and> nj_status j \<noteq> SENDING \<longrightarrow> g j = j)" by blast
  show "\<forall>job \<in> set jobs. nj_attemptCount job < m"
    using el by (auto simp: jobs claim_def claimable_def)
  show "\<forall>job \<in> set jobs. \<exists>j \<in> set (t_jobs d). job_core job = job_core j \<and> nj_messageBody job = nj_messageBody j
       \<and> nj_status j \<in> {QUEUED, FAILED, SCHEDULED, SENDING} \<and> (case nj_sendAfter j of None \<Rightarrow> True | Some t \<Rightarrow> t \<le> now)"
  proof
    fix job assume "job \<in> set jobs"
    then obtain e where e: "e \<in> set el" "job = claim now workerId e" by (auto simp: jobs)
    with el obtain j where j: "j \<in> set (t_jobs d)" "e = ?r j" "claimable now m schoolId e"
      by (auto simp: t_def release_stale_def in_upd)
    from j have "nj_status j \<in> {QUEUED, FAILED, SCHEDULED, SENDING} \<and> (case nj_sendAfter j of None \<Rightarrow> True | Some t \<Rightarrow> t \<le> now)"
      by (auto simp: claimable_def stale_claim_def split: if_splits)
    moreover from e j have "job_core job = job_core j" "nj_messageBody job = nj_messageBody j"
      by (simp_all add: job_core_def claim_def)
    ultimately show "\<exists>j \<in> set (t_jobs d). job_core job = job_core j \<and> nj_messageBody job = nj_messageBody j
       \<and> nj_status j \<in> {QUEUED, FAILED, SCHEDULED, SENDING} \<and> (case nj_sendAfter j of None \<Rightarrow> True | Some t \<Rightarrow> t \<le> now)"
      using j(1) by blast
  qed
  show "t_smsSettings d' = t_smsSettings d" by (simp add: d')
  show "length jobs \<le> limit" by (simp add: jobs el_def)
qed

text \<open>Which branch of the worker reached the provider.\<close>

lemma processClaimedJob_called:
  assumes "processClaimedJob w now provider send m job d = (st, Some req, d')"
  obtains sch where "sel1 (\<lambda>s. sc_id s = nj_schoolId job) (t_schools d) = Some sch" "sc_status sch = ''ACTIVE''"
    "sel1 (\<lambda>s. se_schoolId s = nj_schoolId job) (t_smsSettings d) \<noteq> None \<or> \<not> env_production w"
    "ef_smsEnabled (effective (sel1 (\<lambda>s. se_schoolId s = nj_schoolId job) (t_smsSettings d)))"
    "\<not> status_changed d job"
    "nj_studentId job = [] \<or> hasConsent d (nj_schoolId job) (nj_studentId job) ''ABSENCE_SMS''"
    "nj_messageBody job \<notin> marker_bodies"
    "\<not> env_production w \<or> provider \<in> {''fake'', ''console''}
      \<or> truthy (ef_dltPrincipalEntityId (effective (sel1 (\<lambda>s. se_schoolId s = nj_schoolId job) (t_smsSettings d))))
        \<and> truthy (ef_dltHeader (effective (sel1 (\<lambda>s. se_schoolId s = nj_schoolId job) (t_smsSettings d))))"
    "ef_maxSegments (effective (sel1 (\<lambda>s. se_schoolId s = nj_schoolId job) (t_smsSettings d))) = 0
      \<or> sm_segmentCount (estimateSmsSegments (nj_messageBody job))
          \<le> ef_maxSegments (effective (sel1 (\<lambda>s. se_schoolId s = nj_schoolId job) (t_smsSettings d)))"
    "send_job now send m (effective (sel1 (\<lambda>s. se_schoolId s = nj_schoolId job) (t_smsSettings d))) job d = (st, Some req, d')"
proof -
  let ?s = "sel1 (\<lambda>s. sc_id s = nj_schoolId job) (t_schools d)"
  have guard: False if "processClaimedJob w now provider send m job d = (x, None, y)" for x y using assms that by simp
  have c: "\<not> (case ?s of None \<Rightarrow> True | Some s \<Rightarrow> sc_status s \<noteq> ''ACTIVE'')"
    using guard by (auto simp: processClaimedJob_def Let_def)
  then obtain sch where s: "?s = Some sch" "sc_status sch = ''ACTIVE''" by (auto split: option.splits)
  show thesis
    using assms by (intro that [OF s]) (auto simp: processClaimedJob_def Let_def s split: if_splits)
qed

lemma send_job_request:
  assumes "send_job now send m ef job d = (st, Some req, d')"
  shows "sq_to req = nj_recipientPhone job" "sq_message req = nj_messageBody job" "sq_jobId req = nj_id job"
  using assms by (auto simp: send_job_def Let_def sms_request_of_def split: option.splits if_splits send_result.splits)

text \<open>
  C7: no message leaves without permission.  Whenever the worker hands a message to the provider,
  the school is active and has SMS switched on, a linked absence record still says ABSENT, the
  student's guardians have not refused consent, the text is not one of the bookkeeping markers, a
  real provider in production has its DLT registration, the message is within the segment limit,
  and the request carries exactly the phone, text and id of the job.
\<close>

theorem sms_only_when_permitted:
  assumes "processClaimedJob w now provider send_sms maxRetries job d = (st, Some req, d')"
  shows "\<exists>sch ef. sch \<in> set (t_schools d) \<and> sc_id sch = nj_schoolId job \<and> sc_status sch = ''ACTIVE''
    \<and> ef = effective (sel1 (\<lambda>s. se_schoolId s = nj_schoolId job) (t_smsSettings d)) \<and> ef_smsEnabled ef
    \<and> (\<forall>r. nj_kind job = KAbsence \<and> nj_recordId job \<noteq> Some [] \<and> nj_recordId job = Some (ar_id r) \<and> r \<in> set (t_records d)
           \<and> distinct (map ar_id (t_records d)) \<longrightarrow> ar_status r = ABSENT)
    \<and> (nj_studentId job \<noteq> [] \<longrightarrow> hasConsent d (nj_schoolId job) (nj_studentId job) ''ABSENCE_SMS'')
    \<and> nj_messageBody job \<notin> marker_bodies
    \<and> (env_production w \<and> provider \<notin> {''fake'', ''console''} \<longrightarrow> truthy (ef_dltPrincipalEntityId ef) \<and> truthy (ef_dltHeader ef))
    \<and> (ef_maxSegments ef \<noteq> 0 \<longrightarrow> sm_segmentCount (estimateSmsSegments (nj_messageBody job)) \<le> ef_maxSegments ef)
    \<and> sq_to req = nj_recipientPhone job \<and> sq_message req = nj_messageBody job \<and> sq_jobId req = nj_id job"
proof -
  from assms obtain sch where c: "sel1 (\<lambda>s. sc_id s = nj_schoolId job) (t_schools d) = Some sch" "sc_status sch = ''ACTIVE''"
    "ef_smsEnabled (effective (sel1 (\<lambda>s. se_schoolId s = nj_schoolId job) (t_smsSettings d)))"
    "\<not> status_changed d job"
    "nj_studentId job = [] \<or> hasConsent d (nj_schoolId job) (nj_studentId job) ''ABSENCE_SMS''"
    "nj_messageBody job \<notin> marker_bodies"
    "\<not> env_production w \<or> provider \<in> {''fake'', ''console''}
      \<or> truthy (ef_dltPrincipalEntityId (effective (sel1 (\<lambda>s. se_schoolId s = nj_schoolId job) (t_smsSettings d))))
        \<and> truthy (ef_dltHeader (effective (sel1 (\<lambda>s. se_schoolId s = nj_schoolId job) (t_smsSettings d))))"
    "ef_maxSegments (effective (sel1 (\<lambda>s. se_schoolId s = nj_schoolId job) (t_smsSettings d))) = 0
      \<or> sm_segmentCount (estimateSmsSegments (nj_messageBody job))
          \<le> ef_maxSegments (effective (sel1 (\<lambda>s. se_schoolId s = nj_schoolId job) (t_smsSettings d)))"
    "send_job now send_sms maxRetries (effective (sel1 (\<lambda>s. se_schoolId s = nj_schoolId job) (t_smsSettings d))) job d = (st, Some req, d')"
    by (rule processClaimedJob_called)
  have absent: "ar_status r = ABSENT" if "nj_kind job = KAbsence" "nj_recordId job \<noteq> Some []" "nj_recordId job = Some (ar_id r)"
    "r \<in> set (t_records d)" "distinct (map ar_id (t_records d))" for r
    using c(4) that sel1_key_unique [OF that(5,4)] by (simp add: status_changed_def)
  show ?thesis
    using sel1_SomeD [OF c(1)] c(2,3,5-8) absent send_job_request [OF c(9)] by (intro exI conjI) auto
qed

text \<open>The balance of a school.\<close>

definition balance :: "db \<Rightarrow> uuid \<Rightarrow> int option" where
  "balance d sid = (case sel1 (\<lambda>s. se_schoolId s = sid) (t_smsSettings d) of None \<Rightarrow> None | Some s \<Rightarrow> se_segmentBalance s)"

definition job_segments :: "job \<Rightarrow> int" where
  "job_segments j = sm_segmentCount (estimateSmsSegments (nj_messageBody j))"

lemma sel1_upd_kept:
  "(\<And>r. p (f r) = p r) \<Longrightarrow> sel1 p (upd q f t) = map_option (\<lambda>r. if q r then f r else r) (sel1 p t)"
  by (induction t) auto

lemma balance_same: "t_smsSettings d' = t_smsSettings d \<Longrightarrow> balance d' sid = balance d sid"
  by (simp add: balance_def)

lemma balance_add: "balance (add_balance s n d) sid = (if s = sid then map_option (\<lambda>b. b + n) (balance d sid) else balance d sid)"
  by (auto simp: balance_def add_balance_def sel1_upd_kept dest: sel1_SomeD split: option.splits)

definition settings_unique :: "db \<Rightarrow> bool" where
  "settings_unique d \<longleftrightarrow> distinct (map se_schoolId (t_smsSettings d))"

lemma reserve_facts:
  assumes "reserve_balance s n d = Some d1" "settings_unique d"
  shows "settings_unique d1" "balance d1 sid = (if s = sid then map_option (\<lambda>b. b - n) (balance d sid) else balance d sid)"
    "\<exists>b. balance d s = Some b \<and> n \<le> b"
proof -
  let ?en = "\<lambda>s'. se_schoolId s' = s \<and> (case se_segmentBalance s' of None \<Rightarrow> False | Some b \<Rightarrow> n \<le> b)"
  let ?f = "\<lambda>s. s\<lparr>se_segmentBalance := map_option (\<lambda>b. b - n) (se_segmentBalance s)\<rparr>"
  from assms(1) obtain x where x: "x \<in> set (t_smsSettings d)" "?en x"
    and d1: "d1 = d\<lparr>t_smsSettings := upd ?en ?f (t_smsSettings d)\<rparr>"
    by (auto simp: reserve_balance_def Let_def split: if_splits)
  from x(2) obtain b where xb: "se_segmentBalance x = Some b" "n \<le> b" "se_schoolId x = s" by (auto split: option.splits)
  from sel1_key_unique [OF assms(2) [unfolded settings_unique_def] x(1)] xb(3)
  have sx: "sel1 (\<lambda>s'. se_schoolId s' = s) (t_smsSettings d) = Some x" by simp
  show "settings_unique d1" using assms(2) by (simp add: settings_unique_def d1 map_key_upd)
  show "\<exists>b. balance d s = Some b \<and> n \<le> b" using sx xb by (simp add: balance_def)
  show "balance d1 sid = (if s = sid then map_option (\<lambda>b. b - n) (balance d sid) else balance d sid)"
  proof (cases "s = sid")
    case True
    with sx xb show ?thesis by (simp add: balance_def d1 sel1_upd_kept)
  next
    case False
    then show ?thesis by (auto simp: balance_def d1 sel1_upd_kept dest: sel1_SomeD split: option.splits)
  qed
qed

lemma step_settings:
  "t_smsSettings (cancel_job i r c d) = t_smsSettings d" "t_smsSettings (refuse_job now job r d) = t_smsSettings d"
  "t_smsSettings (fail_job now job r p d) = t_smsSettings d" "t_smsSettings (sent_job now job mid d) = t_smsSettings d"
  by (simp_all add: cancel_job_def refuse_job_def fail_job_def sent_job_def add_attempt_def)

lemma send_job_balance:
  assumes "send_job now send m ef job d = (st, req, d')" "settings_unique d"
    "ef_segmentBalance ef = balance d (nj_schoolId job)"
  shows "settings_unique d'"
    "balance d' sid = (if st = W_SENT \<and> nj_schoolId job = sid then map_option (\<lambda>b. b - job_segments job) (balance d sid) else balance d sid)"
    "st = W_SENT \<Longrightarrow> balance d (nj_schoolId job) = Some b \<Longrightarrow> job_segments job \<le> b"
proof -
  note step = step_settings balance_def [of _ sid]
  have add: "settings_unique (add_balance s n x) = settings_unique x" for s n x
    by (simp add: settings_unique_def add_balance_def map_key_upd)
  have "settings_unique d' \<and>
    balance d' sid = (if st = W_SENT \<and> nj_schoolId job = sid then map_option (\<lambda>b. b - job_segments job) (balance d sid) else balance d sid)
    \<and> (st = W_SENT \<longrightarrow> balance d (nj_schoolId job) = Some b \<longrightarrow> job_segments job \<le> b)"
  proof (cases "balance d (nj_schoolId job)")
    case None
    have "t_smsSettings d' = t_smsSettings d"
      using assms(1,3) None by (auto simp: send_job_def Let_def step_settings split: send_result.splits)
    moreover have "\<not> (nj_schoolId job = sid \<and> balance d sid \<noteq> None)" using None by auto
    ultimately show ?thesis using assms(2) None by (auto simp: balance_def settings_unique_def)
  next
    case (Some b')
    show ?thesis
    proof (cases "reserve_balance (nj_schoolId job) (job_segments job) d")
      case None
      with assms(1,3) Some have "t_smsSettings d' = t_smsSettings d" "st \<noteq> W_SENT"
        by (auto simp: send_job_def Let_def step_settings job_segments_def)
      with assms(2) show ?thesis by (auto simp: balance_def settings_unique_def)
    next
      case (Some d1)
      note r = reserve_facts [OF Some assms(2)]
      have d': "if st = W_SENT then t_smsSettings d' = t_smsSettings d1
        else t_smsSettings d' = t_smsSettings (add_balance (nj_schoolId job) (job_segments job) d1)"
        using assms(1,3) Some \<open>balance d (nj_schoolId job) = Some b'\<close>
        by (auto simp: send_job_def Let_def step_settings job_segments_def split: send_result.splits if_splits)
      show ?thesis
      proof (cases "st = W_SENT")
        case True
        with d' have "t_smsSettings d' = t_smsSettings d1" by simp
        with r True show ?thesis by (auto simp: balance_same [of d' d1] settings_unique_def)
      next
        case False
        with d' have e: "t_smsSettings d' = t_smsSettings (add_balance (nj_schoolId job) (job_segments job) d1)" by simp
        have "balance d' sid = balance d sid"
          unfolding balance_same [OF e] balance_add r(2) by (cases "balance d sid") simp_all
        moreover have "settings_unique d'" using r(1) e add by (simp add: settings_unique_def)
        ultimately show ?thesis using False by simp
      qed
    qed
  qed
  then show "settings_unique d'"
    "balance d' sid = (if st = W_SENT \<and> nj_schoolId job = sid then map_option (\<lambda>b. b - job_segments job) (balance d sid) else balance d sid)"
    "st = W_SENT \<Longrightarrow> balance d (nj_schoolId job) = Some b \<Longrightarrow> job_segments job \<le> b" by blast+
qed

lemma processClaimedJob_balance:
  assumes "processClaimedJob w now provider send m job d = (st, req, d')" "settings_unique d"
  shows "settings_unique d' \<and>
    balance d' sid = (if st = W_SENT \<and> nj_schoolId job = sid then map_option (\<lambda>b. b - job_segments job) (balance d sid) else balance d sid)
    \<and> (st = W_SENT \<longrightarrow> balance d (nj_schoolId job) = Some b \<longrightarrow> job_segments job \<le> b)"
proof (cases "t_smsSettings d' = t_smsSettings d \<and> st \<noteq> W_SENT")
  case True
  then have e: "t_smsSettings d' = t_smsSettings d" by simp
  show ?thesis using assms(2) True unfolding balance_same [OF e] settings_unique_def e by simp
next
  case False
  let ?ef = "effective (sel1 (\<lambda>s. se_schoolId s = nj_schoolId job) (t_smsSettings d))"
  have "ef_segmentBalance ?ef = balance d (nj_schoolId job)" by (simp add: effective_def balance_def split: option.splits)
  moreover have "send_job now send m ?ef job d = (st, req, d')"
    using assms(1) False by (auto simp: processClaimedJob_def Let_def step_settings split: if_splits)
  ultimately show ?thesis
    using send_job_balance(1) [OF _ assms(2)] send_job_balance(2) [OF _ assms(2), of now send m ?ef job st req d' sid]
      send_job_balance(3) [OF _ assms(2), of now send m ?ef job st req d' b] by simp
qed

definition spent :: "uuid \<Rightarrow> (job \<times> worker_outcome \<times> sms_request option) list \<Rightarrow> int" where
  "spent sid outs = sum_list (map (\<lambda>(j, st, r). if st = W_SENT \<and> nj_schoolId j = sid then job_segments j else 0) outs)"

lemma process_jobs_balance:
  assumes "process_jobs w now provider send m faults jobs d = (outs, d')" "settings_unique d" "balance d sid = Some b"
  shows "balance d' sid = Some (b - spent sid outs) \<and> (0 \<le> b \<longrightarrow> spent sid outs \<le> b)"
  using assms
proof (induction jobs arbitrary: d outs b)
  case Nil
  then show ?case by (simp add: spent_def)
next
  case (Cons job jobs)
  from Cons.prems(1) obtain st req outs1 d1 where one: "outs = (job, st, req) # outs1"
    "process_jobs w now provider send m faults jobs d1 = (outs1, d')"
    "processClaimedJob w now provider send m job d = (st, req, d1)
      \<or> req = None \<and> st = W_FAILED \<and> t_smsSettings d1 = t_smsSettings d"
    by (rule process_jobs_step)
  define c where "c = (if st = W_SENT \<and> nj_schoolId job = sid then job_segments job else 0)"
  have "settings_unique d1 \<and> balance d1 sid = Some (b - c) \<and> (0 \<le> b \<longrightarrow> c \<le> b)"
    using one(3)
  proof
    assume "processClaimedJob w now provider send m job d = (st, req, d1)"
    from processClaimedJob_balance [OF this Cons.prems(2), of sid b] Cons.prems(3) show ?thesis by (auto simp: c_def)
  next
    assume a: "req = None \<and> st = W_FAILED \<and> t_smsSettings d1 = t_smsSettings d"
    then have e: "t_smsSettings d1 = t_smsSettings d" by simp
    from Cons.prems(2,3) a show ?thesis unfolding balance_same [OF e] settings_unique_def e c_def by simp
  qed
  with Cons.IH [OF one(2)] show ?case by (auto simp: spent_def one(1) c_def)
qed

lemma processNotificationQueueE:
  assumes "processNotificationQueue w now provider send limit retries sid faults d = (outs, res, d')"
  obtains l m wid jobs d1 where "claimEligibleJobs now l m wid sid (d\<lparr>seq := Suc (seq d)\<rparr>) = (jobs, d1)"
    "process_jobs w now provider send m faults jobs d1 = (outs, d')" "res = queue_summary outs"
    "m = (case retries of Some n \<Rightarrow> if n = 0 then 3 else n | None \<Rightarrow> 3)"
    "l = (case limit of Some n \<Rightarrow> if n = 0 then 20 else n | None \<Rightarrow> 20)"
proof -
  let ?l = "case limit of Some n \<Rightarrow> if n = 0 then 20 else n | None \<Rightarrow> 20"
  let ?m = "case retries of Some n \<Rightarrow> if n = 0 then 3 else n | None \<Rightarrow> (3 :: int)"
  obtain jobs d1 where c: "claimEligibleJobs now ?l ?m (''sms-worker-'' @ gen_uuid w (seq d)) sid (d\<lparr>seq := Suc (seq d)\<rparr>) = (jobs, d1)"
    by fastforce
  obtain outs2 d2 where p: "process_jobs w now provider send ?m faults jobs d1 = (outs2, d2)" by fastforce
  from assms have "(outs, res, d') = (outs2, queue_summary outs2, d2)"
    by (simp only: processNotificationQueue_def Let_def c p prod.case)
  with c p show thesis by (intro that) simp_all
qed

text \<open>
  C9: the balance pays exactly for what was sent.  After a pass over the queue, a school's balance
  is what it was less the segments of the jobs reported SENT, whatever else happened (rejections,
  exceptions, database faults); and a balance that was not negative is not negative afterwards.
\<close>

theorem balance_pays_for_sent:
  assumes "processNotificationQueue w now provider send_sms limit maxRetries schoolId faults d = (outs, res, d')"
    and "settings_unique d" "balance d sid = Some b"
  shows "balance d' sid = Some (b - spent sid outs) \<and> (0 \<le> b \<longrightarrow> 0 \<le> b - spent sid outs)"
  using assms(1)
proof (rule processNotificationQueueE)
  fix l m wid jobs d1
  assume c: "claimEligibleJobs now l m wid schoolId (d\<lparr>seq := Suc (seq d)\<rparr>) = (jobs, d1)"
    and p: "process_jobs w now provider send_sms m faults jobs d1 = (outs, d')"
  from claimEligibleJobs_rewrite(4) [OF c] have e: "t_smsSettings d1 = t_smsSettings d" by simp
  have "settings_unique d1" "balance d1 sid = Some b"
    using assms(2,3) unfolding balance_same [OF e] settings_unique_def e by simp_all
  from process_jobs_balance [OF p this] show ?thesis by simp
qed

lemma queue_rewrite:
  assumes "processNotificationQueue w now provider send_sms limit maxRetries schoolId faults d = (outs, res, d')"
    and "m = (case maxRetries of Some n \<Rightarrow> if n = 0 then 3 else n | None \<Rightarrow> 3)"
  shows "\<exists>g. t_jobs d' = map g (t_jobs d) \<and> (\<forall>j. job_core (g j) = job_core j)
    \<and> (\<forall>j. nj_id j \<notin> nj_id ` fst ` set outs \<and> nj_status j \<noteq> SENDING \<longrightarrow> g j = j)
    \<and> (\<forall>j. nj_attemptCount j \<le> m \<longrightarrow> nj_attemptCount (g j) \<le> m)"
    and "\<forall>job \<in> fst ` set outs. \<exists>j \<in> set (t_jobs d). nj_id job = nj_id j
           \<and> nj_status j \<in> {QUEUED, FAILED, SCHEDULED, SENDING} \<and> (case nj_sendAfter j of None \<Rightarrow> True | Some t \<Rightarrow> t \<le> now)"
proof -
  from assms obtain l wid jobs d1 where c: "claimEligibleJobs now l m wid schoolId (d\<lparr>seq := Suc (seq d)\<rparr>) = (jobs, d1)"
    and p: "process_jobs w now provider send_sms m faults jobs d1 = (outs, d')"
    by (auto elim: processNotificationQueueE)
  from claimEligibleJobs_rewrite(1) [OF c] obtain g where g: "t_jobs d1 = map g (t_jobs d)"
    "\<And>j. job_core (g j) = job_core j" "\<And>j. nj_attemptCount (g j) = nj_attemptCount j"
    "\<And>j. nj_id j \<notin> nj_id ` set jobs \<and> nj_status j \<noteq> SENDING \<Longrightarrow> g j = j" by auto
  from process_jobs_rewrite [OF p] obtain h where jobs: "map fst outs = jobs" and h: "t_jobs d' = map h (t_jobs d1)"
    "\<forall>j. job_core (h j) = job_core j" "\<forall>j. nj_id j \<notin> nj_id ` set jobs \<longrightarrow> h j = j"
    "\<forall>k. (\<forall>j \<in> set jobs. nj_attemptCount j < k) \<longrightarrow> (\<forall>j. nj_attemptCount j \<le> k \<longrightarrow> nj_attemptCount (h j) \<le> k)"
    by blast
  from jobs have js: "fst ` set outs = set jobs" by (metis list.set_map)
  have kept: "nj_id (g j) = nj_id j" for j using g(2) [of j] by (simp add: job_core_def)
  show "\<exists>g. t_jobs d' = map g (t_jobs d) \<and> (\<forall>j. job_core (g j) = job_core j)
    \<and> (\<forall>j. nj_id j \<notin> nj_id ` fst ` set outs \<and> nj_status j \<noteq> SENDING \<longrightarrow> g j = j)
    \<and> (\<forall>j. nj_attemptCount j \<le> m \<longrightarrow> nj_attemptCount (g j) \<le> m)"
    unfolding js using g h kept claimEligibleJobs_rewrite(2) [OF c]
    by (intro exI [of _ "h \<circ> g"]) simp
  show "\<forall>job \<in> fst ` set outs. \<exists>j \<in> set (t_jobs d). nj_id job = nj_id j
           \<and> nj_status j \<in> {QUEUED, FAILED, SCHEDULED, SENDING} \<and> (case nj_sendAfter j of None \<Rightarrow> True | Some t \<Rightarrow> t \<le> now)"
    unfolding js using claimEligibleJobs_rewrite(3) [OF c] by (fastforce simp: job_core_def)
qed

text \<open>
  C31: a settled job is settled.  A job that is SENT, DELIVERED, CANCELLED or PERMANENT_FAILURE, or
  whose time has not come, is neither handed to the provider nor changed by a pass over the queue.
\<close>

theorem settled_jobs_stay_settled:
  assumes "processNotificationQueue w now provider send_sms limit maxRetries schoolId faults d = (outs, res, d')"
    and "distinct (map nj_id (t_jobs d))" "j \<in> set (t_jobs d)"
    and "nj_status j \<in> {SENT, DELIVERED, CANCELLED, PERMANENT_FAILURE}
         \<or> nj_status j \<noteq> SENDING \<and> (\<exists>t. nj_sendAfter j = Some t \<and> now < t)"
  shows "j \<in> set (t_jobs d') \<and> nj_id j \<notin> (\<lambda>(job, st, req). nj_id job) ` set outs"
proof -
  have not: "nj_id j \<notin> nj_id ` fst ` set outs"
  proof
    assume "nj_id j \<in> nj_id ` fst ` set outs"
    with queue_rewrite(2) [OF assms(1) refl] obtain i where i: "i \<in> set (t_jobs d)" "nj_id j = nj_id i"
      "nj_status i \<in> {QUEUED, FAILED, SCHEDULED, SENDING}" "case nj_sendAfter i of None \<Rightarrow> True | Some t \<Rightarrow> t \<le> now"
      by fastforce
    with assms(2,3) have "i = j" by (metis distinct_map inj_on_eq_iff)
    with i assms(4) show False by (auto split: option.splits)
  qed
  from queue_rewrite(1) [OF assms(1) refl] obtain g where "t_jobs d' = map g (t_jobs d)"
    "\<forall>j. nj_id j \<notin> nj_id ` fst ` set outs \<and> nj_status j \<noteq> SENDING \<longrightarrow> g j = j" by blast
  moreover from assms(4) have "nj_status j \<noteq> SENDING" by auto
  ultimately have "j \<in> set (t_jobs d')" using not assms(3) by (metis image_eqI list.set_map)
  with not show ?thesis by (auto simp: image_iff)
qed

section \<open>The life of the job table\<close>

text \<open>Everything the server does to notification jobs, the manual retry excepted.\<close>

datatype job_event =
    RunWorker string "sms_request \<Rightarrow> send_result" "nat option" "uuid option" "uuid \<Rightarrow> db_fault"
  | AnnounceAbsences uuid uuid
  | CorrectRecord uuid uuid uuid attendance_status attendance_status
  | Callback "string option" "string + callback_payload"

fun job_step :: "world \<Rightarrow> db \<Rightarrow> instant \<times> job_event \<Rightarrow> db" where
  "job_step w d (now, RunWorker provider send_sms limit schoolId faults) =
     snd (snd (processNotificationQueue w now provider send_sms limit None schoolId faults d))"
| "job_step w d (now, AnnounceAbsences schoolId sessionId) =
     (case createAbsenceNotificationJobs w now schoolId sessionId d of Inl _ \<Rightarrow> d | Inr (_, d') \<Rightarrow> d')"
| "job_step w d (now, CorrectRecord recordId schoolId studentId from_status to_status) =
     onAttendanceCorrected w now recordId schoolId studentId from_status to_status d"
| "job_step w d (now, Callback verification parsed) = snd (delivery_callback now verification parsed d)"

definition jobs_ok :: "db \<Rightarrow> bool" where
  "jobs_ok d \<longleftrightarrow> jobs_unique d \<and> (\<forall>j \<in> set (t_jobs d). nj_attemptCount j \<le> 3)"

lemma jobs_unique_map:
  assumes "jobs_unique d" "t_jobs d' = map g (t_jobs d)" "\<And>j. job_core (g j) = job_core j"
  shows "jobs_unique d'"
proof -
  have "job_conflict (g a) (g b) = job_conflict a b" for a b using job_core_conflict assms(3) by metis
  with assms(1,2) show ?thesis by (simp add: jobs_unique_def sorted_wrt_map)
qed

lemma jobs_ok_map:
  assumes "jobs_ok d" "t_jobs d' = map g (t_jobs d)" "\<And>j. job_core (g j) = job_core j"
    "\<And>j. nj_attemptCount j \<le> 3 \<Longrightarrow> nj_attemptCount (g j) \<le> 3"
  shows "jobs_ok d'"
  using assms jobs_unique_map [of d d' g] by (auto simp: jobs_ok_def)

lemma jobs_ok_insert: "jobs_ok d \<Longrightarrow> nj_attemptCount j \<le> 3 \<Longrightarrow> jobs_ok (snd (insert_job j d))"
  using insert_job_unique [of d j]
  by (cases "\<exists>x \<in> set (t_jobs d). job_conflict x j") (auto simp: jobs_ok_def insert_job_skip insert_job_add)

lemma jobs_ok_upd:
  assumes "jobs_ok d" "t_jobs d' = upd p f (t_jobs d)" "\<And>j. job_core (f j) = job_core j"
    "\<And>j. nj_attemptCount (f j) = nj_attemptCount j"
  shows "jobs_ok d'"
  using assms(3,4) by (intro jobs_ok_map [OF assms(1) assms(2) [unfolded upd_def]]) simp_all

lemma jobs_ok_callback: "jobs_ok d \<Longrightarrow> jobs_ok (snd (delivery_callback now v p d))"
  by (auto simp: delivery_callback_def Let_def add_attempt_def job_core_def
      split: option.splits sum.splits delivery_status.splits intro: jobs_ok_upd)

lemma jobs_ok_corrected: "jobs_ok d \<Longrightarrow> jobs_ok (onAttendanceCorrected w now rid sid st a b d)"
  by (auto simp: onAttendanceCorrected_def Let_def job_core_def correction_job_def new_job_def
      split: option.splits intro: jobs_ok_upd intro!: jobs_ok_insert)

lemma jobs_ok_announce:
  assumes "jobs_ok d" "createAbsenceNotificationJobs w now sid ses d = Inr (out, d')"
  shows "jobs_ok d'"
  using assms(2)
proof (cases rule: createAbsence_cases)
  case (created st n js s env settings)
  from create_jobs_facts [OF created(2)] obtain k where d': "t_jobs d' = t_jobs d @ js"
    and u: "jobs_unique d \<longrightarrow> jobs_unique d'" and a: "\<forall>j \<in> set js. \<exists>rec n. j = absence_job w now env rec n"
    by (fastforce simp: jobs_unique_def)
  have "nj_attemptCount j \<le> 3" if "j \<in> set js" for j
    using a that absence_job_key(8) by fastforce
  with assms(1) u d' show ?thesis by (auto simp: jobs_ok_def)
qed (use assms(1) in \<open>simp_all add: jobs_ok_def jobs_unique_def\<close>)

interpretation job_table: guarded_machine "job_step w" jobs_ok for w
proof
  fix d and ev :: "instant \<times> job_event" assume ok: "jobs_ok d"
  obtain now e where ev: "ev = (now, e)" by fastforce
  show "jobs_ok (job_step w d ev)"
  proof (cases e)
    case (RunWorker provider send_sms limit schoolId faults)
    obtain outs res d' where q: "processNotificationQueue w now provider send_sms limit None schoolId faults d = (outs, res, d')"
      by (metis prod_cases3)
    from queue_rewrite(1) [OF q refl] obtain g where "t_jobs d' = map g (t_jobs d)" "\<forall>j. job_core (g j) = job_core j"
      "\<forall>j. nj_attemptCount j \<le> 3 \<longrightarrow> nj_attemptCount (g j) \<le> 3" by auto
    with jobs_ok_map [OF ok, of d' g] have "jobs_ok d'" by simp
    with q RunWorker ev show ?thesis by simp
  qed (use ok in \<open>auto simp: ev jobs_ok_callback jobs_ok_corrected split: sum.splits intro: jobs_ok_announce\<close>)
qed

text \<open>
  C32: at most three attempts.  Whatever sequence of worker passes, finalizations, corrections and
  delivery callbacks runs, at whatever times and with whatever provider answers, no job ever counts
  more than three attempts and no two jobs of the table clash on a unique index.
\<close>

theorem attempts_stay_bounded:
  assumes "jobs_unique d" "\<forall>j \<in> set (t_jobs d). nj_attemptCount j \<le> 3"
  shows "(\<forall>j \<in> set (t_jobs (foldl (job_step w) d events)). nj_attemptCount j \<le> 3)
    \<and> jobs_unique (foldl (job_step w) d events)"
  using job_table.run_inv [of d w events] assms by (simp_all add: jobs_ok_def)

text \<open>
  What a manual retry is worth.  It applies to a job in any status, also one already sent, and
  counts as an attempt: afterwards the worker will take the job exactly when one more than its old
  count is still below the limit.  A job that failed for good after its last attempt is queued and
  never taken again.
\<close>

theorem retry_worth:
  assumes "retry_job now schoolId jobId d = (Some j', d')"
  shows "\<exists>j \<in> set (t_jobs d). nj_id j = jobId \<and> nj_schoolId j = schoolId \<and> nj_status j' = QUEUED \<and> j' \<in> set (t_jobs d')
    \<and> (\<forall>later limit. claimable later limit None j' \<longleftrightarrow>
          nj_attemptCount j + 1 < limit \<and> now \<le> later \<and> (case nj_sendAfter j of None \<Rightarrow> True | Some t \<Rightarrow> t \<le> later))"
proof -
  let ?p = "\<lambda>j. nj_id j = jobId \<and> nj_schoolId j = schoolId"
  let ?f = "\<lambda>j. j\<lparr>nj_status := QUEUED, nj_attemptCount := nj_attemptCount j + 1, nj_failureReason := None,
                  nj_nextAttemptAt := Some now\<rparr>"
  from assms have j': "sel1 ?p (upd ?p ?f (t_jobs d)) = Some j'" and d': "d' = d\<lparr>t_jobs := upd ?p ?f (t_jobs d)\<rparr>"
    by (simp_all add: retry_job_def Let_def)
  from j' have "map_option (\<lambda>r. if ?p r then ?f r else r) (sel1 ?p (t_jobs d)) = Some j'"
    by (subst (asm) sel1_upd_kept) simp_all
  then obtain j where j0: "sel1 ?p (t_jobs d) = Some j" "j' = (if ?p j then ?f j else j)" by auto
  with sel1_SomeD [OF j0(1)] have j: "sel1 ?p (t_jobs d) = Some j" "j' = ?f j" by simp_all
  from sel1_SomeD [OF j'] have "j' \<in> set (t_jobs d')" by (simp add: d')
  with sel1_SomeD [OF j(1)] j(2) show ?thesis by (intro bexI [of _ j]) (auto simp: claimable_def)
qed

section \<open>Examples\<close>

text \<open>The absence job of the example school, due, with a balance of three segments.\<close>

definition example_queue_db :: db where
  "example_queue_db = (snd (example_absence_jobs example_absence_db))
     \<lparr>t_jobs := map (\<lambda>j. j\<lparr>nj_messageBody := utext ''Hi''\<rparr>) (t_jobs (snd (example_absence_jobs example_absence_db))),
      t_smsSettings := [\<lparr>se_id = ''set'', se_schoolId = ''s'', se_smsEnabled = True,
        se_dltPrincipalEntityId = Some ''100'', se_dltHeader = Some ''SCH'', se_allowlistEnabled = False,
        se_allowlist = [], se_segmentBalance = Some 3, se_maxSegments = 4\<rparr>]\<rparr>"

definition example_pass :: "send_result \<Rightarrow> (job \<times> worker_outcome \<times> sms_request option) list \<times> queue_result \<times> db" where
  "example_pass answer = processNotificationQueue example_world 2000000 ''dlt'' (\<lambda>req. answer) None None None
     (\<lambda>i. NoFault) example_queue_db"

lemma example_pass_eq:
  "processNotificationQueue example_world 2000000 ''dlt'' (\<lambda>req. answer) None None None (\<lambda>i. NoFault) example_queue_db
     = (fst (example_pass answer), fst (snd (example_pass answer)), snd (snd (example_pass answer)))"
  by (simp add: example_pass_def)

theorem balance_pays_for_sent_witness:
  "balance (snd (snd (example_pass (SendOk (Some ''m''))))) ''s'' = Some 2
     \<and> balance (snd (snd (example_pass (SendThrows ''timeout'')))) ''s'' = Some 3"
proof -
  have "settings_unique example_queue_db" "balance example_queue_db ''s'' = Some 3" by code_simp+
  note b = balance_pays_for_sent [OF example_pass_eq this]
  have "spent ''s'' (fst (example_pass (SendOk (Some ''m'')))) = 1"
    "spent ''s'' (fst (example_pass (SendThrows ''timeout''))) = 0" by code_simp+
  with b [of "SendOk (Some ''m'')"] b [of "SendThrows ''timeout''"] show ?thesis by simp
qed

definition example_claimed_job :: job where
  "example_claimed_job = fst (hd (fst (example_pass (SendOk (Some ''m'')))))"

definition example_call_out :: "worker_outcome \<times> sms_request option \<times> db" where
  "example_call_out = processClaimedJob example_world 2000000 ''dlt'' (\<lambda>req. SendOk None) 3 example_claimed_job example_queue_db"

theorem sms_only_when_permitted_witness:
  "\<exists>req. processClaimedJob example_world 2000000 ''dlt'' (\<lambda>req. SendOk None) 3 example_claimed_job example_queue_db
     = (W_SENT, Some req, snd (snd example_call_out)) \<and> sq_to req = ''919000000001''"
proof -
  have "case example_call_out of (W_SENT, Some req, d) \<Rightarrow> True | _ \<Rightarrow> False" by code_simp
  then obtain req where r: "processClaimedJob example_world 2000000 ''dlt'' (\<lambda>req. SendOk None) 3 example_claimed_job example_queue_db
     = (W_SENT, Some req, snd (snd example_call_out))"
    unfolding example_call_out_def by (auto split: prod.splits worker_outcome.splits option.splits)
  have "nj_recipientPhone example_claimed_job = ''919000000001''" by code_simp
  with sms_only_when_permitted [OF r] r show ?thesis by auto
qed

theorem settled_jobs_stay_settled_witness:
  "set (t_jobs example_queue_db)
     \<subseteq> set (t_jobs (snd (snd (processNotificationQueue example_world 2000 ''dlt'' (\<lambda>req. SendOk None) None None None
       (\<lambda>i. NoFault) example_queue_db))))"
proof
  fix j assume j: "j \<in> set (t_jobs example_queue_db)"
  obtain outs res d' where q: "processNotificationQueue example_world 2000 ''dlt'' (\<lambda>req. SendOk None) None None None
       (\<lambda>i. NoFault) example_queue_db = (outs, res, d')" by (metis prod_cases3)
  have "distinct (map nj_id (t_jobs example_queue_db))" by code_simp
  moreover have "\<forall>j \<in> set (t_jobs example_queue_db). nj_status j = SCHEDULED \<and> nj_sendAfter j = Some 901000" by code_simp
  ultimately have "j \<in> set (t_jobs d')" using settled_jobs_stay_settled [OF q _ j] j by auto
  with q show "j \<in> set (t_jobs (snd (snd (processNotificationQueue example_world 2000 ''dlt'' (\<lambda>req. SendOk None) None None None
       (\<lambda>i. NoFault) example_queue_db))))" by simp
qed

theorem attempts_stay_bounded_witness:
  "list_all (\<lambda>j. nj_attemptCount j \<le> 3) (t_jobs (foldl (job_step example_world) example_queue_db
       [(2000000, RunWorker ''dlt'' (\<lambda>req. SendThrows ''x'') None None (\<lambda>i. NoFault)),
        (2000001, CorrectRecord ''rec-ana'' ''s'' ''ana'' ABSENT PRESENT)]))"
proof -
  have "jobs_unique example_queue_db" "\<forall>j \<in> set (t_jobs example_queue_db). nj_attemptCount j \<le> 3" by code_simp+
  from attempts_stay_bounded [OF this] show ?thesis unfolding list_all_iff by blast
qed

definition example_exhausted :: db where
  "example_exhausted = example_queue_db\<lparr>t_jobs :=
     map (\<lambda>j. j\<lparr>nj_id := ''j'', nj_status := PERMANENT_FAILURE, nj_attemptCount := 3\<rparr>) (t_jobs example_queue_db)\<rparr>"

theorem retry_worth_witness:
  "\<exists>j'. fst (retry_job 3000000 ''s'' ''j'' example_exhausted) = Some j' \<and> nj_status j' = QUEUED
     \<and> (\<forall>later. \<not> claimable later 3 None j')"
proof -
  have c: "case fst (retry_job 3000000 ''s'' ''j'' example_exhausted) of None \<Rightarrow> False | Some j' \<Rightarrow> True" by code_simp
  then obtain j' d' where r: "retry_job 3000000 ''s'' ''j'' example_exhausted = (Some j', d')"
    by (cases "retry_job 3000000 ''s'' ''j'' example_exhausted") (auto split: option.splits)
  have "\<forall>j \<in> set (t_jobs example_exhausted). nj_attemptCount j = 3" by code_simp
  with retry_worth [OF r] r show ?thesis by fastforce
qed

end
