(* ===== verification/Audit_Entry.thy ===== *)
theory Audit_Entry
  imports Schema
begin

text \<open>
  Models src/src/services/auditLogService.ts: the audit entry every state-changing service writes and
  the redaction of its metadata.  Whether the insert runs in the caller's transaction or in one of its
  own makes no difference to the sequential model; IP address and user agent are not kept.
\<close>

definition sensitiveKeys :: "string list" where
  "sensitiveKeys = [''password'', ''passwordHash'', ''token'', ''sessionToken'', ''qrDigest'', ''secret'']"

text \<open>\<open>s.includes(sub)\<close>\<close>

fun js_includes :: "string \<Rightarrow> string \<Rightarrow> bool" where
  "js_includes [] sub = (sub = [])"
| "js_includes (c # s) sub = (take (length sub) (c # s) = sub \<or> js_includes s sub)"

definition sanitize_entry :: "string \<times> json \<Rightarrow> string \<times> json" where
  "sanitize_entry = (\<lambda>(key, v).
     if list_ex (js_includes (to_lower key)) sensitiveKeys then (key, JStr ''[REDACTED]'')
     else if js_includes (to_lower key) ''phone'' then
       (key, (case v of JStr p \<Rightarrow> if 10 \<le> length p then JStr (take 3 p @ ''******'' @ slice_last 4 p) else v | _ \<Rightarrow> v))
     else (key, v))"

definition sanitizeMetadata :: "json \<Rightarrow> json" where
  "sanitizeMetadata data = (case data of JObj kvs \<Rightarrow> JObj (map sanitize_entry kvs) | _ \<Rightarrow> data)"

text \<open>The empty string is falsy: \<open>params.schoolId || null\<close>.\<close>

definition createAuditLog :: "uuid \<Rightarrow> uuid \<Rightarrow> string \<Rightarrow> string \<Rightarrow> string \<Rightarrow> json \<Rightarrow> db \<Rightarrow> db" where
  "createAuditLog schoolId actorId action resourceType resourceId metadata d =
     d\<lparr>t_audit := t_audit d @ [\<lparr>au_schoolId = js_or (Some schoolId) None, au_actorId = js_or (Some actorId) None,
        au_action = action, au_resourceType = resourceType, au_resourceId = js_or (Some resourceId) None,
        au_metadata = sanitizeMetadata metadata\<rparr>]\<rparr>"

lemma createAuditLog_frame [frame_simps]:
  "t_sessions (createAuditLog s a x rt ri m d) = t_sessions d"
  "t_records (createAuditLog s a x rt ri m d) = t_records d"
  "t_events (createAuditLog s a x rt ri m d) = t_events d"
  "t_roster (createAuditLog s a x rt ri m d) = t_roster d"
  "t_corrections (createAuditLog s a x rt ri m d) = t_corrections d"
  "t_jobs (createAuditLog s a x rt ri m d) = t_jobs d"
  "t_credentials (createAuditLog s a x rt ri m d) = t_credentials d"
  "t_students (createAuditLog s a x rt ri m d) = t_students d"
  "t_readers (createAuditLog s a x rt ri m d) = t_readers d"
  "t_classSections (createAuditLog s a x rt ri m d) = t_classSections d"
  "t_teacherAssignments (createAuditLog s a x rt ri m d) = t_teacherAssignments d"
  "seq (createAuditLog s a x rt ri m d) = seq d"
  by (simp_all add: createAuditLog_def)

text \<open>
  The audit log keeps no passwords, tokens or secrets.  Of the metadata of an entry every value
  whose key contains one of these words in any case is replaced, a phone number of at least ten
  digits keeps only its first three and last four, and nothing else changes.  The sensitive words
  written in camel case never match: a key qrDigest goes through unchanged.
\<close>

theorem audit_redacts:
  assumes "sanitizeMetadata (JObj kvs) = JObj kvs'"
  shows "map fst kvs' = map fst kvs
    \<and> (\<forall>(key, v) \<in> set kvs'. (\<exists>s \<in> {''password'', ''token'', ''secret''}. js_includes (to_lower key) s) \<longrightarrow> v = JStr ''[REDACTED]'')
    \<and> (\<forall>v. (''qrDigest'', v) \<in> set kvs \<longrightarrow> (''qrDigest'', v) \<in> set kvs')"
proof (intro conjI)
  have kvs': "kvs' = map sanitize_entry kvs" using assms by (simp add: sanitizeMetadata_def)
  have fst: "fst (sanitize_entry p) = fst p" for p by (simp add: sanitize_entry_def split: prod.split)
  show "map fst kvs' = map fst kvs" by (simp add: kvs' fst)
  have red: "snd (sanitize_entry p) = JStr ''[REDACTED]''"
    if "s \<in> {''password'', ''token'', ''secret''}" "js_includes (to_lower (fst p)) s" for p s
    using that by (auto simp: sanitize_entry_def sensitiveKeys_def split: prod.split)
  show "\<forall>(key, v) \<in> set kvs'. (\<exists>s \<in> {''password'', ''token'', ''secret''}. js_includes (to_lower key) s) \<longrightarrow> v = JStr ''[REDACTED]''"
  proof (rule ballI, clarify del: insertE)
    fix key v s assume kv: "(key, v) \<in> set kvs'" and s: "s \<in> {''password'', ''token'', ''secret''}" "js_includes (to_lower key) s"
    from kv obtain p where p: "(key, v) = sanitize_entry p" by (auto simp: kvs')
    then have "key = fst p" using fst [of p] by (metis fst_conv)
    with red [OF s(1), of p] s(2) p show "v = JStr ''[REDACTED]''" by (metis snd_conv)
  qed
  have "\<not> list_ex (js_includes (to_lower ''qrDigest'')) sensitiveKeys" "\<not> js_includes (to_lower ''qrDigest'') ''phone''" by code_simp+
  then have qr: "sanitize_entry (''qrDigest'', v) = (''qrDigest'', v)" for v by (simp add: sanitize_entry_def)
  show "\<forall>v. (''qrDigest'', v) \<in> set kvs \<longrightarrow> (''qrDigest'', v) \<in> set kvs'"
  proof (intro allI impI)
    fix v assume "(''qrDigest'', v) \<in> set kvs"
    then have "sanitize_entry (''qrDigest'', v) \<in> sanitize_entry ` set kvs" by (rule imageI)
    then show "(''qrDigest'', v) \<in> set kvs'" unfolding kvs' qr set_map .
  qed
qed

theorem audit_redacts_witness:
  "sanitizeMetadata (JObj [(''SessionToken'', JStr ''abc''), (''qrDigest'', JStr ''d'')])
     = JObj [(''SessionToken'', JStr ''[REDACTED]''), (''qrDigest'', JStr ''d'')]"
proof -
  obtain kvs' where k: "sanitizeMetadata (JObj [(''SessionToken'', JStr ''abc''), (''qrDigest'', JStr ''d'')]) = JObj kvs'"
    by (simp add: sanitizeMetadata_def)
  note a = audit_redacts [OF k]
  then obtain v v' where e: "kvs' = [(''SessionToken'', v), (''qrDigest'', v')]" by (auto simp: map_eq_Cons_conv)
  have "js_includes (to_lower ''SessionToken'') ''token''" by code_simp
  with a e have "v = JStr ''[REDACTED]''" by auto
  moreover from a e have "v' = JStr ''d''" by auto
  ultimately show ?thesis by (simp add: k e)
qed

end
