(* ===== verification/Attendance.thy ===== *)
theory Attendance
  imports Audit_Entry Ingest_Write Notification
begin

text \<open>
  Models src/src/services/attendanceService.ts and src/src/services/sessionReconciler.ts: opening a
  session with its roster snapshot, the state machine of sessions with finalization, the scan of a QR
  code, the manual change of a status, and the views of a session and of the day.  A service call
  runs inside the transaction of its request.  An error (\<open>Inl\<close>) leaves the database as it was: every
  error the code throws itself precedes the first write of the call or is raised inside a savepoint,
  and an error of the database outside one aborts the transaction.  \<open>now\<close> is the time of every
  \<open>new Date()\<close> of a call, and a random suffix is taken from the supply of identifiers.
\<close>

section \<open>Authorization\<close>

definition verifyTeacherAssignment :: "db \<Rightarrow> uuid \<Rightarrow> uuid \<Rightarrow> uuid \<Rightarrow> string \<Rightarrow> unit result" where
  "verifyTeacherAssignment d schoolId classSectionId actorId userRole =
     (if userRole \<in> {''SUPER_ADMIN'', ''SCHOOL_ADMIN'', ''SYSTEM''} then Inr ()
      else throw_if (sel1 (\<lambda>t. ta_schoolId t = schoolId \<and> ta_teacherId t = actorId
                             \<and> ta_classSectionId t = classSectionId) (t_teacherAssignments d) = None)
             (JsErr ''UNAUTHORIZED_TEACHER_NOT_ASSIGNED''))"

definition getTeacherAssignedClasses :: "db \<Rightarrow> uuid \<Rightarrow> uuid \<Rightarrow> string \<Rightarrow> class_section list" where
  "getTeacherAssignedClasses d schoolId teacherId userRole =
     (if userRole \<in> {''SUPER_ADMIN'', ''SCHOOL_ADMIN''}
      then filter (\<lambda>c. cs_schoolId c = schoolId) (t_classSections d)
      else concat (map (\<lambda>t. filter (\<lambda>c. cs_id c = ta_classSectionId t) (t_classSections d))
             (filter (\<lambda>t. ta_schoolId t = schoolId \<and> ta_teacherId t = teacherId) (t_teacherAssignments d))))"

section \<open>Views of a session\<close>

record roster_view =
  rv_rosterId :: uuid
  rv_studentId :: uuid
  rv_rollNumber :: int
  rv_studentName :: ustring
  rv_studentNameBn :: "ustring option"
  rv_studentCode :: ustring
  rv_photoUrl :: "string option"
  rv_recordId :: "uuid option"
  rv_status :: "attendance_status option"
  rv_firstScannedAt :: "instant option"
  rv_lastUpdatedAt :: "instant option"

record session_stats =
  ss_total :: nat
  ss_present :: nat
  ss_late :: nat
  ss_absent :: nat
  ss_excused :: nat
  ss_leave :: nat
  ss_unmarked :: nat

record session_details =
  sd_session :: att_session
  sd_className :: ustring
  sd_sectionName :: ustring
  sd_roster :: "roster_view list"
  sd_stats :: session_stats

text \<open>The roster of the session joined with the students and, on the left, with the records.\<close>

definition view_rows :: "uuid \<Rightarrow> att_record list \<Rightarrow> roster_row \<Rightarrow> student \<Rightarrow> roster_view list" where
  "view_rows sessionId records ro st =
     (let base = \<lparr>rv_rosterId = ro_id ro, rv_studentId = ro_studentId ro, rv_rollNumber = ro_rollNumber ro,
                  rv_studentName = ro_studentName ro, rv_studentNameBn = st_nameBn st, rv_studentCode = st_studentCode st,
                  rv_photoUrl = st_photoUrl st, rv_recordId = None, rv_status = None, rv_firstScannedAt = None,
                  rv_lastUpdatedAt = None\<rparr>;
          hits = filter (\<lambda>r. ar_sessionId r = sessionId \<and> ar_studentId r = ro_studentId ro) records
      in if hits = [] then [base]
         else map (\<lambda>r. base\<lparr>rv_recordId := Some (ar_id r), rv_status := Some (ar_status r),
                           rv_firstScannedAt := ar_firstScannedAt r, rv_lastUpdatedAt := Some (ar_lastUpdatedAt r)\<rparr>) hits)"

definition session_roster :: "db \<Rightarrow> uuid \<Rightarrow> roster_view list" where
  "session_roster d sessionId =
     sort_key rv_rollNumber (concat (map (\<lambda>ro. concat (map (view_rows sessionId (t_records d) ro)
         (filter (\<lambda>s. st_id s = ro_studentId ro) (t_students d))))
       (filter (\<lambda>ro. ro_sessionId ro = sessionId) (t_roster d))))"

definition session_stats_of :: "roster_view list \<Rightarrow> session_stats" where
  "session_stats_of rows =
     (let count = (\<lambda>st. length (filter (\<lambda>r. rv_status r = Some st) rows)) in
      \<lparr>ss_total = length rows, ss_present = count PRESENT, ss_late = count LATE, ss_absent = count ABSENT,
       ss_excused = count EXCUSED, ss_leave = count LEAVE,
       ss_unmarked = length (filter (\<lambda>r. rv_status r \<in> {None, Some UNMARKED}) rows)\<rparr>)"

text \<open>
  The session row is returned whole; the code leaves out its time of update.  A session whose section is
  missing is not found, as in the inner join.
\<close>

definition getAttendanceSessionDetails ::
  "uuid \<Rightarrow> uuid \<Rightarrow> (uuid \<times> string) option \<Rightarrow> db \<Rightarrow> session_details option result" where
  "getAttendanceSessionDetails schoolId sessionId actor d =
     (case sel1 (\<lambda>s. as_schoolId s = schoolId \<and> as_id s = sessionId
                   \<and> (\<exists>c \<in> set (t_classSections d). cs_id c = as_classSectionId s)) (t_sessions d) of
        None \<Rightarrow> Inr None
      | Some s \<Rightarrow>
          bind_result (case actor of None \<Rightarrow> Inr ()
            | Some (actorId, role) \<Rightarrow> if actorId = [] \<or> role = [] then Inr ()
                else verifyTeacherAssignment d schoolId (as_classSectionId s) actorId role)
          (\<lambda>_. let rows = session_roster d sessionId;
                    sec = the (sel1 (\<lambda>c. cs_id c = as_classSectionId s) (t_classSections d)) in
               Inr (Some \<lparr>sd_session = s, sd_className = cs_className sec, sd_sectionName = cs_sectionName sec,
                          sd_roster = rows, sd_stats = session_stats_of rows\<rparr>)))"

definition getDailyClassReport :: "uuid \<Rightarrow> uuid \<Rightarrow> string \<Rightarrow> db \<Rightarrow> session_details option result" where
  "getDailyClassReport schoolId classSectionId sessionDate d =
     (case sel1 (\<lambda>s. as_schoolId s = schoolId \<and> as_classSectionId s = classSectionId \<and> as_sessionDate s = sessionDate)
             (t_sessions d) of
        None \<Rightarrow> Inr None
      | Some s \<Rightarrow> getAttendanceSessionDetails schoolId (as_id s) None d)"

section \<open>Opening a session\<close>

text \<open>A record with the column defaults: capture method QR, source RFID.\<close>

definition new_record :: "uuid \<Rightarrow> uuid \<Rightarrow> uuid \<Rightarrow> uuid \<Rightarrow> attendance_status \<Rightarrow> instant \<Rightarrow> att_record" where
  "new_record rid schoolId sessionId studentId status now =
     \<lparr>ar_id = rid, ar_schoolId = schoolId, ar_sessionId = sessionId, ar_studentId = studentId, ar_status = status,
      ar_firstScannedAt = None, ar_lastUpdatedAt = now, ar_hasConflict = False, ar_captureMethod = ''QR'',
      ar_source = Some ''RFID'', ar_firstSeenAt = None, ar_lastSeenAt = None, ar_needsReview = False,
      ar_reviewReason = None\<rparr>"

text \<open>INSERT of one record: the unique index on session and student.\<close>

definition insert_record :: "att_record \<Rightarrow> db \<Rightarrow> db result" where
  "insert_record r d =
     (if \<exists>x \<in> set (t_records d). ar_sessionId x = ar_sessionId r \<and> ar_studentId x = ar_studentId r
      then Inl (DbErr ''attendance_records_unique_idx'')
      else Inr (d\<lparr>t_records := t_records d @ [r], seq := Suc (seq d)\<rparr>))"

definition insert_roster :: "roster_row \<Rightarrow> db \<Rightarrow> db result" where
  "insert_roster r d =
     (if \<exists>x \<in> set (t_roster d). ro_sessionId x = ro_sessionId r \<and> ro_studentId x = ro_studentId r
      then Inl (DbErr ''roster_session_student_idx'')
      else Inr (d\<lparr>t_roster := t_roster d @ [r], seq := Suc (seq d)\<rparr>))"

text \<open>The active enrolments of a section joined with their active students.\<close>

definition activeEnrollments :: "db \<Rightarrow> uuid \<Rightarrow> uuid \<Rightarrow> (enrollment \<times> student) list" where
  "activeEnrollments d schoolId classSectionId =
     concat (map (\<lambda>e. map (\<lambda>s. (e, s)) (filter (\<lambda>s. st_id s = en_studentId e \<and> st_status s = ''ACTIVE'') (t_students d)))
       (filter (\<lambda>e. en_schoolId e = schoolId \<and> en_classSectionId e = classSectionId \<and> en_status e = ''ACTIVE'')
         (t_enrollments d)))"

fun snapshot_roster :: "world \<Rightarrow> uuid \<Rightarrow> uuid \<Rightarrow> (enrollment \<times> student) list \<Rightarrow> db \<Rightarrow> db result" where
  "snapshot_roster w schoolId sessionId [] d = Inr d"
| "snapshot_roster w schoolId sessionId ((e, s) # rest) d =
     bind_result (insert_roster \<lparr>ro_id = gen_uuid w (seq d), ro_schoolId = schoolId, ro_sessionId = sessionId,
          ro_studentId = st_id s, ro_enrollmentId = en_id e, ro_rollNumber = en_rollNumber e,
          ro_studentName = st_name s, ro_isExpected = True\<rparr> d)
       (snapshot_roster w schoolId sessionId rest)"

fun init_records :: "world \<Rightarrow> instant \<Rightarrow> uuid \<Rightarrow> uuid \<Rightarrow> (enrollment \<times> student) list \<Rightarrow> db \<Rightarrow> db result" where
  "init_records w now schoolId sessionId [] d = Inr d"
| "init_records w now schoolId sessionId ((e, s) # rest) d =
     bind_result (insert_record (new_record (gen_uuid w (seq d)) schoolId sessionId (st_id s) UNMARKED now) d)
       (init_records w now schoolId sessionId rest)"

definition new_session :: "uuid \<Rightarrow> uuid \<Rightarrow> uuid \<Rightarrow> uuid \<Rightarrow> string \<Rightarrow> string \<Rightarrow> instant \<Rightarrow> att_session" where
  "new_session sid schoolId classSectionId teacherId sessionDate sessionType now =
     \<lparr>as_id = sid, as_schoolId = schoolId, as_classSectionId = classSectionId, as_teacherId = teacherId,
      as_sessionDate = sessionDate, as_sessionType = sessionType, as_status = OPEN, as_finalizedAt = None,
      as_finalizedBy = None, as_updatedAt = now, as_clientSessionId = None\<rparr>"

definition createAttendanceSession ::
  "world \<Rightarrow> instant \<Rightarrow> uuid \<Rightarrow> uuid \<Rightarrow> uuid \<Rightarrow> string \<Rightarrow> string \<Rightarrow> uuid \<Rightarrow> string \<Rightarrow> db
     \<Rightarrow> (att_session \<times> session_details option \<times> bool \<times> db) result" where
  "createAttendanceSession w now schoolId classSectionId teacherId sessionDate sessionType actorId userRole d =
     bind_result (verifyTeacherAssignment d schoolId classSectionId actorId userRole) (\<lambda>_.
     case sel1 (\<lambda>s. as_schoolId s = schoolId \<and> as_classSectionId s = classSectionId \<and> as_sessionDate s = sessionDate
                  \<and> as_sessionType s = sessionType) (t_sessions d) of
       Some existing \<Rightarrow>
         bind_result (getAttendanceSessionDetails schoolId (as_id existing) (Some (actorId, userRole)) d)
           (\<lambda>det. Inr (existing, det, False, d))
     | None \<Rightarrow>
         let s = new_session (gen_uuid w (seq d)) schoolId classSectionId teacherId sessionDate sessionType now;
             d1 = d\<lparr>t_sessions := t_sessions d @ [s], seq := Suc (seq d)\<rparr>;
             active = activeEnrollments d schoolId classSectionId
         in bind_result (snapshot_roster w schoolId (as_id s) active d1) (\<lambda>d2.
            bind_result (init_records w now schoolId (as_id s) active d2) (\<lambda>d3.
            let d4 = createAuditLog schoolId actorId ''CREATE_ATTENDANCE_SESSION'' ''ATTENDANCE_SESSION'' (as_id s)
                       (JObj [(''classSectionId'', JStr classSectionId), (''sessionDate'', JStr sessionDate),
                              (''sessionType'', JStr sessionType)]) d3
            in bind_result (getAttendanceSessionDetails schoolId (as_id s) None d4)
                 (\<lambda>det. Inr (s, det, True, d4)))))"

section \<open>The state machine of sessions\<close>

fun status_name :: "session_status \<Rightarrow> string" where
  "status_name DRAFT = ''DRAFT''" | "status_name OPEN = ''OPEN''" | "status_name REVIEW = ''REVIEW''"
| "status_name FINALIZED = ''FINALIZED''" | "status_name REOPENED = ''REOPENED''" | "status_name (OtherStatus s) = s"

definition is_unmarked :: "uuid \<Rightarrow> uuid \<Rightarrow> att_record \<Rightarrow> bool" where
  "is_unmarked schoolId sessionId r \<longleftrightarrow> ar_schoolId r = schoolId \<and> ar_sessionId r = sessionId \<and> ar_status r = UNMARKED"

definition auto_absent_event :: "world \<Rightarrow> instant \<Rightarrow> uuid \<Rightarrow> uuid \<Rightarrow> uuid \<Rightarrow> uuid \<Rightarrow> nat \<Rightarrow> att_event" where
  "auto_absent_event w now schoolId sessionId studentId actorId n =
     \<lparr>ev_id = gen_uuid w n, ev_schoolId = schoolId,
      ev_clientEventId = ''auto-absent-'' @ sessionId @ ''-'' @ studentId @ ''-'' @ show_int now @ ''-'' @ gen_uuid w (Suc n),
      ev_sessionId = sessionId, ev_studentId = studentId, ev_eventType = ''FINALIZATION_AUTO_ABSENT'',
      ev_statusValue = ABSENT, ev_clientTimestamp = now, ev_serverReceivedAt = now, ev_deviceId = None,
      ev_actorType = (if actorId = [] then ''SYSTEM'' else ''USER''), ev_actorId = Some actorId, ev_actorReaderId = None,
      ev_metadata = JObj [(''note'', JStr ''Auto-marked ABSENT upon session finalization'')],
      ev_captureMethod = ''QR'', ev_sourceReaderId = None\<rparr>"

fun insert_auto_absent :: "world \<Rightarrow> instant \<Rightarrow> uuid \<Rightarrow> uuid \<Rightarrow> uuid \<Rightarrow> att_record list \<Rightarrow> db \<Rightarrow> db result" where
  "insert_auto_absent w now schoolId sessionId actorId [] d = Inr d"
| "insert_auto_absent w now schoolId sessionId actorId (r # rs) d =
     bind_result (insert_event (auto_absent_event w now schoolId sessionId (ar_studentId r) actorId (seq d))
                    (d\<lparr>seq := Suc (Suc (seq d))\<rparr>))
       (insert_auto_absent w now schoolId sessionId actorId rs)"

definition auto_absent :: "world \<Rightarrow> instant \<Rightarrow> uuid \<Rightarrow> uuid \<Rightarrow> uuid \<Rightarrow> db \<Rightarrow> db result" where
  "auto_absent w now schoolId sessionId actorId d =
     (let unmarked = filter (is_unmarked schoolId sessionId) (t_records d) in
      if unmarked = [] then Inr d
      else bind_result (insert_auto_absent w now schoolId sessionId actorId unmarked d) (\<lambda>d1.
        Inr (d1\<lparr>t_records := upd (\<lambda>r. ar_id r \<in> ar_id ` set unmarked)
               (\<lambda>r. r\<lparr>ar_status := ABSENT, ar_lastUpdatedAt := now\<rparr>) (t_records d1)\<rparr>)))"

text \<open>The guards of the state machine, in the order of the code.\<close>

definition transition_guard :: "session_status \<Rightarrow> session_status \<Rightarrow> string \<Rightarrow> string option \<Rightarrow> unit result" where
  "transition_guard current new userRole reason =
     bind_result (throw_if (current = FINALIZED \<and> new \<noteq> REOPENED) (JsErr ''FINALIZED_SESSION_LOCKED'')) (\<lambda>_.
     if new = REOPENED then
       bind_result (throw_if (userRole \<notin> {''SUPER_ADMIN'', ''SCHOOL_ADMIN''}) (JsErr ''REOPEN_REQUIRES_ADMIN_ROLE'')) (\<lambda>_.
       throw_if (case reason of None \<Rightarrow> True | Some r \<Rightarrow> js_trim r = []) (JsErr ''REOPEN_REASON_REQUIRED''))
     else Inr ())"

definition set_status :: "session_status \<Rightarrow> instant \<Rightarrow> uuid \<Rightarrow> att_session \<Rightarrow> att_session" where
  "set_status new now actorId s =
     (let s1 = s\<lparr>as_status := new, as_updatedAt := now\<rparr> in
      if new = FINALIZED then s1\<lparr>as_finalizedAt := Some now, as_finalizedBy := Some actorId\<rparr> else s1)"

definition updateSessionStatus ::
  "world \<Rightarrow> instant \<Rightarrow> uuid \<Rightarrow> uuid \<Rightarrow> uuid \<Rightarrow> string \<Rightarrow> session_status \<Rightarrow> string option \<Rightarrow> bool \<Rightarrow> db
     \<Rightarrow> (att_session \<times> db) result" where
  "updateSessionStatus w now schoolId sessionId actorId userRole newStatus reason autoMarkAbsent d =
     (case sel1 (\<lambda>s. as_schoolId s = schoolId \<and> as_id s = sessionId) (t_sessions d) of
        None \<Rightarrow> Inl (JsErr ''SESSION_NOT_FOUND'')
      | Some s \<Rightarrow>
          bind_result (verifyTeacherAssignment d schoolId (as_classSectionId s) actorId userRole) (\<lambda>_.
          bind_result (transition_guard (as_status s) newStatus userRole reason) (\<lambda>_.
          bind_result (if newStatus = FINALIZED \<and> autoMarkAbsent then auto_absent w now schoolId sessionId actorId d else Inr d) (\<lambda>d1.
          let d2 = d1\<lparr>t_sessions := upd (\<lambda>s. as_schoolId s = schoolId \<and> as_id s = sessionId)
                       (set_status newStatus now actorId) (t_sessions d1)\<rparr>;
              d3 = createAuditLog schoolId actorId (''SESSION_STATUS_'' @ status_name newStatus) ''ATTENDANCE_SESSION'' sessionId
                     (JObj ([(''previousStatus'', JStr (status_name (as_status s))), (''newStatus'', JStr (status_name newStatus))]
                            @ (case reason of None \<Rightarrow> [] | Some r \<Rightarrow> [(''reason'', JStr r)]))) d2
          in if newStatus = FINALIZED
             then bind_result (createAbsenceNotificationJobs w now schoolId sessionId d3)
                    (\<lambda>(_, d4). Inr (set_status newStatus now actorId s, d4))
             else Inr (set_status newStatus now actorId s, d3)))))"

definition finalizeAttendanceSession ::
  "world \<Rightarrow> instant \<Rightarrow> uuid \<Rightarrow> uuid \<Rightarrow> uuid \<Rightarrow> string \<Rightarrow> string option \<Rightarrow> bool \<Rightarrow> db \<Rightarrow> (att_session \<times> db) result" where
  "finalizeAttendanceSession w now schoolId sessionId actorId userRole reason autoMarkAbsent d =
     updateSessionStatus w now schoolId sessionId actorId userRole FINALIZED reason autoMarkAbsent d"

end
