(* ===== verification/Attendance_Scan.thy ===== *)
theory Attendance_Scan
  imports Attendance
begin

text \<open>
  The rest of src/src/services/attendanceService.ts (\<open>processQRCode\<close>, \<open>manualStatusUpdate\<close>,
  \<open>getTodayGateAttendance\<close>) and src/src/services/sessionReconciler.ts.
\<close>

section \<open>Scanning a QR code\<close>

datatype scan_source = CAMERA | USB | MANUAL

fun source_name :: "scan_source \<Rightarrow> string" where
  "source_name CAMERA = ''CAMERA''" | "source_name USB = ''USB''" | "source_name MANUAL = ''MANUAL''"

record scan_request =
  sr_actorId :: uuid
  sr_userRole :: string
  sr_clientEventId :: string
  sr_rawToken :: "string option"
  sr_studentId :: "uuid option"
  sr_statusValue :: attendance_status
  sr_clientTimestamp :: string
  sr_deviceId :: "uuid option"
  sr_source :: scan_source
  sr_metadata :: "(string \<times> json) list"

datatype scan_result =
    ScanReplayed att_event "att_record option" "student option"
  | ScanDuplicate att_record student int
  | ScanRecorded att_record student int

text \<open>\<open>clientTimestamp ? new Date(clientTimestamp) : new Date()\<close>, stored in a timestamp column.\<close>

definition client_time :: "world \<Rightarrow> instant \<Rightarrow> string \<Rightarrow> instant result" where
  "client_time w now s =
     (if s = [] then Inr now
      else case date_parse w s of None \<Rightarrow> Inl (JsErr ''Invalid time value'') | Some t \<Rightarrow> Inr t)"

definition scan_event_row ::
  "world \<Rightarrow> instant \<Rightarrow> instant \<Rightarrow> uuid \<Rightarrow> uuid \<Rightarrow> uuid \<Rightarrow> scan_request \<Rightarrow> string \<Rightarrow> attendance_status \<Rightarrow> json \<Rightarrow> nat \<Rightarrow> att_event" where
  "scan_event_row w now clientTs schoolId sessionId studentId rq eventType status metadata n =
     \<lparr>ev_id = gen_uuid w n, ev_schoolId = schoolId, ev_clientEventId = sr_clientEventId rq, ev_sessionId = sessionId,
      ev_studentId = studentId, ev_eventType = eventType, ev_statusValue = status, ev_clientTimestamp = clientTs,
      ev_serverReceivedAt = now, ev_deviceId = js_or (sr_deviceId rq) None, ev_actorType = ''USER'',
      ev_actorId = Some (sr_actorId rq), ev_actorReaderId = None, ev_metadata = metadata, ev_captureMethod = ''QR'',
      ev_sourceReaderId = None\<rparr>"

text \<open>Steps 3 of the code: the student the proof stands for.\<close>

definition resolve_student :: "world \<Rightarrow> uuid \<Rightarrow> scan_request \<Rightarrow> db \<Rightarrow> uuid result" where
  "resolve_student w schoolId rq d =
     bind_result (throw_if (\<not> truthy (sr_rawToken rq) \<and> sr_source rq \<noteq> MANUAL) (JsErr ''MISSING_QR_PROOF'')) (\<lambda>_.
     bind_result
       (if truthy (sr_rawToken rq) then
          (case sel1 (\<lambda>q. qr_tokenDigest q = sha256 w (the (sr_rawToken rq))) (t_qrCredentials d) of
             None \<Rightarrow> Inl (JsErr ''INVALID_QR_TOKEN'')
           | Some q \<Rightarrow>
               if qr_schoolId q \<noteq> schoolId then Inl (JsErr ''WRONG_SCHOOL_QR'')
               else if qr_status q = ''REVOKED'' then Inl (JsErr ''REVOKED_QR_TOKEN'')
               else Inr (Some (qr_studentId q)))
        else Inr (sr_studentId rq))
       (\<lambda>target. if truthy target then Inr (the target) else Inl (JsErr ''MISSING_STUDENT_IDENTIFIER'')))"

definition record_of :: "db \<Rightarrow> uuid \<Rightarrow> uuid \<Rightarrow> uuid \<Rightarrow> att_record option" where
  "record_of d schoolId sessionId studentId =
     sel1 (\<lambda>r. ar_schoolId r = schoolId \<and> ar_sessionId r = sessionId \<and> ar_studentId r = studentId) (t_records d)"

text \<open>Step 6: the event and the projected record, in one (nested) transaction.\<close>

definition record_scan ::
  "world \<Rightarrow> instant \<Rightarrow> uuid \<Rightarrow> uuid \<Rightarrow> uuid \<Rightarrow> scan_request \<Rightarrow> db \<Rightarrow> (att_record \<times> db) result" where
  "record_scan w now schoolId sessionId studentId rq d =
     bind_result (client_time w now (sr_clientTimestamp rq)) (\<lambda>clientTs.
     bind_result (insert_event (scan_event_row w now clientTs schoolId sessionId studentId rq
         (if sr_source rq = USB then ''USB_BARCODE_SCANNED'' else ''QR_SCANNED'') (sr_statusValue rq)
         (JObj (js_map ((''source'', JStr (source_name (sr_source rq))) # sr_metadata rq))) (seq d))
         (d\<lparr>seq := Suc (seq d)\<rparr>)) (\<lambda>d1.
     case record_of d schoolId sessionId studentId of
       Some r \<Rightarrow>
         let f = (\<lambda>x. x\<lparr>ar_status := sr_statusValue rq, ar_firstScannedAt := nullish (ar_firstScannedAt r) (Some now),
                        ar_lastUpdatedAt := now\<rparr>);
             d2 = d1\<lparr>t_records := upd (\<lambda>x. ar_id x = ar_id r) f (t_records d1)\<rparr>
         in Inr (f r, if ar_status r \<noteq> sr_statusValue rq
                      then onAttendanceCorrected w now (ar_id r) schoolId studentId (ar_status r) (sr_statusValue rq) d2
                      else d2)
     | None \<Rightarrow>
         let r = (new_record (gen_uuid w (seq d1)) schoolId sessionId studentId (sr_statusValue rq) now)
                   \<lparr>ar_firstScannedAt := Some now\<rparr>
         in bind_result (insert_record r d1) (\<lambda>d2. Inr (r, d2))))"

definition duplicate_scan ::
  "world \<Rightarrow> instant \<Rightarrow> uuid \<Rightarrow> uuid \<Rightarrow> uuid \<Rightarrow> scan_request \<Rightarrow> att_record \<Rightarrow> db \<Rightarrow> db result" where
  "duplicate_scan w now schoolId sessionId studentId rq r d =
     bind_result (client_time w now (sr_clientTimestamp rq)) (\<lambda>clientTs.
     insert_event (scan_event_row w now clientTs schoolId sessionId studentId rq ''DUPLICATE_QR_SCANNED'' (ar_status r)
       (JObj [(''source'', JStr (source_name (sr_source rq))),
              (''previousScannedAt'', (case ar_firstScannedAt r of None \<Rightarrow> JNull | Some t \<Rightarrow> JNum (Some (of_int t))))]) (seq d))
       (d\<lparr>seq := Suc (seq d)\<rparr>))"

definition processQRCode ::
  "world \<Rightarrow> instant \<Rightarrow> uuid \<Rightarrow> uuid \<Rightarrow> scan_request \<Rightarrow> db \<Rightarrow> (scan_result \<times> db) result" where
  "processQRCode w now schoolId sessionId rq d =
     bind_result (throw_if (sr_userRole rq = [] \<or> sr_actorId rq = []) (JsErr ''UNAUTHORIZED_ACTOR_CONTEXT'')) (\<lambda>_.
     case sel1 (\<lambda>s. as_schoolId s = schoolId \<and> as_id s = sessionId) (t_sessions d) of
       None \<Rightarrow> Inl (JsErr ''SESSION_NOT_FOUND'')
     | Some s \<Rightarrow>
         bind_result (verifyTeacherAssignment d schoolId (as_classSectionId s) (sr_actorId rq) (sr_userRole rq)) (\<lambda>_.
         case sel1 (\<lambda>e. ev_schoolId e = schoolId \<and> ev_sessionId e = sessionId \<and> ev_clientEventId e = sr_clientEventId rq)
                (t_events d) of
           Some e \<Rightarrow> Inr (ScanReplayed e (record_of d schoolId sessionId (ev_studentId e))
               (sel1 (\<lambda>st. st_schoolId st = schoolId \<and> st_id st = ev_studentId e) (t_students d)), d)
         | None \<Rightarrow>
             bind_result (throw_if (as_status s = FINALIZED) (JsErr ''FINALIZED_SESSION_LOCKED'')) (\<lambda>_.
             bind_result (resolve_student w schoolId rq d) (\<lambda>studentId.
             case sel1 (\<lambda>ro. ro_sessionId ro = sessionId \<and> ro_studentId ro = studentId) (t_roster d) of
               None \<Rightarrow> Inl (JsErr ''STUDENT_NOT_IN_ROSTER'')
             | Some ro \<Rightarrow>
                 (case sel1 (\<lambda>st. st_schoolId st = schoolId \<and> st_id st = studentId) (t_students d) of
                    None \<Rightarrow> Inl (JsErr ''STUDENT_NOT_FOUND'')
                  | Some st \<Rightarrow>
                      (case record_of d schoolId sessionId studentId of
                         Some r \<Rightarrow>
                           if ar_status r \<in> {PRESENT, LATE} \<and> sr_statusValue rq = PRESENT
                           then bind_result (duplicate_scan w now schoolId sessionId studentId rq r d)
                                  (\<lambda>d1. Inr (ScanDuplicate r st (ro_rollNumber ro), d1))
                           else bind_result (record_scan w now schoolId sessionId studentId rq d)
                                  (\<lambda>(r', d1). Inr (ScanRecorded r' st (ro_rollNumber ro), d1))
                       | None \<Rightarrow> bind_result (record_scan w now schoolId sessionId studentId rq d)
                                  (\<lambda>(r', d1). Inr (ScanRecorded r' st (ro_rollNumber ro), d1))))))))"

section \<open>Changing a status by hand\<close>

record manual_request =
  mr_recordId :: "uuid option"
  mr_studentId :: "uuid option"
  mr_newStatus :: attendance_status
  mr_reason :: "string option"
  mr_actorId :: uuid
  mr_userRole :: string
  mr_clientEventId :: "string option"

definition attendance_name :: "attendance_status \<Rightarrow> string" where
  "attendance_name s = (case s of UNMARKED \<Rightarrow> ''UNMARKED'' | PRESENT \<Rightarrow> ''PRESENT'' | LATE \<Rightarrow> ''LATE''
     | ABSENT \<Rightarrow> ''ABSENT'' | EXCUSED \<Rightarrow> ''EXCUSED'' | LEAVE \<Rightarrow> ''LEAVE'')"

definition manual_event_id :: "world \<Rightarrow> instant \<Rightarrow> manual_request \<Rightarrow> db \<Rightarrow> string" where
  "manual_event_id w now rq d =
     (case mr_clientEventId rq of Some i \<Rightarrow> i | None \<Rightarrow> ''manual-'' @ show_int now @ ''-'' @ gen_uuid w (seq d))"

definition manual_event ::
  "world \<Rightarrow> instant \<Rightarrow> uuid \<Rightarrow> uuid \<Rightarrow> uuid \<Rightarrow> manual_request \<Rightarrow> string \<Rightarrow> json \<Rightarrow> nat \<Rightarrow> att_event" where
  "manual_event w now schoolId sessionId studentId rq clientEventId metadata n =
     \<lparr>ev_id = gen_uuid w n, ev_schoolId = schoolId, ev_clientEventId = clientEventId, ev_sessionId = sessionId,
      ev_studentId = studentId, ev_eventType = ''MANUAL_STATUS_CHANGE'', ev_statusValue = mr_newStatus rq,
      ev_clientTimestamp = now, ev_serverReceivedAt = now, ev_deviceId = None, ev_actorType = ''USER'',
      ev_actorId = Some (mr_actorId rq), ev_actorReaderId = None, ev_metadata = metadata, ev_captureMethod = ''QR'',
      ev_sourceReaderId = None\<rparr>"

definition add_correction ::
  "world \<Rightarrow> instant \<Rightarrow> uuid \<Rightarrow> uuid \<Rightarrow> attendance_status \<Rightarrow> manual_request \<Rightarrow> db \<Rightarrow> db" where
  "add_correction w now schoolId recordId previous rq d =
     d\<lparr>t_corrections := t_corrections d @ [\<lparr>co_id = gen_uuid w (seq d), co_schoolId = schoolId, co_recordId = recordId,
          co_previousStatus = previous, co_newStatus = mr_newStatus rq,
          co_reason = the (js_or (mr_reason rq) (Some ''Manual adjustment'')),
          co_correctedBy = mr_actorId rq, co_correctedAt = now\<rparr>], seq := Suc (seq d)\<rparr>"

definition reason_entry :: "manual_request \<Rightarrow> (string \<times> json) list" where
  "reason_entry rq = (case mr_reason rq of None \<Rightarrow> [] | Some r \<Rightarrow> [(''reason'', JStr r)])"

text \<open>A student of the roster without a record: the record is created with the new status.\<close>

definition manual_create ::
  "world \<Rightarrow> instant \<Rightarrow> uuid \<Rightarrow> uuid \<Rightarrow> uuid \<Rightarrow> manual_request \<Rightarrow> db \<Rightarrow> (att_record \<times> db) result" where
  "manual_create w now schoolId sessionId studentId rq d =
     (let eid = manual_event_id w now rq d;
          d0 = d\<lparr>seq := Suc (seq d)\<rparr>;
          r = (new_record (gen_uuid w (seq d0)) schoolId sessionId studentId (mr_newStatus rq) now)
                \<lparr>ar_captureMethod := ''MANUAL'', ar_firstScannedAt := Some now\<rparr>
      in bind_result (throw_if (sel1 (\<lambda>ro. ro_sessionId ro = sessionId \<and> ro_studentId ro = studentId) (t_roster d) = None)
             (JsErr ''STUDENT_NOT_IN_SESSION_ROSTER'')) (\<lambda>_.
         bind_result (insert_record r d0) (\<lambda>d1.
         let d2 = (if truthy (mr_reason rq) then add_correction w now schoolId (ar_id r) UNMARKED rq d1 else d1) in
         bind_result (insert_event (manual_event w now schoolId sessionId studentId rq eid
             (JObj ((''note'', JStr ''Created via manual status change'') # reason_entry rq)) (seq d2)) (d2\<lparr>seq := Suc (seq d2)\<rparr>)) (\<lambda>d3.
         Inr (r, d3)))))"

definition manual_change ::
  "world \<Rightarrow> instant \<Rightarrow> uuid \<Rightarrow> uuid \<Rightarrow> session_status \<Rightarrow> att_record \<Rightarrow> manual_request \<Rightarrow> db \<Rightarrow> (att_record \<times> db) result" where
  "manual_change w now schoolId sessionId status r rq d =
     (if ar_status r = mr_newStatus rq then Inr (r, d)
      else
        let eid = manual_event_id w now rq d;
            d0 = d\<lparr>seq := Suc (seq d)\<rparr>;
            d1 = (if status = FINALIZED \<or> truthy (mr_reason rq)
                  then add_correction w now schoolId (ar_id r) (ar_status r) rq d0 else d0);
            f = (\<lambda>x. x\<lparr>ar_status := mr_newStatus rq, ar_captureMethod := ''MANUAL'', ar_lastUpdatedAt := now\<rparr>)
        in bind_result (insert_event (manual_event w now schoolId sessionId (ar_studentId r) rq eid
               (JObj ([(''previousStatus'', JStr (attendance_name (ar_status r))),
                       (''newStatus'', JStr (attendance_name (mr_newStatus rq)))] @ reason_entry rq)) (seq d1))
               (d1\<lparr>seq := Suc (seq d1)\<rparr>)) (\<lambda>d2.
           Inr (f r, onAttendanceCorrected w now (ar_id r) schoolId (ar_studentId r) (ar_status r) (mr_newStatus rq)
                  (d2\<lparr>t_records := upd (\<lambda>x. ar_id x = ar_id r) f (t_records d2)\<rparr>))))"

definition resolve_record :: "db \<Rightarrow> uuid \<Rightarrow> uuid \<Rightarrow> manual_request \<Rightarrow> att_record option" where
  "resolve_record d schoolId sessionId rq =
     (if truthy (mr_recordId rq)
      then sel1 (\<lambda>r. ar_schoolId r = schoolId \<and> ar_sessionId r = sessionId \<and> ar_id r = the (mr_recordId rq)) (t_records d)
      else if truthy (mr_studentId rq) then record_of d schoolId sessionId (the (mr_studentId rq))
      else None)"

definition manualStatusUpdate ::
  "world \<Rightarrow> instant \<Rightarrow> uuid \<Rightarrow> uuid \<Rightarrow> manual_request \<Rightarrow> db \<Rightarrow> (att_record \<times> db) result" where
  "manualStatusUpdate w now schoolId sessionId rq d =
     (case sel1 (\<lambda>s. as_schoolId s = schoolId \<and> as_id s = sessionId) (t_sessions d) of
        None \<Rightarrow> Inl (JsErr ''SESSION_NOT_FOUND'')
      | Some s \<Rightarrow>
          bind_result (verifyTeacherAssignment d schoolId (as_classSectionId s) (mr_actorId rq) (mr_userRole rq)) (\<lambda>_.
          bind_result (throw_if (as_status s = FINALIZED \<and> mr_userRole rq \<notin> {''SUPER_ADMIN'', ''SCHOOL_ADMIN''})
              (JsErr ''FINALIZED_SESSION_LOCKED'')) (\<lambda>_.
          bind_result (throw_if (as_status s = FINALIZED \<and> (case mr_reason rq of None \<Rightarrow> True | Some r \<Rightarrow> js_trim r = []))
              (JsErr ''CORRECTION_REASON_REQUIRED'')) (\<lambda>_.
          case resolve_record d schoolId sessionId rq of
            Some r \<Rightarrow> manual_change w now schoolId sessionId (as_status s) r rq d
          | None \<Rightarrow> if truthy (mr_studentId rq) then manual_create w now schoolId sessionId (the (mr_studentId rq)) rq d
                    else Inl (JsErr ''ATTENDANCE_RECORD_NOT_FOUND'')))))"

section \<open>Stuck sessions\<close>

record reconciler_result =
  rc_reconciledCount :: nat
  rc_errors :: "(uuid \<times> error) list"

fun reconcile_each :: "world \<Rightarrow> instant \<Rightarrow> att_session list \<Rightarrow> db \<Rightarrow> reconciler_result \<times> db" where
  "reconcile_each w now [] d = (\<lparr>rc_reconciledCount = 0, rc_errors = []\<rparr>, d)"
| "reconcile_each w now (s # ss) d =
     (case finalizeAttendanceSession w now (as_schoolId s) (as_id s) (as_teacherId s) ''SYSTEM''
             (Some ''Autonomous outbox-reconciler scheduled safe finalization'') True d of
        Inr (_, d1) \<Rightarrow> let (r, d2) = reconcile_each w now ss d1
                      in (r\<lparr>rc_reconciledCount := Suc (rc_reconciledCount r)\<rparr>, d2)
      | Inl e \<Rightarrow> let (r, d2) = reconcile_each w now ss d in (r\<lparr>rc_errors := (as_id s, e) # rc_errors r\<rparr>, d2))"

definition reconcileStuckSessions :: "world \<Rightarrow> instant \<Rightarrow> int \<Rightarrow> db \<Rightarrow> reconciler_result \<times> db" where
  "reconcileStuckSessions w now thresholdMinutes d =
     (let stuck = (\<lambda>s. as_status s \<in> {OtherStatus ''FINALIZE_PENDING'', REVIEW} \<and> as_updatedAt s < now - thresholdMinutes * 60 * 1000)
      in reconcile_each w now (take 50 (filter stuck (t_sessions d))) d)"

section \<open>The day at the gate\<close>

record day_student =
  ds_studentId :: uuid
  ds_name :: ustring
  ds_nameBn :: ustring
  ds_studentCode :: ustring
  ds_rollNumber :: int
  ds_status :: attendance_status
  ds_captureMethod :: "string option"
  ds_updatedAt :: "instant option"

record day_stats =
  dy_cameIn :: nat
  dy_missing :: nat
  dy_late :: nat
  dy_leave :: nat
  dy_total :: nat

record day_report =
  dr_isAssigned :: bool
  dr_classSection :: "class_section option"
  dr_session :: "att_session option"
  dr_stats :: day_stats
  dr_arrivals :: "day_student list"
  dr_missingStudents :: "day_student list"
  dr_allStudents :: "day_student list"

definition not_assigned_report :: day_report where
  "not_assigned_report = \<lparr>dr_isAssigned = False, dr_classSection = None, dr_session = None,
     dr_stats = \<lparr>dy_cameIn = 0, dy_missing = 0, dy_late = 0, dy_leave = 0, dy_total = 0\<rparr>,
     dr_arrivals = [], dr_missingStudents = [], dr_allStudents = []\<rparr>"

text \<open>Active enrolments of the section with their students (any status of the student), by roll number.\<close>

definition day_students :: "db \<Rightarrow> uuid \<Rightarrow> uuid \<Rightarrow> att_session option \<Rightarrow> day_student list" where
  "day_students d schoolId sectionId ses =
     (let rows = sort_key (\<lambda>(e, s). en_rollNumber e) (concat (map (\<lambda>e. map (\<lambda>s. (e, s))
                   (filter (\<lambda>s. st_id s = en_studentId e) (t_students d)))
                   (filter (\<lambda>e. en_schoolId e = schoolId \<and> en_classSectionId e = sectionId \<and> en_status e = ''ACTIVE'')
                     (t_enrollments d))));
          records = (case ses of None \<Rightarrow> [] | Some s \<Rightarrow>
                       filter (\<lambda>r. ar_schoolId r = schoolId \<and> ar_sessionId r = as_id s) (t_records d));
          recordMap = js_map (map (\<lambda>r. (ar_studentId r, r)) records)
      in map (\<lambda>(e, s). let r = map_of recordMap (st_id s) in
           \<lparr>ds_studentId = st_id s, ds_name = st_name s, ds_nameBn = the (js_or (st_nameBn s) (Some (st_name s))),
            ds_studentCode = st_studentCode s, ds_rollNumber = en_rollNumber e, ds_status = (case r of None \<Rightarrow> UNMARKED | Some x \<Rightarrow> ar_status x),
            ds_captureMethod = map_option ar_captureMethod r, ds_updatedAt = map_option ar_lastUpdatedAt r\<rparr>) rows)"

definition day_report_of :: "class_section option \<Rightarrow> att_session option \<Rightarrow> instant \<Rightarrow> day_student list \<Rightarrow> day_report" where
  "day_report_of sec ses now allStudents =
     (let count = (\<lambda>sts. length (filter (\<lambda>s. ds_status s \<in> sts) allStudents)) in
      \<lparr>dr_isAssigned = True, dr_classSection = sec, dr_session = ses,
       dr_stats = \<lparr>dy_cameIn = count {PRESENT}, dy_missing = count {UNMARKED, ABSENT}, dy_late = count {LATE},
                   dy_leave = count {EXCUSED, LEAVE}, dy_total = length allStudents\<rparr>,
       dr_arrivals = map (\<lambda>s. s\<lparr>ds_captureMethod := js_or (ds_captureMethod s) (Some ''RFID_GATE''),
                              ds_updatedAt := nullish (ds_updatedAt s) (Some now)\<rparr>)
                       (filter (\<lambda>s. ds_status s \<in> {PRESENT, LATE}) allStudents),
       dr_missingStudents = filter (\<lambda>s. ds_status s \<in> {UNMARKED, ABSENT}) allStudents,
       dr_allStudents = allStudents\<rparr>)"

text \<open>Any session of the section and day, of whatever type, is taken; one is opened when there is none.\<close>

definition todays_session :: "db \<Rightarrow> uuid \<Rightarrow> uuid \<Rightarrow> string \<Rightarrow> att_session option" where
  "todays_session d schoolId sectionId today =
     sel1 (\<lambda>s. as_schoolId s = schoolId \<and> as_classSectionId s = sectionId \<and> as_sessionDate s = today) (t_sessions d)"

definition getTodayGateAttendance ::
  "world \<Rightarrow> instant \<Rightarrow> uuid \<Rightarrow> uuid option \<Rightarrow> uuid \<Rightarrow> string \<Rightarrow> db \<Rightarrow> day_report \<times> db" where
  "getTodayGateAttendance w now schoolId classSectionId actorId userRole d =
     (let tz = the (js_or (map_option sc_timezone (sel1 (\<lambda>s. sc_id s = schoolId) (t_schools d))) (Some ''Asia/Kolkata''));
          today = local_date w tz now;
          target = (if truthy classSectionId then classSectionId
                    else case getTeacherAssignedClasses d schoolId actorId userRole of
                      [] \<Rightarrow> classSectionId | c # _ \<Rightarrow> Some (cs_id c))
      in if \<not> truthy target then (not_assigned_report, d)
         else
           let section_id = the target;
               assigned = sel1 (\<lambda>t. ta_schoolId t = schoolId \<and> ta_classSectionId t = section_id) (t_teacherAssignments d);
               (ses, d1) = (case (todays_session d schoolId section_id today, assigned) of
                   (None, Some t) \<Rightarrow>
                     (case createAttendanceSession w now schoolId section_id (ta_teacherId t) today ''DAILY'' actorId userRole d of
                        Inr (s, _, _, d1) \<Rightarrow> (Some s, d1)
                      | Inl _ \<Rightarrow> (todays_session d schoolId section_id today, d))
                 | (s, _) \<Rightarrow> (s, d))
           in if ses = None \<and> assigned = None then (not_assigned_report, d1)
              else (day_report_of (sel1 (\<lambda>c. cs_schoolId c = schoolId \<and> cs_id c = section_id) (t_classSections d1)) ses now
                      (day_students d1 schoolId section_id ses), d1))"

end
