(* ===== verification/Attendance_Log.thy ===== *)
theory Attendance_Log
  imports Attendance_Scan Ingest
begin

text \<open>
  What the operations of the attendance service do to the log of events and to the records: every
  operation extends the log, and the records stay its projection.
\<close>

section \<open>The log and its projection\<close>

definition ev_key :: "att_event \<Rightarrow> uuid \<times> uuid" where
  "ev_key e = (ev_sessionId e, ev_studentId e)"

text \<open>The abstract table of statuses: every event overwrites the status of its session and student.\<close>

definition project :: "att_event list \<Rightarrow> uuid \<times> uuid \<Rightarrow> attendance_status" where
  "project es = foldl (\<lambda>m e. m(ev_key e := ev_statusValue e)) (\<lambda>_. UNMARKED) es"

lemma project_Nil [simp]: "project [] p = UNMARKED"
  by (simp add: project_def)

lemma project_snoc [simp]: "project (es @ [e]) p = (if ev_key e = p then ev_statusValue e else project es p)"
  by (simp add: project_def)

lemma project_other: "p \<notin> ev_key ` set evs \<Longrightarrow> project (es @ evs) p = project es p"
proof (induction evs rule: rev_induct)
  case (snoc e evs)
  then show ?case by (auto simp flip: append_assoc)
qed simp

lemma project_agree:
  "p \<in> ev_key ` set evs \<Longrightarrow> (\<And>e. e \<in> set evs \<Longrightarrow> ev_key e = p \<Longrightarrow> ev_statusValue e = v) \<Longrightarrow> project (es @ evs) p = v"
proof (induction evs rule: rev_induct)
  case (snoc e evs)
  then show ?case by (cases "ev_key e = p") (auto simp flip: append_assoc)
qed simp

lemma project_absent: "p \<notin> ev_key ` set es \<Longrightarrow> project es p = UNMARKED"
  using project_other [of p es "[]"] by simp

text \<open>
  The invariant of the attendance tables: keys are unique, identifiers not yet handed out are unused,
  every event belongs to a session, and the records are the projection of the log.
\<close>

definition att_inv :: "world \<Rightarrow> db \<Rightarrow> bool" where
  "att_inv w d \<longleftrightarrow>
     distinct (map ar_id (t_records d)) \<and> distinct (map record_key (t_records d))
     \<and> gen_uuid w ` {seq d..} \<inter> (ar_id ` set (t_records d) \<union> as_id ` set (t_sessions d)) = {}
     \<and> ev_sessionId ` set (t_events d) \<subseteq> as_id ` set (t_sessions d)
     \<and> (\<forall>r \<in> set (t_records d). ar_status r = project (t_events d) (record_key r))"

lemma att_invD:
  assumes "att_inv w d"
  shows "distinct (map ar_id (t_records d))" "distinct (map record_key (t_records d))"
    "gen_uuid w ` {seq d..} \<inter> (ar_id ` set (t_records d) \<union> as_id ` set (t_sessions d)) = {}"
    "ev_sessionId ` set (t_events d) \<subseteq> as_id ` set (t_sessions d)"
    "\<And>r. r \<in> set (t_records d) \<Longrightarrow> ar_status r = project (t_events d) (record_key r)"
  using assms unfolding att_inv_def by simp_all

lemma att_invI:
  assumes "distinct (map ar_id (t_records d))" "distinct (map record_key (t_records d))"
    "gen_uuid w ` {seq d..} \<inter> (ar_id ` set (t_records d) \<union> as_id ` set (t_sessions d)) = {}"
    "ev_sessionId ` set (t_events d) \<subseteq> as_id ` set (t_sessions d)"
    "\<And>r. r \<in> set (t_records d) \<Longrightarrow> ar_status r = project (t_events d) (record_key r)"
  shows "att_inv w d"
  unfolding att_inv_def by (intro conjI ballI assms)

text \<open>What one operation does to them: the record \<open>r\<close> becomes \<open>r'\<close> as the new events say.\<close>

definition follows :: "att_event list \<Rightarrow> att_record \<Rightarrow> att_record \<Rightarrow> bool" where
  "follows evs r r' \<longleftrightarrow> ar_id r' = ar_id r \<and> record_key r' = record_key r
     \<and> (if record_key r \<in> ev_key ` set evs
        then \<forall>e \<in> set evs. ev_key e = record_key r \<longrightarrow> ev_statusValue e = ar_status r'
        else ar_status r' = ar_status r)"

definition explained :: "att_event list \<Rightarrow> att_event list \<Rightarrow> att_record \<Rightarrow> bool" where
  "explained es evs r \<longleftrightarrow>
     (if record_key r \<in> ev_key ` set evs
      then \<forall>e \<in> set evs. ev_key e = record_key r \<longrightarrow> ev_statusValue e = ar_status r
      else ar_status r = UNMARKED \<and> record_key r \<notin> ev_key ` set es)"

definition minted :: "world \<Rightarrow> db \<Rightarrow> db \<Rightarrow> uuid set" where
  "minted w d d' = gen_uuid w ` {seq d..<seq d'}"

definition att_delta :: "world \<Rightarrow> db \<Rightarrow> db \<Rightarrow> bool" where
  "att_delta w d d' \<longleftrightarrow> (\<exists>evs old new.
     t_events d' = t_events d @ evs \<and> ev_sessionId ` set evs \<subseteq> as_id ` set (t_sessions d')
     \<and> seq d \<le> seq d'
     \<and> as_id ` set (t_sessions d) \<subseteq> as_id ` set (t_sessions d')
     \<and> as_id ` set (t_sessions d') \<subseteq> as_id ` set (t_sessions d) \<union> minted w d d'
     \<and> t_records d' = old @ new \<and> list_all2 (follows evs) (t_records d) old
     \<and> ar_id ` set new \<subseteq> minted w d d' \<and> distinct (map ar_id new)
     \<and> distinct (map record_key new) \<and> record_key ` set new \<inter> record_key ` set (t_records d) = {}
     \<and> (\<forall>r \<in> set new. explained (t_events d) evs r))"

lemma follows_maps: "list_all2 (follows evs) rs old \<Longrightarrow> map ar_id old = map ar_id rs \<and> map record_key old = map record_key rs"
  by (induction rule: list_all2_induct) (auto simp: follows_def)

lemma follows_project:
  assumes "list_all2 (follows evs) rs old" "\<And>r. r \<in> set rs \<Longrightarrow> ar_status r = project es (record_key r)" "r' \<in> set old"
  shows "ar_status r' = project (es @ evs) (record_key r')"
proof -
  from assms(1,3) obtain r where r: "r \<in> set rs" "follows evs r r'"
    by (metis in_set_conv_nth list_all2_conv_all_nth)
  show ?thesis
  proof (cases "record_key r \<in> ev_key ` set evs")
    case True
    with r have "project (es @ evs) (record_key r) = ar_status r'" by (intro project_agree) (auto simp: follows_def)
    with r show ?thesis by (simp add: follows_def)
  next
    case False
    with r project_other [OF False, of es] assms(2) [OF r(1)] show ?thesis by (simp add: follows_def)
  qed
qed

lemma explained_project:
  "explained es evs r \<Longrightarrow> ar_status r = project (es @ evs) (record_key r)"
proof (cases "record_key r \<in> ev_key ` set evs")
  case True
  assume "explained es evs r"
  with True show ?thesis by (intro project_agree [symmetric]) (auto simp: explained_def)
next
  case False
  assume "explained es evs r"
  with False show ?thesis by (simp add: explained_def project_other project_absent)
qed

lemma minted_fresh:
  assumes "inj (gen_uuid w)" "seq d \<le> seq d'"
  shows "gen_uuid w ` {seq d'..} \<inter> minted w d d' = {}" "gen_uuid w ` {seq d'..} \<subseteq> gen_uuid w ` {seq d..}"
    "minted w d d' \<subseteq> gen_uuid w ` {seq d..}"
  using assms by (auto simp: minted_def inj_eq)

lemma att_inv_delta:
  assumes "inj (gen_uuid w)" "att_inv w d" "att_delta w d d'"
  shows "att_inv w d'"
proof -
  from assms(3) obtain evs old new where D: "t_events d' = t_events d @ evs"
    "ev_sessionId ` set evs \<subseteq> as_id ` set (t_sessions d')" "seq d \<le> seq d'"
    "as_id ` set (t_sessions d) \<subseteq> as_id ` set (t_sessions d')"
    "as_id ` set (t_sessions d') \<subseteq> as_id ` set (t_sessions d) \<union> minted w d d'"
    "t_records d' = old @ new" "list_all2 (follows evs) (t_records d) old"
    "ar_id ` set new \<subseteq> minted w d d'" "distinct (map ar_id new)" "distinct (map record_key new)"
    "record_key ` set new \<inter> record_key ` set (t_records d) = {}" "\<forall>r \<in> set new. explained (t_events d) evs r"
    unfolding att_delta_def by - (elim exE conjE; rule that; assumption)
  note inv = att_invD [OF assms(2)]
  note m = minted_fresh [OF assms(1) D(3)] and keys = follows_maps [OF D(7)]
  have sets: "ar_id ` set old = ar_id ` set (t_records d)" "record_key ` set old = record_key ` set (t_records d)"
    using arg_cong [OF keys [THEN conjunct1], of set] arg_cong [OF keys [THEN conjunct2], of set] by simp_all
  have "ar_id ` set (t_records d) \<inter> minted w d d' = {}" using inv(3) m(3) by blast
  then have disj: "ar_id ` set old \<inter> ar_id ` set new = {}" using sets(1) D(8) by blast
  have old: "distinct (map ar_id old)" "distinct (map record_key old)" unfolding keys [THEN conjunct1] keys [THEN conjunct2] by (fact inv(1), fact inv(2))
  show ?thesis
  proof (rule att_invI)
    show "distinct (map ar_id (t_records d'))"
      unfolding D(6) map_append distinct_append set_map by (intro conjI old D(9) disj)
    have "record_key ` set old \<inter> record_key ` set new = {}" using sets(2) D(11) by blast
    then show "distinct (map record_key (t_records d'))"
      unfolding D(6) map_append distinct_append set_map by (intro conjI old D(10))
    have "ar_id ` set (t_records d') = ar_id ` set (t_records d) \<union> ar_id ` set new"
      unfolding D(6) set_append image_Un sets(1) ..
    then have sub: "ar_id ` set (t_records d') \<union> as_id ` set (t_sessions d')
        \<subseteq> (ar_id ` set (t_records d) \<union> as_id ` set (t_sessions d)) \<union> minted w d d'"
      using D(5,8) by (simp add: subset_iff)
    show "gen_uuid w ` {seq d'..} \<inter> (ar_id ` set (t_records d') \<union> as_id ` set (t_sessions d')) = {}"
    proof (rule equals0I, elim IntE)
      fix x assume x: "x \<in> gen_uuid w ` {seq d'..}" "x \<in> ar_id ` set (t_records d') \<union> as_id ` set (t_sessions d')"
      from subsetD [OF m(2) x(1)] inv(3) have "x \<notin> ar_id ` set (t_records d) \<union> as_id ` set (t_sessions d)"
        by (simp only: disjoint_iff) blast
      with subsetD [OF sub x(2)] have "x \<in> minted w d d'" by simp
      with x(1) m(1) show False by (simp only: disjoint_iff)
    qed
    show "ev_sessionId ` set (t_events d') \<subseteq> as_id ` set (t_sessions d')"
      unfolding D(1) set_append image_Un using inv(4) D(2,4) by blast
    show "ar_status r = project (t_events d') (record_key r)" if "r \<in> set (t_records d')" for r
    proof (cases "r \<in> set old")
      case True
      from follows_project [OF D(7) _ this] inv(5) show ?thesis unfolding D(1) by blast
    next
      case False
      with that D(6,12) have "explained (t_events d) evs r" by simp
      from explained_project [OF this] show ?thesis unfolding D(1) .
    qed
  qed
qed

text \<open>Common shapes of an operation.\<close>

lemma follows_refl_iff: "follows evs r r \<longleftrightarrow> (\<forall>e \<in> set evs. ev_key e = record_key r \<longrightarrow> ev_statusValue e = ar_status r)"
  by (cases "record_key r \<in> ev_key ` set evs") (auto simp: follows_def, metis imageI)

lemma follows_map: "(\<And>r. r \<in> set rs \<Longrightarrow> follows evs r (f r)) \<Longrightarrow> list_all2 (follows evs) rs (map f rs)"
  by (simp add: list_all2_map2 list_all2_same)

lemma att_delta_frame:
  assumes "t_events d' = t_events d" "t_records d' = t_records d" "seq d \<le> seq d'" "as_id ` set (t_sessions d') = as_id ` set (t_sessions d)"
  shows "att_delta w d d'"
  unfolding att_delta_def
  by (rule exI [of _ "[]"], rule exI [of _ "t_records d"], rule exI [of _ "[]"])
    (use assms in \<open>simp add: list_all2_same follows_refl_iff\<close>)

text \<open>One event, and the record of its key changed to its status.\<close>

lemma att_delta_mark:
  assumes inv: "att_inv w d"
    and ev: "t_events d' = t_events d @ [e]" "ev_sessionId e \<in> as_id ` set (t_sessions d)" "seq d \<le> seq d'"
    and ses: "t_sessions d' = t_sessions d"
    and r: "r \<in> set (t_records d)" "record_key r = ev_key e"
    and recs: "t_records d' = upd (\<lambda>x. ar_id x = ar_id r) f (t_records d)"
    and f: "\<And>x. ar_id (f x) = ar_id x" "\<And>x. record_key (f x) = record_key x" "\<And>x. ar_status (f x) = ev_statusValue e"
  shows "att_delta w d d'"
proof -
  have "follows [e] x (if ar_id x = ar_id r then f x else x)" if x: "x \<in> set (t_records d)" for x
  proof (cases "ar_id x = ar_id r")
    case True
    with att_invD(1) [OF inv] x r(1) have "x = r" by (metis distinct_map inj_on_eq_iff)
    with f r show ?thesis by (simp add: follows_def)
  next
    case False
    have "record_key x \<noteq> ev_key e"
    proof
      assume "record_key x = ev_key e"
      with att_invD(2) [OF inv] x r have "x = r" by (metis distinct_map inj_on_eq_iff)
      with False show False by simp
    qed
    with False show ?thesis by (simp add: follows_refl_iff)
  qed
  then have "list_all2 (follows [e]) (t_records d) (t_records d')"
    unfolding recs upd_def by (rule follows_map)
  with ev ses show ?thesis unfolding att_delta_def
    by (intro exI [of _ "[e]"] exI [of _ "t_records d'"] exI [of _ "[]"]) auto
qed

text \<open>One event, and a new record with its status.\<close>

lemma att_delta_new:
  assumes ev: "t_events d' = t_events d @ [e]" "ev_sessionId e \<in> as_id ` set (t_sessions d)" "seq d \<le> seq d'"
    and ses: "t_sessions d' = t_sessions d"
    and recs: "t_records d' = t_records d @ [r]" "ar_id r \<in> minted w d d'" "record_key r \<notin> record_key ` set (t_records d)"
    and r: "record_key r = ev_key e" "ar_status r = ev_statusValue e"
  shows "att_delta w d d'"
proof -
  have "follows [e] x x" if "x \<in> set (t_records d)" for x using recs(3) r that by (auto simp: follows_refl_iff)
  with ev ses recs r show ?thesis unfolding att_delta_def
    by (intro exI [of _ "[e]"] exI [of _ "t_records d"] exI [of _ "[r]"]) (auto simp: list_all2_same explained_def)
qed

section \<open>Every operation of the attendance service\<close>

text \<open>Notification jobs and audit entries do not touch the attendance tables.\<close>

definition same_attendance :: "db \<Rightarrow> db \<Rightarrow> bool" where
  "same_attendance d d' \<longleftrightarrow> t_events d' = t_events d \<and> t_records d' = t_records d \<and> t_sessions d' = t_sessions d
     \<and> t_roster d' = t_roster d \<and> t_corrections d' = t_corrections d \<and> t_teacherAssignments d' = t_teacherAssignments d
     \<and> (\<exists>new. t_audit d' = t_audit d @ new) \<and> seq d \<le> seq d'"

lemma same_attendance_refl [simp]: "same_attendance d d"
  by (simp add: same_attendance_def)

lemma same_attendance_jobs: "n \<ge> seq d \<Longrightarrow> same_attendance d (d\<lparr>t_jobs := j, seq := n\<rparr>)"
  by (simp add: same_attendance_def)

lemma same_attendance_insert_job: "same_attendance d (snd (insert_job j d))"
  by (cases "\<exists>x \<in> set (t_jobs d). job_conflict x j") (simp_all add: insert_job_skip insert_job_add same_attendance_def)

lemma same_attendance_corrected: "same_attendance d (onAttendanceCorrected w now rid sid st a b d)"
  by (auto simp: onAttendanceCorrected_def Let_def same_attendance_insert_job same_attendance_def [of d "d\<lparr>t_jobs := x\<rparr>" for x]
      split: option.splits)

lemma same_attendance_trans: "same_attendance d d1 \<Longrightarrow> same_attendance d1 d2 \<Longrightarrow> same_attendance d d2"
  by (auto simp: same_attendance_def)

lemma create_jobs_same: "create_jobs w now env recs d = (js, d') \<Longrightarrow> same_attendance d d'"
proof (induction recs arbitrary: d js)
  case (Cons r rs)
  obtain o' d1 where one: "insert_job (absence_job w now env r (seq d)) d = (o', d1)" by fastforce
  obtain js' d2 where rest: "create_jobs w now env rs d1 = (js', d2)" by fastforce
  from Cons.prems one rest have "d2 = d'" by (auto simp: Let_def)
  with Cons.IH rest same_attendance_insert_job [of d "absence_job w now env r (seq d)"] one
  show ?case by (auto intro: same_attendance_trans)
qed simp

lemma createAbsence_same:
  assumes "createAbsenceNotificationJobs w now sid ses d = Inr (out, d')"
  shows "same_attendance d d'"
proof -
  obtain s d1 where g: "getSchoolSmsSettings w sid d = (s, d1)" by fastforce
  then have 1: "same_attendance d d1"
    by (auto simp: getSchoolSmsSettings_def same_attendance_def split: option.splits)
  from assms g have "d' = d1 \<or> (\<exists>env recs js. create_jobs w now env recs d1 = (js, d'))"
    by (auto simp: createAbsenceNotificationJobs_def Let_def split: option.splits if_splits prod.splits)
  with 1 show ?thesis by (auto intro: same_attendance_trans dest: create_jobs_same)
qed

lemma att_delta_same:
  assumes "att_delta w d d1" "same_attendance d1 d'"
  shows "att_delta w d d'"
proof -
  from assms(2) have e: "minted w d d1 \<subseteq> minted w d d'" "t_events d' = t_events d1" "t_records d' = t_records d1"
    "t_sessions d' = t_sessions d1" "seq d1 \<le> seq d'"
    by (auto simp: same_attendance_def minted_def)
  from assms(1) obtain evs old new where D: "t_events d1 = t_events d @ evs"
    "ev_sessionId ` set evs \<subseteq> as_id ` set (t_sessions d1)" "seq d \<le> seq d1"
    "as_id ` set (t_sessions d) \<subseteq> as_id ` set (t_sessions d1)"
    "as_id ` set (t_sessions d1) \<subseteq> as_id ` set (t_sessions d) \<union> minted w d d1"
    "t_records d1 = old @ new" "list_all2 (follows evs) (t_records d) old"
    "ar_id ` set new \<subseteq> minted w d d1" "distinct (map ar_id new)" "distinct (map record_key new)"
    "record_key ` set new \<inter> record_key ` set (t_records d) = {}" "\<forall>r \<in> set new. explained (t_events d) evs r"
    unfolding att_delta_def by - (elim exE conjE; rule that; assumption)
  have "as_id ` set (t_sessions d1) \<subseteq> as_id ` set (t_sessions d) \<union> minted w d d'" "ar_id ` set new \<subseteq> minted w d d'"
    using D(5,8) e(1) by (meson Un_mono order_refl order_trans)+
  with D e show ?thesis unfolding att_delta_def
    by (intro exI [of _ evs] exI [of _ old] exI [of _ new] conjI) simp_all
qed

lemma insert_event_Inr: "insert_event e d = Inr d' \<longleftrightarrow> ev_clientEventId e \<notin> ev_clientEventId ` set (t_events d) \<and> d' = d\<lparr>t_events := t_events d @ [e]\<rparr>"
  by (auto simp: insert_event_def insert_event_row_def)

lemma record_of_SomeD:
  "record_of d schoolId sessionId studentId = Some r \<Longrightarrow>
     r \<in> set (t_records d) \<and> ar_schoolId r = schoolId \<and> record_key r = (sessionId, studentId)"
  by (auto simp: record_of_def record_key_def dest: sel1_SomeD)

text \<open>A scan.\<close>

lemma record_scan_delta:
  assumes "record_scan w now schoolId sessionId studentId rq d = Inr (r', d')" "att_inv w d"
    "sessionId \<in> as_id ` set (t_sessions d)"
  shows "att_delta w d d'"
proof -
  from assms(1) obtain ts d1 where e: "insert_event (scan_event_row w now ts schoolId sessionId studentId rq
         (if sr_source rq = USB then ''USB_BARCODE_SCANNED'' else ''QR_SCANNED'') (sr_statusValue rq)
         (JObj (js_map ((''source'', JStr (source_name (sr_source rq))) # sr_metadata rq))) (seq d))
         (d\<lparr>seq := Suc (seq d)\<rparr>) = Inr d1"
    and k: "(case record_of d schoolId sessionId studentId of
       Some r \<Rightarrow>
         let f = (\<lambda>x. x\<lparr>ar_status := sr_statusValue rq, ar_firstScannedAt := nullish (ar_firstScannedAt r) (Some now),
                        ar_lastUpdatedAt := now\<rparr>);
             d2 = d1\<lparr>t_records := upd (\<lambda>x. ar_id x = ar_id r) f (t_records d1)\<rparr>
         in Inr (f r, if ar_status r \<noteq> sr_statusValue rq
                      then onAttendanceCorrected w now (ar_id r) schoolId studentId (ar_status r) (sr_statusValue rq) d2
                      else d2)
     | None \<Rightarrow>
         let r = (new_record (gen_uuid w (seq d1)) schoolId sessionId studentId (sr_statusValue rq) now)
                   \<lparr>ar_firstScannedAt := Some now\<rparr>
         in bind_result (insert_record r d1) (\<lambda>d2. Inr (r, d2))) = Inr (r', d')"
    unfolding record_scan_def bind_result_Inr_iff by blast
  define ev where "ev = scan_event_row w now ts schoolId sessionId studentId rq
         (if sr_source rq = USB then ''USB_BARCODE_SCANNED'' else ''QR_SCANNED'') (sr_statusValue rq)
         (JObj (js_map ((''source'', JStr (source_name (sr_source rq))) # sr_metadata rq))) (seq d)"
  have evk: "ev_key ev = (sessionId, studentId)" "ev_statusValue ev = sr_statusValue rq" "ev_sessionId ev = sessionId"
    by (simp_all add: ev_def scan_event_row_def ev_key_def)
  from e have d1: "d1 = d\<lparr>seq := Suc (seq d), t_events := t_events d @ [ev]\<rparr>"
    by (simp add: insert_event_Inr ev_def)
  show ?thesis
  proof (cases "record_of d schoolId sessionId studentId")
    case None
    with k d1 have d': "d' = d1\<lparr>t_records := t_records d @ [r'], seq := Suc (Suc (seq d))\<rparr>"
      and r': "ar_id r' = gen_uuid w (Suc (seq d))" "ar_sessionId r' = sessionId" "ar_studentId r' = studentId" "ar_status r' = sr_statusValue rq"
      and fresh: "\<not> (\<exists>x \<in> set (t_records d). ar_sessionId x = sessionId \<and> ar_studentId x = studentId)"
      by (auto simp: Let_def insert_record_def new_record_def record_key_def split: if_splits)
    show ?thesis
      by (rule att_delta_new [where e = ev and r = r'])
        (use fresh assms(3) in \<open>auto simp: d' d1 r' evk minted_def record_key_def\<close>)
  next
    case (Some r)
    let ?f = "\<lambda>x. x\<lparr>ar_status := sr_statusValue rq, ar_firstScannedAt := nullish (ar_firstScannedAt r) (Some now), ar_lastUpdatedAt := now\<rparr>"
    let ?d2 = "d1\<lparr>t_records := upd (\<lambda>x. ar_id x = ar_id r) ?f (t_records d1)\<rparr>"
    note r = record_of_SomeD [OF Some]
    have "att_delta w d ?d2"
      by (rule att_delta_mark [where e = ev and r = r and f = ?f])
        (use assms(2,3) r in \<open>auto simp: d1 evk record_key_def\<close>)
    moreover from k Some have "same_attendance ?d2 d'"
      by (auto simp: Let_def same_attendance_corrected split: if_splits)
    ultimately show ?thesis by (rule att_delta_same)
  qed
qed

text \<open>A duplicate scan logs the status the record already has.\<close>

lemma att_delta_event:
  assumes "att_inv w d" "r \<in> set (t_records d)" "record_key r = ev_key e" "ev_statusValue e = ar_status r"
    "t_events d' = t_events d @ [e]" "ev_sessionId e \<in> as_id ` set (t_sessions d)" "seq d \<le> seq d'"
    "t_sessions d' = t_sessions d" "t_records d' = t_records d"
  shows "att_delta w d d'"
proof -
  have "follows [e] x x" if "x \<in> set (t_records d)" for x
    using att_invD(2) [OF assms(1)] that assms(2-4) by (auto simp: follows_refl_iff distinct_map inj_on_eq_iff)
  with assms(5-9) show ?thesis unfolding att_delta_def
    by (intro exI [of _ "[e]"] exI [of _ "t_records d"] exI [of _ "[]"]) (auto simp: list_all2_same)
qed

lemma duplicate_scan_delta:
  assumes "duplicate_scan w now schoolId sessionId studentId rq r d = Inr d'" "att_inv w d"
    "sessionId \<in> as_id ` set (t_sessions d)" "record_of d schoolId sessionId studentId = Some r"
  shows "att_delta w d d'"
proof -
  from assms(1) obtain ts ev where d': "d' = d\<lparr>seq := Suc (seq d), t_events := t_events d @ [ev]\<rparr>"
    and ev: "ev = scan_event_row w now ts schoolId sessionId studentId rq ''DUPLICATE_QR_SCANNED'' (ar_status r)
       (JObj [(''source'', JStr (source_name (sr_source rq))),
              (''previousScannedAt'', (case ar_firstScannedAt r of None \<Rightarrow> JNull | Some t \<Rightarrow> JNum (Some (of_int t))))]) (seq d)"
    by (auto simp: duplicate_scan_def bind_result_Inr_iff insert_event_Inr)
  show ?thesis
    by (rule att_delta_event [OF assms(2), where r = r and e = ev])
      (use record_of_SomeD [OF assms(4)] assms(3) in \<open>auto simp: d' ev scan_event_row_def ev_key_def record_key_def\<close>)
qed

lemma processQRCodeE:
  assumes "processQRCode w now schoolId sessionId rq d = Inr (res, d')"
  obtains (replayed) s e where
      "sel1 (\<lambda>s. as_schoolId s = schoolId \<and> as_id s = sessionId) (t_sessions d) = Some s"
      "verifyTeacherAssignment d schoolId (as_classSectionId s) (sr_actorId rq) (sr_userRole rq) = Inr ()"
      "sr_userRole rq \<noteq> []" "sr_actorId rq \<noteq> []"
      "sel1 (\<lambda>e. ev_schoolId e = schoolId \<and> ev_sessionId e = sessionId \<and> ev_clientEventId e = sr_clientEventId rq) (t_events d) = Some e"
      "res = ScanReplayed e (record_of d schoolId sessionId (ev_studentId e))
         (sel1 (\<lambda>st. st_schoolId st = schoolId \<and> st_id st = ev_studentId e) (t_students d))" "d' = d"
  | (scanned) s studentId ro st where
      "sel1 (\<lambda>s. as_schoolId s = schoolId \<and> as_id s = sessionId) (t_sessions d) = Some s"
      "verifyTeacherAssignment d schoolId (as_classSectionId s) (sr_actorId rq) (sr_userRole rq) = Inr ()"
      "sr_userRole rq \<noteq> []" "sr_actorId rq \<noteq> []"
      "as_status s \<noteq> FINALIZED" "resolve_student w schoolId rq d = Inr studentId"
      "sel1 (\<lambda>ro. ro_sessionId ro = sessionId \<and> ro_studentId ro = studentId) (t_roster d) = Some ro"
      "sel1 (\<lambda>st. st_schoolId st = schoolId \<and> st_id st = studentId) (t_students d) = Some st"
      "(\<exists>r. record_of d schoolId sessionId studentId = Some r \<and> ar_status r \<in> {PRESENT, LATE} \<and> sr_statusValue rq = PRESENT
          \<and> duplicate_scan w now schoolId sessionId studentId rq r d = Inr d' \<and> res = ScanDuplicate r st (ro_rollNumber ro))
       \<or> (\<exists>r'. record_scan w now schoolId sessionId studentId rq d = Inr (r', d') \<and> res = ScanRecorded r' st (ro_rollNumber ro))"
proof -
  from assms obtain s where s: "sel1 (\<lambda>s. as_schoolId s = schoolId \<and> as_id s = sessionId) (t_sessions d) = Some s"
    "verifyTeacherAssignment d schoolId (as_classSectionId s) (sr_actorId rq) (sr_userRole rq) = Inr ()"
    "sr_userRole rq \<noteq> []" "sr_actorId rq \<noteq> []"
    by (auto simp: processQRCode_def bind_result_Inr_iff split: option.splits)
  show thesis
  proof (cases "sel1 (\<lambda>e. ev_schoolId e = schoolId \<and> ev_sessionId e = sessionId \<and> ev_clientEventId e = sr_clientEventId rq) (t_events d)")
    case (Some e)
    with assms s show thesis by (intro replayed [OF s Some]) (auto simp: processQRCode_def throw_if_def)
  next
    case None
    with assms s obtain studentId where p: "as_status s \<noteq> FINALIZED" "resolve_student w schoolId rq d = Inr studentId"
      by (auto simp: processQRCode_def bind_result_Inr_iff)
    with assms s None obtain ro st where q: "sel1 (\<lambda>ro. ro_sessionId ro = sessionId \<and> ro_studentId ro = studentId) (t_roster d) = Some ro"
      "sel1 (\<lambda>st. st_schoolId st = schoolId \<and> st_id st = studentId) (t_students d) = Some st"
      by (auto simp: processQRCode_def throw_if_def split: option.splits)
    from assms s None p q show thesis
      by (intro scanned [OF s p q])
        (auto simp: processQRCode_def throw_if_def bind_result_Inr_iff split: option.splits if_splits)
  qed
qed

lemma processQRCode_delta:
  assumes "processQRCode w now schoolId sessionId rq d = Inr (res, d')" "att_inv w d"
  shows "att_delta w d d'"
  using assms(1)
proof (cases rule: processQRCodeE)
  case (replayed s e)
  then show ?thesis by (simp add: att_delta_frame)
next
  case (scanned s studentId ro st)
  from sel1_SomeD [OF scanned(1)] have "sessionId \<in> as_id ` set (t_sessions d)" by auto
  with scanned(9) assms(2) show ?thesis by (auto intro: duplicate_scan_delta record_scan_delta)
qed

text \<open>A manual change.\<close>

lemma add_correction_simps [simp]:
  "t_events (add_correction w now s r p rq d) = t_events d" "t_records (add_correction w now s r p rq d) = t_records d"
  "t_sessions (add_correction w now s r p rq d) = t_sessions d" "seq (add_correction w now s r p rq d) = Suc (seq d)"
  "t_audit (add_correction w now s r p rq d) = t_audit d" "t_teacherAssignments (add_correction w now s r p rq d) = t_teacherAssignments d"
  by (simp_all add: add_correction_def)

lemma manual_event_simps [simp]:
  "ev_key (manual_event w now schoolId sessionId studentId rq i m n) = (sessionId, studentId)"
  "ev_sessionId (manual_event w now schoolId sessionId studentId rq i m n) = sessionId"
  "ev_statusValue (manual_event w now schoolId sessionId studentId rq i m n) = mr_newStatus rq"
  by (simp_all add: manual_event_def ev_key_def)

lemma manual_create_delta:
  assumes "manual_create w now schoolId sessionId studentId rq d = Inr (r, d')" "sessionId \<in> as_id ` set (t_sessions d)"
  shows "att_delta w d d'"
proof -
  define r0 where "r0 = (new_record (gen_uuid w (seq (d\<lparr>seq := Suc (seq d)\<rparr>))) schoolId sessionId studentId (mr_newStatus rq) now)
                \<lparr>ar_captureMethod := ''MANUAL'', ar_firstScannedAt := Some now\<rparr>"
  define d2 where "d2 x = (if truthy (mr_reason rq) then add_correction w now schoolId (ar_id r0) UNMARKED rq x else x)" for x
  define ev where "ev x = manual_event w now schoolId sessionId studentId rq (manual_event_id w now rq d)
     (JObj ((''note'', JStr ''Created via manual status change'') # reason_entry rq)) (seq (d2 x))" for x
  from assms(1) obtain d1 where i: "insert_record r0 (d\<lparr>seq := Suc (seq d)\<rparr>) = Inr d1"
    and e: "insert_event (ev d1) ((d2 d1)\<lparr>seq := Suc (seq (d2 d1))\<rparr>) = Inr d'"
    unfolding manual_create_def Let_def bind_result_Inr_iff r0_def d2_def ev_def by auto
  have ev: "ev_key (ev x) = (sessionId, studentId)" "ev_sessionId (ev x) = sessionId" "ev_statusValue (ev x) = mr_newStatus rq" for x
    by (simp_all add: ev_def)
  have d2: "t_events (d2 x) = t_events x" "t_records (d2 x) = t_records x" "t_sessions (d2 x) = t_sessions x" "seq x \<le> seq (d2 x)" for x
    by (simp_all add: d2_def)
  from i have d1: "t_records d1 = t_records d @ [r0]" "t_events d1 = t_events d" "t_sessions d1 = t_sessions d" "seq d1 = Suc (Suc (seq d))"
    and fresh: "(sessionId, studentId) \<notin> record_key ` set (t_records d)"
    by (auto simp: insert_record_def r0_def new_record_def record_key_def split: if_splits)
  from e d1 d2 [of d1] have "t_events d' = t_events d @ [ev d1]" "t_records d' = t_records d @ [r0]" "t_sessions d' = t_sessions d" "Suc (Suc (seq d)) \<le> seq d'"
    by (auto simp: insert_event_Inr)
  then show ?thesis
    by (intro att_delta_new [where e = "ev d1" and r = r0])
      (use ev assms(2) fresh in \<open>auto simp: r0_def new_record_def record_key_def minted_def\<close>)
qed

lemma manual_change_delta:
  assumes "manual_change w now schoolId sessionId status r rq d = Inr (r', d')" "att_inv w d"
    "sessionId \<in> as_id ` set (t_sessions d)" "r \<in> set (t_records d)" "ar_sessionId r = sessionId"
  shows "att_delta w d d'"
proof (cases "ar_status r = mr_newStatus rq")
  case True
  with assms(1) have "d' = d" by (simp add: manual_change_def)
  then show ?thesis by (simp add: att_delta_frame)
next
  case False
  let ?f = "\<lambda>x. x\<lparr>ar_status := mr_newStatus rq, ar_captureMethod := ''MANUAL'', ar_lastUpdatedAt := now\<rparr>"
  define d1 where "d1 = (if status = FINALIZED \<or> truthy (mr_reason rq)
      then add_correction w now schoolId (ar_id r) (ar_status r) rq (d\<lparr>seq := Suc (seq d)\<rparr>) else d\<lparr>seq := Suc (seq d)\<rparr>)"
  define ev where "ev = manual_event w now schoolId sessionId (ar_studentId r) rq (manual_event_id w now rq d)
     (JObj ([(''previousStatus'', JStr (attendance_name (ar_status r))),
             (''newStatus'', JStr (attendance_name (mr_newStatus rq)))] @ reason_entry rq)) (seq d1)"
  from assms(1) False obtain d2 where e: "insert_event ev (d1\<lparr>seq := Suc (seq d1)\<rparr>) = Inr d2"
    and d': "d' = onAttendanceCorrected w now (ar_id r) schoolId (ar_studentId r) (ar_status r) (mr_newStatus rq)
                  (d2\<lparr>t_records := upd (\<lambda>x. ar_id x = ar_id r) ?f (t_records d2)\<rparr>)"
    unfolding manual_change_def Let_def if_not_P [OF False] bind_result_Inr_iff d1_def ev_def by auto
  have ev: "ev_key ev = (sessionId, ar_studentId r)" "ev_sessionId ev = sessionId" "ev_statusValue ev = mr_newStatus rq"
    by (simp_all add: ev_def)
  have d1: "t_events d1 = t_events d" "t_records d1 = t_records d" "t_sessions d1 = t_sessions d" "seq d \<le> seq d1"
    by (simp_all add: d1_def)
  have "att_delta w d (d2\<lparr>t_records := upd (\<lambda>x. ar_id x = ar_id r) ?f (t_records d2)\<rparr>)"
    by (rule att_delta_mark [where e = ev and r = r and f = ?f])
      (use assms(2-5) ev e d1 in \<open>auto simp: insert_event_Inr record_key_def\<close>)
  then show ?thesis unfolding d' by (rule att_delta_same [OF _ same_attendance_corrected])
qed

lemma resolve_recordD:
  "resolve_record d schoolId sessionId rq = Some r \<Longrightarrow> r \<in> set (t_records d) \<and> ar_schoolId r = schoolId \<and> ar_sessionId r = sessionId"
  by (auto simp: resolve_record_def record_key_def dest: sel1_SomeD record_of_SomeD split: if_splits)

lemma manualStatusUpdateE:
  assumes "manualStatusUpdate w now schoolId sessionId rq d = Inr (r', d')"
  obtains s where "sel1 (\<lambda>s. as_schoolId s = schoolId \<and> as_id s = sessionId) (t_sessions d) = Some s"
    "verifyTeacherAssignment d schoolId (as_classSectionId s) (mr_actorId rq) (mr_userRole rq) = Inr ()"
    "as_status s = FINALIZED \<Longrightarrow> mr_userRole rq \<in> {''SUPER_ADMIN'', ''SCHOOL_ADMIN''} \<and> (\<exists>t. mr_reason rq = Some t \<and> js_trim t \<noteq> [])"
    "(\<exists>r. resolve_record d schoolId sessionId rq = Some r \<and> manual_change w now schoolId sessionId (as_status s) r rq d = Inr (r', d'))
     \<or> (resolve_record d schoolId sessionId rq = None \<and> (\<exists>st. mr_studentId rq = Some st \<and> manual_create w now schoolId sessionId st rq d = Inr (r', d')))"
proof -
  from assms obtain s where s: "sel1 (\<lambda>s. as_schoolId s = schoolId \<and> as_id s = sessionId) (t_sessions d) = Some s"
    "verifyTeacherAssignment d schoolId (as_classSectionId s) (mr_actorId rq) (mr_userRole rq) = Inr ()"
    by (auto simp: manualStatusUpdate_def bind_result_Inr_iff split: option.splits)
  with assms show thesis
    by (intro that [OF s]) (auto simp: manualStatusUpdate_def bind_result_Inr_iff elim!: truthyE split: option.splits if_splits)
qed

lemma manualStatusUpdate_delta:
  assumes "manualStatusUpdate w now schoolId sessionId rq d = Inr (r', d')" "att_inv w d"
  shows "att_delta w d d'"
  using assms(1)
proof (rule manualStatusUpdateE)
  fix s assume s: "sel1 (\<lambda>s. as_schoolId s = schoolId \<and> as_id s = sessionId) (t_sessions d) = Some s"
    and c: "(\<exists>r. resolve_record d schoolId sessionId rq = Some r \<and> manual_change w now schoolId sessionId (as_status s) r rq d = Inr (r', d'))
     \<or> (resolve_record d schoolId sessionId rq = None \<and> (\<exists>st. mr_studentId rq = Some st \<and> manual_create w now schoolId sessionId st rq d = Inr (r', d')))"
  from sel1_SomeD [OF s] have "sessionId \<in> as_id ` set (t_sessions d)" by auto
  with c assms(2) show ?thesis by (auto intro: manual_create_delta manual_change_delta dest: resolve_recordD)
qed

text \<open>A new session with its roster and its unmarked records.\<close>

lemma snapshot_roster_present:
  "snapshot_roster w schoolId sessionId es d = Inr d' \<Longrightarrow> x \<in> set (t_roster d) \<Longrightarrow> ro_sessionId x = sessionId \<Longrightarrow>
     ro_studentId x \<notin> set (map (\<lambda>p. st_id (snd p)) es)"
proof (induction es arbitrary: d)
  case (Cons p es)
  obtain e s where p: "p = (e, s)" by fastforce
  from Cons.prems(1) p obtain d1 where "snapshot_roster w schoolId sessionId es d1 = Inr d'" "x \<in> set (t_roster d1)" "ro_studentId x \<noteq> st_id s"
    using Cons.prems(2,3) by (auto simp: bind_result_Inr_iff insert_roster_def split: if_splits)
  with Cons.IH Cons.prems(3) p show ?case by simp
qed simp

lemma snapshot_roster_facts:
  "snapshot_roster w schoolId sessionId es d = Inr d' \<Longrightarrow>
     \<exists>new n. d' = d\<lparr>t_roster := t_roster d @ new, seq := n\<rparr> \<and> seq d \<le> n
       \<and> map ro_studentId new = map (\<lambda>p. st_id (snd p)) es \<and> map ro_enrollmentId new = map (\<lambda>p. en_id (fst p)) es
       \<and> (\<forall>ro \<in> set new. ro_sessionId ro = sessionId \<and> ro_schoolId ro = schoolId)
       \<and> distinct (map (\<lambda>p. st_id (snd p)) es)"
proof (induction es arbitrary: d)
  case Nil
  then show ?case by (intro exI [of _ "[]"] exI [of _ "seq d"]) simp
next
  case (Cons p es)
  obtain e s where p: "p = (e, s)" by fastforce
  define ro where "ro = \<lparr>ro_id = gen_uuid w (seq d), ro_schoolId = schoolId, ro_sessionId = sessionId,
          ro_studentId = st_id s, ro_enrollmentId = en_id e, ro_rollNumber = en_rollNumber e,
          ro_studentName = st_name s, ro_isExpected = True\<rparr>"
  from Cons.prems p have rest: "snapshot_roster w schoolId sessionId es (d\<lparr>t_roster := t_roster d @ [ro], seq := Suc (seq d)\<rparr>) = Inr d'"
    by (auto simp: bind_result_Inr_iff insert_roster_def ro_def split: if_splits)
  from Cons.IH [OF rest] obtain new n where n: "d' = d\<lparr>t_roster := t_roster d @ (ro # new), seq := n\<rparr>" "seq d \<le> n"
    "map ro_studentId new = map (\<lambda>p. st_id (snd p)) es" "map ro_enrollmentId new = map (\<lambda>p. en_id (fst p)) es"
    "\<forall>ro \<in> set new. ro_sessionId ro = sessionId \<and> ro_schoolId ro = schoolId" "distinct (map (\<lambda>p. st_id (snd p)) es)" by auto
  moreover have "st_id s \<notin> set (map (\<lambda>p. st_id (snd p)) es)"
    using snapshot_roster_present [OF rest, of ro] by (simp add: ro_def)
  ultimately show ?case
    by (intro exI [of _ "ro # new"] exI [of _ n]) (auto simp: p ro_def)
qed

lemma new_record_simps [simp]:
  "ar_id (new_record i schoolId sessionId st status now) = i"
  "ar_schoolId (new_record i schoolId sessionId st status now) = schoolId"
  "ar_status (new_record i schoolId sessionId st status now) = status"
  "record_key (new_record i schoolId sessionId st status now) = (sessionId, st)"
  by (simp_all add: new_record_def record_key_def)

lemma insert_record_Inr:
  "insert_record r d = Inr d' \<longleftrightarrow>
     record_key r \<notin> record_key ` set (t_records d) \<and> d' = d\<lparr>t_records := t_records d @ [r], seq := Suc (seq d)\<rparr>"
proof -
  have "(\<exists>x \<in> set (t_records d). ar_sessionId x = ar_sessionId r \<and> ar_studentId x = ar_studentId r)
    \<longleftrightarrow> record_key r \<in> record_key ` set (t_records d)"
    by (auto simp: record_key_def image_iff) metis
  then show ?thesis by (auto simp: insert_record_def)
qed

lemma init_records_facts:
  "init_records w now schoolId sessionId es d = Inr d' \<Longrightarrow>
     \<exists>new n. d' = d\<lparr>t_records := t_records d @ new, seq := n\<rparr> \<and> n = seq d + length es
       \<and> map ar_id new = map (gen_uuid w) [seq d..<n] \<and> map record_key new = map (\<lambda>p. (sessionId, st_id (snd p))) es
       \<and> (\<forall>r \<in> set new. ar_status r = UNMARKED \<and> ar_schoolId r = schoolId)
       \<and> distinct (map record_key new) \<and> record_key ` set new \<inter> record_key ` set (t_records d) = {}"
proof (induction es arbitrary: d)
  case Nil
  then show ?case by (intro exI [of _ "[]"] exI [of _ "seq d"]) simp
next
  case (Cons p es)
  obtain e s where p: "p = (e, s)" by fastforce
  define r where "r = new_record (gen_uuid w (seq d)) schoolId sessionId (st_id s) UNMARKED now"
  from Cons.prems p have rest: "init_records w now schoolId sessionId es (d\<lparr>t_records := t_records d @ [r], seq := Suc (seq d)\<rparr>) = Inr d'"
    and fresh: "record_key r \<notin> record_key ` set (t_records d)"
    by (auto simp: bind_result_Inr_iff insert_record_Inr r_def)
  let ?d1 = "d\<lparr>t_records := t_records d @ [r], seq := Suc (seq d)\<rparr>"
  from Cons.IH [OF rest] obtain new n where m: "d' = ?d1\<lparr>t_records := t_records ?d1 @ new, seq := n\<rparr>" "n = seq ?d1 + length es"
    "map ar_id new = map (gen_uuid w) [seq ?d1..<n]" "map record_key new = map (\<lambda>p. (sessionId, st_id (snd p))) es"
    "\<forall>r \<in> set new. ar_status r = UNMARKED \<and> ar_schoolId r = schoolId" "distinct (map record_key new)"
    "record_key ` set new \<inter> record_key ` set (t_records ?d1) = {}"
    by (elim exE conjE) (rule that)
  have d1: "t_records ?d1 = t_records d @ [r]" "seq ?d1 = Suc (seq d)" "set (t_records d @ [r]) = set (t_records d) \<union> {r}" by simp_all
  have "d' = d\<lparr>t_records := t_records d @ (r # new), seq := n\<rparr>" unfolding m(1) by simp
  moreover have "n = Suc (seq d + length es)" unfolding m(2) d1 by simp
  ultimately have n: "d' = d\<lparr>t_records := t_records d @ (r # new), seq := n\<rparr>" "n = Suc (seq d + length es)" .
  note n = n m(3-7) [unfolded d1]
  have ids: "map ar_id (r # new) = map (gen_uuid w) [seq d..<n]"
    unfolding n(2) using n(3) unfolding n(2) by (subst upt_conv_Cons) (simp_all add: r_def)
  have keys: "map record_key (r # new) = map (\<lambda>p. (sessionId, st_id (snd p))) (p # es)" using n(4) by (simp add: r_def p)
  have "distinct (map record_key (r # new))" using n(6,7) by auto
  moreover have "record_key ` set (r # new) \<inter> record_key ` set (t_records d) = {}" using n(7) fresh by auto
  moreover have "\<forall>r \<in> set (r # new). ar_status r = UNMARKED \<and> ar_schoolId r = schoolId" using n(5) by (simp add: r_def)
  ultimately show ?case
    using n(1,2) ids keys by (intro exI [of _ "r # new"] exI [of _ n] conjI; (assumption | simp add: n(2)))
qed

lemma createAuditLog_row:
  "\<exists>a. createAuditLog s actor action rt ri m d = d\<lparr>t_audit := t_audit d @ [a]\<rparr> \<and> au_action a = action
      \<and> au_resourceType a = rt \<and> au_resourceId a = js_or (Some ri) None"
  unfolding createAuditLog_def by (rule exI, rule conjI, rule refl, simp)

lemma activeEnrollments_frame [frame_simps]:
  "t_enrollments d' = t_enrollments d \<Longrightarrow> t_students d' = t_students d \<Longrightarrow> activeEnrollments d' s c = activeEnrollments d s c"
  by (simp add: activeEnrollments_def)

lemma createAttendanceSessionE:
  assumes "createAttendanceSession w now schoolId sec teacher date typ actor role d = Inr (s, det, isNew, d')"
  obtains (existing) "verifyTeacherAssignment d schoolId sec actor role = Inr ()"
      "sel1 (\<lambda>s. as_schoolId s = schoolId \<and> as_classSectionId s = sec \<and> as_sessionDate s = date \<and> as_sessionType s = typ)
         (t_sessions d) = Some s"
      "getAttendanceSessionDetails schoolId (as_id s) (Some (actor, role)) d = Inr det" "\<not> isNew" "d' = d"
  | (fresh) ro rs n m a where "verifyTeacherAssignment d schoolId sec actor role = Inr ()"
      "sel1 (\<lambda>s. as_schoolId s = schoolId \<and> as_classSectionId s = sec \<and> as_sessionDate s = date \<and> as_sessionType s = typ)
         (t_sessions d) = None" "isNew"
      "s = new_session (gen_uuid w (seq d)) schoolId sec teacher date typ now"
      "d' = d\<lparr>t_sessions := t_sessions d @ [s], t_roster := t_roster d @ ro, t_records := t_records d @ rs,
              t_audit := t_audit d @ [a], seq := m\<rparr>"
      "Suc (seq d) \<le> n" "m = n + length (activeEnrollments d schoolId sec)"
      "map ro_studentId ro = map (\<lambda>p. st_id (snd p)) (activeEnrollments d schoolId sec)"
      "map ro_enrollmentId ro = map (\<lambda>p. en_id (fst p)) (activeEnrollments d schoolId sec)"
      "\<forall>x \<in> set ro. ro_sessionId x = as_id s \<and> ro_schoolId x = schoolId"
      "map ar_id rs = map (gen_uuid w) [n..<m]"
      "map record_key rs = map (\<lambda>p. (as_id s, st_id (snd p))) (activeEnrollments d schoolId sec)"
      "\<forall>r \<in> set rs. ar_status r = UNMARKED \<and> ar_schoolId r = schoolId"
      "distinct (map record_key rs)" "record_key ` set rs \<inter> record_key ` set (t_records d) = {}"
      "getAttendanceSessionDetails schoolId (as_id s) None d' = Inr det"
proof -
  let ?found = "sel1 (\<lambda>s. as_schoolId s = schoolId \<and> as_classSectionId s = sec \<and> as_sessionDate s = date \<and> as_sessionType s = typ)
         (t_sessions d)"
  from assms have v: "verifyTeacherAssignment d schoolId sec actor role = Inr ()"
    by (auto simp: createAttendanceSession_def bind_result_Inr_iff)
  show thesis
  proof (cases ?found)
    case (Some x)
    with assms v show thesis by (intro existing) (auto simp: createAttendanceSession_def bind_result_Inr_iff)
  next
    case None
    let ?s = "new_session (gen_uuid w (seq d)) schoolId sec teacher date typ now"
    let ?act = "activeEnrollments d schoolId sec"
    let ?d1 = "d\<lparr>t_sessions := t_sessions d @ [?s], seq := Suc (seq d)\<rparr>"
    let ?au = "createAuditLog schoolId actor ''CREATE_ATTENDANCE_SESSION'' ''ATTENDANCE_SESSION'' (as_id ?s)
                       (JObj [(''classSectionId'', JStr sec), (''sessionDate'', JStr date), (''sessionType'', JStr typ)])"
    from assms None v obtain d2 d3 where
      sn: "snapshot_roster w schoolId (as_id ?s) ?act ?d1 = Inr d2" and ir: "init_records w now schoolId (as_id ?s) ?act d2 = Inr d3"
      and fin: "d' = ?au d3" "s = ?s" "isNew" "getAttendanceSessionDetails schoolId (as_id ?s) None (?au d3) = Inr det"
      by (auto simp: createAttendanceSession_def bind_result_Inr_iff Let_def)
    from snapshot_roster_facts [OF sn] obtain ro n where ro: "d2 = ?d1\<lparr>t_roster := t_roster d @ ro, seq := n\<rparr>" "Suc (seq d) \<le> n"
      "map ro_studentId ro = map (\<lambda>p. st_id (snd p)) ?act" "map ro_enrollmentId ro = map (\<lambda>p. en_id (fst p)) ?act"
      "\<forall>x \<in> set ro. ro_sessionId x = as_id ?s \<and> ro_schoolId x = schoolId" by auto
    have d2: "seq d2 = n" "t_records d2 = t_records d" unfolding ro(1) by simp_all
    from init_records_facts [OF ir, unfolded d2] obtain rs m where rs: "d3 = d2\<lparr>t_records := t_records d @ rs, seq := m\<rparr>" "m = n + length ?act"
      "map ar_id rs = map (gen_uuid w) [n..<m]" "map record_key rs = map (\<lambda>p. (as_id ?s, st_id (snd p))) ?act"
      "\<forall>r \<in> set rs. ar_status r = UNMARKED \<and> ar_schoolId r = schoolId" "distinct (map record_key rs)"
      "record_key ` set rs \<inter> record_key ` set (t_records d) = {}"
      by (elim exE conjE) (rule that)
    obtain a where a: "?au d3 = d3\<lparr>t_audit := t_audit d3 @ [a]\<rparr>"
      using createAuditLog_row by blast
    have d': "d' = d\<lparr>t_sessions := t_sessions d @ [s], t_roster := t_roster d @ ro, t_records := t_records d @ rs,
              t_audit := t_audit d @ [a], seq := m\<rparr>"
      unfolding fin(1,2) a unfolding rs(1) ro(1) by simp
    show thesis
      by (rule fresh [OF v None fin(3,2) d' ro(2) rs(2) ro(3,4) _ rs(3) _ rs(5,6,7)])
        (use ro(5) rs(4) fin in simp_all)
  qed
qed

text \<open>A session is opened with records that are all UNMARKED.\<close>

lemma att_delta_open:
  assumes "inj (gen_uuid w)" "att_inv w d"
    and "as_id s = gen_uuid w (seq d)" "t_sessions d' = t_sessions d @ [s]" "t_records d' = t_records d @ rs" "t_events d' = t_events d"
    and "seq d' = m" "Suc (seq d) \<le> n" "n \<le> m" "map ar_id rs = map (gen_uuid w) [n..<m]"
    and "fst ` record_key ` set rs \<subseteq> {as_id s}" "\<forall>r \<in> set rs. ar_status r = UNMARKED"
    and "distinct (map record_key rs)" "record_key ` set rs \<inter> record_key ` set (t_records d) = {}"
  shows "att_delta w d d'"
proof -
  from att_invD(3) [OF assms(2)] have "as_id s \<notin> as_id ` set (t_sessions d)" by (auto simp: assms(3) disjoint_iff)
  with att_invD(4) [OF assms(2)] have old: "as_id s \<notin> ev_sessionId ` set (t_events d)" by blast
  have ex: "explained (t_events d) [] r" if "r \<in> set rs" for r
  proof -
    from that assms(11) have "fst (record_key r) = as_id s" by blast
    with old assms(12) that show ?thesis by (auto simp: explained_def ev_key_def image_iff)
  qed
  have ids: "ar_id ` set rs \<subseteq> gen_uuid w ` {seq d..<m}"
    using arg_cong [OF assms(10), of set] assms(8) by auto
  have "distinct (map ar_id rs)"
    unfolding assms(10) using assms(1) by (simp add: distinct_map inj_on_def inj_def)
  with ids ex assms(3-9,13,14) show ?thesis unfolding att_delta_def
    by (intro exI [of _ "[]"] exI [of _ "t_records d"] exI [of _ rs]) (auto simp: list_all2_same follows_refl_iff minted_def)
qed

lemma createAttendanceSession_delta:
  assumes "createAttendanceSession w now schoolId sec teacher date typ actor role d = Inr (s, det, isNew, d')"
    "inj (gen_uuid w)" "att_inv w d"
  shows "att_delta w d d'"
  using assms(1)
proof (cases rule: createAttendanceSessionE)
  case existing
  then show ?thesis by (simp add: att_delta_frame)
next
  case (fresh ro rs n m a)
  have "fst ` record_key ` set rs \<subseteq> {as_id s}" using arg_cong [OF fresh(12), of set] by auto
  then show ?thesis
    by (intro att_delta_open [OF assms(2,3), of s d' rs m n]) (use fresh in \<open>simp_all add: new_session_def\<close>)
qed

text \<open>Changing the status of a session.\<close>

lemma auto_absent_event_simps [simp]:
  "ev_key (auto_absent_event w now schoolId sessionId st actor n) = (sessionId, st)"
  "ev_statusValue (auto_absent_event w now schoolId sessionId st actor n) = ABSENT"
  "ev_sessionId (auto_absent_event w now schoolId sessionId st actor n) = sessionId"
  "ev_eventType (auto_absent_event w now schoolId sessionId st actor n) = ''FINALIZATION_AUTO_ABSENT''"
  by (simp_all add: auto_absent_event_def ev_key_def)

lemma insert_auto_absent_facts:
  "insert_auto_absent w now schoolId sessionId actor rs d = Inr d' \<Longrightarrow>
     \<exists>evs n. d' = d\<lparr>t_events := t_events d @ evs, seq := n\<rparr> \<and> seq d \<le> n
       \<and> map ev_key evs = map (\<lambda>r. (sessionId, ar_studentId r)) rs
       \<and> (\<forall>e \<in> set evs. ev_statusValue e = ABSENT \<and> ev_sessionId e = sessionId \<and> ev_eventType e = ''FINALIZATION_AUTO_ABSENT'')"
proof (induction rs arbitrary: d)
  case Nil
  then show ?case by (intro exI [of _ "[]"] exI [of _ "seq d"]) simp
next
  case (Cons r rs)
  let ?e = "auto_absent_event w now schoolId sessionId (ar_studentId r) actor (seq d)"
  from Cons.prems have rest: "insert_auto_absent w now schoolId sessionId actor rs
      (d\<lparr>seq := Suc (Suc (seq d)), t_events := t_events d @ [?e]\<rparr>) = Inr d'"
    by (auto simp: bind_result_Inr_iff insert_event_Inr)
  from Cons.IH [OF rest] obtain evs n where "d' = d\<lparr>t_events := t_events d @ (?e # evs), seq := n\<rparr>" "Suc (Suc (seq d)) \<le> n"
    "map ev_key evs = map (\<lambda>r. (sessionId, ar_studentId r)) rs"
    "\<forall>e \<in> set evs. ev_statusValue e = ABSENT \<and> ev_sessionId e = sessionId \<and> ev_eventType e = ''FINALIZATION_AUTO_ABSENT''" by auto
  then show ?case
    by (intro exI [of _ "?e # evs"] exI [of _ n]) simp
qed

lemma auto_absent_facts:
  assumes "auto_absent w now schoolId sessionId actor d = Inr d'" "distinct (map ar_id (t_records d))"
  obtains evs n where "d' = d\<lparr>t_events := t_events d @ evs, seq := n,
      t_records := upd (is_unmarked schoolId sessionId) (\<lambda>r. r\<lparr>ar_status := ABSENT, ar_lastUpdatedAt := now\<rparr>) (t_records d)\<rparr>"
    "seq d \<le> n" "map ev_key evs = map record_key (filter (is_unmarked schoolId sessionId) (t_records d))"
    "\<And>e. e \<in> set evs \<Longrightarrow> ev_statusValue e = ABSENT \<and> ev_sessionId e = sessionId \<and> ev_eventType e = ''FINALIZATION_AUTO_ABSENT''"
proof -
  let ?p = "is_unmarked schoolId sessionId" and ?f = "\<lambda>r. r\<lparr>ar_status := ABSENT, ar_lastUpdatedAt := now\<rparr>"
  let ?u = "filter ?p (t_records d)"
  have key: "map (\<lambda>r. (sessionId, ar_studentId r)) ?u = map record_key ?u"
    by (rule map_cong) (auto simp: is_unmarked_def record_key_def)
  show thesis
  proof (cases "?u = []")
    case True
    then have "upd ?p ?f (t_records d) = t_records d" by (intro upd_id) (auto simp: filter_empty_conv)
    moreover from assms(1) True have "d' = d" by (simp add: auto_absent_def)
    ultimately show thesis using True by (intro that [of "seq d" "[]"]) simp_all
  next
    case False
    with assms(1) obtain d1 where d1: "insert_auto_absent w now schoolId sessionId actor ?u d = Inr d1"
      and d': "d' = d1\<lparr>t_records := upd (\<lambda>r. ar_id r \<in> ar_id ` set ?u) ?f (t_records d1)\<rparr>"
      by (auto simp: auto_absent_def bind_result_Inr_iff Let_def simp del: set_filter)
    from insert_auto_absent_facts [OF d1] obtain evs n where ev: "d1 = d\<lparr>t_events := t_events d @ evs, seq := n\<rparr>" "seq d \<le> n"
      "map ev_key evs = map (\<lambda>r. (sessionId, ar_studentId r)) ?u"
      "\<forall>e \<in> set evs. ev_statusValue e = ABSENT \<and> ev_sessionId e = sessionId \<and> ev_eventType e = ''FINALIZATION_AUTO_ABSENT''" by auto
    have "(ar_id r \<in> ar_id ` set ?u) = ?p r" if "r \<in> set (t_records d)" for r
      using assms(2) that by (auto simp: distinct_map inj_on_eq_iff)
    then have "upd (\<lambda>r. ar_id r \<in> ar_id ` set ?u) ?f (t_records d) = upd ?p ?f (t_records d)"
      unfolding upd_def by (intro map_cong) (simp_all del: set_filter)
    with ev d' show thesis unfolding key by (intro that [of n evs]) simp_all
  qed
qed

lemma auto_absent_delta:
  assumes "auto_absent w now schoolId sessionId actor d = Inr d'" "att_inv w d" "sessionId \<in> as_id ` set (t_sessions d)"
  shows "att_delta w d d'"
proof -
  let ?p = "is_unmarked schoolId sessionId" and ?f = "\<lambda>r. r\<lparr>ar_status := ABSENT, ar_lastUpdatedAt := now\<rparr>"
  obtain evs n where d': "d' = d\<lparr>t_events := t_events d @ evs, seq := n,
      t_records := upd ?p ?f (t_records d)\<rparr>" and n: "seq d \<le> n" and keys: "map ev_key evs = map record_key (filter ?p (t_records d))"
    and ev: "\<And>e. e \<in> set evs \<Longrightarrow> ev_statusValue e = ABSENT \<and> ev_sessionId e = sessionId \<and> ev_eventType e = ''FINALIZATION_AUTO_ABSENT''"
    by (rule auto_absent_facts [OF assms(1) att_invD(1) [OF assms(2)]]) (rule that)
  have mem: "record_key r \<in> ev_key ` set evs \<longleftrightarrow> ?p r" if r: "r \<in> set (t_records d)" for r
  proof -
    have "ev_key ` set evs = record_key ` {x \<in> set (t_records d). ?p x}" using arg_cong [OF keys, of set] by simp
    with att_invD(2) [OF assms(2)] r show ?thesis by (auto simp: distinct_map inj_on_eq_iff)
  qed
  have "follows evs r (if ?p r then ?f r else r)" if r: "r \<in> set (t_records d)" for r
    using mem [OF r] ev by (auto simp: follows_def record_key_def)
  then have "list_all2 (follows evs) (t_records d) (t_records d')"
    unfolding d' upd_def by (simp add: follows_map)
  with n ev assms(3) show ?thesis unfolding att_delta_def
    by (intro exI [of _ evs] exI [of _ "t_records d'"] exI [of _ "[]"]) (auto simp: d')
qed

lemma set_status_simps [simp]:
  "as_id (set_status new now actor s) = as_id s" "as_status (set_status new now actor s) = new"
  "as_schoolId (set_status new now actor s) = as_schoolId s"
  "as_classSectionId (set_status new now actor s) = as_classSectionId s"
  by (simp_all add: set_status_def Let_def)

text \<open>What a change of status is made of.\<close>

lemma updateSessionStatusE:
  assumes "updateSessionStatus w now schoolId sessionId actor role new reason auto d = Inr (s', d')"
  obtains s d1 d2 a out where
      "sel1 (\<lambda>s. as_schoolId s = schoolId \<and> as_id s = sessionId) (t_sessions d) = Some s"
      "verifyTeacherAssignment d schoolId (as_classSectionId s) actor role = Inr ()"
      "transition_guard (as_status s) new role reason = Inr ()"
      "(if new = FINALIZED \<and> auto then auto_absent w now schoolId sessionId actor d else Inr d) = Inr d1"
      "s' = set_status new now actor s"
      "d2 = d1\<lparr>t_sessions := upd (\<lambda>s. as_schoolId s = schoolId \<and> as_id s = sessionId) (set_status new now actor) (t_sessions d1),
               t_audit := t_audit d1 @ [a]\<rparr>"
      "au_action a = ''SESSION_STATUS_'' @ status_name new" "au_resourceId a = js_or (Some sessionId) None"
      "if new = FINALIZED then createAbsenceNotificationJobs w now schoolId sessionId d2 = Inr (out, d') else d' = d2"
proof -
  from assms obtain s d1 where s: "sel1 (\<lambda>s. as_schoolId s = schoolId \<and> as_id s = sessionId) (t_sessions d) = Some s"
    "verifyTeacherAssignment d schoolId (as_classSectionId s) actor role = Inr ()"
    "transition_guard (as_status s) new role reason = Inr ()"
    and d1: "(if new = FINALIZED \<and> auto then auto_absent w now schoolId sessionId actor d else Inr d) = Inr d1"
    by (auto simp: updateSessionStatus_def bind_result_Inr_iff split: option.splits)
  let ?m = "JObj ([(''previousStatus'', JStr (status_name (as_status s))), (''newStatus'', JStr (status_name new))]
                            @ (case reason of None \<Rightarrow> [] | Some r \<Rightarrow> [(''reason'', JStr r)]))"
  let ?ses = "d1\<lparr>t_sessions := upd (\<lambda>s. as_schoolId s = schoolId \<and> as_id s = sessionId) (set_status new now actor) (t_sessions d1)\<rparr>"
  obtain a where a: "createAuditLog schoolId actor (''SESSION_STATUS_'' @ status_name new) ''ATTENDANCE_SESSION'' sessionId ?m ?ses
      = ?ses\<lparr>t_audit := t_audit ?ses @ [a]\<rparr>" "au_action a = ''SESSION_STATUS_'' @ status_name new" "au_resourceId a = js_or (Some sessionId) None"
    using createAuditLog_row by blast
  show thesis
  proof (cases "new = FINALIZED")
    case True
    with assms s d1 a(1) obtain out where "s' = set_status new now actor s"
      "createAbsenceNotificationJobs w now schoolId sessionId (?ses\<lparr>t_audit := t_audit ?ses @ [a]\<rparr>) = Inr (out, d')"
      by (auto simp: updateSessionStatus_def bind_result_Inr_iff Let_def)
    with True show thesis by (intro that [OF s d1 _ refl a(2,3)]) simp_all
  next
    case False
    with assms s d1 a(1) have "s' = set_status new now actor s" "d' = ?ses\<lparr>t_audit := t_audit ?ses @ [a]\<rparr>"
      by (auto simp: updateSessionStatus_def bind_result_Inr_iff Let_def)
    with False show thesis by (intro that [OF s d1 _ refl a(2,3)]) simp_all
  qed
qed

lemma att_delta_sessions_upd:
  assumes "att_delta w d d1" "\<And>s. as_id (f s) = as_id s"
  shows "att_delta w d (d1\<lparr>t_sessions := upd p f (t_sessions d1), t_audit := a\<rparr>)"
proof -
  have "as_id ` set (upd p f (t_sessions d1)) = as_id ` set (t_sessions d1)"
    using arg_cong [OF map_key_upd [of as_id f p "t_sessions d1", OF assms(2)], of set] by simp
  with assms(1) show ?thesis by (simp add: att_delta_def minted_def)
qed

lemma updateSessionStatus_delta:
  assumes "updateSessionStatus w now schoolId sessionId actor role new reason auto d = Inr (s', d')" "att_inv w d"
  shows "att_delta w d d'"
  using assms(1)
proof (rule updateSessionStatusE)
  fix s d1 d2 a out
  assume s: "sel1 (\<lambda>s. as_schoolId s = schoolId \<and> as_id s = sessionId) (t_sessions d) = Some s"
    and d1: "(if new = FINALIZED \<and> auto then auto_absent w now schoolId sessionId actor d else Inr d) = Inr d1"
    and d2: "d2 = d1\<lparr>t_sessions := upd (\<lambda>s. as_schoolId s = schoolId \<and> as_id s = sessionId) (set_status new now actor) (t_sessions d1),
               t_audit := t_audit d1 @ [a]\<rparr>"
    and fin: "if new = FINALIZED then createAbsenceNotificationJobs w now schoolId sessionId d2 = Inr (out, d') else d' = d2"
  from sel1_SomeD [OF s] have "sessionId \<in> as_id ` set (t_sessions d)" by auto
  with d1 assms(2) have "att_delta w d d1" by (auto intro: auto_absent_delta att_delta_frame split: if_splits)
  then have "att_delta w d d2" unfolding d2 by (rule att_delta_sessions_upd) simp
  with fin show ?thesis by (auto intro: att_delta_same createAbsence_same split: if_splits)
qed

lemmas finalize_delta = updateSessionStatus_delta [where new = FINALIZED, folded finalizeAttendanceSession_def]

end
