(* ===== verification/Qr.thy ===== *)
theory Qr
  imports Schema Audit_Entry
begin

text \<open>
  Models src/src/services/qrService.ts (QR credentials: issue, revocation, reissue, verification, issue
  for a section; the print sheet is HTML and not modelled) and src/src/services/deviceService.ts (the
  phones a school authorizes).  The raw token is 32 random bytes in hexadecimal, \<open>gen_token\<close>; only its
  digest is stored.
\<close>

section \<open>QR credentials\<close>

text \<open>The two unique indexes: school and digest; one ACTIVE credential of a student.\<close>

definition qr_clash :: "qr_credential \<Rightarrow> qr_credential \<Rightarrow> bool" where
  "qr_clash a b \<longleftrightarrow> qr_schoolId a = qr_schoolId b \<and>
     (qr_tokenDigest a = qr_tokenDigest b
      \<or> (qr_studentId a = qr_studentId b \<and> qr_status a = ''ACTIVE'' \<and> qr_status b = ''ACTIVE''))"

definition insert_qr :: "qr_credential \<Rightarrow> qr_credential list \<Rightarrow> qr_credential list option" where
  "insert_qr c t = (if \<exists>x \<in> set t. qr_clash x c then None else Some (t @ [c]))"

interpretation qr_index: unique_index qr_clash insert_qr
  by unfold_locales (auto simp: qr_clash_def insert_qr_def)

definition generateSecureQrToken :: "world \<Rightarrow> nat \<Rightarrow> string \<times> string" where
  "generateSecureQrToken w n = (gen_token w n, sha256 w (gen_token w n))"

definition latest_version :: "uuid \<Rightarrow> uuid \<Rightarrow> db \<Rightarrow> int" where
  "latest_version schoolId studentId d =
     (case sort_key (\<lambda>c. - qr_version c)
             (filter (\<lambda>c. qr_schoolId c = schoolId \<and> qr_studentId c = studentId) (t_qrCredentials d)) of
        [] \<Rightarrow> 0 | latest # _ \<Rightarrow> qr_version latest)"

definition createQrCredential ::
  "world \<Rightarrow> instant \<Rightarrow> uuid \<Rightarrow> uuid \<Rightarrow> db \<Rightarrow> (db \<times> qr_credential \<times> string) result" where
  "createQrCredential w now schoolId studentId d =
     (case generateSecureQrToken w (seq d) of (rawToken, tokenDigest) \<Rightarrow>
        let c = \<lparr>qr_id = gen_uuid w (seq d), qr_schoolId = schoolId, qr_studentId = studentId,
                 qr_tokenDigest = tokenDigest, qr_version = latest_version schoolId studentId d + 1,
                 qr_status = ''ACTIVE'', qr_issuedAt = now, qr_revokedAt = None\<rparr>
        in case insert_qr c (t_qrCredentials d) of
             None \<Rightarrow> Inl (DbErr ''qr_credentials unique index'')
           | Some t \<Rightarrow> Inr (d\<lparr>t_qrCredentials := t, seq := Suc (seq d)\<rparr>, c, rawToken))"

definition active_qr :: "uuid \<Rightarrow> uuid \<Rightarrow> qr_credential \<Rightarrow> bool" where
  "active_qr schoolId studentId c \<longleftrightarrow>
     qr_schoolId c = schoolId \<and> qr_studentId c = studentId \<and> qr_status c = ''ACTIVE''"

definition revoke_row :: "instant \<Rightarrow> qr_credential \<Rightarrow> qr_credential" where
  "revoke_row now c = c\<lparr>qr_status := ''REVOKED'', qr_revokedAt := Some now\<rparr>"

definition revokeQrCredential :: "instant \<Rightarrow> uuid \<Rightarrow> uuid \<Rightarrow> db \<Rightarrow> db \<times> qr_credential option" where
  "revokeQrCredential now schoolId studentId d =
     (d\<lparr>t_qrCredentials := upd (active_qr schoolId studentId) (revoke_row now) (t_qrCredentials d)\<rparr>,
      map_option (revoke_row now) (sel1 (active_qr schoolId studentId) (t_qrCredentials d)))"

definition reissueQrCredential ::
  "world \<Rightarrow> instant \<Rightarrow> uuid \<Rightarrow> uuid \<Rightarrow> db \<Rightarrow> (db \<times> qr_credential \<times> string) result" where
  "reissueQrCredential w now schoolId studentId d =
     createQrCredential w now schoolId studentId (fst (revokeQrCredential now schoolId studentId d))"

text \<open>The credential joined with its student; \<open>None\<close> is \<open>valid: false\<close> with INVALID_OR_REVOKED_QR.\<close>

definition verifyQrToken :: "world \<Rightarrow> uuid \<Rightarrow> string \<Rightarrow> db \<Rightarrow> (qr_credential \<times> student) option" where
  "verifyQrToken w schoolId rawToken d =
     sel1 (\<lambda>(c, s). qr_schoolId c = schoolId \<and> qr_tokenDigest c = sha256 w rawToken \<and> qr_status c = ''ACTIVE'')
       (concat (map (\<lambda>c. map (\<lambda>s. (c, s)) (filter (\<lambda>s. st_id s = qr_studentId c) (t_students d))) (t_qrCredentials d)))"

record issued_qr =
  iq_studentId :: uuid
  iq_rawToken :: string
  iq_version :: int

text \<open>One row per active enrolment of an active student in the section.\<close>

definition class_students :: "uuid \<Rightarrow> uuid \<Rightarrow> db \<Rightarrow> uuid list" where
  "class_students schoolId classSectionId d =
     concat (map (\<lambda>s. map (\<lambda>e. st_id s)
         (filter (\<lambda>e. en_studentId e = st_id s \<and> en_status e = ''ACTIVE'' \<and> en_classSectionId e = classSectionId) (t_enrollments d)))
       (filter (\<lambda>s. st_schoolId s = schoolId \<and> st_status s = ''ACTIVE'') (t_students d)))"

fun issue_each :: "world \<Rightarrow> instant \<Rightarrow> uuid \<Rightarrow> uuid list \<Rightarrow> db \<Rightarrow> (db \<times> issued_qr list) result" where
  "issue_each w now schoolId [] d = Inr (d, [])"
| "issue_each w now schoolId (s # ss) d =
     (if sel1 (active_qr schoolId s) (t_qrCredentials d) \<noteq> None then issue_each w now schoolId ss d
      else bind_result (createQrCredential w now schoolId s d) (\<lambda>(d1, c, rawToken).
           bind_result (issue_each w now schoolId ss d1) (\<lambda>(d2, issued).
             Inr (d2, \<lparr>iq_studentId = s, iq_rawToken = rawToken, iq_version = qr_version c\<rparr> # issued))))"

definition bulkIssueQrsForClass :: "world \<Rightarrow> instant \<Rightarrow> uuid \<Rightarrow> uuid \<Rightarrow> db \<Rightarrow> (db \<times> issued_qr list) result" where
  "bulkIssueQrsForClass w now schoolId classSectionId d =
     issue_each w now schoolId (class_students schoolId classSectionId d) d"

section \<open>Devices\<close>

definition same_device :: "uuid \<Rightarrow> string \<Rightarrow> device \<Rightarrow> bool" where
  "same_device schoolId deviceIdentifier v \<longleftrightarrow> de_schoolId v = schoolId \<and> de_deviceIdentifier v = deviceIdentifier"

definition registerDevice ::
  "world \<Rightarrow> instant \<Rightarrow> uuid \<Rightarrow> uuid \<Rightarrow> string \<Rightarrow> string option \<Rightarrow> db \<Rightarrow> (db \<times> device) result" where
  "registerDevice w now schoolId userId deviceIdentifier deviceModel d =
     (case sel1 (same_device schoolId deviceIdentifier) (t_devices d) of
        Some dev \<Rightarrow> if de_status dev = ''REVOKED'' then Inl (JsErr ''DEVICE_REVOKED'') else Inr (d, dev)
      | None \<Rightarrow>
          let dev = \<lparr>de_id = gen_uuid w (seq d), de_schoolId = schoolId, de_userId = userId,
                     de_deviceIdentifier = deviceIdentifier,
                     de_deviceModel = the (js_or deviceModel (Some ''Android PWA Device'')),
                     de_status = ''AUTHORIZED'', de_lastSyncedAt = None, de_updatedAt = now\<rparr>
          in Inr (createAuditLog schoolId userId ''REGISTER_DEVICE'' ''DEVICE'' (de_id dev)
                    (JObj [(''deviceIdentifier'', JStr deviceIdentifier)])
                    (d\<lparr>t_devices := t_devices d @ [dev], seq := Suc (seq d)\<rparr>), dev))"

definition revokeDevice :: "instant \<Rightarrow> uuid \<Rightarrow> uuid \<Rightarrow> uuid \<Rightarrow> db \<Rightarrow> db \<times> device option" where
  "revokeDevice now schoolId deviceId actorId d =
     (let p = (\<lambda>v. de_id v = deviceId \<and> de_schoolId v = schoolId);
          f = (\<lambda>v. v\<lparr>de_status := ''REVOKED'', de_updatedAt := now\<rparr>);
          d1 = d\<lparr>t_devices := upd p f (t_devices d)\<rparr>
      in case sel1 p (t_devices d) of
           None \<Rightarrow> (d1, None)
         | Some v \<Rightarrow> (createAuditLog schoolId actorId ''REVOKE_DEVICE'' ''DEVICE'' deviceId JNull d1, Some (f v)))"

text \<open>\<open>Inl\<close> is \<open>valid: false\<close> with its reason.\<close>

definition validateDeviceStatus :: "uuid \<Rightarrow> string \<Rightarrow> db \<Rightarrow> string + device" where
  "validateDeviceStatus schoolId deviceIdentifier d =
     (case sel1 (same_device schoolId deviceIdentifier) (t_devices d) of
        None \<Rightarrow> Inl ''DEVICE_NOT_FOUND''
      | Some v \<Rightarrow> if de_status v = ''REVOKED'' then Inl ''DEVICE_REVOKED'' else Inr v)"

section \<open>Properties\<close>

definition qrs_unique :: "qr_credential list \<Rightarrow> bool" where
  "qrs_unique t \<longleftrightarrow> sorted_wrt (\<lambda>a b. \<not> qr_clash a b) t"

lemma createQrCredentialE:
  assumes "createQrCredential w now sid s d = Inr (d', c, raw)"
  shows "insert_qr c (t_qrCredentials d) = Some (t_qrCredentials d') \<and> raw = gen_token w (seq d)
    \<and> t_qrCredentials d' = t_qrCredentials d @ [c]
    \<and> qr_tokenDigest c = sha256 w raw \<and> active_qr sid s c \<and> qr_version c = latest_version sid s d + 1
    \<and> t_students d' = t_students d"
  using assms qr_index.insert_Some_iff
  by (auto simp: createQrCredential_def generateSecureQrToken_def Let_def active_qr_def split: option.splits)

lemma qrs_unique_revoke: "qrs_unique t \<Longrightarrow> qrs_unique (upd (active_qr sid s) (revoke_row now) t)"
proof -
  have "\<not> qr_clash (if active_qr sid s a then revoke_row now a else a) (if active_qr sid s b then revoke_row now b else b)"
    if "\<not> qr_clash a b" for a b
    using that by (auto simp: qr_clash_def revoke_row_def)
  then show "qrs_unique (upd (active_qr sid s) (revoke_row now) t)" if "qrs_unique t"
    using that unfolding qrs_unique_def upd_def sorted_wrt_map by (intro sorted_wrt_mono_rel [OF _ that [unfolded qrs_unique_def]]) blast
qed

lemma sorted_wrt_unique:
  assumes "qrs_unique t" "a \<in> set t" "b \<in> set t" "qr_clash a b"
  shows "a = b"
  using assms
proof (induction t)
  case (Cons c t)
  have "qr_clash b a" using Cons.prems(4) by (auto simp: qr_clash_def)
  with Cons show ?case by (auto simp: qrs_unique_def)
qed simp

lemma verifyQrToken_SomeD:
  assumes "verifyQrToken w sid raw d = Some (c, st)"
  shows "c \<in> set (t_qrCredentials d) \<and> qr_schoolId c = sid \<and> qr_tokenDigest c = sha256 w raw
    \<and> qr_status c = ''ACTIVE'' \<and> st \<in> set (t_students d) \<and> st_id st = qr_studentId c"
  using sel1_SomeD [OF assms [unfolded verifyQrToken_def]] by auto

lemma verifyQrToken_finds:
  assumes "c \<in> set (t_qrCredentials d)" "qr_schoolId c = sid" "qr_tokenDigest c = sha256 w raw" "qr_status c = ''ACTIVE''"
    "st \<in> set (t_students d)" "st_id st = qr_studentId c"
  shows "\<exists>p. verifyQrToken w sid raw d = Some p"
proof (rule ccontr)
  assume "\<nexists>p. verifyQrToken w sid raw d = Some p"
  then have "verifyQrToken w sid raw d = None" by (cases "verifyQrToken w sid raw d") auto
  then show False unfolding verifyQrToken_def sel1_None_iff using assms by auto
qed

text \<open>
  C38: Reissuing the QR code of a student makes the new token, and no earlier one, open the student's
  record: the token handed out verifies to the new credential, every token verified before for that
  student is refused, and other students' tokens verify as before.  The hash is taken to have no
  collision between the new token and an old one.
\<close>

theorem reissue_replaces_the_token:
  assumes "qrs_unique (t_qrCredentials d)" "reissueQrCredential w now sid s d = Inr (d', c, raw)"
    and "st \<in> set (t_students d)" "st_id st = s"
    and "verifyQrToken w sid old d = Some (c0, st0)" "sha256 w old \<noteq> sha256 w raw"
  shows "(\<exists>st'. verifyQrToken w sid raw d' = Some (c, st') \<and> st_id st' = s)
    \<and> (qr_studentId c0 = s \<longrightarrow> verifyQrToken w sid old d' = None)
    \<and> (qr_studentId c0 \<noteq> s \<longrightarrow> (\<exists>st'. verifyQrToken w sid old d' = Some (c0, st') \<and> st_id st' = qr_studentId c0))"
proof -
  define d1 where "d1 = fst (revokeQrCredential now sid s d)"
  have t1: "t_qrCredentials d1 = upd (active_qr sid s) (revoke_row now) (t_qrCredentials d)" "t_students d1 = t_students d"
    by (simp_all add: d1_def revokeQrCredential_def)
  note e = createQrCredentialE [OF assms(2) [unfolded reissueQrCredential_def, folded d1_def]]
  have rows: "t_qrCredentials d' = t_qrCredentials d1 @ [c]" and studs: "t_students d' = t_students d"
    using e t1(2) by simp_all
  have uniq: "qrs_unique (t_qrCredentials d')"
    using qr_index.insert_keeps_unique e qrs_unique_revoke [OF assms(1)] t1(1) unfolding qrs_unique_def by metis
  note v0 = verifyQrToken_SomeD [OF assms(5)]
  have found: "\<exists>st'. verifyQrToken w sid tok d' = Some (x, st') \<and> st_id st' = qr_studentId x"
    if "x \<in> set (t_qrCredentials d')" "qr_schoolId x = sid" "qr_tokenDigest x = sha256 w tok" "qr_status x = ''ACTIVE''"
      "st1 \<in> set (t_students d)" "st_id st1 = qr_studentId x" for x tok st1
  proof -
    note x = that
    obtain x' st' where v: "verifyQrToken w sid tok d' = Some (x', st')"
      using verifyQrToken_finds [OF x(1-4), of st1] x(5,6) studs by auto
    note f = verifyQrToken_SomeD [OF v]
    then have "qr_clash x' x" using x by (simp add: qr_clash_def)
    then have "x' = x" using sorted_wrt_unique [OF uniq] f x(1) by blast
    with v f show ?thesis by blast
  qed
  have new: "\<exists>st'. verifyQrToken w sid raw d' = Some (c, st') \<and> st_id st' = s"
    using found [of c raw st] e rows assms(3,4) by (auto simp: active_qr_def)
  have gone: "verifyQrToken w sid old d' = None" if "qr_studentId c0 = s"
  proof (rule ccontr)
    assume "verifyQrToken w sid old d' \<noteq> None"
    then obtain c1 st1 where v1: "verifyQrToken w sid old d' = Some (c1, st1)" by auto
    note f = verifyQrToken_SomeD [OF v1]
    have "c1 \<noteq> c" using f e assms(6) by auto
    then obtain x where x: "x \<in> set (t_qrCredentials d)" "c1 = (if active_qr sid s x then revoke_row now x else x)"
      using f unfolding rows t1(1) in_upd [symmetric] by (auto simp: in_upd)
    then have c1: "c1 = x" "\<not> active_qr sid s x" using f by (auto simp: revoke_row_def split: if_splits)
    then have "c1 = c0" using sorted_wrt_unique [OF assms(1)] x(1) v0 f by (auto simp: qr_clash_def)
    with c1 v0 that show False by (simp add: active_qr_def)
  qed
  have kept: "\<exists>st'. verifyQrToken w sid old d' = Some (c0, st') \<and> st_id st' = qr_studentId c0" if "qr_studentId c0 \<noteq> s"
  proof -
    have "c0 \<in> set (t_qrCredentials d')"
      unfolding rows t1(1) using v0 that by (force simp: in_upd active_qr_def)
    with found [of c0 old st0] v0 show ?thesis by blast
  qed
  show ?thesis using new gone kept by blast
qed

definition example_qr_db :: db where
  "example_qr_db = empty_db\<lparr>t_students := [\<lparr>st_id = ''p'', st_schoolId = ''s'', st_studentCode = [49],
        st_banglarShikshaId = None, st_name = [65], st_nameBn = None, st_dateOfBirth = None, st_gender = None,
        st_photoUrl = None, st_status = ''ACTIVE''\<rparr>],
     t_qrCredentials := [\<lparr>qr_id = ''q'', qr_schoolId = ''s'', qr_studentId = ''p'', qr_tokenDigest = ''old'',
        qr_version = 1, qr_status = ''ACTIVE'', qr_issuedAt = 0, qr_revokedAt = None\<rparr>]\<rparr>"

theorem reissue_replaces_the_token_witness:
  "\<exists>d' c. reissueQrCredential example_world 9 ''s'' ''p'' example_qr_db = Inr (d', c, ''tok-0'')
     \<and> verifyQrToken example_world ''s'' ''old'' d' = None"
proof -
  have "map_sum id (snd \<circ> snd) (reissueQrCredential example_world 9 ''s'' ''p'' example_qr_db) = Inr ''tok-0''" by code_simp
  then obtain d' c where r: "reissueQrCredential example_world 9 ''s'' ''p'' example_qr_db = Inr (d', c, ''tok-0'')"
    by (cases "reissueQrCredential example_world 9 ''s'' ''p'' example_qr_db") auto
  have u: "qrs_unique (t_qrCredentials example_qr_db)" by (simp add: example_qr_db_def qrs_unique_def)
  obtain c0 st0 where v: "verifyQrToken example_world ''s'' ''old'' example_qr_db = Some (c0, st0)" "qr_studentId c0 = ''p''"
    by (simp add: verifyQrToken_def example_qr_db_def example_world_def)
  have "sha256 example_world ''old'' \<noteq> sha256 example_world ''tok-0''" by (simp add: example_world_def)
  from reissue_replaces_the_token [OF u r _ _ v(1) this, of "hd (t_students example_qr_db)"] v(2) r
  show ?thesis by (auto simp: example_qr_db_def)
qed

text \<open>A revoked phone stays revoked under its identifier: it cannot be registered again.\<close>

lemma revoked_device_stays_out:
  assumes "validateDeviceStatus sid ident d = Inl ''DEVICE_REVOKED''"
  shows "registerDevice w now sid u ident model d = Inl (JsErr ''DEVICE_REVOKED'')"
  using assms by (auto simp: validateDeviceStatus_def registerDevice_def split: option.splits if_splits)

end
