(* ===== verification/Sync.thy ===== *)
theory Sync
  imports Attendance_Log Qr
begin

text \<open>
  Models src/src/services/syncService.ts: the roster package a phone downloads and the upload of the
  scans it collected offline.  Sessions opened offline are matched to sessions of the server, then every
  event goes through \<open>processQRCode\<close>.  The call runs in the transaction of its request, which commits
  when the answer is sent, whatever its status: \<open>after_failed_sync\<close> is what a call that throws leaves.
  An error of the database inside a savepoint only rejects the event; the insert of a duplicate scan
  has none and aborts the request.
\<close>

section \<open>The offline package\<close>

record offline_student =
  os_studentId :: uuid
  os_studentCode :: ustring
  os_banglarShikshaId :: "ustring option"
  os_name :: ustring
  os_nameBn :: "ustring option"
  os_rollNumber :: int
  os_photoUrl :: "string option"
  os_sha256TokenHash :: "string option"
  os_isRevoked :: bool

record offline_package =
  op_schoolId :: uuid
  op_classSectionId :: uuid
  op_className :: ustring
  op_sectionName :: ustring
  op_downloadedAt :: instant
  op_students :: "offline_student list"

definition is_admin :: "string \<Rightarrow> bool" where
  "is_admin role \<longleftrightarrow> role \<in> {''SUPER_ADMIN'', ''SCHOOL_ADMIN''}"

definition assigned :: "db \<Rightarrow> uuid \<Rightarrow> uuid \<Rightarrow> uuid \<Rightarrow> bool" where
  "assigned d schoolId teacherId classSectionId \<longleftrightarrow>
     (\<exists>t \<in> set (t_teacherAssignments d). ta_schoolId t = schoolId \<and> ta_teacherId t = teacherId
        \<and> ta_classSectionId t = classSectionId)"

text \<open>The last active credential of a student in table order; only active ones are selected.\<close>

definition qr_hash_of :: "db \<Rightarrow> uuid \<Rightarrow> uuid \<Rightarrow> string option" where
  "qr_hash_of d schoolId studentId =
     map_of (js_map (map (\<lambda>c. (qr_studentId c, qr_tokenDigest c))
       (filter (\<lambda>c. qr_schoolId c = schoolId \<and> qr_status c = ''ACTIVE'') (t_qrCredentials d)))) studentId"

definition getOfflineRosterPackage ::
  "instant \<Rightarrow> uuid \<Rightarrow> uuid \<Rightarrow> uuid option \<Rightarrow> string option \<Rightarrow> db \<Rightarrow> offline_package result" where
  "getOfflineRosterPackage now schoolId classSectionId actorId userRole d =
     (case sel1 (\<lambda>c. cs_id c = classSectionId \<and> cs_schoolId c = schoolId) (t_classSections d) of
        None \<Rightarrow> Inl (JsErr ''CLASS_SECTION_NOT_FOUND'')
      | Some sec \<Rightarrow>
          if truthy actorId \<and> truthy userRole \<and> \<not> is_admin (the userRole) \<and> \<not> assigned d schoolId (the actorId) classSectionId
          then Inl (JsErr ''UNAUTHORIZED_TEACHER_NOT_ASSIGNED'')
          else Inr \<lparr>op_schoolId = schoolId, op_classSectionId = classSectionId, op_className = cs_className sec,
                    op_sectionName = cs_sectionName sec, op_downloadedAt = now,
                    op_students = map (\<lambda>(e, s). \<lparr>os_studentId = st_id s, os_studentCode = st_studentCode s,
                       os_banglarShikshaId = st_banglarShikshaId s, os_name = st_name s, os_nameBn = st_nameBn s,
                       os_rollNumber = en_rollNumber e, os_photoUrl = st_photoUrl s,
                       os_sha256TokenHash = js_or (qr_hash_of d schoolId (st_id s)) None, os_isRevoked = False\<rparr>)
                      (activeEnrollments d schoolId classSectionId)\<rparr>)"

section \<open>What a phone uploads\<close>

record sync_session =
  sp_clientSessionId :: string
  sp_classSectionId :: uuid
  sp_sessionDate :: string
  sp_sessionType :: string

record sync_event =
  sy_clientEventId :: string
  sy_sessionId :: string
  sy_rawToken :: "string option"
  sy_studentId :: "uuid option"
  sy_statusValue :: "attendance_status option"
  sy_clientTimestamp :: string
  sy_source :: "scan_source option"
  sy_metadata :: "(string \<times> json) list option"
  sy_clientSessionId :: "string option"

datatype sync_status = SyncAccepted | AlreadyProcessed | SyncRejected

record sync_result =
  sx_clientEventId :: string
  sx_status :: sync_status
  sx_eventId :: "uuid option"
  sx_error :: "string option"
  sx_duplicateScan :: "bool option"

record sync_response =
  sr_processedCount :: nat
  sr_results :: "sync_result list"
  sr_sessionMappings :: "(string \<times> uuid) list"

text \<open>The metadata fields the service reads are text.\<close>

definition meta :: "sync_event \<Rightarrow> string \<Rightarrow> string option" where
  "meta e k = (case sy_metadata e of None \<Rightarrow> None
     | Some m \<Rightarrow> (case map_of m k of Some (JStr s) \<Rightarrow> Some s | _ \<Rightarrow> None))"

text \<open>\<open>/^[0-9a-f]{8}-[0-9a-f]{4}-[1-5][0-9a-f]{3}-[89ab][0-9a-f]{3}-[0-9a-f]{12}$/i\<close>\<close>

definition is_uuid :: "string \<Rightarrow> bool" where
  "is_uuid s \<longleftrightarrow> length s = 36
     \<and> list_all (\<lambda>(i, c). if i \<in> {8, 13, 18, 23} then c = CHR ''-'' else is_hex c) (enumerate 0 s)
     \<and> s ! 14 \<in> set ''12345'' \<and> s ! 19 \<in> set ''89abAB''"

text \<open>The Map of session payloads: those sent, then what the metadata of the events say.\<close>

definition session_payloads :: "world \<Rightarrow> instant \<Rightarrow> sync_session list \<Rightarrow> sync_event list \<Rightarrow> (string \<times> sync_session) list" where
  "session_payloads w now sessions events =
     js_map (map (\<lambda>s. (sp_clientSessionId s, s)) sessions
       @ List.map_filter (\<lambda>e. if truthy (sy_clientSessionId e) \<and> truthy (meta e ''classSectionId'')
           then Some (the (sy_clientSessionId e),
             \<lparr>sp_clientSessionId = the (sy_clientSessionId e), sp_classSectionId = the (meta e ''classSectionId''),
              sp_sessionDate = the (js_or (meta e ''sessionDate'') (Some (take 10 (iso_string w now)))),
              sp_sessionType = the (js_or (meta e ''sessionType'') (Some ''DAILY''))\<rparr>)
           else None) events)"

definition type_or_daily :: "sync_session \<Rightarrow> string" where
  "type_or_daily s = the (js_or (Some (sp_sessionType s)) (Some ''DAILY''))"

section \<open>Sessions opened offline\<close>

definition by_client :: "uuid \<Rightarrow> string \<Rightarrow> db \<Rightarrow> att_session option" where
  "by_client schoolId clientSessionId d =
     sel1 (\<lambda>s. as_schoolId s = schoolId \<and> as_clientSessionId s = Some clientSessionId) (t_sessions d)"

definition by_natural_key :: "uuid \<Rightarrow> sync_session \<Rightarrow> db \<Rightarrow> att_session option" where
  "by_natural_key schoolId p d =
     sel1 (\<lambda>s. as_schoolId s = schoolId \<and> as_classSectionId s = sp_classSectionId p
             \<and> as_sessionDate s = sp_sessionDate p \<and> as_sessionType s = type_or_daily p) (t_sessions d)"

definition locate :: "uuid \<Rightarrow> string \<Rightarrow> sync_session \<Rightarrow> db \<Rightarrow> att_session option" where
  "locate schoolId clientSessionId p d = nullish (by_client schoolId clientSessionId d) (by_natural_key schoolId p d)"

text \<open>
  The insert does nothing on a conflict of the client id and then selects the other row; with the
  two look-ups just made, one transaction alone never conflicts.
\<close>

definition open_offline_session ::
  "world \<Rightarrow> instant \<Rightarrow> uuid \<Rightarrow> uuid \<Rightarrow> string \<Rightarrow> sync_session \<Rightarrow> db \<Rightarrow> (uuid \<times> db) result" where
  "open_offline_session w now schoolId actorId clientSessionId p d =
     (let s = (new_session (gen_uuid w (seq d)) schoolId (sp_classSectionId p) actorId (sp_sessionDate p) (type_or_daily p) now)
                \<lparr>as_clientSessionId := Some clientSessionId\<rparr>;
          d1 = d\<lparr>t_sessions := t_sessions d @ [s], seq := Suc (seq d)\<rparr>;
          roster = activeEnrollments d schoolId (sp_classSectionId p)
      in bind_result (snapshot_roster w schoolId (as_id s) roster d1) (\<lambda>d2.
         bind_result (init_records w now schoolId (as_id s) roster d2) (\<lambda>d3. Inr (as_id s, d3))))"

definition reconcile_session ::
  "world \<Rightarrow> instant \<Rightarrow> uuid \<Rightarrow> uuid \<Rightarrow> string \<Rightarrow> string \<Rightarrow> sync_session \<Rightarrow> db \<Rightarrow> (uuid \<times> db) result" where
  "reconcile_session w now schoolId actorId userRole clientSessionId p d =
     (if \<not> is_uuid clientSessionId then Inl (JsErr ''INVALID_CLIENT_SESSION_ID'')
      else if \<not> is_admin userRole \<and> \<not> assigned d schoolId actorId (sp_classSectionId p)
      then Inl (JsErr ''UNAUTHORIZED_TEACHER_NOT_ASSIGNED'')
      else case locate schoolId clientSessionId p d of
             Some s \<Rightarrow> Inr (as_id s, d)
           | None \<Rightarrow> open_offline_session w now schoolId actorId clientSessionId p d)"

fun reconcile_sessions ::
  "world \<Rightarrow> instant \<Rightarrow> uuid \<Rightarrow> uuid \<Rightarrow> string \<Rightarrow> (string \<times> sync_session) list \<Rightarrow> db \<Rightarrow> ((string \<times> uuid) list \<times> db) result" where
  "reconcile_sessions w now schoolId actorId userRole [] d = Inr ([], d)"
| "reconcile_sessions w now schoolId actorId userRole ((c, p) # ps) d =
     bind_result (reconcile_session w now schoolId actorId userRole c p d) (\<lambda>(i, d1).
     bind_result (reconcile_sessions w now schoolId actorId userRole ps d1) (\<lambda>(m, d2). Inr ((c, i) # m, d2)))"

section \<open>The events\<close>

definition MAX_FUTURE_SKEW_MS :: int where "MAX_FUTURE_SKEW_MS = 600000"

definition skewed :: "world \<Rightarrow> instant \<Rightarrow> sync_event \<Rightarrow> bool" where
  "skewed w now e = (case date_parse w (sy_clientTimestamp e) of None \<Rightarrow> False | Some t \<Rightarrow> MAX_FUTURE_SKEW_MS < t - now)"

definition event_session :: "(string \<times> uuid) list \<Rightarrow> sync_event \<Rightarrow> string option" where
  "event_session m e =
     (let c = js_or (sy_clientSessionId e) (meta e ''clientSessionId'')
      in if truthy c then map_of m (the c) else Some (sy_sessionId e))"

definition event_request :: "world \<Rightarrow> instant \<Rightarrow> uuid \<Rightarrow> string \<Rightarrow> uuid \<Rightarrow> sync_event \<Rightarrow> scan_request" where
  "event_request w now actorId userRole deviceId e =
     \<lparr>sr_actorId = actorId, sr_userRole = userRole, sr_clientEventId = sy_clientEventId e, sr_rawToken = sy_rawToken e,
      sr_studentId = sy_studentId e, sr_statusValue = (case sy_statusValue e of None \<Rightarrow> PRESENT | Some s \<Rightarrow> s),
      sr_clientTimestamp = (if skewed w now e then iso_string w now else sy_clientTimestamp e),
      sr_deviceId = Some deviceId, sr_source = (case sy_source e of None \<Rightarrow> CAMERA | Some s \<Rightarrow> s),
      sr_metadata = (case sy_metadata e of None \<Rightarrow> [] | Some m \<Rightarrow> m)\<rparr>"

definition accepted_result :: "sync_event \<Rightarrow> scan_result \<Rightarrow> sync_result" where
  "accepted_result e r =
     (case r of
        ScanReplayed ev _ _ \<Rightarrow> \<lparr>sx_clientEventId = sy_clientEventId e, sx_status = AlreadyProcessed,
           sx_eventId = Some (ev_id ev), sx_error = None, sx_duplicateScan = None\<rparr>
      | ScanDuplicate rec _ _ \<Rightarrow> \<lparr>sx_clientEventId = sy_clientEventId e, sx_status = SyncAccepted,
           sx_eventId = Some (ar_id rec), sx_error = None, sx_duplicateScan = Some True\<rparr>
      | ScanRecorded rec _ _ \<Rightarrow> \<lparr>sx_clientEventId = sy_clientEventId e, sx_status = SyncAccepted,
           sx_eventId = Some (ar_id rec), sx_error = None, sx_duplicateScan = Some False\<rparr>)"

definition rejected_result :: "sync_event \<Rightarrow> error \<Rightarrow> sync_result" where
  "rejected_result e err =
     (let m = (case err of AppErr c _ \<Rightarrow> c | JsErr s \<Rightarrow> s | DbErr s \<Rightarrow> s)
      in \<lparr>sx_clientEventId = sy_clientEventId e, sx_status = SyncRejected, sx_eventId = None,
          sx_error = Some (if m = [] then ''SYNC_ERROR'' else m), sx_duplicateScan = None\<rparr>)"

text \<open>A scan of a student already present is logged outside a savepoint.\<close>

definition scans_twice :: "world \<Rightarrow> uuid \<Rightarrow> uuid \<Rightarrow> scan_request \<Rightarrow> db \<Rightarrow> bool" where
  "scans_twice w schoolId sessionId rq d =
     (case resolve_student w schoolId rq d of
        Inl _ \<Rightarrow> False
      | Inr st \<Rightarrow> (case record_of d schoolId sessionId st of
            None \<Rightarrow> False
          | Some r \<Rightarrow> ar_status r \<in> {PRESENT, LATE} \<and> sr_statusValue rq = PRESENT))"

definition mark_conflict :: "uuid \<Rightarrow> string \<Rightarrow> sync_event \<Rightarrow> error \<Rightarrow> db \<Rightarrow> db" where
  "mark_conflict schoolId sessionId e err d =
     (if err = JsErr ''FINALIZED_SESSION_LOCKED'' \<and> truthy (sy_studentId e)
      then (case record_of d schoolId sessionId (the (sy_studentId e)) of
              None \<Rightarrow> d
            | Some r \<Rightarrow> d\<lparr>t_records := upd (\<lambda>x. ar_schoolId x = schoolId \<and> ar_id x = ar_id r)
                             (\<lambda>x. x\<lparr>ar_hasConflict := True\<rparr>) (t_records d)\<rparr>)
      else d)"

definition sync_event_step ::
  "world \<Rightarrow> instant \<Rightarrow> uuid \<Rightarrow> uuid \<Rightarrow> string \<Rightarrow> uuid \<Rightarrow> (string \<times> uuid) list \<Rightarrow> sync_event \<Rightarrow> db \<Rightarrow> (sync_result \<times> db) result" where
  "sync_event_step w now schoolId actorId userRole deviceId m e d =
     (case event_session m e of
        None \<Rightarrow> Inr (rejected_result e (JsErr ''SESSION_NOT_FOUND''), d)
      | Some i \<Rightarrow>
          if \<not> is_uuid i then Inr (rejected_result e (JsErr ''SESSION_NOT_FOUND''), d)
          else let rq = event_request w now actorId userRole deviceId e in
            case processQRCode w now schoolId i rq d of
              Inr (r, d1) \<Rightarrow> Inr (accepted_result e r, d1)
            | Inl (DbErr x) \<Rightarrow> if scans_twice w schoolId i rq d then Inl (DbErr x)
                               else Inr (rejected_result e (DbErr x), d)
            | Inl err \<Rightarrow> Inr (rejected_result e err, mark_conflict schoolId i e err d))"

fun sync_events ::
  "world \<Rightarrow> instant \<Rightarrow> uuid \<Rightarrow> uuid \<Rightarrow> string \<Rightarrow> uuid \<Rightarrow> (string \<times> uuid) list \<Rightarrow> sync_event list \<Rightarrow> db \<Rightarrow> (sync_result list \<times> db) result" where
  "sync_events w now schoolId actorId userRole deviceId m [] d = Inr ([], d)"
| "sync_events w now schoolId actorId userRole deviceId m (e # es) d =
     bind_result (sync_event_step w now schoolId actorId userRole deviceId m e d) (\<lambda>(r, d1).
     bind_result (sync_events w now schoolId actorId userRole deviceId m es d1) (\<lambda>(rs, d2). Inr (r # rs, d2)))"

definition count_status :: "sync_status \<Rightarrow> sync_result list \<Rightarrow> nat" where
  "count_status s rs = length (filter (\<lambda>r. sx_status r = s) rs)"

definition skew_corrections :: "world \<Rightarrow> instant \<Rightarrow> (string \<times> uuid) list \<Rightarrow> sync_event list \<Rightarrow> nat" where
  "skew_corrections w now m es = length (filter (\<lambda>e. case event_session m e of None \<Rightarrow> False | Some i \<Rightarrow> is_uuid i \<and> skewed w now e) es)"

definition device_error :: "string \<Rightarrow> error" where
  "device_error reason = JsErr (if reason = ''DEVICE_NOT_FOUND'' then ''DEVICE_IDENTIFIER_REQUIRED'' else ''DEVICE_REVOKED'')"

definition batch_counts :: "world \<Rightarrow> instant \<Rightarrow> (string \<times> uuid) list \<Rightarrow> sync_event list \<Rightarrow> sync_result list \<Rightarrow> json" where
  "batch_counts w now m events rs =
     JObj [(''totalEvents'', JNum (Some (of_nat (length events)))),
           (''acceptedCount'', JNum (Some (of_nat (count_status SyncAccepted rs)))),
           (''duplicateCount'', JNum (Some (of_nat (count_status AlreadyProcessed rs)))),
           (''rejectedCount'', JNum (Some (of_nat (count_status SyncRejected rs)))),
           (''clockSkewCorrectedCount'', JNum (Some (of_nat (skew_corrections w now m events))))]"

definition syncAttendanceEvents ::
  "world \<Rightarrow> instant \<Rightarrow> uuid \<Rightarrow> uuid \<Rightarrow> string \<Rightarrow> string \<Rightarrow> sync_event list \<Rightarrow> sync_session list \<Rightarrow> db \<Rightarrow> (sync_response \<times> db) result" where
  "syncAttendanceEvents w now schoolId actorId deviceIdentifier userRole events sessions d =
     (if deviceIdentifier = [] then Inl (JsErr ''DEVICE_IDENTIFIER_REQUIRED'')
      else if 75 < length events then Inl (JsErr ''SYNC_BATCH_SIZE_EXCEEDED'')
      else case sel1 (\<lambda>u. us_id u = actorId) (t_users d) of
        None \<Rightarrow> Inl (JsErr ''USER_SUSPENDED'')
      | Some u \<Rightarrow>
          if us_status u = ''SUSPENDED''
             \<or> (case sel1 (\<lambda>m. me_schoolId m = schoolId \<and> me_userId m = actorId) (t_memberships d) of
                  None \<Rightarrow> False | Some m \<Rightarrow> me_status m = ''SUSPENDED'')
          then Inl (JsErr ''USER_SUSPENDED'')
          else case validateDeviceStatus schoolId deviceIdentifier d of
            Inl reason \<Rightarrow> Inl (device_error reason)
          | Inr dev \<Rightarrow>
              bind_result (reconcile_sessions w now schoolId actorId userRole (session_payloads w now sessions events) d) (\<lambda>(m, d1).
              bind_result (sync_events w now schoolId actorId userRole (de_id dev) m events d1) (\<lambda>(rs, d2).
              Inr (\<lparr>sr_processedCount = length rs, sr_results = rs, sr_sessionMappings = m\<rparr>,
                   createAuditLog schoolId actorId ''BATCH_ATTENDANCE_SYNC'' ''ATTENDANCE_SESSION'' [] (batch_counts w now m events rs) d2))))"

section \<open>What a scan leaves unchanged\<close>

lemma onAttendanceCorrected_row: "\<exists>js n. onAttendanceCorrected w now rid sid st a b d = d\<lparr>t_jobs := js, seq := n\<rparr>"
proof -
  have same: "\<exists>js n. d = d\<lparr>t_jobs := js, seq := n\<rparr>" by (intro exI [of _ "t_jobs d"] exI [of _ "seq d"]) simp
  have "\<exists>js n. snd (insert_job j d) = d\<lparr>t_jobs := js, seq := n\<rparr>" for j
    by (cases "\<exists>x \<in> set (t_jobs d). job_conflict x j") (use same in \<open>auto simp: insert_job_skip insert_job_add\<close>)
  moreover have "\<exists>js n. d\<lparr>t_jobs := ks\<rparr> = d\<lparr>t_jobs := js, seq := n\<rparr>" for ks
    by (intro exI [of _ ks] exI [of _ "seq d"]) simp
  ultimately show ?thesis using same by (simp add: onAttendanceCorrected_def Let_def split: option.split)
qed

text \<open>A scan adds at most one event, with the identifier of the phone, and touches no session.\<close>

definition logs_scan :: "uuid \<Rightarrow> uuid \<Rightarrow> string \<Rightarrow> att_event \<Rightarrow> bool" where
  "logs_scan schoolId sessionId clientEventId e \<longleftrightarrow>
     ev_schoolId e = schoolId \<and> ev_sessionId e = sessionId \<and> ev_clientEventId e = clientEventId"

definition scan_frame :: "db \<Rightarrow> db \<Rightarrow> bool" where
  "scan_frame d d' \<longleftrightarrow> t_sessions d' = t_sessions d \<and> t_teacherAssignments d' = t_teacherAssignments d \<and> t_audit d' = t_audit d
     \<and> t_users d' = t_users d \<and> t_memberships d' = t_memberships d \<and> t_devices d' = t_devices d"

lemma scan_frame_refl [simp]: "scan_frame d d"
  by (simp add: scan_frame_def)

lemma scan_frame_trans: "scan_frame d d1 \<Longrightarrow> scan_frame d1 d2 \<Longrightarrow> scan_frame d d2"
  by (simp add: scan_frame_def)

lemma record_scan_row:
  assumes "record_scan w now sid i st rq d = Inr (r', d')"
  shows "scan_frame d d' \<and> (\<exists>e. t_events d' = t_events d @ [e] \<and> logs_scan sid i (sr_clientEventId rq) e)"
proof -
  from assms obtain ts d1 where e: "insert_event (scan_event_row w now ts sid i st rq
         (if sr_source rq = USB then ''USB_BARCODE_SCANNED'' else ''QR_SCANNED'') (sr_statusValue rq)
         (JObj (js_map ((''source'', JStr (source_name (sr_source rq))) # sr_metadata rq))) (seq d))
         (d\<lparr>seq := Suc (seq d)\<rparr>) = Inr d1"
    and k: "(case record_of d sid i st of
       Some r \<Rightarrow>
         let f = (\<lambda>x. x\<lparr>ar_status := sr_statusValue rq, ar_firstScannedAt := nullish (ar_firstScannedAt r) (Some now),
                        ar_lastUpdatedAt := now\<rparr>);
             d2 = d1\<lparr>t_records := upd (\<lambda>x. ar_id x = ar_id r) f (t_records d1)\<rparr>
         in Inr (f r, if ar_status r \<noteq> sr_statusValue rq
                      then onAttendanceCorrected w now (ar_id r) sid st (ar_status r) (sr_statusValue rq) d2
                      else d2)
     | None \<Rightarrow>
         let r = (new_record (gen_uuid w (seq d1)) sid i st (sr_statusValue rq) now)
                   \<lparr>ar_firstScannedAt := Some now\<rparr>
         in bind_result (insert_record r d1) (\<lambda>d2. Inr (r, d2))) = Inr (r', d')"
    unfolding record_scan_def bind_result_Inr_iff by blast
  from e have d1: "\<exists>ev. d1 = d\<lparr>seq := Suc (seq d), t_events := t_events d @ [ev]\<rparr> \<and> logs_scan sid i (sr_clientEventId rq) ev"
    by (auto simp: insert_event_Inr logs_scan_def scan_event_row_def)
  have row: "\<exists>js n. onAttendanceCorrected w now a b c x y z = z\<lparr>t_jobs := js, seq := n\<rparr>" for a b c x y z
    by (rule onAttendanceCorrected_row)
  have "\<exists>rs js n. d' = d1\<lparr>t_records := rs, t_jobs := js, seq := n\<rparr>"
  proof (cases "record_of d sid i st")
    case None
    with k obtain r where "d' = d1\<lparr>t_records := t_records d1 @ [r], seq := Suc (seq d1)\<rparr>"
      by (auto simp: Let_def bind_result_Inr_iff insert_record_Inr)
    then show ?thesis by (intro exI [of _ "t_records d1 @ [r]"] exI [of _ "t_jobs d1"] exI [of _ "Suc (seq d1)"]) simp
  next
    case (Some r)
    define rs where "rs = upd (\<lambda>x. ar_id x = ar_id r) (\<lambda>x. x\<lparr>ar_status := sr_statusValue rq,
       ar_firstScannedAt := nullish (ar_firstScannedAt r) (Some now), ar_lastUpdatedAt := now\<rparr>) (t_records d1)"
    from k Some have "d' = onAttendanceCorrected w now (ar_id r) sid st (ar_status r) (sr_statusValue rq) (d1\<lparr>t_records := rs\<rparr>)
       \<or> d' = d1\<lparr>t_records := rs\<rparr>" by (auto simp: Let_def rs_def split: if_splits)
    with row [of "ar_id r" sid st "ar_status r" "sr_statusValue rq" "d1\<lparr>t_records := rs\<rparr>"] obtain js n where
      "d' = (d1\<lparr>t_records := rs\<rparr>)\<lparr>t_jobs := js, seq := n\<rparr> \<or> d' = d1\<lparr>t_records := rs\<rparr>" by metis
    then show ?thesis
    proof
      assume "d' = d1\<lparr>t_records := rs\<rparr>"
      then show ?thesis by (intro exI [of _ rs] exI [of _ "t_jobs d1"] exI [of _ "seq d1"]) simp
    qed (intro exI [of _ rs] exI [of _ js] exI [of _ n], simp)
  qed
  then show ?thesis using d1 by (auto simp: scan_frame_def)
qed

lemma duplicate_scan_row:
  assumes "duplicate_scan w now sid i st rq r d = Inr d'"
  shows "scan_frame d d' \<and> (\<exists>e. t_events d' = t_events d @ [e] \<and> logs_scan sid i (sr_clientEventId rq) e)"
  using assms by (auto simp: duplicate_scan_def bind_result_Inr_iff insert_event_Inr scan_frame_def logs_scan_def scan_event_row_def)

text \<open>A scan is replayed when its event is in the log; otherwise it adds its event.\<close>

definition known_scan :: "uuid \<Rightarrow> uuid \<Rightarrow> string \<Rightarrow> db \<Rightarrow> att_event option" where
  "known_scan sid i cid d = sel1 (\<lambda>e. ev_schoolId e = sid \<and> ev_sessionId e = i \<and> ev_clientEventId e = cid) (t_events d)"

definition may_scan :: "uuid \<Rightarrow> uuid \<Rightarrow> uuid \<Rightarrow> string \<Rightarrow> db \<Rightarrow> bool" where
  "may_scan sid i actor role d \<longleftrightarrow> role \<noteq> [] \<and> actor \<noteq> []
     \<and> (\<exists>s. sel1 (\<lambda>s. as_schoolId s = sid \<and> as_id s = i) (t_sessions d) = Some s
          \<and> verifyTeacherAssignment d sid (as_classSectionId s) actor role = Inr ())"

lemma may_scan_frame: "scan_frame d d' \<Longrightarrow> may_scan sid i actor role d' = may_scan sid i actor role d"
  by (simp add: may_scan_def scan_frame_def verifyTeacherAssignment_def)

lemma processQRCode_replays:
  assumes "may_scan sid i (sr_actorId rq) (sr_userRole rq) d" "known_scan sid i (sr_clientEventId rq) d = Some e"
  shows "\<exists>r st. processQRCode w now sid i rq d = Inr (ScanReplayed e r st, d)"
proof -
  from assms(1) obtain s where "sel1 (\<lambda>s. as_schoolId s = sid \<and> as_id s = i) (t_sessions d) = Some s"
    "verifyTeacherAssignment d sid (as_classSectionId s) (sr_actorId rq) (sr_userRole rq) = Inr ()"
    "sr_userRole rq \<noteq> []" "sr_actorId rq \<noteq> []" by (auto simp: may_scan_def)
  with assms(2) show ?thesis by (simp add: processQRCode_def throw_if_def known_scan_def)
qed

lemma processQRCode_effect:
  assumes "processQRCode w now sid i rq d = Inr (res, d')"
  obtains (replay) e r st where "res = ScanReplayed e r st" "d' = d" "known_scan sid i (sr_clientEventId rq) d = Some e"
      "may_scan sid i (sr_actorId rq) (sr_userRole rq) d"
  | (logged) e where "\<And>e r st. res \<noteq> ScanReplayed e r st" "scan_frame d d'" "t_events d' = t_events d @ [e]"
      "logs_scan sid i (sr_clientEventId rq) e" "may_scan sid i (sr_actorId rq) (sr_userRole rq) d"
  using assms
proof (cases rule: processQRCodeE)
  case (replayed s e)
  then show thesis by (intro replay) (auto simp: known_scan_def may_scan_def)
next
  case (scanned s st ro stu)
  then have m: "may_scan sid i (sr_actorId rq) (sr_userRole rq) d" by (auto simp: may_scan_def)
  from scanned(9) show thesis
  proof (elim disjE exE conjE)
    fix r assume "duplicate_scan w now sid i st rq r d = Inr d'" "res = ScanDuplicate r stu (ro_rollNumber ro)"
    from duplicate_scan_row [OF this(1)] this(2) m show thesis by (elim conjE exE) (rule logged, simp_all)
  next
    fix r' assume "record_scan w now sid i st rq d = Inr (r', d')" "res = ScanRecorded r' stu (ro_rollNumber ro)"
    from record_scan_row [OF this(1)] this(2) m show thesis by (elim conjE exE) (rule logged, simp_all)
  qed
qed

section \<open>The events of an upload\<close>

text \<open>An event is settled when the server has it in its log, in the session it belongs to.\<close>

definition settled :: "uuid \<Rightarrow> uuid \<Rightarrow> string \<Rightarrow> (string \<times> uuid) list \<Rightarrow> db \<Rightarrow> sync_event \<Rightarrow> bool" where
  "settled sid actor role m d e \<longleftrightarrow> (\<exists>i ev. event_session m e = Some i \<and> is_uuid i \<and> may_scan sid i actor role d
     \<and> known_scan sid i (sy_clientEventId e) d = Some ev)"

lemma settled_mono:
  assumes "settled sid actor role m d e" "scan_frame d d'" "t_events d' = t_events d @ new"
  shows "settled sid actor role m d' e"
  using assms by (auto simp: settled_def may_scan_frame known_scan_def sel1_append)

lemma event_request_simps [simp]:
  "sr_actorId (event_request w now actor role dev e) = actor" "sr_userRole (event_request w now actor role dev e) = role"
  "sr_clientEventId (event_request w now actor role dev e) = sy_clientEventId e"
  by (simp_all add: event_request_def)

lemma settled_replays:
  assumes "settled sid actor role m d e"
  shows "\<exists>ev. sync_event_step w now sid actor role dev m e d =
    Inr (\<lparr>sx_clientEventId = sy_clientEventId e, sx_status = AlreadyProcessed, sx_eventId = Some (ev_id ev), sx_error = None,
          sx_duplicateScan = None\<rparr>, d) \<and> ev \<in> set (t_events d) \<and> ev_clientEventId ev = sy_clientEventId e \<and> ev_schoolId ev = sid"
proof -
  from assms obtain i ev where i: "event_session m e = Some i" "is_uuid i" "may_scan sid i actor role d"
    and k: "known_scan sid i (sy_clientEventId e) d = Some ev" by (auto simp: settled_def)
  from processQRCode_replays [of sid i "event_request w now actor role dev e" d ev w now] i(3) k obtain r st where
    "processQRCode w now sid i (event_request w now actor role dev e) d = Inr (ScanReplayed ev r st, d)" by auto
  with i(1,2) k show ?thesis
    by (intro exI [of _ ev]) (auto simp: sync_event_step_def accepted_result_def known_scan_def dest: sel1_SomeD)
qed

lemma mark_conflict_frame: "scan_frame d (mark_conflict sid i e err d) \<and> t_events (mark_conflict sid i e err d) = t_events d"
  by (simp add: mark_conflict_def scan_frame_def split: option.split)

lemma sync_event_step_effect:
  assumes "sync_event_step w now sid actor role dev m e d = Inr (r, d')"
  shows "sx_clientEventId r = sy_clientEventId e" "scan_frame d d'"
    "\<exists>new. t_events d' = t_events d @ new
       \<and> map ev_clientEventId new = (if sx_status r = SyncAccepted then [sx_clientEventId r] else [])"
    "sx_status r \<noteq> SyncRejected \<Longrightarrow> settled sid actor role m d' e"
proof -
  have rejected: "sx_clientEventId (rejected_result e err) = sy_clientEventId e" "sx_status (rejected_result e err) = SyncRejected" for err
    by (simp_all add: rejected_result_def Let_def)
  have "sx_clientEventId r = sy_clientEventId e \<and> scan_frame d d'
     \<and> (\<exists>new. t_events d' = t_events d @ new
          \<and> map ev_clientEventId new = (if sx_status r = SyncAccepted then [sx_clientEventId r] else []))
     \<and> (sx_status r \<noteq> SyncRejected \<longrightarrow> settled sid actor role m d' e)"
  proof (cases "\<exists>i. event_session m e = Some i \<and> is_uuid i")
    case False
    with assms have "r = rejected_result e (JsErr ''SESSION_NOT_FOUND'')" "d' = d"
      by (auto simp: sync_event_step_def split: option.splits if_splits)
    then show ?thesis by (simp add: rejected)
  next
    case True
    then obtain i where i: "event_session m e = Some i" "is_uuid i" by blast
    let ?rq = "event_request w now actor role dev e"
    show ?thesis
    proof (cases "processQRCode w now sid i ?rq d")
      case (Inl err)
      with assms i have "(\<exists>err. r = rejected_result e err) \<and> (d' = d \<or> d' = mark_conflict sid i e err d)"
        by (auto simp: sync_event_step_def Let_def split: error.splits if_splits)
      with mark_conflict_frame show ?thesis by (auto simp: rejected)
    next
      case (Inr p)
      then obtain res where res: "processQRCode w now sid i ?rq d = Inr (res, d')" and r: "r = accepted_result e res"
        using assms i by (cases p) (auto simp: sync_event_step_def Let_def)
      from res show ?thesis
      proof (cases rule: processQRCode_effect)
        case (replay ev rc st)
        with i r show ?thesis by (auto simp: accepted_result_def settled_def)
      next
        case (logged ev)
        have acc: "sx_status r = SyncAccepted" "sx_clientEventId r = sy_clientEventId e"
          using logged(1) by (auto simp: r accepted_result_def split: scan_result.split)
        have "known_scan sid i (sy_clientEventId e) d' \<noteq> None"
          using logged(3,4) by (auto simp: known_scan_def sel1_None_iff logs_scan_def)
        with i logged(2,5) have "settled sid actor role m d' e" by (auto simp: settled_def may_scan_frame)
        with acc logged(2,3,4) show ?thesis by (auto simp: logs_scan_def)
      qed
    qed
  qed
  then show "sx_clientEventId r = sy_clientEventId e" "scan_frame d d'"
    "\<exists>new. t_events d' = t_events d @ new
       \<and> map ev_clientEventId new = (if sx_status r = SyncAccepted then [sx_clientEventId r] else [])"
    "sx_status r \<noteq> SyncRejected \<Longrightarrow> settled sid actor role m d' e" by simp_all
qed

lemma sync_eventsE:
  assumes "sync_events w now sid actor role dev m (e # es) d = Inr (rs, d')"
  obtains r d1 rs' where "rs = r # rs'" "sync_event_step w now sid actor role dev m e d = Inr (r, d1)"
    "sync_events w now sid actor role dev m es d1 = Inr (rs', d')"
  using assms by (auto simp: bind_result_Inr_iff)

lemma sync_events_effect:
  "sync_events w now sid actor role dev m es d = Inr (rs, d') \<Longrightarrow>
     map sx_clientEventId rs = map sy_clientEventId es \<and> scan_frame d d'
     \<and> (\<exists>new. t_events d' = t_events d @ new
          \<and> map ev_clientEventId new = map sx_clientEventId (filter (\<lambda>r. sx_status r = SyncAccepted) rs))
     \<and> list_all2 (\<lambda>e r. sx_status r \<noteq> SyncRejected \<longrightarrow> settled sid actor role m d' e) es rs"
proof (induction es arbitrary: d rs)
  case (Cons e es)
  from Cons.prems obtain r d1 rs' where s: "rs = r # rs'" "sync_event_step w now sid actor role dev m e d = Inr (r, d1)"
    "sync_events w now sid actor role dev m es d1 = Inr (rs', d')" by (rule sync_eventsE)
  note st = sync_event_step_effect [OF s(2)]
  from st(3) obtain n1 where n1: "t_events d1 = t_events d @ n1"
    "map ev_clientEventId n1 = (if sx_status r = SyncAccepted then [sx_clientEventId r] else [])" by blast
  from Cons.IH [OF s(3)] obtain n2 where n2: "map sx_clientEventId rs' = map sy_clientEventId es" "scan_frame d1 d'"
    "t_events d' = t_events d1 @ n2" "map ev_clientEventId n2 = map sx_clientEventId (filter (\<lambda>r. sx_status r = SyncAccepted) rs')"
    "list_all2 (\<lambda>e r. sx_status r \<noteq> SyncRejected \<longrightarrow> settled sid actor role m d' e) es rs'" by blast
  have "t_events d' = t_events d @ (n1 @ n2)" using n1(1) n2(3) by simp
  moreover have "map ev_clientEventId (n1 @ n2) = map sx_clientEventId (filter (\<lambda>r. sx_status r = SyncAccepted) rs)"
    using n1(2) n2(4) by (simp add: s(1))
  ultimately have "\<exists>new. t_events d' = t_events d @ new
     \<and> map ev_clientEventId new = map sx_clientEventId (filter (\<lambda>r. sx_status r = SyncAccepted) rs)" by blast
  moreover have "sx_status r \<noteq> SyncRejected \<longrightarrow> settled sid actor role m d' e"
    using st(4) settled_mono [OF _ n2(2,3)] by blast
  ultimately show ?case using st(1) n2(1,5) scan_frame_trans [OF st(2) n2(2)] by (simp add: s(1))
qed simp

text \<open>Sent again, a settled event is answered ALREADY_PROCESSED, whatever the events around it do.\<close>

definition echoes :: "db \<Rightarrow> uuid \<Rightarrow> sync_event \<Rightarrow> sync_result \<Rightarrow> bool" where
  "echoes d sid e r \<longleftrightarrow> sx_status r = AlreadyProcessed
     \<and> sx_eventId r \<in> (Some \<circ> ev_id) ` {ev \<in> set (t_events d). ev_schoolId ev = sid \<and> ev_clientEventId ev = sy_clientEventId e}"

lemma echoes_mono: "echoes d sid e r \<Longrightarrow> t_events d' = t_events d @ new \<Longrightarrow> echoes d' sid e r"
  by (auto simp: echoes_def)

lemma settled_step_echoes:
  assumes "settled sid actor role m d e" "sync_event_step w now sid actor role dev m e d = Inr (r, d')"
  shows "echoes d sid e r \<and> d' = d"
  using settled_replays [OF assms(1), of w now dev] assms(2) by (auto simp: echoes_def)

lemma resent_events:
  "sync_events w now sid actor role dev m es d = Inr (rs, d') \<Longrightarrow>
     list_all2 (\<lambda>e r. settled sid actor role m d e \<longrightarrow> echoes d' sid e r) es rs"
proof (induction es arbitrary: d rs)
  case (Cons e es)
  from Cons.prems obtain r d1 rs' where s: "rs = r # rs'" "sync_event_step w now sid actor role dev m e d = Inr (r, d1)"
    "sync_events w now sid actor role dev m es d1 = Inr (rs', d')" by (rule sync_eventsE)
  note st = sync_event_step_effect [OF s(2)]
  from st(3) obtain n1 where n1: "t_events d1 = t_events d @ n1" by blast
  from sync_events_effect [OF s(3)] obtain n2 where n2: "t_events d' = t_events d1 @ n2" by blast
  have "settled sid actor role m d e \<longrightarrow> echoes d' sid e r"
    using settled_step_echoes [OF _ s(2)] echoes_mono [of d sid e r d' "n1 @ n2"] n1 n2 by auto
  moreover have "list_all2 (\<lambda>e r. settled sid actor role m d e \<longrightarrow> echoes d' sid e r) es rs'"
    by (rule list_all2_mono [OF Cons.IH [OF s(3)]]) (use settled_mono [OF _ st(2) n1] in blast)
  ultimately show ?case by (simp add: s(1))
qed simp

lemma all_settled_replay:
  "list_all (settled sid actor role m d) es \<Longrightarrow>
     \<exists>rs. sync_events w now sid actor role dev m es d = Inr (rs, d) \<and> list_all2 (echoes d sid) es rs"
proof (induction es)
  case (Cons e es)
  from settled_replays [of sid actor role m d e w now dev] Cons.prems obtain r where
    r: "sync_event_step w now sid actor role dev m e d = Inr (r, d)" by auto
  with settled_step_echoes [of sid actor role m d e w now dev r d] Cons.prems have "echoes d sid e r" by simp
  with Cons r show ?case by (auto simp: bind_result_Inr_iff)
qed simp

section \<open>The sessions of an upload\<close>

definition opening_frame :: "db \<Rightarrow> db \<Rightarrow> bool" where
  "opening_frame d d' \<longleftrightarrow> t_teacherAssignments d' = t_teacherAssignments d \<and> t_audit d' = t_audit d \<and> t_events d' = t_events d
     \<and> t_users d' = t_users d \<and> t_memberships d' = t_memberships d \<and> t_devices d' = t_devices d"

lemma opening_frame_refl [simp]: "opening_frame d d"
  by (simp add: opening_frame_def)

lemma opening_frame_trans: "opening_frame d d1 \<Longrightarrow> opening_frame d1 d2 \<Longrightarrow> opening_frame d d2"
  by (simp add: opening_frame_def)

lemma open_offline_sessionE:
  assumes "open_offline_session w now sid actor c p d = Inr (i, d')"
  obtains s ro rs n m where "i = gen_uuid w (seq d)" "as_id s = i" "as_schoolId s = sid" "as_clientSessionId s = Some c"
    "d' = d\<lparr>t_sessions := t_sessions d @ [s], t_roster := t_roster d @ ro, t_records := t_records d @ rs, seq := m\<rparr>"
    "Suc (seq d) \<le> n" "m = n + length (activeEnrollments d sid (sp_classSectionId p))" "map ar_id rs = map (gen_uuid w) [n..<m]"
    "map record_key rs = map (\<lambda>p. (i, st_id (snd p))) (activeEnrollments d sid (sp_classSectionId p))"
    "\<forall>r \<in> set rs. ar_status r = UNMARKED" "distinct (map record_key rs)" "record_key ` set rs \<inter> record_key ` set (t_records d) = {}"
proof -
  let ?act = "activeEnrollments d sid (sp_classSectionId p)"
  define s where "s = (new_session (gen_uuid w (seq d)) sid (sp_classSectionId p) actor (sp_sessionDate p) (type_or_daily p) now)
                \<lparr>as_clientSessionId := Some c\<rparr>"
  have s: "as_id s = gen_uuid w (seq d)" "as_schoolId s = sid" "as_clientSessionId s = Some c" by (simp_all add: s_def new_session_def)
  let ?d1 = "d\<lparr>t_sessions := t_sessions d @ [s], seq := Suc (seq d)\<rparr>"
  from assms obtain d2 where sn: "snapshot_roster w sid (as_id s) ?act ?d1 = Inr d2"
    and ir: "init_records w now sid (as_id s) ?act d2 = Inr d'" and i: "i = as_id s"
    unfolding open_offline_session_def Let_def s_def [symmetric] by (auto simp: bind_result_Inr_iff)
  from snapshot_roster_facts [OF sn] obtain ro n where ro: "d2 = ?d1\<lparr>t_roster := t_roster d @ ro, seq := n\<rparr>" "Suc (seq d) \<le> n" by auto
  have d2: "seq d2 = n" "t_records d2 = t_records d" unfolding ro(1) by simp_all
  from init_records_facts [OF ir, unfolded d2] obtain rs m where rs: "d' = d2\<lparr>t_records := t_records d @ rs, seq := m\<rparr>" "m = n + length ?act"
      "map ar_id rs = map (gen_uuid w) [n..<m]" "map record_key rs = map (\<lambda>p. (as_id s, st_id (snd p))) ?act"
      "\<forall>r \<in> set rs. ar_status r = UNMARKED \<and> ar_schoolId r = sid" "distinct (map record_key rs)"
      "record_key ` set rs \<inter> record_key ` set (t_records d) = {}"
    by (elim exE conjE) (rule that)
  have d': "d' = d\<lparr>t_sessions := t_sessions d @ [s], t_roster := t_roster d @ ro, t_records := t_records d @ rs, seq := m\<rparr>"
    unfolding rs(1) ro(1) by simp
  show thesis
    by (rule that [OF _ i [symmetric] s(2,3) d' ro(2) rs(2,3) _ _ rs(6,7)]) (use i s rs(4,5) in simp_all)
qed

lemma locate_append:
  assumes "locate sid c p d = Some s" "t_sessions d' = t_sessions d @ zs" "Some c \<notin> as_clientSessionId ` set zs"
  shows "locate sid c p d' = Some s"
proof -
  have "sel1 (\<lambda>s. as_schoolId s = sid \<and> as_clientSessionId s = Some c) zs = None"
    using assms(3) by (auto simp: sel1_None_iff rev_image_eqI)
  then have "by_client sid c d' = by_client sid c d"
    using assms(2) by (simp add: by_client_def sel1_append split: option.split)
  moreover have "by_natural_key sid p d' = Some t" if "by_natural_key sid p d = Some t" for t
    using that assms(2) by (simp add: by_natural_key_def sel1_append)
  ultimately show ?thesis using assms(1) by (simp add: locate_def nullish_def split: option.splits)
qed

lemma reconcile_session_effect:
  assumes "reconcile_session w now sid actor role c p d = Inr (i, d')"
  obtains zs s where "is_uuid c" "is_admin role \<or> assigned d sid actor (sp_classSectionId p)" "opening_frame d d'"
    "t_sessions d' = t_sessions d @ zs" "as_clientSessionId ` set zs \<subseteq> {Some c}" "locate sid c p d' = Some s" "as_id s = i"
proof -
  from assms have a: "is_uuid c" "is_admin role \<or> assigned d sid actor (sp_classSectionId p)"
    by (auto simp: reconcile_session_def split: if_splits)
  show thesis
  proof (cases "locate sid c p d")
    case (Some s)
    with assms a have "d' = d" "i = as_id s" by (auto simp: reconcile_session_def)
    with a Some show thesis by (intro that [of "[]" s]) simp_all
  next
    case None
    with assms a have "open_offline_session w now sid actor c p d = Inr (i, d')" by (auto simp: reconcile_session_def)
    then show thesis
    proof (rule open_offline_sessionE)
      fix s ro rs m assume s: "as_id s = i" "as_schoolId s = sid" "as_clientSessionId s = Some c"
        and d': "d' = d\<lparr>t_sessions := t_sessions d @ [s], t_roster := t_roster d @ ro, t_records := t_records d @ rs, seq := m\<rparr>"
      from None have "by_client sid c d = None" by (simp add: locate_def nullish_def split: option.splits)
      with s d' have "locate sid c p d' = Some s" by (simp add: locate_def by_client_def nullish_def sel1_append)
      with s a d' show thesis by (intro that [of "[s]" s]) (simp_all add: opening_frame_def)
    qed
  qed
qed

lemma reconcile_session_known:
  assumes "is_uuid c" "is_admin role \<or> assigned d sid actor (sp_classSectionId p)" "locate sid c p d = Some s"
  shows "reconcile_session w now sid actor role c p d = Inr (as_id s, d)"
  using assms by (auto simp: reconcile_session_def)

lemma reconcile_sessions_effect:
  "reconcile_sessions w now sid actor role ps d = Inr (m, d') \<Longrightarrow> distinct (map fst ps) \<Longrightarrow>
     opening_frame d d' \<and> map fst m = map fst ps
     \<and> (\<exists>zs. t_sessions d' = t_sessions d @ zs \<and> as_clientSessionId ` set zs \<subseteq> Some ` fst ` set ps)
     \<and> (\<forall>w2 now2 d2. t_sessions d2 = t_sessions d' \<longrightarrow> t_teacherAssignments d2 = t_teacherAssignments d
          \<longrightarrow> reconcile_sessions w2 now2 sid actor role ps d2 = Inr (m, d2))"
proof (induction ps arbitrary: d m)
  case (Cons q ps)
  obtain c p where q: "q = (c, p)" by fastforce
  from Cons.prems q obtain i d1 m' where m: "m = (c, i) # m'"
    and h: "reconcile_session w now sid actor role c p d = Inr (i, d1)" and t: "reconcile_sessions w now sid actor role ps d1 = Inr (m', d')"
    by (auto simp: bind_result_Inr_iff)
  from h obtain zs s where z: "is_uuid c" "is_admin role \<or> assigned d sid actor (sp_classSectionId p)" "opening_frame d d1"
    "t_sessions d1 = t_sessions d @ zs" "as_clientSessionId ` set zs \<subseteq> {Some c}" "locate sid c p d1 = Some s" "as_id s = i"
    by (rule reconcile_session_effect)
  from Cons.prems(2) q have dist: "distinct (map fst ps)" "c \<notin> fst ` set ps" by auto
  note IH = Cons.IH [OF t dist(1)]
  from IH obtain ys where y: "t_sessions d' = t_sessions d1 @ ys" "as_clientSessionId ` set ys \<subseteq> Some ` fst ` set ps" by blast
  have fr: "opening_frame d1 d'" "map fst m' = map fst ps" using IH by blast+
  have c: "Some c \<notin> as_clientSessionId ` set ys" using y(2) dist(2) by blast
  have "reconcile_sessions w2 now2 sid actor role (q # ps) d2 = Inr (m, d2)"
    if d2: "t_sessions d2 = t_sessions d'" "t_teacherAssignments d2 = t_teacherAssignments d" for w2 now2 d2
  proof -
    have "locate sid c p d2 = Some s" using locate_append [OF z(6) _ c] y(1) d2(1) by simp
    moreover have "is_admin role \<or> assigned d2 sid actor (sp_classSectionId p)" using z(2) d2(2) by (simp add: assigned_def)
    ultimately have "reconcile_session w2 now2 sid actor role c p d2 = Inr (i, d2)" using reconcile_session_known z(1,7) by simp
    moreover have "reconcile_sessions w2 now2 sid actor role ps d2 = Inr (m', d2)"
      using IH d2 z(3) by (simp add: opening_frame_def)
    ultimately show ?thesis by (simp add: q m)
  qed
  moreover have "as_clientSessionId ` set (zs @ ys) \<subseteq> Some ` fst ` set (q # ps)" using z(5) y(2) by (auto simp: q)
  ultimately show ?case using opening_frame_trans [OF z(3) fr(1)] fr(2) y(1) z(4) by (auto simp: m q)
qed simp

section \<open>The upload\<close>

definition may_sync :: "uuid \<Rightarrow> uuid \<Rightarrow> string \<Rightarrow> device \<Rightarrow> db \<Rightarrow> bool" where
  "may_sync sid actor device dev d \<longleftrightarrow>
     device \<noteq> [] \<and> (case sel1 (\<lambda>u. us_id u = actor) (t_users d) of None \<Rightarrow> False | Some u \<Rightarrow> us_status u \<noteq> ''SUSPENDED'')
     \<and> (case sel1 (\<lambda>m. me_schoolId m = sid \<and> me_userId m = actor) (t_memberships d) of
          None \<Rightarrow> True | Some m \<Rightarrow> me_status m \<noteq> ''SUSPENDED'')
     \<and> validateDeviceStatus sid device d = Inr dev"

text \<open>
  When a session cannot be reconciled the call throws, the route answers the error and the transaction
  still commits: the sessions opened before it stay.  After an error of the database itself, at an event,
  nothing can commit.
\<close>

fun reconcile_prefix ::
  "world \<Rightarrow> instant \<Rightarrow> uuid \<Rightarrow> uuid \<Rightarrow> string \<Rightarrow> (string \<times> sync_session) list \<Rightarrow> db \<Rightarrow> db" where
  "reconcile_prefix w now schoolId actorId userRole [] d = d"
| "reconcile_prefix w now schoolId actorId userRole ((c, p) # ps) d =
     (case reconcile_session w now schoolId actorId userRole c p d of
        Inl _ \<Rightarrow> d
      | Inr (_, d1) \<Rightarrow> reconcile_prefix w now schoolId actorId userRole ps d1)"

definition after_failed_sync ::
  "world \<Rightarrow> instant \<Rightarrow> uuid \<Rightarrow> uuid \<Rightarrow> string \<Rightarrow> string \<Rightarrow> sync_event list \<Rightarrow> sync_session list \<Rightarrow> db \<Rightarrow> db" where
  "after_failed_sync w now schoolId actorId deviceIdentifier userRole events sessions d =
     (case validateDeviceStatus schoolId deviceIdentifier d of
        Inl _ \<Rightarrow> d
      | Inr dev \<Rightarrow>
          if 75 < length events \<or> \<not> may_sync schoolId actorId deviceIdentifier dev d then d
          else (case reconcile_sessions w now schoolId actorId userRole (session_payloads w now sessions events) d of
                  Inl _ \<Rightarrow> reconcile_prefix w now schoolId actorId userRole (session_payloads w now sessions events) d
                | Inr _ \<Rightarrow> d))"

lemma reconcile_prefix_frame: "opening_frame d (reconcile_prefix w now sid actor role ps d)"
proof (induction ps arbitrary: d)
  case (Cons a ps)
  obtain c p where a: "a = (c, p)" by (cases a)
  show ?case
  proof (cases "reconcile_session w now sid actor role c p d")
    case (Inr b)
    then obtain i d1 where r: "reconcile_session w now sid actor role c p d = Inr (i, d1)" by (cases b) auto
    from reconcile_session_effect [OF r] have "opening_frame d d1" by blast
    with Cons.IH [of d1] show ?thesis by (simp add: a r opening_frame_trans)
  qed (simp add: a)
qed simp

lemma after_failed_sync_frame: "opening_frame d (after_failed_sync w now sid actor device role events sessions d)"
  by (auto simp: after_failed_sync_def reconcile_prefix_frame split: sum.split)

lemma syncE:
  assumes "syncAttendanceEvents w now sid actor device role events sessions d = Inr (resp, d')"
  obtains dev m d1 rs d2 a where "may_sync sid actor device dev d" "length events \<le> 75"
    "reconcile_sessions w now sid actor role (session_payloads w now sessions events) d = Inr (m, d1)"
    "sync_events w now sid actor role (de_id dev) m events d1 = Inr (rs, d2)"
    "resp = \<lparr>sr_processedCount = length rs, sr_results = rs, sr_sessionMappings = m\<rparr>"
    "d' = d2\<lparr>t_audit := t_audit d2 @ [a]\<rparr>" "au_action a = ''BATCH_ATTENDANCE_SYNC''"
proof -
  from assms obtain dev m d1 rs d2 where 1: "may_sync sid actor device dev d" "length events \<le> 75"
    "reconcile_sessions w now sid actor role (session_payloads w now sessions events) d = Inr (m, d1)"
    "sync_events w now sid actor role (de_id dev) m events d1 = Inr (rs, d2)"
    "resp = \<lparr>sr_processedCount = length rs, sr_results = rs, sr_sessionMappings = m\<rparr>"
    "d' = createAuditLog sid actor ''BATCH_ATTENDANCE_SYNC'' ''ATTENDANCE_SESSION'' [] (batch_counts w now m events rs) d2"
    unfolding syncAttendanceEvents_def may_sync_def
    by (auto simp: bind_result_Inr_iff not_less split: if_splits option.splits sum.splits)
  from 1(6) obtain a where "d' = d2\<lparr>t_audit := t_audit d2 @ [a]\<rparr>" "au_action a = ''BATCH_ATTENDANCE_SYNC''"
    using createAuditLog_row by blast
  with 1 show thesis by (intro that)
qed

lemma sync_returns:
  assumes "may_sync sid actor device dev d" "length events \<le> 75"
    "reconcile_sessions w now sid actor role (session_payloads w now sessions events) d = Inr (m, d1)"
    "sync_events w now sid actor role (de_id dev) m events d1 = Inr (rs, d2)"
  shows "\<exists>a. syncAttendanceEvents w now sid actor device role events sessions d =
    Inr (\<lparr>sr_processedCount = length rs, sr_results = rs, sr_sessionMappings = m\<rparr>, d2\<lparr>t_audit := t_audit d2 @ [a]\<rparr>)"
proof -
  have "syncAttendanceEvents w now sid actor device role events sessions d =
    Inr (\<lparr>sr_processedCount = length rs, sr_results = rs, sr_sessionMappings = m\<rparr>,
      createAuditLog sid actor ''BATCH_ATTENDANCE_SYNC'' ''ATTENDANCE_SESSION'' [] (batch_counts w now m events rs) d2)"
    using assms unfolding syncAttendanceEvents_def may_sync_def by (auto split: option.splits)
  then show ?thesis using createAuditLog_row by metis
qed

lemma distinct_payloads: "distinct (map fst (session_payloads w now sessions events))"
  by (simp add: session_payloads_def distinct_js_map)

text \<open>An event is accepted only into a session of the school that is still open to scans.\<close>

definition open_for :: "uuid \<Rightarrow> (string \<times> uuid) list \<Rightarrow> db \<Rightarrow> sync_event \<Rightarrow> bool" where
  "open_for schoolId m d e \<longleftrightarrow> (\<exists>s \<in> set (t_sessions d). event_session m e = Some (as_id s) \<and> as_schoolId s = schoolId
     \<and> as_status s \<noteq> FINALIZED)"

lemma sync_event_step_open:
  assumes "sync_event_step w now sid actor role dev m e d = Inr (r, d')" "sx_status r = SyncAccepted"
  shows "open_for sid m d e"
proof -
  from assms obtain i res where i: "event_session m e = Some i"
    and p: "processQRCode w now sid i (event_request w now actor role dev e) d = Inr (res, d')" "r = accepted_result e res"
    by (auto simp: sync_event_step_def Let_def rejected_result_def split: option.splits if_splits sum.splits error.splits)
  from p(1) show ?thesis
  proof (cases rule: processQRCodeE)
    case replayed
    with p(2) assms(2) show ?thesis by (simp add: accepted_result_def)
  next
    case (scanned s)
    from sel1_SomeD [OF scanned(1)] scanned(5) i show ?thesis by (auto simp: open_for_def)
  qed
qed

lemma open_for_frame: "scan_frame d d' \<Longrightarrow> open_for sid m d' e \<longleftrightarrow> open_for sid m d e"
  by (simp add: open_for_def scan_frame_def)

lemma sync_events_open:
  "sync_events w now sid actor role dev m es d = Inr (rs, d') \<Longrightarrow>
     list_all2 (\<lambda>e r. sx_status r = SyncAccepted \<longrightarrow> open_for sid m d' e) es rs"
proof (induction es arbitrary: d rs)
  case (Cons e es)
  from Cons.prems obtain r d1 rs' where h: "sync_event_step w now sid actor role dev m e d = Inr (r, d1)"
    "sync_events w now sid actor role dev m es d1 = Inr (rs', d')" "rs = r # rs'"
    by (auto simp: bind_result_Inr_iff)
  from sync_events_effect [OF Cons.prems] have fr: "scan_frame d d'" by blast
  from sync_event_step_open [OF h(1)] Cons.IH [OF h(2)] show ?case by (simp add: h(3) open_for_frame [OF fr])
qed simp

text \<open>
  C14: An upload accounts for every scan of the phone.  The answer has one result per event, in order,
  with its identifier; exactly the accepted ones are added to the event log, in order, and nothing
  else is; an event is accepted only into a session of the school that is not finalized; a result
  ALREADY_PROCESSED names an event that is in the log under that identifier; what was
  logged before stays; and the audit log gains one entry.  So a new scan of a finalized session is refused
  and not logged, although the documentation of the offline mode says it is stored as a conflict.
\<close>

theorem upload_accounts_for_every_event:
  assumes "syncAttendanceEvents w now sid actor device role events sessions d = Inr (resp, d')"
  shows "map sx_clientEventId (sr_results resp) = map sy_clientEventId events \<and> sr_processedCount resp = length events
    \<and> (\<exists>new. t_events d' = t_events d @ new
         \<and> map ev_clientEventId new = map sx_clientEventId (filter (\<lambda>r. sx_status r = SyncAccepted) (sr_results resp)))
    \<and> list_all2 (\<lambda>e r. sx_status r = SyncAccepted \<longrightarrow>
         (\<exists>s \<in> set (t_sessions d'). event_session (sr_sessionMappings resp) e = Some (as_id s) \<and> as_schoolId s = sid
            \<and> as_status s \<noteq> FINALIZED)) events (sr_results resp)
    \<and> list_all (\<lambda>r. sx_clientEventId r \<in> ev_clientEventId ` set (t_events d'))
        (filter (\<lambda>r. sx_status r \<noteq> SyncRejected) (sr_results resp))
    \<and> (\<exists>a. t_audit d' = t_audit d @ [a] \<and> au_action a = ''BATCH_ATTENDANCE_SYNC'')"
  using assms
proof (rule syncE)
  fix dev m d1 rs d2 a
  assume r: "reconcile_sessions w now sid actor role (session_payloads w now sessions events) d = Inr (m, d1)"
    and e: "sync_events w now sid actor role (de_id dev) m events d1 = Inr (rs, d2)"
    and resp: "resp = \<lparr>sr_processedCount = length rs, sr_results = rs, sr_sessionMappings = m\<rparr>"
    and d': "d' = d2\<lparr>t_audit := t_audit d2 @ [a]\<rparr>" "au_action a = ''BATCH_ATTENDANCE_SYNC''"
  from reconcile_sessions_effect [OF r distinct_payloads] have fr: "opening_frame d d1" by blast
  note ef = sync_events_effect [OF e]
  from ef have len: "length rs = length events" using map_eq_imp_length_eq by blast
  have all: "list_all2 (\<lambda>e r. sx_status r \<noteq> SyncRejected \<longrightarrow> settled sid actor role m d2 e) events rs" using ef by blast
  have "sx_clientEventId r \<in> ev_clientEventId ` set (t_events d2)" if "r \<in> set rs" "sx_status r \<noteq> SyncRejected" for r
  proof -
    from that(1) obtain n where n: "n < length rs" "r = rs ! n" by (auto simp: in_set_conv_nth)
    with all that len have "settled sid actor role m d2 (events ! n)" by (simp add: list_all2_conv_all_nth)
    moreover have "sy_clientEventId (events ! n) = sx_clientEventId r"
      using ef n len by (metis nth_map)
    ultimately obtain i ev where "known_scan sid i (sx_clientEventId r) d2 = Some ev" by (auto simp: settled_def)
    then have "ev \<in> set (t_events d2)" "sx_clientEventId r = ev_clientEventId ev" by (auto simp: known_scan_def dest: sel1_SomeD)
    then show ?thesis by simp
  qed
  moreover have "list_all2 (\<lambda>e r. sx_status r = SyncAccepted \<longrightarrow> open_for sid m d' e) events rs"
    using sync_events_open [OF e] by (simp add: open_for_def d')
  ultimately show ?thesis using ef fr len d'
    by (simp add: resp opening_frame_def scan_frame_def list_all_iff open_for_def)
qed

text \<open>
  C15: Sending an upload again is harmless.  When the answer to an upload is lost and the phone sends
  the same batch again, every event accepted before is answered ALREADY_PROCESSED, the sessions opened
  offline map to the same sessions and none is opened.  When no event had been rejected, the second
  call succeeds and changes nothing but the audit log.  (The batch must mean the same sessions: an
  event without a date takes that of the day.)
\<close>

theorem resending_is_harmless:
  assumes "syncAttendanceEvents w now sid actor device role events sessions d = Inr (resp, d1)"
    and "session_payloads w now2 sessions events = session_payloads w now sessions events"
  shows "(\<forall>resp2 d2. syncAttendanceEvents w now2 sid actor device role events sessions d1 = Inr (resp2, d2) \<longrightarrow>
      sr_sessionMappings resp2 = sr_sessionMappings resp \<and> t_sessions d2 = t_sessions d1
      \<and> list_all2 (\<lambda>r r2. sx_clientEventId r2 = sx_clientEventId r
           \<and> (sx_status r \<noteq> SyncRejected \<longrightarrow> sx_status r2 = AlreadyProcessed)) (sr_results resp) (sr_results resp2))
    \<and> (count_status SyncRejected (sr_results resp) = 0 \<longrightarrow>
      (\<exists>resp2 d2. syncAttendanceEvents w now2 sid actor device role events sessions d1 = Inr (resp2, d2)
         \<and> d2\<lparr>t_audit := t_audit d1\<rparr> = d1))"
  using assms(1)
proof (rule syncE)
  fix dev m e1 rs e2 a
  assume may: "may_sync sid actor device dev d" "length events \<le> 75"
    and r: "reconcile_sessions w now sid actor role (session_payloads w now sessions events) d = Inr (m, e1)"
    and e: "sync_events w now sid actor role (de_id dev) m events e1 = Inr (rs, e2)"
    and resp: "resp = \<lparr>sr_processedCount = length rs, sr_results = rs, sr_sessionMappings = m\<rparr>"
    and d1: "d1 = e2\<lparr>t_audit := t_audit e2 @ [a]\<rparr>"
  note rec = reconcile_sessions_effect [OF r distinct_payloads]
  note ef = sync_events_effect [OF e]
  have fr: "opening_frame d e1" "scan_frame e1 e2" using rec ef by blast+
  have same: "t_sessions d1 = t_sessions e1" "t_teacherAssignments d1 = t_teacherAssignments d"
    "t_users d1 = t_users d" "t_memberships d1 = t_memberships d" "t_devices d1 = t_devices d" "t_events d1 = t_events e2"
    using fr by (simp_all add: d1 opening_frame_def scan_frame_def)
  have again: "reconcile_sessions w now2 sid actor role (session_payloads w now2 sessions events) d1 = Inr (m, d1)"
    using rec same assms(2) by simp
  have may2: "may_sync sid actor device dev' d1 \<longleftrightarrow> may_sync sid actor device dev' d" for dev'
    using same by (simp add: may_sync_def validateDeviceStatus_def)
  have settled_d1: "settled sid actor role m d1 x \<longleftrightarrow> settled sid actor role m e2 x" for x
    by (simp add: settled_def may_scan_def known_scan_def verifyTeacherAssignment_def d1)
  have all: "list_all2 (\<lambda>e r. sx_status r \<noteq> SyncRejected \<longrightarrow> settled sid actor role m d1 e) events rs"
    using ef settled_d1 by simp
  have first: "sr_sessionMappings resp2 = m \<and> t_sessions d2 = t_sessions d1
      \<and> list_all2 (\<lambda>r r2. sx_clientEventId r2 = sx_clientEventId r
           \<and> (sx_status r \<noteq> SyncRejected \<longrightarrow> sx_status r2 = AlreadyProcessed)) rs (sr_results resp2)"
    if "syncAttendanceEvents w now2 sid actor device role events sessions d1 = Inr (resp2, d2)" for resp2 d2
    using that
  proof (rule syncE)
    fix dev2 m2 f1 rs2 f2 b
    assume "reconcile_sessions w now2 sid actor role (session_payloads w now2 sessions events) d1 = Inr (m2, f1)"
      and e2: "sync_events w now2 sid actor role (de_id dev2) m2 events f1 = Inr (rs2, f2)"
      and resp2: "resp2 = \<lparr>sr_processedCount = length rs2, sr_results = rs2, sr_sessionMappings = m2\<rparr>"
      and d2: "d2 = f2\<lparr>t_audit := t_audit f2 @ [b]\<rparr>"
    with again have m2: "m2 = m" "f1 = d1" by simp_all
    note ef2 = sync_events_effect [OF e2 [unfolded m2]]
    have len: "length rs = length events" "length rs2 = length events" using ef ef2 map_eq_imp_length_eq by blast+
    have ids: "map sx_clientEventId rs2 = map sx_clientEventId rs" using ef ef2 by simp
    have "sx_clientEventId (rs2 ! n) = sx_clientEventId (rs ! n)
      \<and> (sx_status (rs ! n) \<noteq> SyncRejected \<longrightarrow> sx_status (rs2 ! n) = AlreadyProcessed)" if n: "n < length events" for n
    proof -
      from resent_events [OF e2 [unfolded m2]] all n len have "sx_status (rs ! n) \<noteq> SyncRejected \<longrightarrow> echoes f2 sid (events ! n) (rs2 ! n)"
        by (simp add: list_all2_conv_all_nth)
      moreover have "sx_clientEventId (rs2 ! n) = sx_clientEventId (rs ! n)" using ids n len by (metis nth_map)
      ultimately show ?thesis by (auto simp: echoes_def)
    qed
    with len have "list_all2 (\<lambda>r r2. sx_clientEventId r2 = sx_clientEventId r
           \<and> (sx_status r \<noteq> SyncRejected \<longrightarrow> sx_status r2 = AlreadyProcessed)) rs rs2" by (simp add: list_all2_conv_all_nth)
    moreover have "t_sessions f2 = t_sessions d1" using ef2 by (simp add: scan_frame_def)
    ultimately show ?thesis by (simp add: resp2 d2 m2)
  qed
  have second: "\<exists>resp2 d2. syncAttendanceEvents w now2 sid actor device role events sessions d1 = Inr (resp2, d2)
      \<and> d2\<lparr>t_audit := t_audit d1\<rparr> = d1" if none: "count_status SyncRejected rs = 0"
  proof -
    have "sx_status r \<noteq> SyncRejected" if "r \<in> set rs" for r using none that by (auto simp: count_status_def filter_empty_conv)
    then have "list_all (settled sid actor role m d1) events"
      using all by (auto simp: list_all_length list_all2_conv_all_nth)
    from all_settled_replay [OF this] obtain rs2 where rs2: "sync_events w now2 sid actor role (de_id dev) m events d1 = Inr (rs2, d1)"
      by blast
    from sync_returns [OF iffD2 [OF may2 may(1)] may(2) again rs2] obtain b where eq:
      "syncAttendanceEvents w now2 sid actor device role events sessions d1 =
         Inr (\<lparr>sr_processedCount = length rs2, sr_results = rs2, sr_sessionMappings = m\<rparr>, d1\<lparr>t_audit := t_audit d1 @ [b]\<rparr>)" by blast
    show ?thesis by (rule exI, rule exI, rule conjI, rule eq) simp
  qed
  show ?thesis unfolding resp sync_response.simps by (rule conjI, intro allI impI, erule first, rule impI, erule second)
qed

section \<open>Uploads and the event log\<close>

lemma reconcile_session_cases:
  assumes "reconcile_session w now sid actor role c p d = Inr (i, d')"
  obtains "d' = d" | "open_offline_session w now sid actor c p d = Inr (i, d')"
  using assms by (auto simp: reconcile_session_def split: if_splits option.splits)

lemma reconcile_session_delta:
  assumes "reconcile_session w now sid actor role c p d = Inr (i, d')" "inj (gen_uuid w)" "att_inv w d"
  shows "att_delta w d d'"
  using assms(1)
proof (cases rule: reconcile_session_cases)
  case 1
  then show ?thesis by (simp add: att_delta_frame)
next
  case 2
  then show ?thesis
  proof (rule open_offline_sessionE)
    fix s ro rs n m
    assume s: "i = gen_uuid w (seq d)" "as_id s = i"
      and d': "d' = d\<lparr>t_sessions := t_sessions d @ [s], t_roster := t_roster d @ ro, t_records := t_records d @ rs, seq := m\<rparr>"
      and n: "Suc (seq d) \<le> n" "m = n + length (activeEnrollments d sid (sp_classSectionId p))" "map ar_id rs = map (gen_uuid w) [n..<m]"
      and k: "map record_key rs = map (\<lambda>p. (i, st_id (snd p))) (activeEnrollments d sid (sp_classSectionId p))"
      and r: "\<forall>r \<in> set rs. ar_status r = UNMARKED" "distinct (map record_key rs)" "record_key ` set rs \<inter> record_key ` set (t_records d) = {}"
    have "fst ` record_key ` set rs \<subseteq> {as_id s}" using arg_cong [OF k, of set] s(2) by auto
    then show ?thesis
      by (intro att_delta_open [OF assms(2,3), of s d' rs m n]) (use s d' n r in simp_all)
  qed
qed

definition flag :: "uuid \<Rightarrow> uuid \<Rightarrow> att_record list \<Rightarrow> att_record list" where
  "flag sid i = upd (\<lambda>x. ar_schoolId x = sid \<and> ar_id x = i) (\<lambda>x. x\<lparr>ar_hasConflict := True\<rparr>)"

lemma mark_conflict_flags:
  "mark_conflict sid i e err d = d \<or> (\<exists>j. mark_conflict sid i e err d = d\<lparr>t_records := flag sid j (t_records d)\<rparr>)"
  unfolding mark_conflict_def flag_def by (simp split: option.split) blast

lemma flag_follows: "list_all2 (follows []) rs (flag sid i rs)"
  unfolding flag_def upd_def by (simp add: list_all2_conv_all_nth follows_def record_key_def)

lemma mark_conflict_delta: "att_delta w d (mark_conflict sid i e err d)"
  using mark_conflict_flags [of sid i e err d]
proof (elim disjE exE)
  fix j assume m: "mark_conflict sid i e err d = d\<lparr>t_records := flag sid j (t_records d)\<rparr>"
  from flag_follows [of "t_records d" sid j] show ?thesis unfolding m att_delta_def
    by (intro exI [of _ "[]"] exI [of _ "flag sid j (t_records d)"] exI [of _ "[]"]) simp
qed (simp add: att_delta_frame)

lemma sync_event_step_cases:
  assumes "sync_event_step w now sid actor role dev m e d = Inr (r, d')"
  obtains (rejected) i err where "d' = d \<or> (event_session m e = Some i \<and> d' = mark_conflict sid i e err d)"
  | (scanned) i res where "processQRCode w now sid i (event_request w now actor role dev e) d = Inr (res, d')"
  using assms
  by (auto simp: sync_event_step_def Let_def split: option.splits if_splits sum.splits error.splits)

lemma sync_event_step_delta:
  assumes "sync_event_step w now sid actor role dev m e d = Inr (r, d')" "att_inv w d"
  shows "att_delta w d d'"
  using assms(1)
proof (cases rule: sync_event_step_cases)
  case (rejected i err)
  with mark_conflict_delta show ?thesis by (auto simp: att_delta_frame)
next
  case (scanned i res)
  then show ?thesis using assms(2) by (rule processQRCode_delta)
qed

section \<open>Examples\<close>

text \<open>A pupil is marked on a phone without a network, in a session opened there.\<close>

definition sync_world :: world where
  "sync_world = example_world\<lparr>gen_uuid := (\<lambda>n. ''aaaaaaaa-aaaa-4aaa-8aaa-aaaaaaaaaaa'' @ [''0123456789abcdef'' ! (n mod 16)])\<rparr>"

definition phone_session :: string where "phone_session = ''bbbbbbbb-bbbb-4bbb-8bbb-bbbbbbbbbbbb''"

definition sync_example_db :: db where
  "sync_example_db = example_db\<lparr>
     t_users := [\<lparr>us_id = ''t'', us_fullName = [65], us_phoneNumber = ''1'', us_passwordHash = [], us_platformRole = None, us_status = ''ACTIVE''\<rparr>],
     t_devices := [\<lparr>de_id = ''d'', de_schoolId = ''s'', de_userId = ''t'', de_deviceIdentifier = ''phone'', de_deviceModel = ''m'',
                    de_status = ''AUTHORIZED'', de_lastSyncedAt = None, de_updatedAt = 0\<rparr>]\<rparr>"

definition phone_events :: "sync_event list" where
  "phone_events = map (\<lambda>c. \<lparr>sy_clientEventId = c, sy_sessionId = phone_session, sy_rawToken = None, sy_studentId = Some ''p'',
     sy_statusValue = Some PRESENT, sy_clientTimestamp = [], sy_source = Some MANUAL, sy_metadata = None,
     sy_clientSessionId = Some phone_session\<rparr>) [''e1'', ''e2'']"

definition phone_sessions :: "sync_session list" where
  "phone_sessions = [\<lparr>sp_clientSessionId = phone_session, sp_classSectionId = ''k'', sp_sessionDate = ''2026-01-05'', sp_sessionType = ''DAILY''\<rparr>]"

definition phone_upload :: "db \<Rightarrow> (sync_response \<times> db) result" where
  "phone_upload d = syncAttendanceEvents sync_world 9 ''s'' ''t'' ''phone'' ''TEACHER'' phone_events phone_sessions d"

lemma phone_upload_view:
  "(case phone_upload sync_example_db of Inl e \<Rightarrow> None
    | Inr (r, d) \<Rightarrow> Some (map sx_status (sr_results r), map sx_duplicateScan (sr_results r), map ar_status (t_records d)))
   = Some ([SyncAccepted, SyncAccepted], [Some False, Some True], [PRESENT])"
  by code_simp

theorem upload_accounts_for_every_event_witness:
  "\<exists>r d. phone_upload sync_example_db = Inr (r, d) \<and> map ev_clientEventId (t_events d) = [''e1'', ''e2'']"
proof -
  from phone_upload_view obtain r d where u: "phone_upload sync_example_db = Inr (r, d)"
    and st: "map sx_status (sr_results r) = [SyncAccepted, SyncAccepted]" by (auto split: sum.splits)
  from upload_accounts_for_every_event [OF u [unfolded phone_upload_def]] obtain new where
    n: "map sx_clientEventId (sr_results r) = map sy_clientEventId phone_events" "t_events d = t_events sync_example_db @ new"
    "map ev_clientEventId new = map sx_clientEventId (filter (\<lambda>r. sx_status r = SyncAccepted) (sr_results r))" by blast
  have "filter (\<lambda>r. sx_status r = SyncAccepted) (sr_results r) = sr_results r"
    using st by (cases "sr_results r"; cases "tl (sr_results r)") auto
  with n u show ?thesis by (simp add: phone_events_def sync_example_db_def example_db_def empty_db_def)
qed

theorem resending_is_harmless_witness:
  "\<exists>r d r2 d2. phone_upload sync_example_db = Inr (r, d) \<and> phone_upload d = Inr (r2, d2) \<and> d2\<lparr>t_audit := t_audit d\<rparr> = d"
proof -
  from phone_upload_view obtain r d where u: "phone_upload sync_example_db = Inr (r, d)"
    and st: "map sx_status (sr_results r) = [SyncAccepted, SyncAccepted]" by (auto split: sum.splits)
  have "count_status SyncRejected (sr_results r) = 0"
    using st by (cases "sr_results r"; cases "tl (sr_results r)") (auto simp: count_status_def)
  with resending_is_harmless [OF u [unfolded phone_upload_def] refl] u show ?thesis by (auto simp: phone_upload_def)
qed

end
