(* ===== verification/Outbox.thy ===== *)
theory Outbox
  imports Sync
begin

text \<open>
  Models src/src/offline/offlineDb.ts and src/src/services/offlineSyncService.ts, the phone that takes
  attendance without a network: the tables of its browser database, sessions and scans recorded there,
  and the flush of the outbox to the server in batches.  A table of Dexie is the list of its rows in
  the order of the primary key, in which queries return them; what the phone relies on of the server is
  the locale \<open>sync_server\<close>.
\<close>

section \<open>Tables of the phone\<close>

fun key_le :: "string \<Rightarrow> string \<Rightarrow> bool" where
  "key_le [] ys = True"
| "key_le (x # xs) [] = False"
| "key_le (x # xs) (y # ys) \<longleftrightarrow> (of_char x :: nat) < of_char y \<or> (x = y \<and> key_le xs ys)"

definition put_row :: "('r \<Rightarrow> string) \<Rightarrow> 'r \<Rightarrow> 'r list \<Rightarrow> 'r list" where
  "put_row key r t =
     (if \<exists>x \<in> set t. key x = key r then upd (\<lambda>x. key x = key r) (\<lambda>_. r) t
      else insort_by (\<lambda>a b. key_le (key a) (key b)) r t)"

record roster_item =
  or_studentId :: uuid
  or_schoolId :: uuid
  or_classSectionId :: uuid
  or_studentCode :: ustring
  or_name :: ustring
  or_nameBn :: "ustring option"
  or_rollNumber :: int
  or_photoUrl :: "string option"
  or_sha256TokenHash :: "string option"
  or_isRevoked :: bool

record local_session =
  ls_id :: string
  ls_clientSessionId :: string
  ls_serverSessionId :: "uuid option"
  ls_schoolId :: uuid
  ls_classSectionId :: uuid
  ls_sessionDate :: string
  ls_sessionType :: string
  ls_status :: string
  ls_teacherId :: uuid

record local_roster =
  lr_id :: nat
  lr_sessionId :: string
  lr_studentId :: uuid
  lr_studentCode :: ustring
  lr_rollNumber :: int
  lr_studentName :: ustring
  lr_studentNameBn :: "ustring option"
  lr_photoUrl :: "string option"
  lr_status :: attendance_status
  lr_firstScannedAt :: "string option"

datatype outbox_status = Pending | Syncing | Synced | Failed | PermanentFailure | Conflict

datatype failure_class = RetryableFailure | PermanentClass | ConflictClass

record outbox_event =
  ob_clientEventId :: string
  ob_schoolId :: uuid
  ob_sessionId :: string
  ob_sessionMetadata :: sync_session
  ob_studentId :: "uuid option"
  ob_statusValue :: attendance_status
  ob_rawToken :: "string option"
  ob_clientTimestamp :: string
  ob_source :: scan_source
  ob_syncStatus :: outbox_status
  ob_syncError :: "string option"
  ob_failureClass :: "failure_class option"
  ob_retryCount :: nat

text \<open>The four tables, the counter of the auto-incremented key and that of the client identifiers.\<close>

record offline_db =
  od_rosters :: "roster_item list"
  od_sessions :: "local_session list"
  od_sessionRosters :: "local_roster list"
  od_outbox :: "outbox_event list"
  od_nextId :: nat
  od_uuids :: nat

definition empty_offline_db :: offline_db where
  "empty_offline_db = \<lparr>od_rosters = [], od_sessions = [], od_sessionRosters = [], od_outbox = [], od_nextId = 1, od_uuids = 0\<rparr>"

section \<open>Rosters and sessions\<close>

definition stored_student :: "uuid \<Rightarrow> uuid \<Rightarrow> offline_student \<Rightarrow> roster_item" where
  "stored_student schoolId classSectionId s =
     \<lparr>or_studentId = os_studentId s, or_schoolId = schoolId, or_classSectionId = classSectionId,
      or_studentCode = os_studentCode s, or_name = os_name s, or_nameBn = os_nameBn s, or_rollNumber = os_rollNumber s,
      or_photoUrl = os_photoUrl s, or_sha256TokenHash = os_sha256TokenHash s, or_isRevoked = os_isRevoked s\<rparr>"

text \<open>The answer to the download is a parameter: an error message or the package.\<close>

definition downloadAndStoreRosterPackage ::
  "uuid \<Rightarrow> uuid \<Rightarrow> string \<Rightarrow> string option + offline_package \<Rightarrow> offline_db \<Rightarrow> (offline_db \<times> offline_package) result" where
  "downloadAndStoreRosterPackage schoolId classSectionId deviceIdentifier reply ph =
     (if deviceIdentifier = [] then Inl (JsErr ''DEVICE_IDENTIFIER_REQUIRED'')
      else case reply of
        Inl err \<Rightarrow> Inl (JsErr (the (js_or err (Some ''FAILED_TO_DOWNLOAD_ROSTER''))))
      | Inr pkg \<Rightarrow>
          Inr (ph\<lparr>od_rosters := foldl (\<lambda>t s. put_row or_studentId (stored_student schoolId classSectionId s) t)
                    (od_rosters ph) (op_students pkg)\<rparr>, pkg))"

definition add_local_roster :: "local_roster list \<Rightarrow> offline_db \<Rightarrow> offline_db" where
  "add_local_roster rows ph =
     ph\<lparr>od_sessionRosters := od_sessionRosters ph @ map (\<lambda>(i, r). r\<lparr>lr_id := i\<rparr>) (enumerate (od_nextId ph) rows),
       od_nextId := od_nextId ph + length rows\<rparr>"

definition local_row :: "string \<Rightarrow> roster_item \<Rightarrow> local_roster" where
  "local_row sessionId s =
     \<lparr>lr_id = 0, lr_sessionId = sessionId, lr_studentId = or_studentId s, lr_studentCode = or_studentCode s,
      lr_rollNumber = or_rollNumber s, lr_studentName = or_name s, lr_studentNameBn = or_nameBn s,
      lr_photoUrl = or_photoUrl s, lr_status = UNMARKED, lr_firstScannedAt = None\<rparr>"

definition createOfflineSession ::
  "world \<Rightarrow> uuid \<Rightarrow> uuid \<Rightarrow> uuid \<Rightarrow> string \<Rightarrow> string option \<Rightarrow> string option \<Rightarrow> offline_db \<Rightarrow> offline_db \<times> local_session" where
  "createOfflineSession w schoolId classSectionId teacherId sessionDate sessionType customSessionId ph =
     (let (sessionId, ph1) = (if truthy customSessionId then (the customSessionId, ph)
                             else (gen_uuid w (od_uuids ph), ph\<lparr>od_uuids := Suc (od_uuids ph)\<rparr>));
          session = \<lparr>ls_id = sessionId, ls_clientSessionId = sessionId, ls_serverSessionId = None, ls_schoolId = schoolId,
                     ls_classSectionId = classSectionId, ls_sessionDate = sessionDate,
                     ls_sessionType = the (js_or sessionType (Some ''DAILY'')), ls_status = ''OPEN'', ls_teacherId = teacherId\<rparr>;
          ph2 = ph1\<lparr>od_sessions := put_row ls_id session (od_sessions ph1)\<rparr>
      in (add_local_roster (map (local_row sessionId)
            (filter (\<lambda>s. or_schoolId s = schoolId \<and> or_classSectionId s = classSectionId) (od_rosters ph2))) ph2, session))"

section \<open>Scanning without a network\<close>

datatype offline_scan =
    ScanRefused string
  | AlreadyMarked roster_item
  | ScanQueued string roster_item

definition mark_local :: "string \<Rightarrow> local_roster \<Rightarrow> offline_db \<Rightarrow> offline_db" where
  "mark_local timestamp r ph =
     (if lr_id r = 0 then ph
      else ph\<lparr>od_sessionRosters := upd (\<lambda>x. lr_id x = lr_id r)
               (\<lambda>x. x\<lparr>lr_status := PRESENT, lr_firstScannedAt := Some timestamp\<rparr>) (od_sessionRosters ph)\<rparr>)"

text \<open>The row of the session roster; a pupil of the class who came after the session was made gets one.\<close>

definition local_roster_row :: "string \<Rightarrow> local_session \<Rightarrow> roster_item \<Rightarrow> offline_db \<Rightarrow> offline_db \<times> local_roster option" where
  "local_roster_row sessionId session student ph =
     (case sel1 (\<lambda>r. lr_sessionId r = sessionId \<and> lr_studentId r = or_studentId student) (od_sessionRosters ph) of
        Some r \<Rightarrow> (ph, Some r)
      | None \<Rightarrow>
          if or_classSectionId student = ls_classSectionId session
          then let ph1 = add_local_roster [(local_row sessionId student)\<lparr>lr_photoUrl := None\<rparr>] ph
               in (ph1, sel1 (\<lambda>r. lr_id r = od_nextId ph) (od_sessionRosters ph1))
          else (ph, None))"

definition outbox_row ::
  "string \<Rightarrow> uuid \<Rightarrow> string \<Rightarrow> local_session \<Rightarrow> uuid \<Rightarrow> string \<Rightarrow> string \<Rightarrow> scan_source \<Rightarrow> outbox_event" where
  "outbox_row clientEventId schoolId sessionId session studentId rawToken timestamp source =
     \<lparr>ob_clientEventId = clientEventId, ob_schoolId = schoolId, ob_sessionId = sessionId,
      ob_sessionMetadata = \<lparr>sp_clientSessionId = ls_clientSessionId session, sp_classSectionId = ls_classSectionId session,
         sp_sessionDate = ls_sessionDate session, sp_sessionType = ls_sessionType session\<rparr>,
      ob_studentId = Some studentId, ob_statusValue = PRESENT, ob_rawToken = Some rawToken, ob_clientTimestamp = timestamp,
      ob_source = source, ob_syncStatus = Pending, ob_syncError = None, ob_failureClass = None, ob_retryCount = 0\<rparr>"

text \<open>
  The look-up by \<open>serverSessionId\<close> fails: no version of the database declares that index, and Dexie
  rejects a query over a key path without one.  So the session is always found under its own id.
\<close>

definition processOfflineQRCode ::
  "world \<Rightarrow> instant \<Rightarrow> uuid \<Rightarrow> string \<Rightarrow> string \<Rightarrow> string option \<Rightarrow> scan_source \<Rightarrow> offline_db \<Rightarrow> (offline_db \<times> offline_scan) result" where
  "processOfflineQRCode w now schoolId sessionId rawToken clientTimestamp source ph =
     (case sel1 (\<lambda>s. ls_id s = sessionId) (od_sessions ph) of
        None \<Rightarrow> Inl (JsErr ''SchemaError'')
      | Some session \<Rightarrow>
          if ls_schoolId session \<noteq> schoolId then Inr (ph, ScanRefused ''SESSION_NOT_FOUND_OFFLINE'')
          else case sel1 (\<lambda>r. or_sha256TokenHash r = Some (sha256 w rawToken)) (od_rosters ph) of
            None \<Rightarrow> Inr (ph, ScanRefused ''INVALID_QR_TOKEN'')
          | Some student \<Rightarrow>
              if or_isRevoked student then Inr (ph, ScanRefused ''REVOKED_QR_TOKEN'')
              else if or_schoolId student \<noteq> schoolId then Inr (ph, ScanRefused ''WRONG_SCHOOL_QR'')
              else case local_roster_row sessionId session student ph of
                (ph1, None) \<Rightarrow> Inr (ph1, ScanRefused ''STUDENT_NOT_IN_ROSTER'')
              | (ph1, Some r) \<Rightarrow>
                  if lr_status r = PRESENT then Inr (ph1, AlreadyMarked student)
                  else let timestamp = the (js_or clientTimestamp (Some (iso_string w now)));
                           clientEventId = gen_uuid w (od_uuids ph1);
                           e = outbox_row clientEventId schoolId sessionId session (or_studentId student) rawToken timestamp source;
                           ph2 = mark_local timestamp r (ph1\<lparr>od_uuids := Suc (od_uuids ph1)\<rparr>)
                       in Inr (ph2\<lparr>od_outbox := put_row ob_clientEventId e (od_outbox ph2)\<rparr>, ScanQueued clientEventId student))"

section \<open>Clearing\<close>

definition clearSchoolScopedOfflineData :: "uuid \<Rightarrow> offline_db \<Rightarrow> offline_db" where
  "clearSchoolScopedOfflineData schoolId ph =
     (let ids = ls_id ` set (filter (\<lambda>s. ls_schoolId s = schoolId) (od_sessions ph))
      in ph\<lparr>od_rosters := filter (\<lambda>r. or_schoolId r \<noteq> schoolId) (od_rosters ph),
           od_sessions := filter (\<lambda>s. ls_schoolId s \<noteq> schoolId) (od_sessions ph),
           od_outbox := filter (\<lambda>e. ob_schoolId e \<noteq> schoolId) (od_outbox ph),
           od_sessionRosters := filter (\<lambda>r. lr_sessionId r \<notin> ids \<or> lr_id r = 0) (od_sessionRosters ph)\<rparr>)"

definition clearOfflineStore :: "offline_db \<Rightarrow> offline_db" where
  "clearOfflineStore ph = ph\<lparr>od_rosters := [], od_sessions := [], od_sessionRosters := [], od_outbox := []\<rparr>"

section \<open>Failures\<close>

definition MAX_SYNC_RETRIES :: nat where "MAX_SYNC_RETRIES = 5"
definition SYNC_BATCH_SIZE :: nat where "SYNC_BATCH_SIZE = 75"

text \<open>\<open>error.includes('CONFLICT')\<close>\<close>

definition includes_text :: "string \<Rightarrow> string \<Rightarrow> bool" where
  "includes_text p s \<longleftrightarrow> p \<in> set (map (\<lambda>i. take (length p) (drop i s)) [0..<Suc (length s)])"

definition classifySyncFailure :: "string \<Rightarrow> failure_class" where
  "classifySyncFailure err =
     (if err = ''FINALIZED_SESSION_LOCKED'' \<or> includes_text ''CONFLICT'' err then ConflictClass
      else if err \<in> set [''INVALID_QR_TOKEN'', ''REVOKED_QR_TOKEN'', ''WRONG_SCHOOL_QR'', ''STUDENT_NOT_IN_ROSTER'',
                ''SESSION_NOT_FOUND'', ''DEVICE_REVOKED'', ''DEVICE_IDENTIFIER_REQUIRED'', ''UNAUTHORIZED_TEACHER_NOT_ASSIGNED'']
      then PermanentClass else RetryableFailure)"

text \<open>The count is that of the event as it was read, not of the row.\<close>

definition markSyncFailure :: "outbox_event \<Rightarrow> string \<Rightarrow> failure_class \<Rightarrow> offline_db \<Rightarrow> offline_db" where
  "markSyncFailure e err c ph =
     (let retryCount = ob_retryCount e + 1;
          exhausted = (c = RetryableFailure \<and> MAX_SYNC_RETRIES \<le> retryCount)
      in ph\<lparr>od_outbox := upd (\<lambda>x. ob_clientEventId x = ob_clientEventId e)
            (\<lambda>x. x\<lparr>ob_syncStatus := (if c = ConflictClass then Conflict
                                      else if c = PermanentClass \<or> exhausted then PermanentFailure else Failed),
                   ob_failureClass := Some (if exhausted then PermanentClass else c),
                   ob_syncError := Some err, ob_retryCount := retryCount\<rparr>) (od_outbox ph)\<rparr>)"

section \<open>The flush\<close>

text \<open>A request to the server, and its answer: an error message, or results and session mappings.\<close>

record sync_call =
  sq_deviceIdentifier :: string
  sq_sessions :: "sync_session list"
  sq_events :: "sync_event list"

type_synonym sync_reply = "string + sync_result list \<times> (string \<times> uuid) list"

definition json_of_session :: "sync_session \<Rightarrow> (string \<times> json) list" where
  "json_of_session s = [(''clientSessionId'', JStr (sp_clientSessionId s)), (''classSectionId'', JStr (sp_classSectionId s)),
     (''sessionDate'', JStr (sp_sessionDate s)), (''sessionType'', JStr (sp_sessionType s))]"

definition wire_event :: "outbox_event \<Rightarrow> sync_event" where
  "wire_event e =
     \<lparr>sy_clientEventId = ob_clientEventId e, sy_sessionId = ob_sessionId e, sy_rawToken = ob_rawToken e,
      sy_studentId = ob_studentId e, sy_statusValue = Some (ob_statusValue e), sy_clientTimestamp = ob_clientTimestamp e,
      sy_source = Some (ob_source e), sy_metadata = Some (json_of_session (ob_sessionMetadata e)),
      sy_clientSessionId = Some (sp_clientSessionId (ob_sessionMetadata e))\<rparr>"

definition batch_call :: "string \<Rightarrow> outbox_event list \<Rightarrow> sync_call" where
  "batch_call deviceIdentifier batch =
     \<lparr>sq_deviceIdentifier = deviceIdentifier,
      sq_sessions = map snd (js_map (map (\<lambda>e. (sp_clientSessionId (ob_sessionMetadata e), ob_sessionMetadata e)) batch)),
      sq_events = map wire_event batch\<rparr>"

definition requeue_interrupted :: "uuid \<Rightarrow> offline_db \<Rightarrow> offline_db" where
  "requeue_interrupted schoolId ph =
     ph\<lparr>od_outbox := upd (\<lambda>e. ob_syncStatus e = Syncing \<and> ob_schoolId e = schoolId)
        (\<lambda>e. e\<lparr>ob_syncStatus := Failed, ob_failureClass := Some RetryableFailure,
               ob_syncError := Some ''SYNC_INTERRUPTED''\<rparr>) (od_outbox ph)\<rparr>"

definition events_to_sync :: "uuid \<Rightarrow> offline_db \<Rightarrow> outbox_event list" where
  "events_to_sync schoolId ph =
     filter (\<lambda>e. ob_retryCount e < MAX_SYNC_RETRIES \<and> ob_failureClass e \<noteq> Some PermanentClass \<and> ob_failureClass e \<noteq> Some ConflictClass)
       (filter (\<lambda>e. ob_syncStatus e = Pending \<and> ob_schoolId e = schoolId) (od_outbox ph)
        @ filter (\<lambda>e. ob_syncStatus e = Failed \<and> ob_schoolId e = schoolId) (od_outbox ph))"

definition mark_syncing :: "outbox_event list \<Rightarrow> offline_db \<Rightarrow> offline_db" where
  "mark_syncing batch ph =
     ph\<lparr>od_outbox := foldl (\<lambda>t e. upd (\<lambda>x. ob_clientEventId x = ob_clientEventId e) (\<lambda>x. x\<lparr>ob_syncStatus := Syncing\<rparr>) t) (od_outbox ph) batch\<rparr>"

definition cleaned :: "outbox_event \<Rightarrow> outbox_event" where
  "cleaned e = e\<lparr>ob_syncStatus := Synced, ob_syncError := None, ob_failureClass := None, ob_rawToken := None\<rparr>"

fun take_results :: "outbox_event list \<Rightarrow> sync_result list \<Rightarrow> offline_db \<times> nat \<times> nat \<Rightarrow> offline_db \<times> nat \<times> nat" where
  "take_results batch [] acc = acc"
| "take_results batch (r # rs) (ph, synced, failed) =
     (case sel1 (\<lambda>e. ob_clientEventId e = sx_clientEventId r) batch of
        None \<Rightarrow> take_results batch rs (ph, synced, failed)
      | Some e \<Rightarrow>
          if sx_status r \<noteq> SyncRejected
          then take_results batch rs (ph\<lparr>od_outbox := put_row ob_clientEventId (cleaned e) (od_outbox ph)\<rparr>, Suc synced, failed)
          else let err = the (js_or (sx_error r) (Some ''SERVER_REJECTED''))
               in take_results batch rs (markSyncFailure e err (classifySyncFailure err) ph, synced, Suc failed))"

definition take_mappings :: "(string \<times> uuid) list \<Rightarrow> offline_db \<Rightarrow> offline_db" where
  "take_mappings ms ph =
     ph\<lparr>od_sessions := foldl (\<lambda>t (c, i). upd (\<lambda>s. ls_id s = c) (\<lambda>s. s\<lparr>ls_serverSessionId := Some i\<rparr>) t) (od_sessions ph) ms\<rparr>"

record 's flush =
  fl_db :: offline_db
  fl_server :: 's
  fl_results :: "sync_result list"
  fl_mappings :: "(string \<times> uuid) list"
  fl_synced :: nat
  fl_failed :: nat
  fl_lastError :: "string option"

definition flush_batch :: "('s \<Rightarrow> sync_call \<Rightarrow> 's \<times> sync_reply) \<Rightarrow> string \<Rightarrow> 's flush \<Rightarrow> outbox_event list \<Rightarrow> 's flush" where
  "flush_batch call deviceIdentifier f batch =
     (let ph1 = mark_syncing batch (fl_db f);
          (s, reply) = call (fl_server f) (batch_call deviceIdentifier batch)
      in case reply of
           Inr (rs, ms) \<Rightarrow>
             let (ph2, synced, failed) = take_results batch rs (ph1, fl_synced f, fl_failed f)
             in f\<lparr>fl_db := take_mappings ms ph2, fl_server := s, fl_results := fl_results f @ rs,
                  fl_mappings := fl_mappings f @ ms, fl_synced := synced, fl_failed := failed\<rparr>
         | Inl err \<Rightarrow>
             let m = (if err = [] then ''NETWORK_ERROR'' else err)
             in f\<lparr>fl_db := foldl (\<lambda>ph e. markSyncFailure e m RetryableFailure ph) ph1 batch, fl_server := s,
                  fl_failed := fl_failed f + length batch, fl_lastError := Some m\<rparr>)"

record flush_summary =
  fs_processedCount :: nat
  fs_syncedCount :: nat
  fs_failedCount :: nat
  fs_results :: "sync_result list"
  fs_sessionMappings :: "(string \<times> uuid) list"

definition syncOutboxEvents ::
  "(uuid \<Rightarrow> 's \<Rightarrow> sync_call \<Rightarrow> 's \<times> sync_reply) \<Rightarrow> uuid \<Rightarrow> string \<Rightarrow> 's \<Rightarrow> offline_db \<Rightarrow> offline_db \<times> 's \<times> flush_summary result" where
  "syncOutboxEvents call schoolId deviceIdentifier s ph =
     (if schoolId = [] then (ph, s, Inl (JsErr ''SCHOOL_ID_REQUIRED''))
      else if deviceIdentifier = [] then (ph, s, Inl (JsErr ''DEVICE_IDENTIFIER_REQUIRED''))
      else let ph1 = requeue_interrupted schoolId ph;
               events = events_to_sync schoolId ph1
        in if events = [] then (ph1, s, Inr \<lparr>fs_processedCount = 0, fs_syncedCount = 0, fs_failedCount = 0, fs_results = [],
                                             fs_sessionMappings = []\<rparr>)
           else let f = foldl (flush_batch (call schoolId) deviceIdentifier)
                          \<lparr>fl_db = ph1, fl_server = s, fl_results = [], fl_mappings = [], fl_synced = 0, fl_failed = 0, fl_lastError = None\<rparr>
                          (chunks SYNC_BATCH_SIZE events)
                in (fl_db f, fl_server f,
                    case fl_lastError f of
                      Some e \<Rightarrow> if fl_synced f = 0 \<and> fl_results f = [] then Inl (JsErr e)
                                else Inr \<lparr>fs_processedCount = length events, fs_syncedCount = fl_synced f, fs_failedCount = fl_failed f,
                                          fs_results = fl_results f, fs_sessionMappings = fl_mappings f\<rparr>
                    | None \<Rightarrow> Inr \<lparr>fs_processedCount = length events, fs_syncedCount = fl_synced f, fs_failedCount = fl_failed f,
                                   fs_results = fl_results f, fs_sessionMappings = fl_mappings f\<rparr>))"

record outbox_counts =
  oc_pendingCount :: nat
  oc_failedCount :: nat
  oc_syncingCount :: nat
  oc_syncedCount :: nat
  oc_permanentFailureCount :: nat
  oc_conflictCount :: nat
  oc_unsyncedTotal :: nat

definition getOutboxStatus :: "uuid option \<Rightarrow> offline_db \<Rightarrow> outbox_counts" where
  "getOutboxStatus schoolId ph =
     (let n = (\<lambda>st. length (filter (\<lambda>e. ob_syncStatus e = st \<and> (\<not> truthy schoolId \<or> ob_schoolId e = the schoolId)) (od_outbox ph)))
      in \<lparr>oc_pendingCount = n Pending, oc_failedCount = n Failed, oc_syncingCount = n Syncing, oc_syncedCount = n Synced,
          oc_permanentFailureCount = n PermanentFailure, oc_conflictCount = n Conflict,
          oc_unsyncedTotal = n Pending + n Failed + n Syncing + n PermanentFailure + n Conflict\<rparr>)"

section \<open>Rows of the outbox\<close>

definition row :: "offline_db \<Rightarrow> string \<Rightarrow> outbox_event option" where
  "row ph k = sel1 (\<lambda>e. ob_clientEventId e = k) (od_outbox ph)"

abbreviation keys :: "outbox_event list \<Rightarrow> string list" where
  "keys es \<equiv> map ob_clientEventId es"

lemma row_key: "row ph k = Some e \<Longrightarrow> ob_clientEventId e = k \<and> e \<in> set (od_outbox ph)"
  by (auto simp: row_def dest: sel1_SomeD)

lemma row_of: "distinct (keys (od_outbox ph)) \<Longrightarrow> e \<in> set (od_outbox ph) \<Longrightarrow> row ph (ob_clientEventId e) = Some e"
  unfolding row_def by (rule sel1_key_unique)

lemma row_None_iff: "row ph k = None \<longleftrightarrow> k \<notin> set (keys (od_outbox ph))"
  by (auto simp: row_def sel1_None_iff)

lemma upd_key_row:
  assumes "\<And>e. key e = k \<Longrightarrow> key (f e) = k"
  shows "sel1 (\<lambda>e. key e = k') (upd (\<lambda>e. key e = k) f t) = (if k' = k then map_option f (sel1 (\<lambda>e. key e = k) t) else sel1 (\<lambda>e. key e = k') t)"
    "map key (upd (\<lambda>e. key e = k) f t) = map key t"
  using assms by (induction t) auto

lemma put_row_known:
  assumes "key r \<in> key ` set t"
  shows "put_row key r t = upd (\<lambda>x. key x = key r) (\<lambda>_. r) t"
  using assms by (auto simp: put_row_def)

lemma put_row_keys: "distinct (map key t) \<Longrightarrow> distinct (map key (put_row key r t))"
proof (cases "key r \<in> key ` set t")
  case True
  moreover assume "distinct (map key t)"
  ultimately show ?thesis by (simp add: put_row_known upd_key_row(2))
next
  case False
  assume "distinct (map key t)"
  with False have "distinct (map key (insort_by (\<lambda>a b. key_le (key a) (key b)) r t))"
    by (metis distinct.simps(2) list.simps(9) mset.simps(2) mset_eq_imp_distinct_iff mset_insort_by mset_map set_map)
  moreover from False have "put_row key r t = insort_by (\<lambda>a b. key_le (key a) (key b)) r t"
    by (auto simp: put_row_def rev_image_eqI)
  ultimately show ?thesis by simp
qed

lemma set_insort_by [simp]: "set (insort_by le x xs) = insert x (set xs)"
  by (induction xs) auto

lemma set_put_row: "set (put_row key r t) \<subseteq> insert r (set t)"
  by (auto simp: put_row_def in_upd)

text \<open>The rows after a batch is marked, after one failure and after one result.\<close>

definition failed_row :: "outbox_event \<Rightarrow> string \<Rightarrow> failure_class \<Rightarrow> outbox_event \<Rightarrow> outbox_event" where
  "failed_row e err c x =
     (let exhausted = (c = RetryableFailure \<and> MAX_SYNC_RETRIES \<le> ob_retryCount e + 1)
      in x\<lparr>ob_syncStatus := (if c = ConflictClass then Conflict else if c = PermanentClass \<or> exhausted then PermanentFailure else Failed),
           ob_failureClass := Some (if exhausted then PermanentClass else c), ob_syncError := Some err, ob_retryCount := ob_retryCount e + 1\<rparr>)"

lemma failed_row_key [simp]: "ob_clientEventId (failed_row e err c x) = ob_clientEventId x"
  by (simp add: failed_row_def Let_def)

lemma cleaned_key [simp]: "ob_clientEventId (cleaned e) = ob_clientEventId e"
  by (simp add: cleaned_def)

lemma markSyncFailure_row:
  "row (markSyncFailure e err c ph) k = (if k = ob_clientEventId e then map_option (failed_row e err c) (row ph k) else row ph k)"
  "keys (od_outbox (markSyncFailure e err c ph)) = keys (od_outbox ph)"
proof -
  have m: "od_outbox (markSyncFailure e err c ph) = upd (\<lambda>x. ob_clientEventId x = ob_clientEventId e) (failed_row e err c) (od_outbox ph)"
    by (simp add: markSyncFailure_def failed_row_def [abs_def] Let_def)
  show "row (markSyncFailure e err c ph) k = (if k = ob_clientEventId e then map_option (failed_row e err c) (row ph k) else row ph k)"
    "keys (od_outbox (markSyncFailure e err c ph)) = keys (od_outbox ph)"
    unfolding row_def m by (auto simp: upd_key_row)
qed

lemma put_outbox_row:
  assumes "row ph (ob_clientEventId r) \<noteq> None"
  shows "row (ph\<lparr>od_outbox := put_row ob_clientEventId r (od_outbox ph)\<rparr>) k = (if k = ob_clientEventId r then Some r else row ph k)"
    "keys (put_row ob_clientEventId r (od_outbox ph)) = keys (od_outbox ph)"
proof -
  from assms have "ob_clientEventId r \<in> ob_clientEventId ` set (od_outbox ph)" by (simp add: row_None_iff)
  note p = put_row_known [OF this]
  show "row (ph\<lparr>od_outbox := put_row ob_clientEventId r (od_outbox ph)\<rparr>) k = (if k = ob_clientEventId r then Some r else row ph k)"
    "keys (put_row ob_clientEventId r (od_outbox ph)) = keys (od_outbox ph)"
    using assms unfolding p row_def by (auto simp: upd_key_row)
qed

lemma mark_syncing_row:
  "row (mark_syncing batch ph) k = map_option (\<lambda>x. if k \<in> set (keys batch) then x\<lparr>ob_syncStatus := Syncing\<rparr> else x) (row ph k)"
  "keys (od_outbox (mark_syncing batch ph)) = keys (od_outbox ph)"
proof -
  have "sel1 (\<lambda>e. ob_clientEventId e = k)
      (foldl (\<lambda>t e. upd (\<lambda>x. ob_clientEventId x = ob_clientEventId e) (\<lambda>x. x\<lparr>ob_syncStatus := Syncing\<rparr>) t) t batch)
    = map_option (\<lambda>x. if k \<in> set (keys batch) then x\<lparr>ob_syncStatus := Syncing\<rparr> else x) (sel1 (\<lambda>e. ob_clientEventId e = k) t)
    \<and> keys (foldl (\<lambda>t e. upd (\<lambda>x. ob_clientEventId x = ob_clientEventId e) (\<lambda>x. x\<lparr>ob_syncStatus := Syncing\<rparr>) t) t batch) = keys t" for t
  proof (induction batch arbitrary: t)
    case (Cons a batch)
    then show ?case by (cases "sel1 (\<lambda>e. ob_clientEventId e = k) t") (auto simp: upd_key_row)
  qed (simp add: option.map_ident)
  then show "row (mark_syncing batch ph) k = map_option (\<lambda>x. if k \<in> set (keys batch) then x\<lparr>ob_syncStatus := Syncing\<rparr> else x) (row ph k)"
    "keys (od_outbox (mark_syncing batch ph)) = keys (od_outbox ph)"
    by (simp_all add: mark_syncing_def row_def)
qed

definition answered :: "outbox_event \<Rightarrow> sync_result \<Rightarrow> outbox_event \<Rightarrow> outbox_event" where
  "answered e r x = (if sx_status r \<noteq> SyncRejected then cleaned e
     else let err = the (js_or (sx_error r) (Some ''SERVER_REJECTED'')) in failed_row e err (classifySyncFailure err) x)"

text \<open>With the results of different events, each row is what its own result makes of it.\<close>

lemma take_results_rows:
  "distinct (map sx_clientEventId rs) \<Longrightarrow> set (keys batch) \<subseteq> set (keys (od_outbox ph)) \<Longrightarrow>
     row (fst (take_results batch rs (ph, a, b))) k =
       (case sel1 (\<lambda>r. sx_clientEventId r = k) rs of
          None \<Rightarrow> row ph k
        | Some r \<Rightarrow> (case sel1 (\<lambda>e. ob_clientEventId e = k) batch of
             None \<Rightarrow> row ph k | Some e \<Rightarrow> map_option (answered e r) (row ph k)))
     \<and> keys (od_outbox (fst (take_results batch rs (ph, a, b)))) = keys (od_outbox ph)"
proof (induction rs arbitrary: ph a b)
  case (Cons r rs)
  have fresh: "sel1 (\<lambda>x. sx_clientEventId x = sx_clientEventId r) rs = None"
    using Cons.prems(1) by (auto simp: sel1_None_iff rev_image_eqI)
  show ?case
  proof (cases "sel1 (\<lambda>e. ob_clientEventId e = sx_clientEventId r) batch")
    case None
    with Cons.IH [of ph a b] Cons.prems fresh show ?thesis by (auto split: option.split)
  next
    case (Some e)
    then have e: "ob_clientEventId e = sx_clientEventId r" "e \<in> set batch" using sel1_SomeD [OF Some] by auto
    from e(2) Cons.prems(2) have known: "row ph (ob_clientEventId e) \<noteq> None" unfolding row_None_iff set_map by blast
    define ph1 where "ph1 = (if sx_status r \<noteq> SyncRejected then ph\<lparr>od_outbox := put_row ob_clientEventId (cleaned e) (od_outbox ph)\<rparr>
      else let err = the (js_or (sx_error r) (Some ''SERVER_REJECTED'')) in markSyncFailure e err (classifySyncFailure err) ph)"
    have step: "\<exists>a b. take_results batch (r # rs) (ph, a0, b0) = take_results batch rs (ph1, a, b)" for a0 b0
      using Some by (auto simp: ph1_def Let_def)
    have rows: "row ph1 k = (if k = sx_clientEventId r then map_option (answered e r) (row ph k) else row ph k)" for k
      using known put_outbox_row(1) [of ph "cleaned e" k] e(1)
      by (auto simp: ph1_def answered_def Let_def markSyncFailure_row)
    have keys: "keys (od_outbox ph1) = keys (od_outbox ph)"
      using known put_outbox_row(2) [of ph "cleaned e"] by (simp add: ph1_def Let_def markSyncFailure_row)
    from step obtain a' b' where t: "take_results batch (r # rs) (ph, a, b) = take_results batch rs (ph1, a', b')" by blast
    from Cons.IH [of ph1 a' b'] Cons.prems keys rows [of k] fresh Some show ?thesis unfolding t by (auto split: option.split)
  qed
qed simp

section \<open>The server the phone relies on\<close>

text \<open>
  A successful answer has one result per event, in order; an event whose result is not a rejection is
  logged; what is logged stays logged, whether or not the answer arrives.
\<close>

locale sync_server =
  fixes call :: "uuid \<Rightarrow> 's \<Rightarrow> sync_call \<Rightarrow> 's \<times> sync_reply"
    and logged :: "uuid \<Rightarrow> 's \<Rightarrow> string \<Rightarrow> bool"
  assumes answers: "call sid s rq = (s', Inr (rs, ms)) \<Longrightarrow> map sx_clientEventId rs = map sy_clientEventId (sq_events rq)"
    and recorded: "call sid s rq = (s', Inr (rs, ms)) \<Longrightarrow> r \<in> set rs \<Longrightarrow> sx_status r \<noteq> SyncRejected \<Longrightarrow> logged sid s' (sx_clientEventId r)"
    and kept: "call sid s rq = (s', reply) \<Longrightarrow> logged i s c \<Longrightarrow> logged i s' c"

text \<open>What an attempt makes of an event.\<close>

definition attempted :: "(string \<Rightarrow> bool) \<Rightarrow> outbox_event \<Rightarrow> outbox_event \<Rightarrow> bool" where
  "attempted ok e e' \<longleftrightarrow> ob_clientEventId e' = ob_clientEventId e \<and> ob_schoolId e' = ob_schoolId e
     \<and> (ob_syncStatus e' = Synced \<and> ob_rawToken e' = None \<and> ok (ob_clientEventId e) \<and> ob_retryCount e' = ob_retryCount e
        \<or> ob_syncStatus e' \<in> {PermanentFailure, Conflict} \<and> ob_retryCount e' = Suc (ob_retryCount e)
        \<or> ob_syncStatus e' = Failed \<and> ob_failureClass e' = Some RetryableFailure \<and> ob_retryCount e' = Suc (ob_retryCount e)
          \<and> ob_retryCount e' < MAX_SYNC_RETRIES)"

lemma attempted_mono: "attempted ok e e' \<Longrightarrow> (\<And>c. ok c \<Longrightarrow> ok' c) \<Longrightarrow> attempted ok' e e'"
  by (auto simp: attempted_def)

lemma attempted_failed:
  "ob_clientEventId x = ob_clientEventId e \<Longrightarrow> ob_schoolId x = ob_schoolId e \<Longrightarrow> attempted ok e (failed_row e err c x)"
  by (cases c) (auto simp: attempted_def failed_row_def Let_def)

lemma attempted_answered:
  assumes "sx_status r \<noteq> SyncRejected \<Longrightarrow> ok (ob_clientEventId e)" "ob_clientEventId x = ob_clientEventId e" "ob_schoolId x = ob_schoolId e"
  shows "attempted ok e (answered e r x)"
proof (cases "sx_status r = SyncRejected")
  case True
  with attempted_failed [OF assms(2,3)] show ?thesis by (simp add: answered_def Let_def)
next
  case False
  with assms(1) show ?thesis by (simp add: answered_def attempted_def cleaned_def)
qed

lemma fail_batch_rows:
  "distinct (keys batch) \<Longrightarrow>
     row (foldl (\<lambda>ph e. markSyncFailure e m c ph) ph batch) k =
       (case sel1 (\<lambda>e. ob_clientEventId e = k) batch of None \<Rightarrow> row ph k | Some e \<Rightarrow> map_option (failed_row e m c) (row ph k))
     \<and> keys (od_outbox (foldl (\<lambda>ph e. markSyncFailure e m c ph) ph batch)) = keys (od_outbox ph)"
proof (induction batch arbitrary: ph)
  case (Cons e batch)
  have "sel1 (\<lambda>x. ob_clientEventId x = ob_clientEventId e) batch = None"
    using Cons.prems by (auto simp: sel1_None_iff rev_image_eqI)
  with Cons.IH [of "markSyncFailure e m c ph"] Cons.prems show ?case by (auto simp: markSyncFailure_row split: option.split)
qed simp

lemma take_mappings_outbox [simp]: "od_outbox (take_mappings ms ph) = od_outbox ph"
  by (simp add: take_mappings_def)

lemma wire_keys [simp]: "map sy_clientEventId (sq_events (batch_call dev batch)) = keys batch"
  by (simp add: batch_call_def wire_event_def)

text \<open>The rows a batch holds are those of the outbox, and not yet exhausted.\<close>

definition queued :: "offline_db \<Rightarrow> outbox_event list \<Rightarrow> bool" where
  "queued ph batch \<longleftrightarrow> distinct (keys batch) \<and> (\<forall>e \<in> set batch. row ph (ob_clientEventId e) = Some e)"

context sync_server
begin

lemma flush_batch_effect:
  assumes "queued (fl_db f) batch" "flush_batch (call sid) dev f batch = f'"
  shows "keys (od_outbox (fl_db f')) = keys (od_outbox (fl_db f))"
    "\<And>e. e \<in> set batch \<Longrightarrow> \<exists>e'. row (fl_db f') (ob_clientEventId e) = Some e' \<and> attempted (logged sid (fl_server f')) e e'"
    "\<And>k. k \<notin> set (keys batch) \<Longrightarrow> row (fl_db f') k = row (fl_db f) k"
    "\<And>i c. logged i (fl_server f) c \<Longrightarrow> logged i (fl_server f') c"
proof -
  obtain s reply where c: "call sid (fl_server f) (batch_call dev batch) = (s, reply)" by fastforce
  let ?ph = "mark_syncing batch (fl_db f)"
  have dist: "distinct (keys batch)" and rows: "\<And>e. e \<in> set batch \<Longrightarrow> row (fl_db f) (ob_clientEventId e) = Some e"
    using assms(1) by (auto simp: queued_def)
  have ph: "row ?ph (ob_clientEventId e) = Some (e\<lparr>ob_syncStatus := Syncing\<rparr>)" if "e \<in> set batch" for e
    using rows [OF that] that by (simp add: mark_syncing_row)
  have other: "row ?ph k = row (fl_db f) k" if "k \<notin> set (keys batch)" for k
    using that by (cases "row (fl_db f) k") (simp_all add: mark_syncing_row)
  have found: "sel1 (\<lambda>x. ob_clientEventId x = ob_clientEventId e) batch = Some e" if "e \<in> set batch" for e
    using dist that by (rule sel1_key_unique)
  have sub: "set (keys batch) \<subseteq> set (keys (od_outbox ?ph))"
    using rows by (auto simp: mark_syncing_row dest!: row_key)
  have "keys (od_outbox (fl_db f')) = keys (od_outbox (fl_db f)) \<and> fl_server f' = s
     \<and> (\<forall>e \<in> set batch. \<exists>e'. row (fl_db f') (ob_clientEventId e) = Some e' \<and> attempted (logged sid s) e e')
     \<and> (\<forall>k. k \<notin> set (keys batch) \<longrightarrow> row (fl_db f') k = row (fl_db f) k)"
  proof (cases reply)
    case (Inl err)
    define m where "m = (if err = [] then ''NETWORK_ERROR'' else err)"
    have f': "fl_db f' = foldl (\<lambda>ph e. markSyncFailure e m RetryableFailure ph) ?ph batch" "fl_server f' = s"
      using assms(2) c Inl by (auto simp: flush_batch_def Let_def m_def)
    note r = fail_batch_rows [OF dist, of m RetryableFailure ?ph]
    have "\<exists>e'. row (fl_db f') (ob_clientEventId e) = Some e' \<and> attempted (logged sid s) e e'" if "e \<in> set batch" for e
      unfolding f' using conjunct1 [OF r, of "ob_clientEventId e"] ph [OF that] found [OF that] by (auto intro: attempted_failed)
    moreover have "row (fl_db f') k = row (fl_db f) k" if "k \<notin> set (keys batch)" for k
    proof -
      from that have "sel1 (\<lambda>e. ob_clientEventId e = k) batch = None" by (auto simp: sel1_None_iff)
      then show ?thesis unfolding f' using conjunct1 [OF r, of k] other [OF that] by simp
    qed
    ultimately show ?thesis using conjunct2 [OF r] f' by (simp add: mark_syncing_row)
  next
    case (Inr p)
    then obtain rs ms where p: "reply = Inr (rs, ms)" by (cases p) simp
    obtain ph2 a b where t: "take_results batch rs (?ph, fl_synced f, fl_failed f) = (ph2, a, b)" by (metis prod_cases3)
    have f': "fl_db f' = take_mappings ms ph2" "fl_server f' = s"
      using assms(2) c p t by (auto simp: flush_batch_def Let_def)
    from answers [OF c [unfolded p]] have ids: "map sx_clientEventId rs = keys batch" by simp
    then have ids_set: "sx_clientEventId ` set rs = set (keys batch)" using arg_cong [of _ _ set] by (metis set_map)
    from ids dist have dr: "distinct (map sx_clientEventId rs)" by simp
    note r = take_results_rows [OF dr sub, of "fl_synced f" "fl_failed f", unfolded t fst_conv]
    have "\<exists>e'. row (fl_db f') (ob_clientEventId e) = Some e' \<and> attempted (logged sid s) e e'" if e: "e \<in> set batch" for e
    proof -
      from e ids have "ob_clientEventId e \<in> set (map sx_clientEventId rs)" by simp
      then obtain x where x: "sel1 (\<lambda>r. sx_clientEventId r = ob_clientEventId e) rs = Some x"
        using sel1_None_iff [of "\<lambda>r. sx_clientEventId r = ob_clientEventId e" rs] by fastforce
      note sx = sel1_SomeD [OF x]
      have "row ph2 (ob_clientEventId e) = Some (answered e x (e\<lparr>ob_syncStatus := Syncing\<rparr>))"
        using conjunct1 [OF r, of "ob_clientEventId e"] x found [OF e] ph [OF e] by simp
      moreover have "attempted (logged sid s) e (answered e x (e\<lparr>ob_syncStatus := Syncing\<rparr>))"
        by (rule attempted_answered) (use recorded [OF c [unfolded p], of x] sx in auto)
      ultimately show ?thesis unfolding f' row_def by simp
    qed
    moreover have "row (fl_db f') k = row (fl_db f) k" if "k \<notin> set (keys batch)" for k
    proof -
      from that ids_set have "sel1 (\<lambda>r. sx_clientEventId r = k) rs = None" unfolding sel1_None_iff by blast
      then have "row ph2 k = row ?ph k" using conjunct1 [OF r, of k] by simp
      with other [OF that] show ?thesis unfolding f' row_def by simp
    qed
    ultimately show ?thesis using conjunct2 [OF r] f' by (simp add: mark_syncing_row)
  qed
  then have all: "keys (od_outbox (fl_db f')) = keys (od_outbox (fl_db f))" "fl_server f' = s"
    "\<forall>e \<in> set batch. \<exists>e'. row (fl_db f') (ob_clientEventId e) = Some e' \<and> attempted (logged sid s) e e'"
    "\<forall>k. k \<notin> set (keys batch) \<longrightarrow> row (fl_db f') k = row (fl_db f) k" by simp_all
  show "keys (od_outbox (fl_db f')) = keys (od_outbox (fl_db f))" by (rule all(1))
  show "\<exists>e'. row (fl_db f') (ob_clientEventId e) = Some e' \<and> attempted (logged sid (fl_server f')) e e'" if "e \<in> set batch" for e
    unfolding all(2) using all(3) that by (rule bspec)
  show "row (fl_db f') k = row (fl_db f) k" if "k \<notin> set (keys batch)" for k using all(4) that by (simp only: HOL.simp_thms)
  show "logged i (fl_server f') c" if "logged i (fl_server f) c" for i c unfolding all(2) by (rule kept [OF c that])
qed

lemma flush_batches_effect:
  "queued (fl_db f) (concat bs) \<Longrightarrow> foldl (flush_batch (call sid) dev) f bs = f' \<Longrightarrow>
     keys (od_outbox (fl_db f')) = keys (od_outbox (fl_db f))
     \<and> (\<forall>e \<in> set (concat bs). \<exists>e'. row (fl_db f') (ob_clientEventId e) = Some e' \<and> attempted (logged sid (fl_server f')) e e')
     \<and> (\<forall>k. k \<notin> set (keys (concat bs)) \<longrightarrow> row (fl_db f') k = row (fl_db f) k)
     \<and> (\<forall>i c. logged i (fl_server f) c \<longrightarrow> logged i (fl_server f') c)"
proof (induction bs arbitrary: f)
  case (Cons b bs)
  define f1 where "f1 = flush_batch (call sid) dev f b"
  have q: "queued (fl_db f) b" using Cons.prems(1) by (auto simp: queued_def)
  note b = flush_batch_effect [OF q f1_def [symmetric]]
  have disj: "set (keys b) \<inter> set (keys (concat bs)) = {}"
    using Cons.prems(1) unfolding queued_def concat.simps map_append distinct_append by (elim conjE)
  have in_keys: "ob_clientEventId e \<in> set (keys es)" if "e \<in> set es" for e es using that by simp
  have apart: "ob_clientEventId e \<notin> set (keys b)" if "e \<in> set (concat bs)" for e
    using disj in_keys [OF that] by (blast dest: IntI)
  have "row (fl_db f1) (ob_clientEventId e) = Some e" if "e \<in> set (concat bs)" for e
    using Cons.prems(1) b(3) [OF apart [OF that]] that by (simp add: queued_def)
  moreover have "distinct (keys (concat bs))" using Cons.prems(1) by (simp add: queued_def)
  ultimately have "queued (fl_db f1) (concat bs)" unfolding queued_def by blast
  have rest: "foldl (flush_batch (call sid) dev) f1 bs = f'" using Cons.prems(2) by (simp add: f1_def)
  note IH = Cons.IH [OF \<open>queued (fl_db f1) (concat bs)\<close> rest]
  have k: "keys (od_outbox (fl_db f')) = keys (od_outbox (fl_db f))" using IH b(1) by simp
  have l: "logged i (fl_server f) c \<Longrightarrow> logged i (fl_server f') c" for i c using IH b(4) by blast
  have l1: "logged i (fl_server f1) c \<Longrightarrow> logged i (fl_server f') c" for i c using IH by blast
  have "\<exists>e'. row (fl_db f') (ob_clientEventId e) = Some e' \<and> attempted (logged sid (fl_server f')) e e'" if "e \<in> set (concat (b # bs))" for e
  proof (cases "e \<in> set (concat bs)")
    case True
    with IH show ?thesis by blast
  next
    case False
    with that have e: "e \<in> set b" by simp
    then obtain e' where e': "row (fl_db f1) (ob_clientEventId e) = Some e'" "attempted (logged sid (fl_server f1)) e e'" using b(2) by blast
    have "ob_clientEventId e \<notin> set (keys (concat bs))" using disj in_keys [OF e] by (blast dest: IntI)
    with IH e' show ?thesis using attempted_mono [OF e'(2) l1] by auto
  qed
  moreover have "row (fl_db f') x = row (fl_db f) x" if "x \<notin> set (keys (concat (b # bs)))" for x
    using that IH b(3) by auto
  ultimately show ?case using k l by blast
qed (simp add: queued_def)

end

section \<open>The invariant of the outbox\<close>

definition waiting :: "outbox_event \<Rightarrow> bool" where
  "waiting e \<longleftrightarrow> ob_syncStatus e \<in> {Pending, Syncing, Failed}"

definition sound_event :: "(uuid \<Rightarrow> string \<Rightarrow> bool) \<Rightarrow> outbox_event \<Rightarrow> bool" where
  "sound_event ok e \<longleftrightarrow>
     (ob_syncStatus e = Synced \<longrightarrow> ob_rawToken e = None \<and> ok (ob_schoolId e) (ob_clientEventId e))
     \<and> ob_retryCount e \<le> MAX_SYNC_RETRIES \<and> (waiting e \<longrightarrow> ob_retryCount e < MAX_SYNC_RETRIES)
     \<and> (ob_syncStatus e \<in> {Pending, Failed} \<longrightarrow> ob_failureClass e \<in> {None, Some RetryableFailure})"

definition outbox_inv :: "world \<Rightarrow> (uuid \<Rightarrow> string \<Rightarrow> bool) \<Rightarrow> offline_db \<Rightarrow> bool" where
  "outbox_inv w ok ph \<longleftrightarrow> distinct (keys (od_outbox ph)) \<and> (\<forall>e \<in> set (od_outbox ph). sound_event ok e)
     \<and> set (keys (od_outbox ph)) \<subseteq> gen_uuid w ` {..<od_uuids ph}"

lemma sound_event_mono: "sound_event ok e \<Longrightarrow> (\<And>i c. ok i c \<Longrightarrow> ok' i c) \<Longrightarrow> sound_event ok' e"
  by (auto simp: sound_event_def)

lemma outbox_inv_mono: "outbox_inv w ok ph \<Longrightarrow> (\<And>i c. ok i c \<Longrightarrow> ok' i c) \<Longrightarrow> outbox_inv w ok' ph"
  unfolding outbox_inv_def using sound_event_mono [of ok _ ok'] by (elim conjE, intro conjI ballI) auto

lemma attempted_sound:
  assumes "attempted (ok sid) e e'" "ob_schoolId e = sid" "ob_retryCount e < MAX_SYNC_RETRIES"
  shows "sound_event ok e'"
  using assms by (auto simp: attempted_def sound_event_def waiting_def)

text \<open>How one row may change: what is settled stays, what waits is never attempted less often.\<close>

definition advances :: "bool \<Rightarrow> outbox_event \<Rightarrow> outbox_event \<Rightarrow> bool" where
  "advances tried e e' \<longleftrightarrow> ob_clientEventId e' = ob_clientEventId e \<and> ob_schoolId e' = ob_schoolId e
     \<and> (\<not> waiting e \<longrightarrow> e' = e)
     \<and> (waiting e' \<longrightarrow> waiting e \<and> (if tried then ob_retryCount e < ob_retryCount e' else ob_retryCount e \<le> ob_retryCount e'))"

lemma advances_refl [simp]: "advances False e e"
  by (simp add: advances_def)

lemma attempted_advances: "attempted ok e e' \<Longrightarrow> waiting e \<Longrightarrow> advances tried e e'"
  by (auto simp: attempted_def advances_def waiting_def)

lemma advances_weaken: "advances b e e' \<Longrightarrow> (tried \<Longrightarrow> b) \<Longrightarrow> advances tried e e'"
  by (auto simp: advances_def split: if_splits)

lemma requeue_row:
  "row (requeue_interrupted sid ph) k = map_option (\<lambda>e. if ob_syncStatus e = Syncing \<and> ob_schoolId e = sid
      then e\<lparr>ob_syncStatus := Failed, ob_failureClass := Some RetryableFailure, ob_syncError := Some ''SYNC_INTERRUPTED''\<rparr> else e) (row ph k)"
  "keys (od_outbox (requeue_interrupted sid ph)) = keys (od_outbox ph)"
proof -
  have "sel1 (\<lambda>e. ob_clientEventId e = k) (upd p f t) = map_option (\<lambda>e. if p e then f e else e) (sel1 (\<lambda>e. ob_clientEventId e = k) t)
     \<and> keys (upd p f t) = keys t" if "\<And>e. ob_clientEventId (f e) = ob_clientEventId e" for p f t
    using that by (induction t) auto
  then show "row (requeue_interrupted sid ph) k = map_option (\<lambda>e. if ob_syncStatus e = Syncing \<and> ob_schoolId e = sid
      then e\<lparr>ob_syncStatus := Failed, ob_failureClass := Some RetryableFailure, ob_syncError := Some ''SYNC_INTERRUPTED''\<rparr> else e) (row ph k)"
    "keys (od_outbox (requeue_interrupted sid ph)) = keys (od_outbox ph)"
    by (simp_all add: requeue_interrupted_def row_def)
qed

lemma outbox_invI:
  assumes "distinct (keys (od_outbox ph))" "set (keys (od_outbox ph)) \<subseteq> gen_uuid w ` {..<od_uuids ph}"
    "\<And>k e. row ph k = Some e \<Longrightarrow> sound_event ok e"
  shows "outbox_inv w ok ph"
  unfolding outbox_inv_def using assms row_of [OF assms(1)] by blast

lemma outbox_invD:
  assumes "outbox_inv w ok ph"
  shows "distinct (keys (od_outbox ph))" "set (keys (od_outbox ph)) \<subseteq> gen_uuid w ` {..<od_uuids ph}"
    "\<And>k e. row ph k = Some e \<Longrightarrow> sound_event ok e"
  using assms row_key by (auto simp: outbox_inv_def)

lemma distinct_two_filters:
  assumes "distinct (map f xs)" "\<And>x. p x \<Longrightarrow> \<not> q x"
  shows "distinct (map f (filter p xs @ filter q xs))"
  using assms by (induction xs) auto

text \<open>After the interrupted events are back in the queue, all that waits at a school is sent.\<close>

lemma events_to_sync_all:
  assumes "outbox_inv w ok ph" "ph1 = requeue_interrupted sid ph"
  shows "queued ph1 (events_to_sync sid ph1)"
    "\<And>e. e \<in> set (events_to_sync sid ph1) \<longleftrightarrow> row ph1 (ob_clientEventId e) = Some e \<and> waiting e \<and> ob_schoolId e = sid"
    "\<And>k e1. row ph1 k = Some e1 \<Longrightarrow> \<exists>e. row ph k = Some e \<and> advances False e e1 \<and> waiting e1 = waiting e \<and> sound_event ok e1
       \<and> ob_retryCount e1 = ob_retryCount e"
    "\<And>k. row ph1 k = None \<longleftrightarrow> row ph k = None"
proof -
  note inv = outbox_invD [OF assms(1)]
  have d1: "distinct (keys (od_outbox ph1))" using inv(1) by (simp add: assms(2) requeue_row)
  show old: "\<exists>e. row ph k = Some e \<and> advances False e e1 \<and> waiting e1 = waiting e \<and> sound_event ok e1 \<and> ob_retryCount e1 = ob_retryCount e"
    if "row ph1 k = Some e1" for k e1
    using that inv(3) by (auto simp: assms(2) requeue_row advances_def waiting_def sound_event_def split: if_splits)
  show "row ph1 k = None \<longleftrightarrow> row ph k = None" for k by (simp add: assms(2) requeue_row)
  have no_syncing: "ob_syncStatus e \<noteq> Syncing" if "e \<in> set (od_outbox ph1)" "ob_schoolId e = sid" for e
  proof -
    from that(1) obtain x where "e = (if ob_syncStatus x = Syncing \<and> ob_schoolId x = sid
        then x\<lparr>ob_syncStatus := Failed, ob_failureClass := Some RetryableFailure, ob_syncError := Some ''SYNC_INTERRUPTED''\<rparr> else x)"
      unfolding assms(2) requeue_interrupted_def upd_def by fastforce
    with that(2) show ?thesis by (cases "ob_syncStatus x = Syncing \<and> ob_schoolId x = sid") simp_all
  qed
  have all: "e \<in> set (events_to_sync sid ph1) \<longleftrightarrow> e \<in> set (od_outbox ph1) \<and> waiting e \<and> ob_schoolId e = sid" for e
  proof (cases "e \<in> set (od_outbox ph1)")
    case True
    from old [OF row_of [OF d1 True]] have "sound_event ok e" by blast
    with True no_syncing [OF True] show ?thesis
      by (cases "ob_syncStatus e"; cases "ob_failureClass e") (auto simp: events_to_sync_def waiting_def sound_event_def)
  qed (simp add: events_to_sync_def)
  have mem: "e \<in> set (od_outbox ph1) \<longleftrightarrow> row ph1 (ob_clientEventId e) = Some e" for e
    using row_of [OF d1, of e] row_key [of ph1 _ e] by (auto simp del: One_nat_def)
  show e: "e \<in> set (events_to_sync sid ph1) \<longleftrightarrow> row ph1 (ob_clientEventId e) = Some e \<and> waiting e \<and> ob_schoolId e = sid" for e
    using all mem by blast
  have "distinct (keys (events_to_sync sid ph1))" unfolding events_to_sync_def
    by (rule distinct_map_filter, rule distinct_two_filters [OF d1]) simp
  then show "queued ph1 (events_to_sync sid ph1)" using e by (simp add: queued_def)
qed

lemma flush_batch_uuids: "od_uuids (fl_db (flush_batch call dev f batch)) = od_uuids (fl_db f)"
proof -
  have m: "od_uuids (markSyncFailure e err c ph) = od_uuids ph" for e err c ph by (simp add: markSyncFailure_def Let_def)
  have t: "od_uuids (fst (take_results batch rs acc)) = od_uuids (fst acc)" for rs acc
    by (induction batch rs acc rule: take_results.induct) (auto simp: m Let_def split: option.split)
  have l: "od_uuids (foldl (\<lambda>ph e. markSyncFailure e err c ph) ph es) = od_uuids ph" for err c ph es
    by (induction es arbitrary: ph) (simp_all add: m)
  show ?thesis
    using t [of _ "(mark_syncing batch (fl_db f), fl_synced f, fl_failed f)"]
    by (auto simp: flush_batch_def Let_def l mark_syncing_def take_mappings_def split: prod.split sum.split) (metis fst_conv)+
qed

lemma flush_batches_uuids: "od_uuids (fl_db (foldl (flush_batch call dev) f bs)) = od_uuids (fl_db f)"
  by (induction bs arbitrary: f) (simp_all add: flush_batch_uuids)

text \<open>A tab that is closed in the middle of a flush: some batches are through, the next is marked and perhaps sent.\<close>

definition interrupted_flush ::
  "(uuid \<Rightarrow> 's \<Rightarrow> sync_call \<Rightarrow> 's \<times> sync_reply) \<Rightarrow> uuid \<Rightarrow> string \<Rightarrow> nat \<Rightarrow> bool \<Rightarrow> 's \<Rightarrow> offline_db \<Rightarrow> offline_db \<times> 's" where
  "interrupted_flush call schoolId dev n sent s ph =
     (let ph1 = requeue_interrupted schoolId ph;
          batches = chunks SYNC_BATCH_SIZE (events_to_sync schoolId ph1);
          f = foldl (flush_batch (call schoolId) dev)
                \<lparr>fl_db = ph1, fl_server = s, fl_results = [], fl_mappings = [], fl_synced = 0, fl_failed = 0, fl_lastError = None\<rparr>
                (take n batches)
      in case drop n batches of
           [] \<Rightarrow> (fl_db f, fl_server f)
         | b # _ \<Rightarrow> (mark_syncing b (fl_db f),
                     if sent then fst (call schoolId (fl_server f) (batch_call dev b)) else fl_server f))"

text \<open>What some steps make of the outbox: every row advances and stays sound.\<close>

definition outbox_moves :: "(uuid \<Rightarrow> string \<Rightarrow> bool) \<Rightarrow> (outbox_event \<Rightarrow> bool) \<Rightarrow> offline_db \<Rightarrow> offline_db \<Rightarrow> bool" where
  "outbox_moves ok tried ph ph' \<longleftrightarrow> keys (od_outbox ph') = keys (od_outbox ph) \<and> od_uuids ph' = od_uuids ph
     \<and> (\<forall>k e. row ph k = Some e \<longrightarrow> (\<exists>e'. row ph' k = Some e' \<and> advances (tried e) e e' \<and> sound_event ok e'))"

lemma outbox_moves_weaken:
  assumes "outbox_moves ok b ph ph'" "\<And>k e. row ph k = Some e \<Longrightarrow> tried e \<Longrightarrow> b e"
  shows "outbox_moves ok tried ph ph'"
  unfolding outbox_moves_def
proof (intro conjI allI impI)
  show "keys (od_outbox ph') = keys (od_outbox ph)" "od_uuids ph' = od_uuids ph" using assms(1) by (simp_all add: outbox_moves_def)
  fix k e assume e: "row ph k = Some e"
  with assms(1) obtain e' where "row ph' k = Some e'" "advances (b e) e e'" "sound_event ok e'" by (auto simp: outbox_moves_def)
  with advances_weaken assms(2) [OF e] show "\<exists>e'. row ph' k = Some e' \<and> advances (tried e) e e' \<and> sound_event ok e'" by blast
qed

lemma outbox_moves_inv:
  assumes "outbox_moves ok' tried ph ph'" "outbox_inv w ok ph"
  shows "outbox_inv w ok' ph'"
proof (rule outbox_invI)
  note inv = outbox_invD [OF assms(2)]
  have k: "keys (od_outbox ph') = keys (od_outbox ph)" "od_uuids ph' = od_uuids ph" using assms(1) by (simp_all add: outbox_moves_def)
  show "distinct (keys (od_outbox ph'))" "set (keys (od_outbox ph')) \<subseteq> gen_uuid w ` {..<od_uuids ph'}" unfolding k using inv(1,2) .
  show "sound_event ok' e'" if "row ph' k = Some e'" for k e'
  proof -
    have "row ph k \<noteq> None" using that k(1) row_None_iff [of ph k] row_None_iff [of ph' k] by auto
    with assms(1) that show ?thesis by (fastforce simp: outbox_moves_def)
  qed
qed

context sync_server
begin

lemma prefix_effect:
  assumes inv: "outbox_inv w (\<lambda>i. logged i s) ph" and ph1: "ph1 = requeue_interrupted sid ph"
    and bs: "concat (bs @ cs) = events_to_sync sid ph1"
    and f: "foldl (flush_batch (call sid) dev) \<lparr>fl_db = ph1, fl_server = s, fl_results = [], fl_mappings = [], fl_synced = 0,
               fl_failed = 0, fl_lastError = None\<rparr> bs = f"
  shows "outbox_moves (\<lambda>i. logged i (fl_server f)) (\<lambda>e. ob_clientEventId e \<in> set (keys (concat bs))) ph (fl_db f)"
    "queued (fl_db f) (concat cs)" "\<And>i c. logged i s c \<Longrightarrow> logged i (fl_server f) c"
    "\<And>e. e \<in> set (concat cs) \<Longrightarrow> waiting e \<and> sound_event (\<lambda>i. logged i s) e"
proof -
  note ev = events_to_sync_all [OF inv ph1]
  let ?f0 = "\<lparr>fl_db = ph1, fl_server = s, fl_results = [], fl_mappings = [], fl_synced = 0, fl_failed = 0, fl_lastError = None\<rparr>"
  have q: "queued ph1 (concat bs @ concat cs)" using ev(1) unfolding bs [symmetric] by simp
  then have "queued (fl_db ?f0) (concat bs)" by (auto simp: queued_def)
  note eff = flush_batches_effect [OF this f]
  have l: "logged i s c \<Longrightarrow> logged i (fl_server f) c" for i c using eff by simp
  then show "logged i s c \<Longrightarrow> logged i (fl_server f) c" for i c .
  have mem: "e \<in> set (concat bs) \<Longrightarrow> row ph1 (ob_clientEventId e) = Some e \<and> waiting e \<and> ob_schoolId e = sid" for e
    using ev(2) [of e] unfolding bs [symmetric] by simp
  have apart: "set (keys (concat bs)) \<inter> set (keys (concat cs)) = {}" using q unfolding queued_def map_append distinct_append by (elim conjE)
  have in_keys: "ob_clientEventId e \<in> set (keys es)" if "e \<in> set es" for e es using that by simp
  have later: "row (fl_db f) (ob_clientEventId e) = Some e" if "e \<in> set (concat cs)" for e
  proof -
    have "ob_clientEventId e \<notin> set (keys (concat bs))" using apart in_keys [OF that] by (blast dest: IntI)
    then have "row (fl_db f) (ob_clientEventId e) = row ph1 (ob_clientEventId e)" using eff by simp
    with q that show ?thesis by (simp add: queued_def)
  qed
  with q show "queued (fl_db f) (concat cs)" by (simp add: queued_def)
  show "waiting e \<and> sound_event (\<lambda>i. logged i s) e" if "e \<in> set (concat cs)" for e
  proof -
    have "e \<in> set (events_to_sync sid ph1)" using that unfolding bs [symmetric] by simp
    with ev(2,3) show ?thesis by blast
  qed
  show "outbox_moves (\<lambda>i. logged i (fl_server f)) (\<lambda>e. ob_clientEventId e \<in> set (keys (concat bs))) ph (fl_db f)"
    unfolding outbox_moves_def
  proof (intro conjI allI impI)
    show "keys (od_outbox (fl_db f)) = keys (od_outbox ph)" using eff by (simp add: ph1 requeue_row)
    have "od_uuids (fl_db f) = od_uuids ph1" using flush_batches_uuids [of "call sid" dev ?f0 bs] by (simp add: f)
    then show "od_uuids (fl_db f) = od_uuids ph" by (simp add: ph1 requeue_interrupted_def)
    fix k e assume e: "row ph k = Some e"
    then obtain e1 where e1: "row ph1 k = Some e1" using ev(4) [of k] by fastforce
    with ev(3) [OF e1] e have a: "advances False e e1" "waiting e1 = waiting e" "sound_event (\<lambda>i. logged i s) e1"
      "ob_retryCount e1 = ob_retryCount e" by auto
    have k: "ob_clientEventId e1 = k" "ob_clientEventId e = k" using row_key [OF e1] row_key [OF e] by auto
    show "\<exists>e'. row (fl_db f) k = Some e' \<and> advances (ob_clientEventId e \<in> set (keys (concat bs))) e e'
        \<and> sound_event (\<lambda>i. logged i (fl_server f)) e'"
    proof (cases "k \<in> set (keys (concat bs))")
      case True
      then obtain x where x: "x \<in> set (concat bs)" "ob_clientEventId x = k" by auto
      with mem [OF x(1)] e1 have x1: "x = e1" "waiting e1" "ob_schoolId e1 = sid" by auto
      from bspec [OF conjunct1 [OF conjunct2 [OF eff]] x(1)] obtain e' where
        e': "row (fl_db f) k = Some e'" "attempted (logged sid (fl_server f)) e1 e'" using x(2) x1(1) by auto
      have "sound_event (\<lambda>i. logged i (fl_server f)) e'"
        by (rule attempted_sound [where ok = "\<lambda>i. logged i (fl_server f)" and sid = sid and e = e1]) (use e'(2) x1(3) a(3) x1(2) in \<open>simp_all add: sound_event_def\<close>)
      moreover have "advances True e1 e'" by (rule attempted_advances [OF e'(2) x1(2)])
      with a x1(2) have "advances True e e'" by (auto simp: advances_def)
      ultimately show ?thesis using e'(1) True k by auto
    next
      case False
      then have "row (fl_db f) k = Some e1" using eff e1 by simp
      moreover have "sound_event (\<lambda>i. logged i (fl_server f)) e1" by (rule sound_event_mono [OF a(3) l])
      ultimately show ?thesis using False a(1) k by auto
    qed
  qed
qed

lemma flush_effect:
  assumes "syncOutboxEvents call sid dev s ph = (ph', s', res)" "outbox_inv w (\<lambda>i. logged i s) ph"
  shows "outbox_moves (\<lambda>i. logged i s') (\<lambda>e. sid \<noteq> [] \<and> dev \<noteq> [] \<and> waiting e \<and> ob_schoolId e = sid) ph ph'"
    "\<And>i c. logged i s c \<Longrightarrow> logged i s' c"
proof -
  have refl: "outbox_moves (\<lambda>i. logged i s) (\<lambda>e. False) ph ph"
    using outbox_invD(3) [OF assms(2)] by (simp add: outbox_moves_def)
  have "outbox_moves (\<lambda>i. logged i s') (\<lambda>e. sid \<noteq> [] \<and> dev \<noteq> [] \<and> waiting e \<and> ob_schoolId e = sid) ph ph'
      \<and> (\<forall>i c. logged i s c \<longrightarrow> logged i s' c)"
  proof (cases "sid = [] \<or> dev = []")
    case True
    with assms(1) have "ph' = ph" "s' = s" by (cases "sid = []"; simp add: syncOutboxEvents_def)+
    with refl True show ?thesis by (auto simp: outbox_moves_def)
  next
    case False
    define ph1 where "ph1 = requeue_interrupted sid ph"
    let ?ev = "events_to_sync sid ph1"
    define f where "f = foldl (flush_batch (call sid) dev) \<lparr>fl_db = ph1, fl_server = s, fl_results = [], fl_mappings = [], fl_synced = 0,
               fl_failed = 0, fl_lastError = None\<rparr> (chunks SYNC_BATCH_SIZE ?ev)"
    have c: "concat (chunks SYNC_BATCH_SIZE ?ev) = ?ev" by (rule concat_chunks) (simp add: SYNC_BATCH_SIZE_def)
    then have bs: "concat (chunks SYNC_BATCH_SIZE ?ev @ []) = ?ev" by simp
    note p = prefix_effect [OF assms(2) ph1_def bs f_def [symmetric], unfolded c]
    have "ph' = fl_db f \<and> s' = fl_server f"
    proof (cases "?ev = []")
      case True
      with False assms(1) have "ph' = ph1" "s' = s" by (auto simp: syncOutboxEvents_def Let_def ph1_def)
      moreover have "chunks SYNC_BATCH_SIZE ?ev = []" using True by (simp add: chunks.simps)
      then have "fl_db f = ph1" "fl_server f = s" by (simp_all add: f_def)
      ultimately show ?thesis by simp
    next
      case False
      with \<open>\<not> (sid = [] \<or> dev = [])\<close> assms(1) show ?thesis
        unfolding syncOutboxEvents_def Let_def ph1_def [symmetric] f_def [symmetric] by auto
    qed
    then have ph': "ph' = fl_db f" "s' = fl_server f" by simp_all
    have "ob_clientEventId e \<in> set (keys ?ev)" if "row ph k = Some e" "waiting e" "ob_schoolId e = sid" for k e
    proof -
      note ev = events_to_sync_all [OF assms(2) ph1_def]
      from that(1) obtain e1 where e1: "row ph1 k = Some e1" using ev(4) [of k] by fastforce
      from ev(3) [OF e1] that have a: "waiting e1" "ob_schoolId e1 = sid" "ob_clientEventId e1 = ob_clientEventId e" by (auto simp: advances_def)
      have "ob_clientEventId e1 = k" using row_key [OF e1] by simp
      with ev(2) [of e1] e1 a(1,2) have "e1 \<in> set ?ev" by simp
      then have "ob_clientEventId e1 \<in> set (keys ?ev)" by simp
      then show ?thesis by (simp only: a(3))
    qed
    then have "outbox_moves (\<lambda>i. logged i (fl_server f)) (\<lambda>e. sid \<noteq> [] \<and> dev \<noteq> [] \<and> waiting e \<and> ob_schoolId e = sid) ph (fl_db f)"
      by (intro outbox_moves_weaken [OF p(1)]) blast
    with p(3) show ?thesis unfolding ph' by blast
  qed
  then show "outbox_moves (\<lambda>i. logged i s') (\<lambda>e. sid \<noteq> [] \<and> dev \<noteq> [] \<and> waiting e \<and> ob_schoolId e = sid) ph ph'"
    "\<And>i c. logged i s c \<Longrightarrow> logged i s' c" by blast+
qed

end

section \<open>The life of a phone\<close>

datatype phone_op =
    StoreRoster uuid uuid string "string option + offline_package"
  | OpenOffline uuid uuid uuid string "string option" "string option"
  | ScanOffline instant uuid string string "string option" scan_source
  | Flush uuid string
  | FlushCut uuid string nat bool
  | ClearSchool uuid
  | ClearAll

fun phone_step ::
  "(uuid \<Rightarrow> 's \<Rightarrow> sync_call \<Rightarrow> 's \<times> sync_reply) \<Rightarrow> world \<Rightarrow> 's \<times> offline_db \<Rightarrow> phone_op \<Rightarrow> 's \<times> offline_db" where
  "phone_step call w (s, ph) (StoreRoster sid sec dev reply) =
     (case downloadAndStoreRosterPackage sid sec dev reply ph of Inl _ \<Rightarrow> (s, ph) | Inr (ph1, _) \<Rightarrow> (s, ph1))"
| "phone_step call w (s, ph) (OpenOffline sid sec teacher date typ custom) =
     (s, fst (createOfflineSession w sid sec teacher date typ custom ph))"
| "phone_step call w (s, ph) (ScanOffline now sid ses token ts src) =
     (case processOfflineQRCode w now sid ses token ts src ph of Inl _ \<Rightarrow> (s, ph) | Inr (ph1, _) \<Rightarrow> (s, ph1))"
| "phone_step call w (s, ph) (Flush sid dev) = (case syncOutboxEvents call sid dev s ph of (ph1, s1, _) \<Rightarrow> (s1, ph1))"
| "phone_step call w (s, ph) (FlushCut sid dev n sent) = (case interrupted_flush call sid dev n sent s ph of (ph1, s1) \<Rightarrow> (s1, ph1))"
| "phone_step call w (s, ph) (ClearSchool sid) = (s, clearSchoolScopedOfflineData sid ph)"
| "phone_step call w (s, ph) ClearAll = (s, clearOfflineStore ph)"

text \<open>Between the steps of the phone the server moves on its own.\<close>

inductive phone_runs ::
  "(uuid \<Rightarrow> 's \<Rightarrow> sync_call \<Rightarrow> 's \<times> sync_reply) \<Rightarrow> world \<Rightarrow> ('s \<Rightarrow> 's \<Rightarrow> bool) \<Rightarrow> 's \<times> offline_db \<Rightarrow> phone_op list \<Rightarrow> 's \<times> offline_db \<Rightarrow> bool"
  for call w moves st where
  rest: "phone_runs call w moves st [] st"
| act: "phone_runs call w moves st xs st1 \<Longrightarrow> phone_runs call w moves st (xs @ [x]) (phone_step call w st1 x)"
| elsewhere: "phone_runs call w moves st xs (s, ph) \<Longrightarrow> moves s s' \<Longrightarrow> phone_runs call w moves st xs (s', ph)"

definition flushes :: "uuid \<Rightarrow> phone_op \<Rightarrow> bool" where
  "flushes sid x \<longleftrightarrow> sid \<noteq> [] \<and> (\<exists>dev. x = Flush sid dev \<and> dev \<noteq> [])"

text \<open>Over any step a known identifier is gone, or its row has advanced.\<close>

definition rows_advance :: "world \<Rightarrow> (outbox_event \<Rightarrow> bool) \<Rightarrow> offline_db \<Rightarrow> offline_db \<Rightarrow> bool" where
  "rows_advance w tried ph ph' \<longleftrightarrow> od_uuids ph \<le> od_uuids ph' \<and> (\<forall>k e'. row ph' k = Some e' \<longrightarrow>
     (case row ph k of Some e \<Rightarrow> advances (tried e) e e' | None \<Rightarrow> k \<notin> gen_uuid w ` {..<od_uuids ph}))"

lemma outbox_moves_rows:
  assumes "outbox_moves ok tried ph ph'"
  shows "rows_advance w tried ph ph'"
  unfolding rows_advance_def
proof (intro conjI allI impI)
  show "od_uuids ph \<le> od_uuids ph'" using assms by (simp add: outbox_moves_def)
  fix k e' assume e': "row ph' k = Some e'"
  from assms have "row ph k \<noteq> None" using e' row_None_iff [of ph k] row_None_iff [of ph' k] by (auto simp: outbox_moves_def)
  with assms e' show "case row ph k of Some e \<Rightarrow> advances (tried e) e e' | None \<Rightarrow> k \<notin> gen_uuid w ` {..<od_uuids ph}"
    by (fastforce simp: outbox_moves_def)
qed

lemma filter_outbox:
  assumes "outbox_inv w ok ph" "od_outbox ph' = filter p (od_outbox ph)" "od_uuids ph' = od_uuids ph"
  shows "outbox_inv w ok ph' \<and> rows_advance w (\<lambda>_. False) ph ph'"
proof
  have d: "distinct (keys (od_outbox ph))" using outbox_invD(1) [OF assms(1)] .
  show "outbox_inv w ok ph'"
    using assms unfolding outbox_inv_def by (auto intro: distinct_map_filter)
  have "row ph k = Some e" if "row ph' k = Some e" for k e
  proof -
    from row_key [OF that] assms(2) have "e \<in> set (od_outbox ph)" "ob_clientEventId e = k" by auto
    with row_of [OF d] show ?thesis by blast
  qed
  then show "rows_advance w (\<lambda>_. False) ph ph'" using assms(3) by (auto simp: rows_advance_def)
qed

lemma same_outbox:
  assumes "outbox_inv w ok ph" "od_outbox ph' = od_outbox ph" "od_uuids ph \<le> od_uuids ph'"
  shows "outbox_inv w ok ph' \<and> rows_advance w (\<lambda>_. False) ph ph'"
  using assms by (auto simp: outbox_inv_def rows_advance_def row_def split: option.split)

lemma sound_new: "ob_syncStatus e = Pending \<Longrightarrow> ob_retryCount e = 0 \<Longrightarrow> ob_failureClass e = None \<Longrightarrow> sound_event ok e"
  by (simp add: sound_event_def waiting_def MAX_SYNC_RETRIES_def)

lemma add_local_roster_keeps [simp]:
  "od_outbox (add_local_roster rows ph) = od_outbox ph" "od_uuids (add_local_roster rows ph) = od_uuids ph"
  by (simp_all add: add_local_roster_def)

lemma scan_outbox:
  assumes "processOfflineQRCode w now sid ses token ts src ph = Inr (ph', res)"
  obtains (kept) "od_outbox ph' = od_outbox ph" "od_uuids ph' = od_uuids ph"
  | (queued) e where "ob_clientEventId e = gen_uuid w (od_uuids ph)" "ob_syncStatus e = Pending" "ob_retryCount e = 0"
      "ob_failureClass e = None" "od_outbox ph' = put_row ob_clientEventId e (od_outbox ph)" "od_uuids ph' = Suc (od_uuids ph)"
proof -
  have lr: "od_outbox (fst (local_roster_row a b c ph)) = od_outbox ph" "od_uuids (fst (local_roster_row a b c ph)) = od_uuids ph" for a b c
    by (simp_all add: local_roster_row_def Let_def split: option.split)
  have ml: "od_outbox (mark_local a b p) = od_outbox p" "od_uuids (mark_local a b p) = od_uuids p" for a b p
    by (simp_all add: mark_local_def)
  from assms obtain session where ses: "sel1 (\<lambda>s. ls_id s = ses) (od_sessions ph) = Some session"
    by (auto simp: processOfflineQRCode_def split: option.splits)
  show thesis
  proof (cases "ph' = ph")
    case True
    then show thesis by (intro kept) simp_all
  next
    case False
    with assms ses obtain student where st: "sel1 (\<lambda>r. or_sha256TokenHash r = Some (sha256 w token)) (od_rosters ph) = Some student"
      by (auto simp: processOfflineQRCode_def split: option.splits if_splits)
    obtain ph1 r where l: "local_roster_row ses session student ph = (ph1, r)" by fastforce
    with lr [of ses session student] have ph1: "od_outbox ph1 = od_outbox ph" "od_uuids ph1 = od_uuids ph" by simp_all
    show thesis
    proof (cases "ph' = ph1")
      case True
      with ph1 show thesis by (intro kept) simp_all
    next
      case False
      with \<open>ph' \<noteq> ph\<close> assms ses st l obtain e r' t where
        "e = outbox_row (gen_uuid w (od_uuids ph1)) sid ses session (or_studentId student) token t src"
        "ph' = (mark_local t r' (ph1\<lparr>od_uuids := Suc (od_uuids ph1)\<rparr>))
           \<lparr>od_outbox := put_row ob_clientEventId e (od_outbox (mark_local t r' (ph1\<lparr>od_uuids := Suc (od_uuids ph1)\<rparr>)))\<rparr>"
        by (auto simp: processOfflineQRCode_def Let_def split: option.splits if_splits)
      with ph1 show thesis by (intro queued [of e]) (simp_all add: outbox_row_def ml)
    qed
  qed
qed

lemma put_new:
  assumes "outbox_inv w ok ph" "inj (gen_uuid w)" "ob_clientEventId e = gen_uuid w (od_uuids ph)"
    "ob_syncStatus e = Pending" "ob_retryCount e = 0" "ob_failureClass e = None"
    "od_outbox ph' = put_row ob_clientEventId e (od_outbox ph)" "od_uuids ph' = Suc (od_uuids ph)"
  shows "outbox_inv w ok ph' \<and> rows_advance w (\<lambda>_. False) ph ph'"
proof
  note inv = outbox_invD [OF assms(1)]
  have fresh: "ob_clientEventId e \<notin> set (keys (od_outbox ph))"
    using inv(2) assms(2,3) by (auto simp: inj_eq)
  have d: "distinct (keys (od_outbox ph'))" unfolding assms(7) by (rule put_row_keys [OF inv(1)])
  have sub: "set (od_outbox ph') \<subseteq> insert e (set (od_outbox ph))" unfolding assms(7) by (rule set_put_row)
  have new: "row ph' k = Some x \<Longrightarrow> row ph k = Some x \<or> x = e" for k x
    using row_key [of ph' k x] sub row_of [OF inv(1), of x] by auto
  have "keys (od_outbox ph) = map ob_clientEventId (od_outbox ph)" by simp
  have "set (keys (od_outbox ph')) \<subseteq> gen_uuid w ` {..<od_uuids ph'}"
  proof -
    have "set (keys (od_outbox ph')) \<subseteq> insert (ob_clientEventId e) (set (keys (od_outbox ph)))" using sub by auto
    also have "\<dots> \<subseteq> gen_uuid w ` {..<od_uuids ph'}" using inv(2) by (auto simp: assms(3,8))
    finally show ?thesis .
  qed
  with d show "outbox_inv w ok ph'" using new inv(3) sound_new [OF assms(4-6)] by (intro outbox_invI) blast+
  show "rows_advance w (\<lambda>_. False) ph ph'" unfolding rows_advance_def
  proof (intro conjI allI impI)
    show "od_uuids ph \<le> od_uuids ph'" by (simp add: assms(8))
    fix k x assume x: "row ph' k = Some x"
    show "case row ph k of Some y \<Rightarrow> advances False y x | None \<Rightarrow> k \<notin> gen_uuid w ` {..<od_uuids ph}"
    proof (cases "row ph k")
      case None
      with new [OF x] have "x = e" by auto
      with row_key [OF x] assms(2,3) None show ?thesis by (auto simp: inj_eq)
    next
      case (Some y)
      then have "k \<in> set (keys (od_outbox ph))" using row_None_iff [of ph k] by simp
      with fresh row_key [OF x] new [OF x] Some show ?thesis by auto
    qed
  qed
qed

lemma outbox_movesD:
  assumes "outbox_moves ok tried ph ph'" "row ph k = Some e"
  obtains e' where "row ph' k = Some e'" "advances (tried e) e e'" "sound_event ok e'"
  using assms unfolding outbox_moves_def by blast

lemma advances_trans: "advances False e e1 \<Longrightarrow> advances False e1 e2 \<Longrightarrow> advances False e e2"
  by (cases "waiting e1"; cases "waiting e"; cases "waiting e2") (simp_all add: advances_def)

lemma outbox_moves_trans:
  assumes "outbox_moves ok1 (\<lambda>_. False) ph ph1" "outbox_moves ok2 (\<lambda>_. False) ph1 ph2"
  shows "outbox_moves ok2 (\<lambda>_. False) ph ph2"
  unfolding outbox_moves_def
proof (intro conjI allI impI)
  show "keys (od_outbox ph2) = keys (od_outbox ph)" "od_uuids ph2 = od_uuids ph" using assms by (simp_all add: outbox_moves_def)
  fix k e assume "row ph k = Some e"
  from outbox_movesD [OF assms(1) this] obtain e1 where e1: "row ph1 k = Some e1" "advances False e e1" .
  from outbox_movesD [OF assms(2) e1(1)] obtain e2 where e2: "row ph2 k = Some e2" "advances False e1 e2" "sound_event ok2 e2" .
  with advances_trans [OF e1(2) e2(2)] show "\<exists>e'. row ph2 k = Some e' \<and> advances False e e' \<and> sound_event ok2 e'" by blast
qed

lemma mark_syncing_moves:
  assumes "queued ph b" "\<And>e. e \<in> set b \<Longrightarrow> waiting e \<and> ob_retryCount e < MAX_SYNC_RETRIES" "outbox_inv w ok ph"
  shows "outbox_moves ok (\<lambda>_. False) ph (mark_syncing b ph)"
  unfolding outbox_moves_def
proof (intro conjI allI impI)
  show "keys (od_outbox (mark_syncing b ph)) = keys (od_outbox ph)" by (simp add: mark_syncing_row)
  show "od_uuids (mark_syncing b ph) = od_uuids ph" by (simp add: mark_syncing_def)
  fix k e assume e: "row ph k = Some e"
  note s = outbox_invD(3) [OF assms(3) e]
  show "\<exists>e'. row (mark_syncing b ph) k = Some e' \<and> advances False e e' \<and> sound_event ok e'"
  proof (cases "k \<in> set (keys b)")
    case True
    then obtain x where "x \<in> set b" "ob_clientEventId x = k" by auto
    with assms(1) e have "e \<in> set b" by (auto simp: queued_def)
    with assms(2) have "waiting e" "ob_retryCount e < MAX_SYNC_RETRIES" by auto
    with e True show ?thesis by (auto simp: mark_syncing_row advances_def waiting_def sound_event_def)
  qed (use e s in \<open>simp add: mark_syncing_row\<close>)
qed

context sync_server
begin

lemma interrupted_effect:
  assumes "interrupted_flush call sid dev n sent s ph = (ph', s')" "outbox_inv w (\<lambda>i. logged i s) ph"
  shows "outbox_moves (\<lambda>i. logged i s') (\<lambda>_. False) ph ph'" "\<And>i c. logged i s c \<Longrightarrow> logged i s' c"
proof -
  define ph1 where "ph1 = requeue_interrupted sid ph"
  let ?bs = "chunks SYNC_BATCH_SIZE (events_to_sync sid ph1)"
  define f where "f = foldl (flush_batch (call sid) dev) \<lparr>fl_db = ph1, fl_server = s, fl_results = [], fl_mappings = [], fl_synced = 0,
               fl_failed = 0, fl_lastError = None\<rparr> (take n ?bs)"
  have "concat ?bs = events_to_sync sid ph1" by (rule concat_chunks) (simp add: SYNC_BATCH_SIZE_def)
  then have bs: "concat (take n ?bs @ drop n ?bs) = events_to_sync sid ph1" by simp
  note p = prefix_effect [OF assms(2) ph1_def bs f_def [symmetric]]
  have m: "outbox_moves (\<lambda>i. logged i (fl_server f)) (\<lambda>_. False) ph (fl_db f)" by (rule outbox_moves_weaken [OF p(1)]) simp
  have "outbox_moves (\<lambda>i. logged i s') (\<lambda>_. False) ph ph' \<and> (\<forall>i c. logged i s c \<longrightarrow> logged i s' c)"
  proof (cases "drop n ?bs")
    case Nil
    with assms(1) have "ph' = fl_db f" "s' = fl_server f"
      unfolding interrupted_flush_def Let_def ph1_def [symmetric] f_def [symmetric] by simp_all
    with m p(3) show ?thesis by simp
  next
    case (Cons b cs)
    with assms(1) have ph': "ph' = mark_syncing b (fl_db f)" "s' = (if sent then fst (call sid (fl_server f) (batch_call dev b)) else fl_server f)"
      unfolding interrupted_flush_def Let_def ph1_def [symmetric] f_def [symmetric] by simp_all
    have later: "logged i s' c" if "logged i (fl_server f) c" for i c
      using kept [OF _ that] ph'(2) that by (cases "call sid (fl_server f) (batch_call dev b)") auto
    have q: "queued (fl_db f) b" using p(2) unfolding Cons by (auto simp: queued_def)
    have "outbox_inv w (\<lambda>i. logged i (fl_server f)) (fl_db f)" by (rule outbox_moves_inv [OF m assms(2)])
    then have inv: "outbox_inv w (\<lambda>i. logged i s') (fl_db f)" using later by (rule outbox_inv_mono)
    have "waiting e \<and> ob_retryCount e < MAX_SYNC_RETRIES" if "e \<in> set b" for e
    proof -
      from that have "e \<in> set (concat (drop n ?bs))" unfolding Cons by simp
      from p(4) [OF this] show ?thesis by (simp add: sound_event_def)
    qed
    from mark_syncing_moves [OF q this inv] outbox_moves_trans [OF m] later p(3) show ?thesis unfolding ph'(1) by blast
  qed
  then show "outbox_moves (\<lambda>i. logged i s') (\<lambda>_. False) ph ph'" "\<And>i c. logged i s c \<Longrightarrow> logged i s' c" by blast+
qed

lemma phone_step_effect:
  assumes "outbox_inv w (\<lambda>i. logged i s) ph" "inj (gen_uuid w)" "phone_step call w (s, ph) x = (s', ph')"
  shows "outbox_inv w (\<lambda>i. logged i s') ph' \<and> rows_advance w (\<lambda>e. flushes (ob_schoolId e) x \<and> waiting e) ph ph'
    \<and> (\<forall>i c. logged i s c \<longrightarrow> logged i s' c)"
proof -
  have quiet: ?thesis if "s' = s" "outbox_inv w (\<lambda>i. logged i s) ph' \<and> rows_advance w (\<lambda>_. False) ph ph'" "\<And>sid. \<not> flushes sid x"
    using that by simp
  have none: "outbox_inv w (\<lambda>i. logged i s) ph \<and> rows_advance w (\<lambda>_. False) ph ph" by (rule same_outbox [OF assms(1)]) simp_all
  show ?thesis
  proof (cases x)
    case (StoreRoster sid sec dev reply)
    then have "od_outbox ph' = od_outbox ph \<and> od_uuids ph' = od_uuids ph \<and> s' = s"
      using assms(3) by (auto simp: downloadAndStoreRosterPackage_def split: sum.splits if_splits)
    then show ?thesis using same_outbox [OF assms(1)] by (intro quiet) (auto simp: StoreRoster flushes_def)
  next
    case (OpenOffline sid sec teacher date ty custom)
    have "od_outbox (fst (createOfflineSession w sid sec teacher date ty custom ph)) = od_outbox ph"
      "od_uuids ph \<le> od_uuids (fst (createOfflineSession w sid sec teacher date ty custom ph))"
      by (auto simp: createOfflineSession_def Let_def)
    with OpenOffline show ?thesis using assms(3) same_outbox [OF assms(1)] by (intro quiet) (auto simp: flushes_def)
  next
    case (ScanOffline now sid ses token ts src)
    have "outbox_inv w (\<lambda>i. logged i s) ph' \<and> rows_advance w (\<lambda>_. False) ph ph'"
    proof (cases "processOfflineQRCode w now sid ses token ts src ph")
      case (Inl err)
      with ScanOffline assms(3) none show ?thesis by simp
    next
      case (Inr p)
      then obtain res where p: "processOfflineQRCode w now sid ses token ts src ph = Inr (ph', res)"
        using ScanOffline assms(3) by (cases p) simp
      from p show ?thesis
      proof (cases rule: scan_outbox)
        case kept
        then show ?thesis by (intro same_outbox [OF assms(1)]) simp_all
      next
        case (queued e)
        then show ?thesis by (intro put_new [OF assms(1,2)])
      qed
    qed
    with ScanOffline assms(3) show ?thesis by (intro quiet) (auto simp: flushes_def split: sum.splits prod.splits)
  next
    case (Flush sid dev)
    with assms(3) obtain res where f: "syncOutboxEvents call sid dev s ph = (ph', s', res)" by (auto split: prod.splits)
    note e = flush_effect [OF f assms(1)]
    have "outbox_inv w (\<lambda>i. logged i s') ph'" by (rule outbox_moves_inv [OF e(1) assms(1)])
    moreover have "rows_advance w (\<lambda>e. flushes (ob_schoolId e) x \<and> waiting e) ph ph'"
      by (rule outbox_moves_rows [OF outbox_moves_weaken [OF e(1)]]) (auto simp: Flush flushes_def)
    ultimately show ?thesis using e(2) by blast
  next
    case (FlushCut sid dev n sent)
    with assms(3) have f: "interrupted_flush call sid dev n sent s ph = (ph', s')" by (auto split: prod.splits)
    note e = interrupted_effect [OF f assms(1)]
    have "outbox_inv w (\<lambda>i. logged i s') ph'" by (rule outbox_moves_inv [OF e(1) assms(1)])
    moreover have "rows_advance w (\<lambda>e. flushes (ob_schoolId e) x \<and> waiting e) ph ph'"
      by (rule outbox_moves_rows [OF outbox_moves_weaken [OF e(1)]]) (auto simp: FlushCut flushes_def)
    ultimately show ?thesis using e(2) by blast
  next
    case (ClearSchool sid)
    then have "ph' = clearSchoolScopedOfflineData sid ph" "s' = s" using assms(3) by simp_all
    then show ?thesis by (intro quiet filter_outbox [OF assms(1), where p = "\<lambda>e. ob_schoolId e \<noteq> sid"])
      (simp_all add: clearSchoolScopedOfflineData_def Let_def ClearSchool flushes_def)
  next
    case ClearAll
    then have "ph' = clearOfflineStore ph" "s' = s" using assms(3) by simp_all
    then show ?thesis by (intro quiet filter_outbox [OF assms(1), where p = "\<lambda>e. False"])
      (simp_all add: clearOfflineStore_def ClearAll flushes_def)
  qed
qed

end


text \<open>What is in the outbox leaves it only by a clearing.\<close>

definition clears :: "phone_op \<Rightarrow> bool" where
  "clears x \<longleftrightarrow> x = ClearAll \<or> (\<exists>sid. x = ClearSchool sid)"

lemma put_row_grows: "key ` set t \<subseteq> key ` set (put_row key r t)"
proof (cases "key r \<in> key ` set t")
  case True
  have "map key (upd (\<lambda>x. key x = key r) (\<lambda>_. r) t) = map key t" by (simp add: upd_key_row(2))
  from arg_cong [OF this, of set] show ?thesis by (simp add: put_row_known [OF True])
next
  case False
  then have "put_row key r t = insort_by (\<lambda>a b. key_le (key a) (key b)) r t"
    by (auto simp: put_row_def rev_image_eqI)
  then show ?thesis by auto
qed

context sync_server
begin

lemma phone_step_keeps:
  assumes "outbox_inv w (\<lambda>i. logged i s) ph" "phone_step call w (s, ph) x = (s', ph')" "\<not> clears x"
  shows "set (keys (od_outbox ph)) \<subseteq> set (keys (od_outbox ph'))"
proof (cases x)
  case (StoreRoster sid sec dev reply)
  then have "od_outbox ph' = od_outbox ph"
    using assms(2) by (auto simp: downloadAndStoreRosterPackage_def split: sum.splits if_splits)
  then show ?thesis by simp
next
  case (OpenOffline sid sec teacher date ty custom)
  have "od_outbox (fst (createOfflineSession w sid sec teacher date ty custom ph)) = od_outbox ph"
    by (auto simp: createOfflineSession_def Let_def)
  with OpenOffline assms(2) show ?thesis by auto
next
  case (ScanOffline now sid ses token ts src)
  show ?thesis
  proof (cases "processOfflineQRCode w now sid ses token ts src ph")
    case (Inl err)
    with ScanOffline assms(2) show ?thesis by simp
  next
    case (Inr p)
    then obtain res where "processOfflineQRCode w now sid ses token ts src ph = Inr (ph', res)"
      using ScanOffline assms(2) by (cases p) simp
    then show ?thesis
    proof (cases rule: scan_outbox)
      case (queued e)
      with put_row_grows [of ob_clientEventId "od_outbox ph" e] show ?thesis by simp
    qed simp
  qed
next
  case (Flush sid dev)
  with assms(2) obtain res where f: "syncOutboxEvents call sid dev s ph = (ph', s', res)" by (auto split: prod.splits)
  from flush_effect(1) [OF f assms(1)] show ?thesis by (simp add: outbox_moves_def)
next
  case (FlushCut sid dev n sent)
  with assms(2) have f: "interrupted_flush call sid dev n sent s ph = (ph', s')" by (auto split: prod.splits)
  from interrupted_effect(1) [OF f assms(1)] show ?thesis by (simp add: outbox_moves_def)
qed (use assms(3) in \<open>auto simp: clears_def\<close>)

lemma phone_runs_inv:
  assumes "phone_runs call w moves st xs st'" "inj (gen_uuid w)" "\<forall>s s' i c. moves s s' \<longrightarrow> logged i s c \<longrightarrow> logged i s' c"
    "outbox_inv w (\<lambda>i. logged i (fst st)) (snd st)"
  shows "outbox_inv w (\<lambda>i. logged i (fst st')) (snd st')"
  using assms(1,4)
proof (induction rule: phone_runs.induct)
  case (act xs st1 x)
  obtain s ph where st1: "st1 = (s, ph)" by (cases st1)
  obtain s' ph' where r: "phone_step call w (s, ph) x = (s', ph')" by (cases "phone_step call w (s, ph) x")
  from act st1 have "outbox_inv w (\<lambda>i. logged i s) ph" by simp
  from phone_step_effect [OF this assms(2) r] show ?case by (simp add: st1 r)
next
  case (elsewhere xs s ph s')
  then show ?case using outbox_inv_mono [of w "\<lambda>i. logged i s" ph "\<lambda>i. logged i s'"] assms(3) by auto
qed simp

lemma phone_runs_keep:
  assumes "phone_runs call w moves st xs st'" "inj (gen_uuid w)" "\<forall>s s' i c. moves s s' \<longrightarrow> logged i s c \<longrightarrow> logged i s' c"
    "outbox_inv w (\<lambda>i. logged i (fst st)) (snd st)" "list_all (\<lambda>x. \<not> clears x) xs"
  shows "set (keys (od_outbox (snd st))) \<subseteq> set (keys (od_outbox (snd st')))"
  using assms(1,5)
proof (induction rule: phone_runs.induct)
  case (act xs st1 x)
  obtain s ph where st1: "st1 = (s, ph)" by (cases st1)
  obtain s' ph' where r: "phone_step call w (s, ph) x = (s', ph')" by (cases "phone_step call w (s, ph) x")
  from phone_runs_inv [OF act(1) assms(2,3,4)] have "outbox_inv w (\<lambda>i. logged i s) ph" by (simp add: st1)
  from phone_step_keeps [OF this r] act show ?case by (auto simp: st1 r)
qed simp_all

text \<open>A row the phone knew has been attempted by every completed flush of its school, as long as it waits.\<close>

lemma phone_runs_progress:
  assumes "phone_runs call w moves st xs st'" "inj (gen_uuid w)" "\<forall>s s' i c. moves s s' \<longrightarrow> logged i s c \<longrightarrow> logged i s' c"
    "outbox_inv w (\<lambda>i. logged i (fst st)) (snd st)" "row (snd st) k = Some e"
  shows "od_uuids (snd st) \<le> od_uuids (snd st') \<and> (\<forall>e'. row (snd st') k = Some e' \<longrightarrow> ob_schoolId e' = ob_schoolId e
    \<and> (waiting e' \<longrightarrow> length (filter (flushes (ob_schoolId e)) xs) \<le> ob_retryCount e'))"
  using assms(1)
proof (induction rule: phone_runs.induct)
  case rest
  then show ?case using assms(5) by simp
next
  case (act xs st1 x)
  obtain s ph where st1: "st1 = (s, ph)" by (cases st1)
  obtain s' ph' where r: "phone_step call w (s, ph) x = (s', ph')" by (cases "phone_step call w (s, ph) x")
  from phone_runs_inv [OF act(1) assms(2,3,4)] have inv: "outbox_inv w (\<lambda>i. logged i s) ph" by (simp add: st1)
  from phone_step_effect [OF inv assms(2) r] have adv: "rows_advance w (\<lambda>e. flushes (ob_schoolId e) x \<and> waiting e) ph ph'" by blast
  from act.IH have ih: "od_uuids (snd st) \<le> od_uuids ph" "\<And>e'. row ph k = Some e' \<Longrightarrow> ob_schoolId e' = ob_schoolId e
    \<and> (waiting e' \<longrightarrow> length (filter (flushes (ob_schoolId e)) xs) \<le> ob_retryCount e')" by (simp_all add: st1)
  from adv have le: "od_uuids ph \<le> od_uuids ph'" by (simp add: rows_advance_def)
  have "k \<in> set (keys (od_outbox (snd st)))" using assms(5) row_None_iff [of "snd st" k] by auto
  with outbox_invD(2) [OF assms(4)] have old: "k \<in> gen_uuid w ` {..<od_uuids (snd st)}" by (rule subsetD)
  have "{..<od_uuids (snd st)} \<subseteq> {..<od_uuids ph}" using ih(1) by simp
  from subsetD [OF image_mono [OF this] old] have known: "k \<in> gen_uuid w ` {..<od_uuids ph}" .
  have "ob_schoolId e' = ob_schoolId e \<and> (waiting e' \<longrightarrow> length (filter (flushes (ob_schoolId e)) (xs @ [x])) \<le> ob_retryCount e')"
    if e': "row ph' k = Some e'" for e'
  proof -
    from adv e' have c: "case row ph k of Some e \<Rightarrow> advances (flushes (ob_schoolId e) x \<and> waiting e) e e'
        | None \<Rightarrow> k \<notin> gen_uuid w ` {..<od_uuids ph}" unfolding rows_advance_def by blast
    obtain e1 where e1: "row ph k = Some e1" "advances (flushes (ob_schoolId e1) x \<and> waiting e1) e1 e'"
    proof (cases "row ph k")
      case None
      with c known show thesis by simp
    next
      case (Some e1)
      with c that [of e1] show thesis by simp
    qed
    from ih(2) [OF e1(1)] e1(2) show ?thesis
      by (cases "flushes (ob_schoolId e) x"; cases "waiting e1"; cases "waiting e'") (auto simp: advances_def)
  qed
  with ih(1) le show ?case by (simp add: st1 r)
qed simp

lemma outbox_settles:
  assumes "phone_runs call w moves st xs st'" "inj (gen_uuid w)" "\<forall>s s' i c. moves s s' \<longrightarrow> logged i s c \<longrightarrow> logged i s' c"
    "outbox_inv w (\<lambda>i. logged i (fst st)) (snd st)" "e \<in> set (od_outbox (snd st))" "list_all (\<lambda>x. \<not> clears x) xs"
    "MAX_SYNC_RETRIES \<le> length (filter (flushes (ob_schoolId e)) xs)"
  shows "\<exists>e' \<in> set (od_outbox (snd st')). ob_clientEventId e' = ob_clientEventId e \<and> \<not> waiting e'"
proof -
  have r: "row (snd st) (ob_clientEventId e) = Some e" by (rule row_of [OF outbox_invD(1) [OF assms(4)] assms(5)])
  have "ob_clientEventId e \<in> set (keys (od_outbox (snd st)))" using assms(5) by simp
  with phone_runs_keep [OF assms(1-4,6)] have "ob_clientEventId e \<in> set (keys (od_outbox (snd st')))" by blast
  with row_None_iff [of "snd st'" "ob_clientEventId e"] obtain e' where e': "row (snd st') (ob_clientEventId e) = Some e'"
    by (cases "row (snd st') (ob_clientEventId e)") auto
  have "sound_event (\<lambda>i. logged i (fst st')) e'" by (rule outbox_invD(3) [OF phone_runs_inv [OF assms(1-4)] e'])
  moreover have "waiting e' \<longrightarrow> MAX_SYNC_RETRIES \<le> ob_retryCount e'"
    using phone_runs_progress [OF assms(1-4) r] e' assms(7) by force
  ultimately have "\<not> waiting e'" by (auto simp: sound_event_def)
  with row_key [OF e'] show ?thesis by blast
qed

end

end
