(* ===== verification/Attendance_Gate.thy ===== *)
theory Attendance_Gate
  imports Attendance_Log
begin

text \<open>
  The gate transaction of Ingest_Write seen from the attendance tables: what it adds to the log is what
  it adds to the records, so it keeps the invariant of Attendance_Log like the operations of the service.
\<close>

section \<open>Sessions and records\<close>

lemma insert_gate_sessions_minted:
  "insert_gate_sessions w ctx now ks d = Inr d' \<Longrightarrow>
     as_id ` set (t_sessions d') \<subseteq> as_id ` set (t_sessions d) \<union> minted w d d' \<and> seq d \<le> seq d'"
proof (induction ks arbitrary: d)
  case (Cons k ks)
  from Cons.prems obtain d1 where rest: "insert_gate_sessions w ctx now ks d1 = Inr d'"
    and d1: "as_id ` set (t_sessions d1) \<subseteq> insert (gen_uuid w (seq d)) (as_id ` set (t_sessions d))"
      "seq d1 = Suc (seq d) \<or> d1 = d"
    by (force split: option.splits if_splits)
  have m: "minted w d1 d' \<subseteq> minted w d d'" if "seq d \<le> seq d1"
    using that by (auto simp: minted_def)
  from Cons.IH [OF rest] have ih: "as_id ` set (t_sessions d') \<subseteq> as_id ` set (t_sessions d1) \<union> minted w d1 d'" "seq d1 \<le> seq d'"
    by auto
  from d1(2) show ?case
  proof
    assume n: "seq d1 = Suc (seq d)"
    with ih(2) have g: "gen_uuid w (seq d) \<in> minted w d d'" by (auto simp: minted_def)
    from n m have m': "minted w d1 d' \<subseteq> minted w d d'" by simp
    have "as_id ` set (t_sessions d') \<subseteq> as_id ` set (t_sessions d) \<union> minted w d d'"
    proof
      fix x assume "x \<in> as_id ` set (t_sessions d')"
      from subsetD [OF ih(1) this] subsetD [OF d1(1), of x] subsetD [OF m', of x] g
      show "x \<in> as_id ` set (t_sessions d) \<union> minted w d d'"
        by auto
    qed
    moreover from n ih(2) have "seq d \<le> seq d'" by linarith
    ultimately show ?thesis ..
  next
    assume "d1 = d"
    from ih [unfolded this] show ?thesis ..
  qed
qed (simp add: minted_def)

lemma ensure_sessions_minted:
  assumes "ensure_sessions w ctx now outs d = Inr (outs', sids, d')"
  shows "as_id ` set (t_sessions d') \<subseteq> as_id ` set (t_sessions d) \<union> minted w d d' \<and> seq d \<le> seq d'"
  using assms
  by (auto simp: ensure_sessions_def Let_def split: if_splits sum.splits prod.splits dest: insert_gate_sessions_minted)

text \<open>The rows the upsert reports as inserted are the new records, in the same order.\<close>

definition upserted :: "world \<Rightarrow> (outcome \<times> uuid) set \<Rightarrow> db \<Rightarrow> db \<Rightarrow> returned_row list \<Rightarrow> bool" where
  "upserted w todo d d' rets \<longleftrightarrow> seq d \<le> seq d' \<and> (\<exists>old new.
     t_records d' = old @ new \<and> list_all2 record_touch (t_records d) old
     \<and> map ar_id new = map (gen_uuid w) [seq d..<seq d']
     \<and> list_all2 (\<lambda>r x. ar_status r = PRESENT
          \<and> (\<exists>(o', s) \<in> todo. record_key r = (s, the (oc_studentId o')) \<and> rt_studentId x = the (oc_studentId o'))) new (filter rt_inserted rets))"

lemma record_touch_id: "record_touch x y \<Longrightarrow> ar_id y = ar_id x"
  by (auto simp: record_touch_def)

lemma upserted_step:
  assumes "upsert_record w school now (o', s) (d, ret) = (d', ret')" "(o', s) \<in> todo"
  shows "\<exists>rets. ret' = ret @ rets \<and> upserted w todo d d' rets"
proof (cases "sel1 (\<lambda>r. ar_sessionId r = s \<and> ar_studentId r = the (oc_studentId o')) (t_records d)")
  case None
  let ?x = "\<lparr>rt_studentId = the (oc_studentId o'), rt_recordId = gen_uuid w (seq d), rt_inserted = True\<rparr>"
  let ?r = "gate_record w school now o' s (seq d)"
  from None assms(1) have eq: "t_records d' = t_records d @ [?r]" "seq d' = Suc (seq d)" "ret' = ret @ [?x]"
    by (auto simp: upsert_record_def)
  have "record_key ?r = (s, the (oc_studentId o'))" "ar_status ?r = PRESENT" "ar_id ?r = gen_uuid w (seq d)"
    by (simp_all add: gate_record_def record_key_def)
  with eq assms(2) have "upserted w todo d d' [?x]"
    unfolding upserted_def
    by (intro conjI exI [of _ "t_records d"] exI [of _ "[?r]"]) (auto simp: list_all2_same)
  with eq show ?thesis by blast
next
  case (Some r)
  show ?thesis
  proof (cases "not_manual r")
    case True
    let ?x = "\<lparr>rt_studentId = ar_studentId r, rt_recordId = ar_id r, rt_inserted = False\<rparr>"
    have t: "list_all2 record_touch (t_records d) (upd (\<lambda>x. ar_sessionId x = s \<and> ar_studentId x = the (oc_studentId o') \<and> not_manual x)
                 (\<lambda>x. x\<lparr>ar_lastSeenAt := greatest (ar_lastSeenAt x) (read_at o'), ar_lastUpdatedAt := now\<rparr>) (t_records d))"
      unfolding upd_def by (auto simp: list_all2_map2 list_all2_same record_touch_def)
    from True Some assms(1) show ?thesis
      by (intro exI [of _ "[?x]"]) (auto simp: upsert_record_def upserted_def t)
  next
    case False
    with Some assms(1) show ?thesis
      by (intro exI [of _ "[]"]) (auto simp: upsert_record_def upserted_def list_all2_same)
  qed
qed

lemma upserted_refl: "upserted w todo d d []"
  by (simp add: upserted_def list_all2_same)

lemma upserted_trans:
  assumes "upserted w todo d d1 a" "upserted w todo d1 d2 b"
  shows "upserted w todo d d2 (a @ b)"
proof -
  let ?ok = "\<lambda>r x. ar_status r = PRESENT
          \<and> (\<exists>(o', s) \<in> todo. record_key r = (s, the (oc_studentId o')) \<and> rt_studentId x = the (oc_studentId o'))"
  from assms(1) obtain old1 new1 where 1: "seq d \<le> seq d1" "t_records d1 = old1 @ new1" "list_all2 record_touch (t_records d) old1"
    "map ar_id new1 = map (gen_uuid w) [seq d..<seq d1]" "list_all2 ?ok new1 (filter rt_inserted a)"
    by (auto simp: upserted_def)
  from assms(2) obtain old2 new2 where 2: "seq d1 \<le> seq d2" "t_records d2 = old2 @ new2" "list_all2 record_touch (t_records d1) old2"
    "map ar_id new2 = map (gen_uuid w) [seq d1..<seq d2]" "list_all2 ?ok new2 (filter rt_inserted b)"
    by (auto simp: upserted_def)
  from 2(3) 1(2) obtain o3 n3 where 3: "old2 = o3 @ n3" "list_all2 record_touch old1 o3" "list_all2 record_touch new1 n3"
    by (auto simp: list_all2_append1)
  have ids: "map ar_id n3 = map ar_id new1"
    using 3(3) by (induction rule: list_all2_induct) (auto simp: record_touch_id)
  have "list_all2 ?ok n3 (filter rt_inserted a)"
  proof (rule list_all2_trans [OF _ _ 1(5)])
    show "list_all2 (\<lambda>x y. record_touch y x) n3 new1" using 3(3) by (simp add: list_all2_conv_all_nth)
    show "?ok r x" if "record_touch r' r" "?ok r' x" for r r' x
      using record_touch_fields [OF that(1)] that(2) by simp
  qed
  moreover have "list_all2 record_touch (t_records d) o3"
    by (rule list_all2_trans [OF record_touch_trans 1(3) 3(2)])
  moreover have "[seq d..<seq d1] @ [seq d1..<seq d2] = [seq d..<seq d2]"
    using upt_add_eq_append [OF 1(1), of "seq d2 - seq d1"] 2(1) by simp
  then have "map ar_id (n3 @ new2) = map (gen_uuid w) [seq d..<seq d2]"
    using ids 1(4) 2(4) by (metis map_append)
  ultimately show ?thesis
    unfolding upserted_def
    using 1(1) 2(1) 2(2,5) 3(1)
    by (intro conjI exI [of _ o3] exI [of _ "n3 @ new2"]) (auto intro: list_all2_appendI)
qed

lemma fold_upserted:
  assumes "fold (upsert_record w school now) todo (d, ret) = (d', ret')" "set todo \<subseteq> all"
  shows "\<exists>rets. ret' = ret @ rets \<and> upserted w all d d' rets"
  using assms
proof (induction todo arbitrary: d ret)
  case Nil
  then show ?case by (intro exI [of _ "[]"]) (simp add: upserted_refl)
next
  case (Cons a todo)
  obtain o' s where a: "a = (o', s)" by (cases a)
  obtain d1 ret1 where one: "upsert_record w school now (o', s) (d, ret) = (d1, ret1)" by fastforce
  with Cons.prems a have rest: "fold (upsert_record w school now) todo (d1, ret1) = (d', ret')"
    and inall: "(o', s) \<in> all" "set todo \<subseteq> all" by auto
  from upserted_step [OF one inall(1)] Cons.IH [OF rest inall(2)] show ?case
    by (auto intro: upserted_trans)
qed

lemma insert_presence_events_facts:
  "insert_presence_events w ctx rid now sids m rs d = Inr d' \<Longrightarrow>
     \<exists>evs n. d' = d\<lparr>t_events := t_events d @ evs, seq := n\<rparr> \<and> seq d \<le> n
       \<and> map ev_key evs = map (\<lambda>r. ev_key (presence_event w ctx rid now sids m r 0)) rs
       \<and> (\<forall>e \<in> set evs. ev_statusValue e = PRESENT)"
proof (induction rs arbitrary: d)
  case Nil
  then show ?case by (intro exI [of _ "[]"] exI [of _ "seq d"]) simp
next
  case (Cons r rs)
  let ?e = "presence_event w ctx rid now sids m r (seq d)"
  have e: "ev_key ?e = ev_key (presence_event w ctx rid now sids m r 0)" "ev_statusValue ?e = PRESENT"
    by (simp_all add: presence_event_def ev_key_def Let_def)
  from Cons.prems have rest: "insert_presence_events w ctx rid now sids m rs
        (d\<lparr>t_events := t_events d @ [?e], seq := Suc (Suc (seq d))\<rparr>) = Inr d'"
    by (auto simp: insert_event_def insert_event_row_def split: if_splits)
  from Cons.IH [OF rest] obtain evs n where "d' = d\<lparr>t_events := t_events d @ (?e # evs), seq := n\<rparr>" "Suc (Suc (seq d)) \<le> n"
    "map ev_key evs = map (\<lambda>r. ev_key (presence_event w ctx rid now sids m r 0)) rs" "\<forall>e \<in> set evs. ev_statusValue e = PRESENT"
    by auto
  with e show ?case by (intro exI [of _ "?e # evs"] exI [of _ n]) simp
qed

lemma insert_scan_rows_seq: "insert_scan_rows w ctx rid os d = Inr d' \<Longrightarrow> seq d \<le> seq d'"
  by (induction os arbitrary: d) (fastforce split: sum.splits if_splits)+

lemma writeScanEvents_seq: "writeScanEvents w ctx os rid d = Inr d' \<Longrightarrow> seq d \<le> seq d'"
  by (auto simp: writeScanEvents_def Let_def dest: insert_scan_rows_seq split: if_splits)


lemma list_all2_map_eq: "list_all2 P xs ys \<Longrightarrow> (\<And>x y. P x y \<Longrightarrow> f x = g y) \<Longrightarrow> map f xs = map g ys"
  by (induction rule: list_all2_induct) auto

lemma list_all2_left: "list_all2 P xs ys \<Longrightarrow> x \<in> set xs \<Longrightarrow> \<exists>y. P x y"
  by (induction rule: list_all2_induct) auto

lemma list_all2_right: "list_all2 P xs ys \<Longrightarrow> y \<in> set ys \<Longrightarrow> \<exists>x. P x y"
  by (induction rule: list_all2_induct) auto

text \<open>The events of a gate transaction are the keys of its new records.\<close>

lemma writeOutcomes_adds:
  assumes "writeOutcomes w now ctx (map (\<lambda>r. decideRead r ctx) reads) rid d = Inr (outs', d')"
    "ctx = loadContext d sid date reads deb" "distinct (map nr_index reads)" "att_inv w d" "inj (gen_uuid w)"
  shows "att_delta w d d' \<and> map record_key (drop (length (t_records d)) (t_records d')) = map ev_key (drop (length (t_events d)) (t_events d'))"
proof -
  let ?outs = "map (\<lambda>r. decideRead r ctx) reads"
  have "distinct (map oc_index ?outs)" using assms(3) by (simp add: comp_def)
  with assms(1) show ?thesis
  proof (cases rule: writeOutcomesE)
    case (1 outs1 sids d1 outs2 m todo d2 ret result d3)
    note A = ensure_sessions_facts [OF 1(1)] and M = ensure_sessions_minted [OF 1(1)]
    have d2: "d2 = d1\<lparr>t_records := t_records d2, seq := seq d2\<rparr>" and
      uq: "distinct (map record_key (t_records d1)) \<longrightarrow> distinct (map record_key (t_records d2))"
      using fold_upsert_facts [OF 1(4) order_refl] by blast+
    have fr: "t_sessions d2 = t_sessions d1" "t_events d2 = t_events d1"
      using arg_cong [OF d2, of t_sessions] arg_cong [OF d2, of t_events] by simp_all
    from fold_upserted [OF 1(4) order_refl] have up: "upserted w (set todo) d1 d2 ret" by simp
    then obtain old new where on: "t_records d2 = old @ new" "list_all2 record_touch (t_records d1) old"
      "map ar_id new = map (gen_uuid w) [seq d1..<seq d2]" "seq d1 \<le> seq d2"
      "list_all2 (\<lambda>r x. ar_status r = PRESENT
          \<and> (\<exists>(o', s) \<in> set todo. record_key r = (s, the (oc_studentId o')) \<and> rt_studentId x = the (oc_studentId o'))) new (filter rt_inserted ret)"
      by (auto simp: upserted_def)
    obtain evs n where ev: "d3 = d2\<lparr>t_events := t_events d2 @ evs, seq := n\<rparr>" "seq d2 \<le> n"
      "map ev_key evs = map (\<lambda>r. ev_key (presence_event w ctx rid now sids m r 0)) (filter rt_inserted ret)"
      "\<forall>e \<in> set evs. ev_statusValue e = PRESENT"
      using insert_presence_events_facts [OF 1(7)] by blast
    have d': "t_events d' = t_events d3" "t_records d' = t_records d3" "t_sessions d' = t_sessions d3" "seq d3 \<le> seq d'"
      using writeScanEvents_frame [OF 1(8)] writeScanEvents_seq [OF 1(8)] by auto
    have frA: "t_events d1 = t_events d" "t_records d1 = t_records d" "set (t_sessions d) \<subseteq> set (t_sessions d1)"
      using A by (auto simp: sessions_opened_def)
    have steps: "decision_steps ?outs outs2" using 1(9,10) decision_steps_trans by blast
    note B = by_student_facts [OF 1(2)]
    have link: "ev_key (presence_event w ctx rid now sids m x 0) = (s, the (oc_studentId o')) \<and> s \<in> as_id ` set (t_sessions d1)"
      if t: "(o', s) \<in> set todo" and x: "rt_studentId x = the (oc_studentId o')" for o' s x
    proof -
      from to_upsert_in(2) [OF 1(3) t] obtain k where k: "(k, o') \<in> set m" by blast
      with B have mk: "map_of m k = Some o'" by simp
      with B have "the (oc_studentId o') = k" by (simp add: entries_of_def)
      with mk x have m: "map_of m (rt_studentId x) = Some o'" by simp
      from 1(12) [OF t] have o': "o' \<in> set outs2" "oc_decision o' = ACCEPTED" "map_of sids (the (oc_classSectionId o')) = Some s" by auto
      from decision_steps_in [OF steps o'(1)] obtain rd where rd: "decision_step (decideRead rd ctx) o'" by auto
      with o'(2) decision_step_fields [OF rd] have "oc_decision (decideRead rd ctx) = ACCEPTED" by blast
      then have "oc_classSectionId (decideRead rd ctx) \<noteq> None" by (cases rule: decideRead_acceptedE) simp
      with decision_step_fields [OF rd] obtain c where c: "oc_classSectionId o' = Some c" by auto
      from A have "session_map_ok ctx d1 sids" by blast
      from this [unfolded session_map_ok_def] o'(3) [unfolded c option.sel]
      have "map_option sn_id (map_of (ic_sessionBySection ctx) c) = Some s \<or> (\<exists>r \<in> set (t_sessions d1). as_id r = s)"
        by blast
      then have "map_option sn_id (map_of (ic_sessionBySection ctx) c) = Some s \<or> s \<in> as_id ` set (t_sessions d1)" by blast
      moreover have "s \<in> as_id ` set (t_sessions d1)" if "map_option sn_id (map_of (ic_sessionBySection ctx) c) = Some s"
        using that frA(3) unfolding assms(2) by (auto elim!: loadContext_session_Some)
      ultimately show ?thesis using m c o'(3) x by (auto simp: presence_event_def ev_key_def)
    qed
    have keys: "map record_key new = map ev_key evs"
      unfolding ev(3) by (rule list_all2_map_eq [OF on(5)]) (use link in fastforce)
    have seskey: "ev_sessionId e \<in> as_id ` set (t_sessions d1)" if "e \<in> set evs" for e
    proof -
      from that keys have "ev_key e \<in> set (map record_key new)" by simp
      then obtain r where r: "r \<in> set new" "record_key r = ev_key e" by auto
      from list_all2_left [OF on(5) r(1)] obtain x :: returned_row where "\<exists>(o', s) \<in> set todo. record_key r = (s, the (oc_studentId o'))
          \<and> rt_studentId x = the (oc_studentId o')" by blast
      then obtain o' s where "(o', s) \<in> set todo" "record_key r = (s, the (oc_studentId o'))" "rt_studentId x = the (oc_studentId o')"
        by (elim bexE) (clarify, rule that)
      with link r(2) show ?thesis by (force simp: ev_key_def)
    qed
    have dist: "distinct (map record_key (old @ new))" using uq att_invD(2) [OF assms(4)] on(1) frA(2) by simp
    have touch: "map record_key old = map record_key (t_records d)" using on(2) unfolding frA(2)
      by (induction rule: list_all2_induct) (auto dest: record_touch_fields)
    have ks: "ev_key ` set evs = record_key ` set new" using arg_cong [OF keys, of set] by simp
    have disj: "record_key ` set new \<inter> record_key ` set (t_records d) = {}"
      using dist arg_cong [OF touch, of set] by auto
    have "list_all2 (follows evs) (t_records d) old"
    proof (rule list.rel_mono_strong)
      show "list_all2 record_touch (t_records d) old" using on(2) frA(2) by simp
      show "follows evs r r'" if "r \<in> set (t_records d)" "record_touch r r'" for r r'
        using that disj ks record_touch_fields [OF that(2)] record_touch_id [OF that(2)] by (auto simp: follows_def)
    qed
    moreover have "explained (t_events d) evs r" if r: "r \<in> set new" for r
      using ks r ev(4) list_all2_left [OF on(5) r] by (auto simp: explained_def)
    moreover have ids: "ar_id ` set new \<subseteq> minted w d d'" "seq d \<le> seq d'"
      using arg_cong [OF on(3), of set] M on(4) ev(1,2) d'(4) by (auto simp: minted_def)
    moreover have "as_id ` set (t_sessions d') \<subseteq> as_id ` set (t_sessions d) \<union> minted w d d'"
    proof -
      have "minted w d d1 \<subseteq> minted w d d'" using on(4) ev(1,2) d'(4) by (auto simp: minted_def)
      moreover have "t_sessions d' = t_sessions d1" using d'(3) ev(1) fr(1) by simp
      ultimately show ?thesis using M by auto
    qed
    moreover have "distinct (map ar_id new)"
      unfolding on(3) using assms(5) by (simp add: distinct_map inj_on_def inj_def)
    ultimately have "att_delta w d d'" unfolding att_delta_def
      using d' ev(1) fr frA on(1) seskey disj dist
      by (intro exI [of _ evs] exI [of _ old] exI [of _ new] conjI) auto
    moreover have "drop (length (t_records d)) (t_records d') = new" "drop (length (t_events d)) (t_events d') = evs"
      using d' ev(1) fr frA on(1) list_all2_lengthD [OF on(2)] by simp_all
    ultimately show ?thesis using keys by simp
  qed
qed


lemmas writeOutcomes_delta = writeOutcomes_adds [THEN conjunct1]
  and writeOutcomes_keys = writeOutcomes_adds [THEN conjunct2]

lemma ingest_tx_delta:
  assumes "ingest_tx w now sid date mode rid reads deb d = Inr (outs, d')" "distinct (map nr_index reads)"
    "att_inv w d" "inj (gen_uuid w)"
  shows "att_delta w d d'"
proof (cases "mode = ''SHADOW''")
  case True
  with assms(1) have "writeScanEvents w (loadContext d sid date reads deb) (map (\<lambda>r. decideRead r (loadContext d sid date reads deb)) reads) rid d = Inr d'"
    by (auto simp: ingest_tx_def Let_def split: sum.splits)
  from writeScanEvents_frame [OF this] writeScanEvents_seq [OF this] show ?thesis by (auto intro!: att_delta_frame)
next
  case False
  with assms(1) have "writeOutcomes w now (loadContext d sid date reads deb)
      (map (\<lambda>r. decideRead r (loadContext d sid date reads deb)) reads) rid d = Inr (outs, d')"
    by (simp add: ingest_tx_def Let_def)
  from writeOutcomes_delta [OF this refl assms(2-4)] show ?thesis .
qed

section \<open>Finalized sessions\<close>

text \<open>An upsert leaves the records of sessions it does not name alone.\<close>

lemma upsert_record_other:
  "upsert_record w school now (o', s) (d, ret) = (d', ret') \<Longrightarrow> s \<noteq> i \<Longrightarrow>
     filter (\<lambda>r. ar_sessionId r = i) (t_records d') = filter (\<lambda>r. ar_sessionId r = i) (t_records d)"
  by (auto simp: upsert_record_def Let_def gate_record_def intro!: filter_upd_other split: option.splits if_splits)

lemma fold_upsert_other:
  "fold (upsert_record w school now) todo (d, ret) = (d', ret') \<Longrightarrow> i \<notin> snd ` set todo \<Longrightarrow>
     filter (\<lambda>r. ar_sessionId r = i) (t_records d') = filter (\<lambda>r. ar_sessionId r = i) (t_records d)"
proof (induction todo arbitrary: d ret)
  case (Cons a todo)
  obtain o' s where a: "a = (o', s)" by (cases a)
  obtain d1 ret1 where one: "upsert_record w school now (o', s) (d, ret) = (d1, ret1)" by fastforce
  with Cons.prems a have "fold (upsert_record w school now) todo (d1, ret1) = (d', ret')" by simp
  from Cons.IH [OF this] upsert_record_other [OF one] Cons.prems(2) a show ?case by auto
qed simp

lemma insert_scan_rows_from:
  "insert_scan_rows w ctx rid os d = Inr d' \<Longrightarrow>
     \<exists>new. t_scanEvents d' = t_scanEvents d @ new \<and> (\<forall>r \<in> set new. \<exists>o' \<in> set os. \<exists>n. scan_row w ctx rid o' n = Inr r)"
proof (induction os arbitrary: d)
  case (Cons a os)
  from Cons.prems obtain r d1 where r: "scan_row w ctx rid a (seq d) = Inr r"
    and rest: "insert_scan_rows w ctx rid os d1 = Inr d'" and d1: "t_scanEvents d1 = t_scanEvents d \<or> t_scanEvents d1 = t_scanEvents d @ [r]"
    by (auto split: sum.splits if_splits)
  from Cons.IH [OF rest] obtain new where "t_scanEvents d' = t_scanEvents d1 @ new"
    "\<forall>r \<in> set new. \<exists>o' \<in> set os. \<exists>n. scan_row w ctx rid o' n = Inr r" by blast
  with d1 r show ?case by (elim disjE) (intro exI [of _ new], simp, intro exI [of _ "r # new"], auto)
qed simp

lemma writeScanEvents_from:
  assumes "writeScanEvents w ctx os rid d = Inr d'"
  shows "\<exists>new. t_scanEvents d' = t_scanEvents d @ new \<and> (\<forall>r \<in> set new. \<exists>o' \<in> set os. \<exists>n. scan_row w ctx rid o' n = Inr r)"
proof (cases "filter loggable os = []")
  case False
  with assms have "insert_scan_rows w ctx rid (filter loggable os) d = Inr d'" by (simp add: writeScanEvents_def Let_def)
  from insert_scan_rows_from [OF this] obtain new where "t_scanEvents d' = t_scanEvents d @ new"
    "\<forall>r \<in> set new. \<exists>o' \<in> set (filter loggable os). \<exists>n. scan_row w ctx rid o' n = Inr r" by blast
  moreover from this(2) have "\<forall>r \<in> set new. \<exists>o' \<in> set os. \<exists>n. scan_row w ctx rid o' n = Inr r"
    by (meson filter_is_subset subsetD)
  ultimately show ?thesis by blast
qed (use assms in \<open>simp add: writeScanEvents_def\<close>)

lemma scan_row_fields:
  "scan_row w ctx rid o' n = Inr r \<Longrightarrow> sv_decision r = oc_decision o'
     \<and> sv_sessionId r = (case oc_classSectionId o' of None \<Rightarrow> None | Some k \<Rightarrow> map_option sn_id (map_of (ic_sessionBySection ctx) k))"
  by (auto simp: scan_row_def Let_def split: sum.splits)

text \<open>A read whose section has a finalized session is refused.\<close>

lemma decideRead_finalized:
  assumes "oc_classSectionId (decideRead r ctx) = Some k" "map_option sn_status (map_of (ic_sessionBySection ctx) k) = Some FINALIZED"
  shows "oc_decision (decideRead r ctx) \<in> {SCHOOL_CLOSED, SESSION_FINALIZED}"
  using assms by (auto simp: decideRead_def Let_def split: option.splits if_splits)

lemma gate_leaves_closed:
  assumes "writeOutcomes w now ctx (map (\<lambda>r. decideRead r ctx) reads) rid d = Inr (outs', d')"
    and "ctx = loadContext d sid date reads deb" "distinct (map nr_index reads)"
  obtains opened events scans where "t_sessions d' = t_sessions d @ opened" "t_events d' = t_events d @ events"
    "t_scanEvents d' = t_scanEvents d @ scans" "\<And>s. s \<in> set opened \<Longrightarrow> as_status s = OPEN"
    "\<And>i. \<forall>s \<in> set (t_sessions d'). as_id s = i \<longrightarrow> as_status s = FINALIZED \<Longrightarrow>
       filter (\<lambda>r. ar_sessionId r = i) (t_records d') = filter (\<lambda>r. ar_sessionId r = i) (t_records d)
       \<and> i \<notin> ev_sessionId ` set events
       \<and> (\<forall>x \<in> set scans. sv_sessionId x = Some i \<longrightarrow> sv_decision x \<in> {SCHOOL_CLOSED, SESSION_FINALIZED})"
proof -
  let ?outs = "map (\<lambda>r. decideRead r ctx) reads"
  have "distinct (map oc_index ?outs)" using assms(3) by (simp add: comp_def)
  with assms(1) show thesis
  proof (cases rule: writeOutcomesE)
    case (1 outs1 sids d1 outs2 m todo d2 ret result d3)
    have steps: "decision_steps ?outs outs2" "decision_steps ?outs outs'" using 1(9,10,11) decision_steps_trans by blast+
    from ensure_sessions_facts [OF 1(1)] obtain opened n where d1: "d1 = d\<lparr>t_sessions := t_sessions d @ opened, seq := n\<rparr>"
      "\<forall>s \<in> set opened. as_status s = OPEN" by (auto simp: sessions_opened_def)
    have d2: "d2 = d1\<lparr>t_records := t_records d2, seq := seq d2\<rparr>" using fold_upsert_facts [OF 1(4) order_refl] by blast
    obtain evs k where d3: "d3 = d2\<lparr>t_events := t_events d2 @ evs, seq := k\<rparr>"
      "map ev_key evs = map (\<lambda>r. ev_key (presence_event w ctx rid now sids m r 0)) (filter rt_inserted ret)"
      using insert_presence_events_facts [OF 1(7)] by blast
    from writeScanEvents_frame [OF 1(8)] have d': "t_records d' = t_records d3" "t_sessions d' = t_sessions d3" "t_events d' = t_events d3"
      "t_scanEvents d3 = t_scanEvents d2" by (auto simp: d3(1))
    have fr: "t_sessions d2 = t_sessions d1" "t_events d2 = t_events d1" "t_scanEvents d2 = t_scanEvents d1"
      using arg_cong [OF d2, of t_sessions] arg_cong [OF d2, of t_events] arg_cong [OF d2, of t_scanEvents] by simp_all
    obtain scans where scans: "t_scanEvents d' = t_scanEvents d3 @ scans"
      "\<forall>r \<in> set scans. \<exists>o' \<in> set outs'. \<exists>n. scan_row w ctx rid o' n = Inr r" using writeScanEvents_from [OF 1(8)] by blast
    have ses: "t_sessions d' = t_sessions d1" by (simp add: d' d3(1) fr)
    have todo: "oc_classSectionId o' \<noteq> None \<and> (\<exists>a \<in> set (t_sessions d'). as_id a = s \<and> as_status a \<noteq> FINALIZED)"
      if "(o', s) \<in> set todo" for o' s
      using gate_todo_open [OF 1(1) steps(1) assms(2)] 1(12) [OF that] unfolding ses by blast
    show thesis
    proof (rule that [of opened evs scans])
      show "t_sessions d' = t_sessions d @ opened" by (simp add: ses d1)
      show "t_events d' = t_events d @ evs" by (simp add: d' d3(1) fr d1)
      show "t_scanEvents d' = t_scanEvents d @ scans" by (simp add: scans(1) d'(4) fr d1)
      show "as_status s = OPEN" if "s \<in> set opened" for s using d1(2) that by blast
      fix i assume closed: "\<forall>s \<in> set (t_sessions d'). as_id s = i \<longrightarrow> as_status s = FINALIZED"
      have notin: "i \<notin> snd ` set todo" using todo closed by fastforce
      have "filter (\<lambda>r. ar_sessionId r = i) (t_records d') = filter (\<lambda>r. ar_sessionId r = i) (t_records d)"
        using fold_upsert_other [OF 1(4) notin] by (simp add: d' d3(1) d1)
      moreover have "i \<notin> ev_sessionId ` set evs"
      proof
        assume "i \<in> ev_sessionId ` set evs"
        then obtain e where e: "e \<in> set evs" "ev_sessionId e = i" by blast
        from e(1) have "ev_key e \<in> set (map ev_key evs)" by simp
        then obtain x where x: "x \<in> set ret" "rt_inserted x" "ev_key e = ev_key (presence_event w ctx rid now sids m x 0)"
          unfolding d3(2) by auto
        from fold_upserted [OF 1(4) order_refl] have "upserted w (set todo) d1 d2 ret" by simp
        then obtain new where new: "list_all2 (\<lambda>r x. ar_status r = PRESENT
          \<and> (\<exists>(o', s) \<in> set todo. record_key r = (s, the (oc_studentId o')) \<and> rt_studentId x = the (oc_studentId o')))
            (new :: att_record list) (filter rt_inserted ret)" by (auto simp: upserted_def)
        have "x \<in> set (filter rt_inserted ret)" using x by simp
        from list_all2_right [OF new this] obtain r :: att_record where "\<exists>(o', s) \<in> set todo. record_key r = (s, the (oc_studentId o'))
            \<and> rt_studentId x = the (oc_studentId o')" by blast
        then obtain o' s where t: "(o', s) \<in> set todo" "rt_studentId x = the (oc_studentId o')"
          by (elim bexE) (clarify, rule that)
        from to_upsert_in(2) [OF 1(3) t(1)] obtain k where k: "(k, o') \<in> set m" by blast
        note B = by_student_facts [OF 1(2)]
        from B k have mk: "map_of m k = Some o'" by simp
        with B have "the (oc_studentId o') = k" by (simp add: entries_of_def)
        with mk t(2) have "map_of m (rt_studentId x) = Some o'" by simp
        with 1(12) [OF t(1)] todo [OF t(1)] have "fst (ev_key (presence_event w ctx rid now sids m x 0)) = s"
          by (auto simp: presence_event_def ev_key_def)
        with x(3) e(2) have "i = s" by (simp add: ev_key_def)
        with notin t(1) show False by force
      qed
      moreover have "sv_decision x \<in> {SCHOOL_CLOSED, SESSION_FINALIZED}" if x: "x \<in> set scans" "sv_sessionId x = Some i" for x
      proof -
        from scans(2) x(1) obtain o' n where o': "o' \<in> set outs'" "scan_row w ctx rid o' n = Inr x" by blast
        from decision_steps_in [OF steps(2) o'(1)] obtain rd where rd: "decision_step (decideRead rd ctx) o'" by auto
        from scan_row_fields [OF o'(2)] x(2) obtain k v where k: "oc_classSectionId o' = Some k"
          "map_of (ic_sessionBySection ctx) k = Some v" "sn_id v = i" "sv_decision x = oc_decision o'"
          by (cases "oc_classSectionId o'") (auto simp: eq_commute [of "Some i"])
        from k(2) [unfolded assms(2)] obtain a where "a \<in> set (t_sessions d)" "sn_id v = as_id a" "sn_status v = as_status a"
          by (rule loadContext_session_Some)
        with closed k(3) have "sn_status v = FINALIZED" by (simp add: ses d1)
        with k decision_step_fields [OF rd] decideRead_finalized [of rd ctx k]
        have "oc_decision (decideRead rd ctx) \<in> {SCHOOL_CLOSED, SESSION_FINALIZED}" by simp
        with rd k(4) show ?thesis by (auto simp: decision_step_def)
      qed
      ultimately show "filter (\<lambda>r. ar_sessionId r = i) (t_records d') = filter (\<lambda>r. ar_sessionId r = i) (t_records d)
       \<and> i \<notin> ev_sessionId ` set evs
       \<and> (\<forall>x \<in> set scans. sv_sessionId x = Some i \<longrightarrow> sv_decision x \<in> {SCHOOL_CLOSED, SESSION_FINALIZED})" by blast
    qed
  qed
qed

text \<open>
  C25: finalized sessions are closed to the gate.  Deciding and writing a batch in one transaction
  on the loaded context opens sessions and changes no existing one.  To a session that is finalized it adds
  no event, it leaves every record of the session as it is, and a row of the scan log that names the
  session is a read refused because the session is finalized or the school closed.  Every new record
  belongs to a gate session of that school and date that is not finalized, and that is the session of
  the section its student is enrolled in.
\<close>

theorem gate_never_writes_finalized:
  assumes "writeOutcomes w now ctx (map (\<lambda>r. decideRead r ctx) reads) rid d = Inr (outs', d')"
    and "ctx = loadContext d sid date reads deb" "distinct (map nr_index reads)"
  shows "\<exists>opened events scans. t_sessions d' = t_sessions d @ opened \<and> t_events d' = t_events d @ events
     \<and> t_scanEvents d' = t_scanEvents d @ scans \<and> (\<forall>s \<in> set opened. as_status s = OPEN)
     \<and> (\<forall>i. (\<forall>s \<in> set (t_sessions d'). as_id s = i \<longrightarrow> as_status s = FINALIZED) \<longrightarrow>
          filter (\<lambda>r. ar_sessionId r = i) (t_records d') = filter (\<lambda>r. ar_sessionId r = i) (t_records d)
          \<and> i \<notin> ev_sessionId ` set events
          \<and> (\<forall>x \<in> set scans. sv_sessionId x = Some i \<longrightarrow> sv_decision x \<in> {SCHOOL_CLOSED, SESSION_FINALIZED}))
     \<and> (\<forall>r \<in> set (drop (length (t_records d)) (t_records d')). \<exists>s \<in> set (t_sessions d').
          as_id s = ar_sessionId r \<and> as_status s \<noteq> FINALIZED \<and> as_schoolId s = sid \<and> as_sessionDate s = date
          \<and> as_sessionType s = ''GATE_ARRIVAL''
          \<and> (\<exists>e \<in> set (t_enrollments d). en_studentId e = ar_studentId r \<and> en_schoolId e = sid
                \<and> en_classSectionId e = as_classSectionId s \<and> en_status e = ''ACTIVE''))"
proof (rule gate_leaves_closed [OF assms])
  fix opened events scans
  assume f: "t_sessions d' = t_sessions d @ opened" "t_events d' = t_events d @ events" "t_scanEvents d' = t_scanEvents d @ scans"
    "\<And>s. s \<in> set opened \<Longrightarrow> as_status s = OPEN"
    "\<And>i. \<forall>s \<in> set (t_sessions d'). as_id s = i \<longrightarrow> as_status s = FINALIZED \<Longrightarrow>
       filter (\<lambda>r. ar_sessionId r = i) (t_records d') = filter (\<lambda>r. ar_sessionId r = i) (t_records d)
       \<and> i \<notin> ev_sessionId ` set events
       \<and> (\<forall>x \<in> set scans. sv_sessionId x = Some i \<longrightarrow> sv_decision x \<in> {SCHOOL_CLOSED, SESSION_FINALIZED})"
  have "\<forall>s \<in> set opened. as_status s = OPEN" by (intro ballI f(4))
  moreover note allI [OF impI [OF f(5)]]
  ultimately show ?thesis
    by (intro exI [of _ opened] exI [of _ events] exI [of _ scans] conjI f(1-3) gate_records_open [OF assms])
qed

text \<open>The badge of a child whose section has finished for the day.\<close>

definition example_closed_db :: db where
  "example_closed_db = example_db\<lparr>t_sessions := [\<lparr>as_id = ''done'', as_schoolId = ''s'', as_classSectionId = ''k'', as_teacherId = ''t'',
     as_sessionDate = ''d'', as_sessionType = ''GATE_ARRIVAL'', as_status = FINALIZED, as_finalizedAt = Some 7, as_finalizedBy = Some ''t'',
     as_updatedAt = 7, as_clientSessionId = None\<rparr>]\<rparr>"

definition example_closed_ctx :: ingest_context where
  "example_closed_ctx = loadContext example_closed_db ''s'' ''d'' [example_normalized 0 5] {}"

definition example_closed_run :: "(outcome list \<times> db) result" where
  "example_closed_run = writeOutcomes example_world 100 example_closed_ctx
     (map (\<lambda>r. decideRead r example_closed_ctx) [example_normalized 0 5]) ''r'' example_closed_db"

lemma example_closed_view:
  "case example_closed_run of Inl e \<Rightarrow> False | Inr (outs, d) \<Rightarrow> map (\<lambda>x. (sv_sessionId x, sv_decision x)) (t_scanEvents d)
     = [(Some ''done'', SESSION_FINALIZED)] \<and> map (\<lambda>s. (as_id s, as_status s)) (t_sessions d) = [(''done'', FINALIZED)]"
  by code_simp

theorem gate_never_writes_finalized_witness:
  "\<exists>outs d. example_closed_run = Inr (outs, d) \<and> filter (\<lambda>r. ar_sessionId r = ''done'') (t_records d) = []
     \<and> ''done'' \<notin> ev_sessionId ` set (t_events d) \<and> sv_sessionId ` set (t_scanEvents d) = {Some ''done''}"
proof -
  obtain outs d where run: "example_closed_run = Inr (outs, d)" using example_closed_view by (auto split: sum.splits)
  from example_closed_view [unfolded run] have v: "map (\<lambda>x. (sv_sessionId x, sv_decision x)) (t_scanEvents d) = [(Some ''done'', SESSION_FINALIZED)]"
    "map (\<lambda>s. (as_id s, as_status s)) (t_sessions d) = [(''done'', FINALIZED)]" unfolding sum.case prod.case by blast+
  have closed: "\<forall>s \<in> set (t_sessions d). as_id s = ''done'' \<longrightarrow> as_status s = FINALIZED"
    using arg_cong [OF v(2), of set] by auto
  have start: "t_records example_closed_db = []" "t_events example_closed_db = []"
    by (simp_all add: example_closed_db_def example_db_def empty_db_def)
  have "distinct (map nr_index [example_normalized 0 5])" by simp
  from gate_never_writes_finalized [OF run [unfolded example_closed_run_def] example_closed_ctx_def this] closed start
  have "filter (\<lambda>r. ar_sessionId r = ''done'') (t_records d) = []" "''done'' \<notin> ev_sessionId ` set (t_events d)" by auto
  moreover have "sv_sessionId ` set (t_scanEvents d) = {Some ''done''}" using arg_cong [OF v(1), of "\<lambda>x. fst ` set x"] by (simp add: image_image)
  ultimately show ?thesis using run by blast
qed

end
