(* ===== verification/Attendance_Run.thy ===== *)
theory Attendance_Run
  imports Attendance_Gate Notification_Worker Sync
begin

text \<open>
  Runs of the attendance service: every way the code changes sessions, records and events, as an
  operation of one machine, in any order and interleaved with the other services.  The claims here
  hold over whole runs: the records are the projection of the event log, the log only grows, and a
  finalized session is frozen until an administrator reopens or corrects it.
\<close>

section \<open>Operations\<close>

datatype att_op =
    OpenSession instant uuid uuid uuid string string uuid string
  | SetStatus instant uuid uuid uuid string session_status "string option" bool
  | ScanCode instant uuid uuid scan_request
  | ManualStatus instant uuid uuid manual_request
  | GateBatch instant uuid string string uuid "json list" "string set"
  | OfflineSession instant uuid uuid string string sync_session
  | OfflineEvent instant uuid uuid string uuid "(string \<times> uuid) list" sync_event

definition gate_batch ::
  "world \<Rightarrow> instant \<Rightarrow> uuid \<Rightarrow> string \<Rightarrow> string \<Rightarrow> uuid \<Rightarrow> json list \<Rightarrow> string set \<Rightarrow> db \<Rightarrow> db result" where
  "gate_batch w now schoolId tz mode readerId rawReads debounced d =
     bind_result (normalizeReads w schoolId readerId now tz rawReads) (\<lambda>(reads, _).
     bind_result (ingest_tx w now schoolId (toSchoolDate w now tz) mode readerId (fst (dedupeInBatch reads)) debounced d)
       (\<lambda>(_, d'). Inr d'))"

fun att_call :: "world \<Rightarrow> db \<Rightarrow> att_op \<Rightarrow> db result" where
  "att_call w d (OpenSession now schoolId sec teacher date typ actor role) =
     bind_result (createAttendanceSession w now schoolId sec teacher date typ actor role d) (\<lambda>(_, _, _, d'). Inr d')"
| "att_call w d (SetStatus now schoolId sessionId actor role new reason auto) =
     bind_result (updateSessionStatus w now schoolId sessionId actor role new reason auto d) (\<lambda>(_, d'). Inr d')"
| "att_call w d (ScanCode now schoolId sessionId rq) =
     bind_result (processQRCode w now schoolId sessionId rq d) (\<lambda>(_, d'). Inr d')"
| "att_call w d (ManualStatus now schoolId sessionId rq) =
     bind_result (manualStatusUpdate w now schoolId sessionId rq d) (\<lambda>(_, d'). Inr d')"
| "att_call w d (GateBatch now schoolId tz mode readerId rawReads debounced) =
     gate_batch w now schoolId tz mode readerId rawReads debounced d"
| "att_call w d (OfflineSession now schoolId actor role clientId p) =
     bind_result (reconcile_session w now schoolId actor role clientId p d) (\<lambda>(_, d'). Inr d')"
| "att_call w d (OfflineEvent now schoolId actor role deviceId m e) =
     bind_result (sync_event_step w now schoolId actor role deviceId m e d) (\<lambda>(_, d'). Inr d')"

text \<open>A call that fails leaves the database as it was.\<close>

definition att_apply :: "world \<Rightarrow> db \<Rightarrow> att_op \<Rightarrow> db" where
  "att_apply w d x = (case att_call w d x of Inl _ \<Rightarrow> d | Inr d' \<Rightarrow> d')"

lemma gate_batchE:
  assumes "gate_batch w now schoolId tz mode readerId raw deb d = Inr d'"
  obtains reads malformed unique dupes outs where "normalizeReads w schoolId readerId now tz raw = Inr (reads, malformed)"
    "dedupeInBatch reads = (unique, dupes)" "distinct (map nr_index unique)"
    "ingest_tx w now schoolId (toSchoolDate w now tz) mode readerId unique deb d = Inr (outs, d')"
proof -
  from assms obtain reads malformed outs where n: "normalizeReads w schoolId readerId now tz raw = Inr (reads, malformed)"
    and t: "ingest_tx w now schoolId (toSchoolDate w now tz) mode readerId (fst (dedupeInBatch reads)) deb d = Inr (outs, d')"
    by (auto simp: gate_batch_def bind_result_Inr_iff)
  obtain unique dupes where dd: "dedupeInBatch reads = (unique, dupes)" by fastforce
  have "sorted_wrt (<) (map nr_index reads)"
    using n normalizeReads_positions [of w schoolId readerId now tz raw] by auto
  from dedupe_unique_distinct [OF dd this] t dd show thesis by (intro that [OF n dd]) simp_all
qed

lemma att_call_delta:
  assumes "att_call w d x = Inr d'" "att_inv w d" "inj (gen_uuid w)"
  shows "att_delta w d d'"
proof (cases x)
  case (GateBatch now schoolId tz mode readerId raw deb)
  with assms(1) have "gate_batch w now schoolId tz mode readerId raw deb d = Inr d'" by simp
  then show ?thesis
  proof (rule gate_batchE)
    fix reads malformed unique dupes outs
    assume "distinct (map nr_index unique)" "ingest_tx w now schoolId (toSchoolDate w now tz) mode readerId unique deb d = Inr (outs, d')"
    then show ?thesis using ingest_tx_delta assms(2,3) by blast
  qed
next
  case OpenSession
  with assms show ?thesis by (auto simp: bind_result_Inr_iff intro: createAttendanceSession_delta)
next
  case SetStatus
  with assms show ?thesis by (auto simp: bind_result_Inr_iff intro: updateSessionStatus_delta)
next
  case ScanCode
  with assms show ?thesis by (auto simp: bind_result_Inr_iff intro: processQRCode_delta)
next
  case ManualStatus
  with assms show ?thesis by (auto simp: bind_result_Inr_iff intro: manualStatusUpdate_delta)
next
  case OfflineSession
  with assms show ?thesis by (auto simp: bind_result_Inr_iff intro: reconcile_session_delta)
next
  case OfflineEvent
  with assms show ?thesis by (auto simp: bind_result_Inr_iff intro: sync_event_step_delta)
qed

lemma att_delta_refl [simp]: "att_delta w d d"
  by (simp add: att_delta_frame)

lemma att_apply_delta: "att_inv w d \<Longrightarrow> inj (gen_uuid w) \<Longrightarrow> att_delta w d (att_apply w d x)"
  by (auto simp: att_apply_def dest: att_call_delta split: sum.split)

lemma att_apply_inv: "inj (gen_uuid w) \<Longrightarrow> att_inv w d \<Longrightarrow> att_inv w (att_apply w d x)"
  by (rule att_inv_delta [OF _ _ att_apply_delta])

lemma att_delta_events: "att_delta w d d' \<Longrightarrow> \<exists>new. t_events d' = t_events d @ new"
  by (auto simp: att_delta_def)

interpretation event_log: append_only "att_apply w" "\<lambda>d. inj (gen_uuid w) \<and> att_inv w d" t_events for w
proof unfold_locales
  show "inj (gen_uuid w) \<and> att_inv w (att_apply w d x)" if "inj (gen_uuid w) \<and> att_inv w d" for d x
    using that by (simp add: att_apply_inv)
  show "\<exists>new. t_events (att_apply w d x) = t_events d @ new" if "inj (gen_uuid w) \<and> att_inv w d" for d x
    using that by (intro att_delta_events [of w]) (simp add: att_apply_delta)
qed

section \<open>Runs\<close>

text \<open>
  Between the operations other services may change every other table, hand out identifiers and extend
  the audit log.
\<close>

inductive runs :: "world \<Rightarrow> db \<Rightarrow> att_op list \<Rightarrow> db \<Rightarrow> bool" for w d where
  idle: "runs w d [] d"
| step: "runs w d xs d1 \<Longrightarrow> runs w d (xs @ [x]) (att_apply w d1 x)"
| elsewhere: "runs w d xs d1 \<Longrightarrow> same_attendance d1 d2 \<Longrightarrow> runs w d xs d2"

lemma same_attendance_delta: "same_attendance d d' \<Longrightarrow> att_delta w d d'"
  by (rule att_delta_frame) (auto simp: same_attendance_def)

lemma runs_inv: "runs w d xs d' \<Longrightarrow> inj (gen_uuid w) \<Longrightarrow> att_inv w d \<Longrightarrow> att_inv w d'"
  by (induction rule: runs.induct) (auto intro: att_apply_inv att_inv_delta same_attendance_delta)

lemma runs_events:
  "runs w d xs d' \<Longrightarrow> inj (gen_uuid w) \<Longrightarrow> att_inv w d \<Longrightarrow> \<exists>new. t_events d' = t_events d @ new"
proof (induction rule: runs.induct)
  case (step xs d1 x)
  with att_delta_events [OF att_apply_delta, OF runs_inv [OF step(1)]] show ?case by (metis append_assoc)
qed (auto simp: same_attendance_def)

definition no_attendance :: "db \<Rightarrow> bool" where
  "no_attendance d \<longleftrightarrow> t_sessions d = [] \<and> t_records d = [] \<and> t_events d = []"

lemma no_attendance_inv: "no_attendance d \<Longrightarrow> att_inv w d"
  by (simp add: no_attendance_def att_inv_def)

text \<open>
  C2: the attendance records are the projection of the event log.  From empty attendance tables, after
  any interleaving of opened sessions, status changes with their automatic absences, scans, manual
  changes, gate batches and uploads of offline scans, with the other services running in between, the status of every record is
  the status of the last event of its session and student, or UNMARKED when there is none; there is at
  most one record per session and student, and every event belongs to an existing session.
\<close>

theorem records_project_the_log:
  assumes "inj (gen_uuid w)" "no_attendance d" "runs w d ops d'"
  shows "(\<forall>r \<in> set (t_records d'). ar_status r = project (t_events d') (ar_sessionId r, ar_studentId r))
    \<and> distinct (map (\<lambda>r. (ar_sessionId r, ar_studentId r)) (t_records d'))
    \<and> ev_sessionId ` set (t_events d') \<subseteq> as_id ` set (t_sessions d')"
proof -
  note inv = runs_inv [OF assms(3,1) no_attendance_inv [OF assms(2)]]
  have key: "(\<lambda>r. (ar_sessionId r, ar_studentId r)) = record_key" by (simp add: record_key_def fun_eq_iff)
  from att_invD [OF inv] show ?thesis unfolding key by (simp add: record_key_def)
qed

text \<open>
  C24: the event log is append only.  Whatever is called after an event is logged, the event stays in
  the log, unchanged, and the events before it stay before it.
\<close>

theorem event_log_append_only:
  assumes "inj (gen_uuid w)" "no_attendance d0" "runs w d0 before d" "runs w d ops d'"
  shows "take (length (t_events d)) (t_events d') = t_events d"
  using runs_events [OF assms(4,1) runs_inv [OF assms(3,1) no_attendance_inv [OF assms(2)]]] by auto


text \<open>
  An upload of offline scans is a run: one operation per session the phone opened and per scan, so what
  holds of every run holds across uploads.
\<close>

lemma runs_trans: "runs w d1 ys d2 \<Longrightarrow> runs w d xs d1 \<Longrightarrow> runs w d (xs @ ys) d2"
proof (induction rule: runs.induct)
  case (step ys d2 y)
  then have "runs w d (xs @ ys) d2" by simp
  from runs.step [OF this, of y] show ?case by simp
qed (auto intro: runs.elsewhere)

lemma runs_call: "att_call w d x = Inr d' \<Longrightarrow> runs w d [x] d'"
  using runs.step [OF runs.idle, of w d x] by (simp add: att_apply_def)

lemma reconcile_sessions_run:
  "reconcile_sessions w now sid actor role ps d = Inr (m, d') \<Longrightarrow>
     runs w d (map (\<lambda>(c, p). OfflineSession now sid actor role c p) ps) d'"
proof (induction ps arbitrary: d m)
  case (Cons q ps)
  then obtain i d1 m' where h: "reconcile_session w now sid actor role (fst q) (snd q) d = Inr (i, d1)"
    "reconcile_sessions w now sid actor role ps d1 = Inr (m', d')"
    by (cases q) (auto simp: bind_result_Inr_iff)
  have "runs w d [OfflineSession now sid actor role (fst q) (snd q)] d1" by (rule runs_call) (simp add: h(1))
  from runs_trans [OF Cons.IH [OF h(2)] this] show ?case by (simp add: case_prod_beta)
qed (simp add: runs.idle)

lemma sync_events_run:
  "sync_events w now sid actor role dev m es d = Inr (rs, d') \<Longrightarrow> runs w d (map (OfflineEvent now sid actor role dev m) es) d'"
proof (induction es arbitrary: d rs)
  case (Cons e es)
  from Cons.prems obtain r d1 rs' where h: "sync_event_step w now sid actor role dev m e d = Inr (r, d1)"
    "sync_events w now sid actor role dev m es d1 = Inr (rs', d')" by (rule sync_eventsE)
  have "runs w d [OfflineEvent now sid actor role dev m e] d1" by (rule runs_call) (simp add: h(1))
  from runs_trans [OF Cons.IH [OF h(2)] this] show ?case by simp
qed (simp add: runs.idle)

lemma upload_is_a_run:
  assumes "syncAttendanceEvents w now sid actor device role events sessions d = Inr (resp, d')"
  shows "\<exists>dev m. runs w d (map (\<lambda>(c, p). OfflineSession now sid actor role c p) (session_payloads w now sessions events)
      @ map (OfflineEvent now sid actor role dev m) events) d'"
  using assms
proof (rule syncE)
  fix dev m d1 rs d2 a
  assume "reconcile_sessions w now sid actor role (session_payloads w now sessions events) d = Inr (m, d1)"
    "sync_events w now sid actor role (de_id dev) m events d1 = Inr (rs, d2)"
    and d': "d' = d2\<lparr>t_audit := t_audit d2 @ [a]\<rparr>"
  from runs_trans [OF sync_events_run [OF this(2)] reconcile_sessions_run [OF this(1)]]
  have "runs w d (map (\<lambda>(c, p). OfflineSession now sid actor role c p) (session_payloads w now sessions events)
      @ map (OfflineEvent now sid actor role (de_id dev) m) events) d2" .
  from runs.elsewhere [OF this, of d'] show ?thesis by (auto simp: d' same_attendance_def)
qed

section \<open>Finalized sessions\<close>

text \<open>What an operation does to the sessions and the audit log: only a change of status rewrites a session.\<close>

definition sessions_kept :: "world \<Rightarrow> db \<Rightarrow> db \<Rightarrow> bool" where
  "sessions_kept w d d' \<longleftrightarrow> (\<exists>new. t_sessions d' = t_sessions d @ new \<and> as_id ` set new \<subseteq> gen_uuid w ` {seq d..})
     \<and> (\<exists>a. t_audit d' = t_audit d @ a)"

lemma sessions_kept_same: "t_sessions d' = t_sessions d \<Longrightarrow> t_audit d' = t_audit d \<Longrightarrow> sessions_kept w d d'"
  by (simp add: sessions_kept_def)

lemma sessions_kept_same_attendance: "same_attendance d d' \<Longrightarrow> sessions_kept w d d'"
  by (simp add: sessions_kept_def same_attendance_def)

lemma insert_job_frame [simp]:
  "t_sessions (snd (insert_job j d)) = t_sessions d" "t_audit (snd (insert_job j d)) = t_audit d"
  "t_events (snd (insert_job j d)) = t_events d" "t_records (snd (insert_job j d)) = t_records d"
  "t_corrections (snd (insert_job j d)) = t_corrections d"
  by (cases "\<exists>x \<in> set (t_jobs d). job_conflict x j"; simp add: insert_job_skip insert_job_add)+

lemma onAttendanceCorrected_frame [simp]:
  "t_sessions (onAttendanceCorrected w now rid sid st a b d) = t_sessions d"
  "t_audit (onAttendanceCorrected w now rid sid st a b d) = t_audit d"
  "t_events (onAttendanceCorrected w now rid sid st a b d) = t_events d"
  "t_records (onAttendanceCorrected w now rid sid st a b d) = t_records d"
  "t_corrections (onAttendanceCorrected w now rid sid st a b d) = t_corrections d"
  by (simp_all add: onAttendanceCorrected_def Let_def split: option.split)

lemma record_scan_frame:
  assumes "record_scan w now schoolId sessionId studentId rq d = Inr (r', d')"
  shows "t_sessions d' = t_sessions d \<and> t_audit d' = t_audit d"
  using assms
  by (auto simp: record_scan_def bind_result_Inr_iff insert_event_Inr insert_record_Inr Let_def split: option.splits if_splits)

lemma duplicate_scan_frame:
  "duplicate_scan w now schoolId sessionId studentId rq r d = Inr d' \<Longrightarrow> t_sessions d' = t_sessions d \<and> t_audit d' = t_audit d"
  by (auto simp: duplicate_scan_def bind_result_Inr_iff insert_event_Inr)

lemma processQRCode_sessions:
  assumes "processQRCode w now schoolId sessionId rq d = Inr (res, d')"
  shows "sessions_kept w d d'"
  using assms
  by (cases rule: processQRCodeE) (auto simp: sessions_kept_def dest!: record_scan_frame duplicate_scan_frame)

lemma manualStatusUpdate_sessions:
  assumes "manualStatusUpdate w now schoolId sessionId rq d = Inr (r', d')"
  shows "sessions_kept w d d'"
  using assms
proof (rule manualStatusUpdateE)
  fix s assume c: "(\<exists>r. resolve_record d schoolId sessionId rq = Some r \<and> manual_change w now schoolId sessionId (as_status s) r rq d = Inr (r', d'))
     \<or> (resolve_record d schoolId sessionId rq = None \<and> (\<exists>st. mr_studentId rq = Some st \<and> manual_create w now schoolId sessionId st rq d = Inr (r', d')))"
  have "t_sessions d' = t_sessions d \<and> t_audit d' = t_audit d" if "manual_create w now schoolId sessionId st rq d = Inr (r', d')" for st
    using that by (auto simp: manual_create_def Let_def bind_result_Inr_iff insert_event_Inr insert_record_Inr split: if_splits)
  moreover have "t_sessions d' = t_sessions d \<and> t_audit d' = t_audit d" if "manual_change w now schoolId sessionId st r rq d = Inr (r', d')" for st r
    using that by (auto simp: manual_change_def Let_def bind_result_Inr_iff insert_event_Inr split: if_splits)
  ultimately show ?thesis using c by (auto simp: sessions_kept_def)
qed

lemma createAttendanceSession_sessions:
  assumes "createAttendanceSession w now schoolId sec teacher date typ actor role d = Inr (s, det, isNew, d')"
  shows "sessions_kept w d d'"
  using assms
proof (cases rule: createAttendanceSessionE)
  case existing
  then show ?thesis by (simp add: sessions_kept_def)
next
  case (fresh ro rs n m a)
  have "as_id s = gen_uuid w (seq d)" unfolding fresh(4) by (simp add: new_session_def)
  with fresh(5) show ?thesis by (simp add: sessions_kept_def)
qed

lemma reconcile_session_sessions:
  assumes "reconcile_session w now sid actor role c p d = Inr (i, d')"
  shows "sessions_kept w d d'"
  using assms
proof (cases rule: reconcile_session_cases)
  case 2
  then show ?thesis by (rule open_offline_sessionE) (simp add: sessions_kept_def)
qed (simp add: sessions_kept_def)

lemma mark_conflict_keeps [simp]:
  "t_sessions (mark_conflict sid i e err d) = t_sessions d" "t_audit (mark_conflict sid i e err d) = t_audit d"
  "t_events (mark_conflict sid i e err d) = t_events d" "length (t_records (mark_conflict sid i e err d)) = length (t_records d)"
  by (simp_all add: mark_conflict_def split: option.split)

lemma sync_event_step_sessions:
  assumes "sync_event_step w now sid actor role dev m e d = Inr (r, d')"
  shows "sessions_kept w d d'"
  using assms
proof (cases rule: sync_event_step_cases)
  case (rejected i err)
  then show ?thesis by (auto simp: sessions_kept_def)
qed (rule processQRCode_sessions)

lemma insert_gate_sessions_prefix:
  "insert_gate_sessions w ctx now ks d = Inr d' \<Longrightarrow>
     \<exists>new. t_sessions d' = t_sessions d @ new \<and> as_id ` set new \<subseteq> gen_uuid w ` {seq d..} \<and> t_audit d' = t_audit d \<and> seq d \<le> seq d'"
proof (induction ks arbitrary: d)
  case (Cons k ks)
  from Cons.prems obtain d1 s where rest: "insert_gate_sessions w ctx now ks d1 = Inr d'"
    and d1: "d1 = d \<or> (t_sessions d1 = t_sessions d @ [s] \<and> as_id s = gen_uuid w (seq d) \<and> t_audit d1 = t_audit d \<and> seq d1 = Suc (seq d))"
    by (fastforce split: option.splits if_splits)
  from Cons.IH [OF rest] obtain new where n: "t_sessions d' = t_sessions d1 @ new" "as_id ` set new \<subseteq> gen_uuid w ` {seq d1..}"
    "t_audit d' = t_audit d1" "seq d1 \<le> seq d'" by blast
  from d1 show ?case
  proof
    assume "t_sessions d1 = t_sessions d @ [s] \<and> as_id s = gen_uuid w (seq d) \<and> t_audit d1 = t_audit d \<and> seq d1 = Suc (seq d)"
    moreover have "gen_uuid w ` {Suc (seq d)..} \<subseteq> gen_uuid w ` {seq d..}" by auto
    ultimately show ?thesis using n by (intro exI [of _ "s # new"]) auto
  qed (use n in auto)
qed simp

lemma ingest_tx_sessions:
  assumes "ingest_tx w now sid date mode rid reads deb d = Inr (outs, d')" "distinct (map nr_index reads)"
  shows "sessions_kept w d d'"
proof (cases "mode = ''SHADOW''")
  case True
  let ?ctx = "loadContext d sid date reads deb"
  from True assms(1) have "writeScanEvents w ?ctx (map (\<lambda>r. decideRead r ?ctx) reads) rid d = Inr d'"
    by (auto simp: ingest_tx_def Let_def split: sum.splits)
  from writeScanEvents_frame [OF this] show ?thesis by (auto simp: sessions_kept_def)
next
  case False
  let ?ctx = "loadContext d sid date reads deb"
  from False assms(1) have wr: "writeOutcomes w now ?ctx (map (\<lambda>r. decideRead r ?ctx) reads) rid d = Inr (outs, d')"
    by (simp add: ingest_tx_def Let_def)
  have "distinct (map oc_index (map (\<lambda>r. decideRead r ?ctx) reads))" using assms(2) by (simp add: comp_def)
  with wr show ?thesis
  proof (cases rule: writeOutcomesE)
    case (1 outs1 sids d1 outs2 m todo d2 ret result d3)
    from 1(1) have "d1 = d \<or> (\<exists>ks. insert_gate_sessions w ?ctx now ks d = Inr d1)"
      by (auto simp: ensure_sessions_def Let_def split: if_splits sum.splits prod.splits)
    then have s: "sessions_kept w d d1" by (auto simp: sessions_kept_def dest: insert_gate_sessions_prefix)
    have d2: "d2 = d1\<lparr>t_records := t_records d2, seq := seq d2\<rparr>"
      using fold_upsert_facts [OF 1(4) order_refl] by blast
    have "t_sessions d2 = t_sessions d1" "t_audit d2 = t_audit d1"
      using arg_cong [OF d2, of t_sessions] arg_cong [OF d2, of t_audit] by simp_all
    with s show ?thesis using insert_presence_events_frame [OF 1(7)] writeScanEvents_frame [OF 1(8)]
      by (auto simp: sessions_kept_def)
  qed
qed

definition locked :: "db \<Rightarrow> uuid \<Rightarrow> bool" where
  "locked d i \<longleftrightarrow> i \<in> as_id ` set (t_sessions d) \<and> (\<forall>s \<in> set (t_sessions d). as_id s = i \<longrightarrow> as_status s = FINALIZED)"

text \<open>An administrator reopens or corrects the session, with a reason.\<close>

definition stated :: "string option \<Rightarrow> bool" where
  "stated reason = (case reason of None \<Rightarrow> False | Some r \<Rightarrow> js_trim r \<noteq> [])"

fun privileged_edit :: "uuid \<Rightarrow> att_op \<Rightarrow> bool" where
  "privileged_edit i (SetStatus now schoolId sessionId actor role new reason auto) \<longleftrightarrow>
     sessionId = i \<and> new = REOPENED \<and> role \<in> {''SUPER_ADMIN'', ''SCHOOL_ADMIN''} \<and> stated reason"
| "privileged_edit i (ManualStatus now schoolId sessionId rq) \<longleftrightarrow>
     sessionId = i \<and> mr_userRole rq \<in> {''SUPER_ADMIN'', ''SCHOOL_ADMIN''} \<and> stated (mr_reason rq)"
| "privileged_edit i _ \<longleftrightarrow> False"

lemma transition_guard_locked:
  "transition_guard FINALIZED new role reason = Inr () \<Longrightarrow>
     new = REOPENED \<and> role \<in> {''SUPER_ADMIN'', ''SCHOOL_ADMIN''} \<and> stated reason"
  by (auto simp: transition_guard_def bind_result_Inr_iff stated_def split: if_splits option.splits)

lemma locked_sel1:
  "locked d i \<Longrightarrow> sel1 (\<lambda>s. as_schoolId s = schoolId \<and> as_id s = i) (t_sessions d) = Some s \<Longrightarrow> as_status s = FINALIZED"
  by (auto simp: locked_def dest: sel1_SomeD)

lemma locked_kept:
  assumes "locked d i" "sessions_kept w d d'" "att_inv w d"
  shows "locked d' i"
proof -
  from assms(1) have "i \<in> as_id ` set (t_sessions d)" by (simp add: locked_def)
  with att_invD(3) [OF assms(3)] have "i \<notin> gen_uuid w ` {seq d..}" by (auto simp: disjoint_iff)
  moreover from assms(2) obtain new where "t_sessions d' = t_sessions d @ new" "as_id ` set new \<subseteq> gen_uuid w ` {seq d..}"
    by (auto simp: sessions_kept_def)
  ultimately have "t_sessions d' = t_sessions d @ new" "\<And>s. s \<in> set new \<Longrightarrow> as_id s \<noteq> i" by blast+
  with assms(1) show ?thesis by (auto simp: locked_def)
qed

text \<open>What a change of status does.\<close>

lemma updateSessionStatus_effect:
  assumes "updateSessionStatus w now schoolId sessionId actor role new reason auto d = Inr (s', d')" "distinct (map ar_id (t_records d))"
  obtains s a as where "sel1 (\<lambda>s. as_schoolId s = schoolId \<and> as_id s = sessionId) (t_sessions d) = Some s"
      "transition_guard (as_status s) new role reason = Inr ()"
      "t_sessions d' = upd (\<lambda>s. as_schoolId s = schoolId \<and> as_id s = sessionId) (set_status new now actor) (t_sessions d)"
      "t_audit d' = t_audit d @ a # as" "au_action a = ''SESSION_STATUS_'' @ status_name new" "au_resourceId a = js_or (Some sessionId) None"
      "new \<noteq> FINALIZED \<or> \<not> auto \<Longrightarrow> t_events d' = t_events d \<and> t_records d' = t_records d"
      "\<exists>evs. t_events d' = t_events d @ evs \<and> (\<forall>e \<in> set evs. ev_sessionId e = sessionId)"
      "\<And>i. sessionId \<noteq> i \<Longrightarrow> filter (\<lambda>r. ar_sessionId r = i) (t_records d') = filter (\<lambda>r. ar_sessionId r = i) (t_records d)"
  using assms(1)
proof (rule updateSessionStatusE)
  fix s d1 d2 a out
  assume s: "sel1 (\<lambda>s. as_schoolId s = schoolId \<and> as_id s = sessionId) (t_sessions d) = Some s"
    "transition_guard (as_status s) new role reason = Inr ()"
    and d1: "(if new = FINALIZED \<and> auto then auto_absent w now schoolId sessionId actor d else Inr d) = Inr d1"
    and d2: "d2 = d1\<lparr>t_sessions := upd (\<lambda>s. as_schoolId s = schoolId \<and> as_id s = sessionId) (set_status new now actor) (t_sessions d1),
               t_audit := t_audit d1 @ [a]\<rparr>"
    and a: "au_action a = ''SESSION_STATUS_'' @ status_name new" "au_resourceId a = js_or (Some sessionId) None"
    and fin: "if new = FINALIZED then createAbsenceNotificationJobs w now schoolId sessionId d2 = Inr (out, d') else d' = d2"
  from fin have same: "same_attendance d2 d'" by (auto dest: createAbsence_same split: if_splits)
  then obtain as where as: "t_audit d' = t_audit d2 @ as" by (auto simp: same_attendance_def)
  have 1: "t_sessions d1 = t_sessions d \<and> t_audit d1 = t_audit d
      \<and> (\<forall>i. sessionId \<noteq> i \<longrightarrow> filter (\<lambda>r. ar_sessionId r = i) (t_records d1) = filter (\<lambda>r. ar_sessionId r = i) (t_records d))
      \<and> (new \<noteq> FINALIZED \<or> \<not> auto \<longrightarrow> d1 = d)
      \<and> (\<exists>evs. t_events d1 = t_events d @ evs \<and> (\<forall>e \<in> set evs. ev_sessionId e = sessionId))"
  proof (cases "new = FINALIZED \<and> auto")
    case True
    with d1 have "auto_absent w now schoolId sessionId actor d = Inr d1" by simp
    from this assms(2) show ?thesis
      by (rule auto_absent_facts) (use True in \<open>auto simp: is_unmarked_def intro!: filter_upd_other\<close>)
  qed (use d1 in auto)
  show thesis
    by (rule that [OF s, of a as]) (use 1 same as a in \<open>auto simp: d2 same_attendance_def\<close>)
qed

lemma locked_set_status:
  assumes "updateSessionStatus w now schoolId sessionId actor role new reason auto d = Inr (s', d')" "locked d i"
    "\<not> privileged_edit i (SetStatus now schoolId sessionId actor role new reason auto)" "distinct (map ar_id (t_records d))"
  shows "sessionId \<noteq> i \<and> locked d' i"
  using assms(1,4)
proof (rule updateSessionStatus_effect)
  fix s a as assume s: "sel1 (\<lambda>s. as_schoolId s = schoolId \<and> as_id s = sessionId) (t_sessions d) = Some s"
      "transition_guard (as_status s) new role reason = Inr ()"
    and d': "t_sessions d' = upd (\<lambda>s. as_schoolId s = schoolId \<and> as_id s = sessionId) (set_status new now actor) (t_sessions d)"
  have "sessionId \<noteq> i"
  proof
    assume "sessionId = i"
    with s locked_sel1 [OF assms(2)] transition_guard_locked assms(3) show False by auto
  qed
  moreover have "as_id ` set (t_sessions d') = as_id ` set (t_sessions d)" unfolding d'
    using arg_cong [OF map_key_upd [where key = as_id], of "set_status new now actor" set] by simp
  with assms(2) \<open>sessionId \<noteq> i\<close> have "locked d' i" unfolding locked_def by (auto simp: d' in_upd split: if_splits)
  ultimately show ?thesis ..
qed


text \<open>
  What the tables hold about one session: its events and its records, whole.  A record is flagged when
  only its conflict flag is set, which is what the service does for the student an offline scan names
  when the scan comes too late.
\<close>

definition session_events :: "uuid \<Rightarrow> db \<Rightarrow> att_event list" where
  "session_events i d = filter (\<lambda>e. ev_sessionId e = i) (t_events d)"

definition session_records :: "uuid \<Rightarrow> db \<Rightarrow> att_record list" where
  "session_records i d = filter (\<lambda>r. ar_sessionId r = i) (t_records d)"

definition late_upload :: "att_op list \<Rightarrow> uuid \<Rightarrow> uuid \<Rightarrow> bool" where
  "late_upload xs i studentId \<longleftrightarrow> (\<exists>now schoolId actor role dev m e. OfflineEvent now schoolId actor role dev m e \<in> set xs
     \<and> event_session m e = Some i \<and> sy_studentId e = Some studentId)"

definition flagged :: "att_op list \<Rightarrow> uuid \<Rightarrow> att_record \<Rightarrow> att_record \<Rightarrow> bool" where
  "flagged xs i r r' \<longleftrightarrow> r' = r \<or> (r' = r\<lparr>ar_hasConflict := True\<rparr> \<and> late_upload xs i (ar_studentId r))"

definition frozen :: "att_op list \<Rightarrow> uuid \<Rightarrow> db \<Rightarrow> db \<Rightarrow> bool" where
  "frozen xs i d d' \<longleftrightarrow> session_events i d' = session_events i d
     \<and> list_all2 (flagged xs i) (session_records i d) (session_records i d')"

lemma flagged_refl [simp]: "flagged xs i r r"
  by (simp add: flagged_def)

lemma late_upload_append [simp]: "late_upload (xs @ ys) i st \<longleftrightarrow> late_upload xs i st \<or> late_upload ys i st"
  unfolding late_upload_def set_append by blast

lemma flagged_trans: "flagged xs i r1 r2 \<Longrightarrow> flagged ys i r2 r3 \<Longrightarrow> flagged (xs @ ys) i r1 r3"
  by (auto simp: flagged_def)

lemma frozen_refl [simp]: "frozen xs i d d"
  by (simp add: frozen_def list_all2_refl)

lemma frozen_trans: "frozen xs i d1 d2 \<Longrightarrow> frozen ys i d2 d3 \<Longrightarrow> frozen (xs @ ys) i d1 d3"
  using list_all2_trans [of "flagged xs i" "flagged ys i" "flagged (xs @ ys) i", OF flagged_trans] by (auto simp: frozen_def)

text \<open>Most operations do not touch the session at all.\<close>

definition untouched :: "uuid \<Rightarrow> db \<Rightarrow> db \<Rightarrow> bool" where
  "untouched i d d' \<longleftrightarrow> i \<notin> ev_sessionId ` set (drop (length (t_events d)) (t_events d'))
     \<and> session_records i d' = session_records i d"

lemma untouched_frozen:
  assumes "att_delta w d d'" "untouched i d d'"
  shows "frozen xs i d d'"
proof -
  from att_delta_events [OF assms(1)] obtain evs where D: "t_events d' = t_events d @ evs" ..
  with assms(2) have "i \<notin> ev_sessionId ` set evs" by (simp add: untouched_def)
  then have "filter (\<lambda>e. ev_sessionId e = i) evs = []" by (auto simp: filter_empty_conv)
  with D assms(2) show ?thesis by (simp add: frozen_def session_events_def untouched_def list_all2_refl)
qed

lemma filter_upd_elsewhere:
  "(\<And>r. q (f r) = q r) \<Longrightarrow> (\<And>r. r \<in> set t \<Longrightarrow> p r \<Longrightarrow> \<not> q r) \<Longrightarrow> filter q (upd p f t) = filter q t"
  by (induction t) auto

lemma upd_other_session:
  assumes "distinct (map ar_id rs)" "r \<in> set rs" "ar_sessionId r \<noteq> i" "\<And>x. ar_sessionId (f x) = ar_sessionId x"
  shows "filter (\<lambda>r. ar_sessionId r = i) (upd (\<lambda>x. ar_id x = ar_id r) f rs) = filter (\<lambda>r. ar_sessionId r = i) rs"
proof (rule filter_upd_elsewhere)
  from assms(1) have "inj_on ar_id (set rs)" by (simp add: distinct_map)
  then show "ar_sessionId x \<noteq> i" if "x \<in> set rs" "ar_id x = ar_id r" for x
    using that assms(2,3) by (metis inj_onD)
qed (simp add: assms(4))

lemma scan_event_row_session [simp]: "ev_sessionId (scan_event_row w now ts schoolId sessionId st rq ty v m n) = sessionId"
  by (simp add: scan_event_row_def)

lemma manual_event_session [simp]: "ev_sessionId (manual_event w now schoolId sessionId st rq i m n) = sessionId"
  by (simp add: manual_event_def)

lemma record_scan_events:
  assumes "record_scan w now schoolId sessionId studentId rq d = Inr (r', d')"
  shows "\<exists>e. t_events d' = t_events d @ [e] \<and> ev_sessionId e = sessionId"
  using assms by (cases "record_of d schoolId sessionId studentId")
    (auto simp: record_scan_def bind_result_Inr_iff insert_event_Inr insert_record_Inr Let_def)

lemma record_scan_records:
  assumes "record_scan w now schoolId sessionId studentId rq d = Inr (r', d')" "distinct (map ar_id (t_records d))" "sessionId \<noteq> i"
  shows "session_records i d' = session_records i d"
proof (cases "record_of d schoolId sessionId studentId")
  case None
  with assms(1,3) show ?thesis
    by (auto simp: record_scan_def bind_result_Inr_iff insert_event_Inr insert_record_Inr Let_def new_record_def session_records_def)
next
  case (Some r)
  with assms(3) have r: "r \<in> set (t_records d)" "ar_sessionId r \<noteq> i" by (auto simp: record_key_def dest: record_of_SomeD)
  from Some assms(1) show ?thesis
    by (auto simp: record_scan_def bind_result_Inr_iff insert_event_Inr Let_def session_records_def upd_other_session [OF assms(2) r])
qed

lemma record_scan_untouched:
  "record_scan w now schoolId sessionId studentId rq d = Inr (r', d') \<Longrightarrow> distinct (map ar_id (t_records d)) \<Longrightarrow> sessionId \<noteq> i \<Longrightarrow>
     untouched i d d'"
  using record_scan_events record_scan_records by (fastforce simp: untouched_def)

lemma duplicate_scan_untouched:
  "duplicate_scan w now schoolId sessionId studentId rq r d = Inr d' \<Longrightarrow> sessionId \<noteq> i \<Longrightarrow> untouched i d d'"
  by (auto simp: duplicate_scan_def bind_result_Inr_iff insert_event_Inr scan_event_row_def untouched_def session_records_def)

lemma processQRCode_untouched:
  assumes "processQRCode w now schoolId sessionId rq d = Inr (res, d')" "locked d i" "distinct (map ar_id (t_records d))"
  shows "untouched i d d'"
  using assms(1)
proof (cases rule: processQRCodeE)
  case replayed
  then show ?thesis by (simp add: untouched_def)
next
  case (scanned s studentId ro st)
  have "sessionId \<noteq> i" using locked_sel1 [OF assms(2)] scanned(1,5) by auto
  with scanned(9) assms(3) show ?thesis by (auto intro: record_scan_untouched duplicate_scan_untouched)
qed

lemma manual_create_untouched:
  "manual_create w now schoolId sessionId st rq d = Inr (r', d') \<Longrightarrow> sessionId \<noteq> i \<Longrightarrow> untouched i d d'"
  by (auto simp: manual_create_def Let_def bind_result_Inr_iff insert_event_Inr insert_record_Inr new_record_def untouched_def
    session_records_def split: if_splits)

lemma manual_change_untouched:
  assumes "manual_change w now schoolId sessionId st r rq d = Inr (r', d')" "distinct (map ar_id (t_records d))"
    "r \<in> set (t_records d)" "ar_sessionId r = sessionId" "sessionId \<noteq> i"
  shows "untouched i d d'"
proof -
  from assms(4,5) have "ar_sessionId r \<noteq> i" by simp
  with assms show ?thesis
    by (auto simp: manual_change_def Let_def bind_result_Inr_iff insert_event_Inr untouched_def session_records_def upd_other_session
      split: if_splits)
qed

lemma manualStatusUpdate_untouched:
  assumes "manualStatusUpdate w now schoolId sessionId rq d = Inr (r', d')" "locked d i"
    "\<not> privileged_edit i (ManualStatus now schoolId sessionId rq)" "distinct (map ar_id (t_records d))"
  shows "untouched i d d'"
  using assms(1)
proof (rule manualStatusUpdateE)
  fix s assume s: "sel1 (\<lambda>s. as_schoolId s = schoolId \<and> as_id s = sessionId) (t_sessions d) = Some s"
    and p: "as_status s = FINALIZED \<Longrightarrow> mr_userRole rq \<in> {''SUPER_ADMIN'', ''SCHOOL_ADMIN''} \<and> (\<exists>t. mr_reason rq = Some t \<and> js_trim t \<noteq> [])"
    and c: "(\<exists>r. resolve_record d schoolId sessionId rq = Some r \<and> manual_change w now schoolId sessionId (as_status s) r rq d = Inr (r', d'))
     \<or> (resolve_record d schoolId sessionId rq = None \<and> (\<exists>st. mr_studentId rq = Some st \<and> manual_create w now schoolId sessionId st rq d = Inr (r', d')))"
  have other: "sessionId \<noteq> i"
  proof
    assume "sessionId = i"
    with s p locked_sel1 [OF assms(2)] have "privileged_edit i (ManualStatus now schoolId sessionId rq)" by (auto simp: stated_def)
    with assms(3) show False ..
  qed
  from c show ?thesis
  proof (elim disjE exE conjE)
    fix r assume "resolve_record d schoolId sessionId rq = Some r" "manual_change w now schoolId sessionId (as_status s) r rq d = Inr (r', d')"
    with other assms(4) show ?thesis by (auto intro: manual_change_untouched dest: resolve_recordD)
  qed (rule manual_create_untouched [OF _ other])
qed

lemma createAttendanceSession_untouched:
  assumes "createAttendanceSession w now schoolId sec teacher date typ actor role d = Inr (s, det, isNew, d')"
    "att_inv w d" "i \<in> as_id ` set (t_sessions d)"
  shows "untouched i d d'"
  using assms(1)
proof (cases rule: createAttendanceSessionE)
  case existing
  then show ?thesis by (simp add: untouched_def)
next
  case (fresh ro rs n m a)
  have "as_id s \<noteq> i" using att_invD(3) [OF assms(2)] assms(3) unfolding fresh(4) by (auto simp: new_session_def disjoint_iff)
  moreover have "ar_sessionId r = as_id s" if "r \<in> set rs" for r
  proof -
    from that have "record_key r \<in> set (map record_key rs)" by simp
    then show ?thesis unfolding fresh(12) by (auto simp: record_key_def)
  qed
  ultimately show ?thesis by (auto simp: untouched_def session_records_def fresh(5) filter_empty_conv)
qed

lemma reconcile_session_untouched:
  assumes "reconcile_session w now sid actor role c p d = Inr (j, d')" "att_inv w d" "i \<in> as_id ` set (t_sessions d)"
  shows "untouched i d d'"
  using assms(1)
proof (cases rule: reconcile_session_cases)
  case 2
  then show ?thesis
  proof (rule open_offline_sessionE)
    fix s ro rs n m
    assume s: "j = gen_uuid w (seq d)"
      and d': "d' = d\<lparr>t_sessions := t_sessions d @ [s], t_roster := t_roster d @ ro, t_records := t_records d @ rs, seq := m\<rparr>"
      and k: "map record_key rs = map (\<lambda>p. (j, st_id (snd p))) (activeEnrollments d sid (sp_classSectionId p))"
    have "j \<noteq> i" using att_invD(3) [OF assms(2)] assms(3) unfolding s by (auto simp: disjoint_iff)
    moreover have "ar_sessionId ` set rs \<subseteq> {j}"
    proof -
      have "fst ` record_key ` set rs \<subseteq> {j}" using arg_cong [OF k, of set] by auto
      then show ?thesis by (simp add: record_key_def image_image)
    qed
    ultimately show ?thesis by (auto simp: untouched_def session_records_def d' filter_empty_conv)
  qed
qed (simp add: untouched_def)

text \<open>A scan the service refuses as too late flags the record of the student it names.\<close>

lemma mark_conflict_frozen:
  assumes "event_session m e = Some j" "distinct (map ar_id (t_records d))"
  shows "frozen [OfflineEvent now sid actor role dev m e] i d (mark_conflict sid j e err d)"
proof (cases "err = JsErr ''FINALIZED_SESSION_LOCKED'' \<and> truthy (sy_studentId e) \<and> record_of d sid j (the (sy_studentId e)) \<noteq> None")
  case True
  then obtain st r where st: "sy_studentId e = Some st" and r: "record_of d sid j st = Some r" by (cases "sy_studentId e") auto
  let ?f = "\<lambda>x. x\<lparr>ar_hasConflict := True\<rparr>" and ?p = "\<lambda>x. ar_schoolId x = sid \<and> ar_id x = ar_id r"
  from record_of_SomeD [OF r] have rin: "r \<in> set (t_records d)" "ar_sessionId r = j" "ar_studentId r = st" by (auto simp: record_key_def)
  have mc: "mark_conflict sid j e err d = d\<lparr>t_records := upd ?p ?f (t_records d)\<rparr>"
    using True st r by (simp add: mark_conflict_def)
  have step: "flagged [OfflineEvent now sid actor role dev m e] i x (if ?p x then ?f x else x)" if "x \<in> set (session_records i d)" for x
  proof (cases "?p x")
    case p: True
    from assms(2) have "inj_on ar_id (set (t_records d))" by (simp add: distinct_map)
    with that p rin have "x = r" by (auto simp: session_records_def dest: inj_onD)
    with that rin assms(1) st have "late_upload [OfflineEvent now sid actor role dev m e] i (ar_studentId x)"
      by (auto simp: late_upload_def session_records_def)
    then show ?thesis by (simp add: flagged_def)
  qed auto
  have "session_records i (mark_conflict sid j e err d) = map (\<lambda>x. if ?p x then ?f x else x) (session_records i d)"
    unfolding session_records_def mc by (simp add: filter_upd_same) (simp add: upd_def)
  then show ?thesis using step
    by (simp add: frozen_def session_events_def list_all2_map2 list_all2_same)
next
  case False
  then show ?thesis by (auto simp: mark_conflict_def split: option.split)
qed

lemma sync_event_step_frozen:
  assumes "sync_event_step w now sid actor role dev m e d = Inr (r, d')" "locked d i" "att_inv w d"
  shows "frozen [OfflineEvent now sid actor role dev m e] i d d'"
  using assms(1)
proof (cases rule: sync_event_step_cases)
  case (rejected j err)
  with mark_conflict_frozen [OF _ att_invD(1) [OF assms(3)]] show ?thesis by (elim disjE) simp_all
next
  case (scanned j res)
  from processQRCode_delta [OF scanned assms(3)] processQRCode_untouched [OF scanned assms(2) att_invD(1) [OF assms(3)]]
  show ?thesis by (rule untouched_frozen)
qed

lemma set_status_untouched:
  assumes "updateSessionStatus w now schoolId sessionId actor role new reason auto d = Inr (s', d')" "locked d i"
    "distinct (map ar_id (t_records d))" "sessionId \<noteq> i"
  shows "untouched i d d'"
  using assms(1,3) by (rule updateSessionStatus_effect) (use assms(4) in \<open>auto simp: untouched_def session_records_def\<close>)

lemma gate_batch_untouched:
  assumes "ingest_tx w now sid date mode rid reads deb d = Inr (outs, d')" "distinct (map nr_index reads)"
    "att_inv w d" "locked d i"
  shows "untouched i d d'"
proof (cases "mode = ''SHADOW''")
  case True
  let ?ctx = "loadContext d sid date reads deb"
  from True assms(1) have "writeScanEvents w ?ctx (map (\<lambda>r. decideRead r ?ctx) reads) rid d = Inr d'"
    by (auto simp: ingest_tx_def Let_def split: sum.splits)
  from writeScanEvents_frame [OF this] show ?thesis by (auto simp: untouched_def session_records_def)
next
  case False
  let ?ctx = "loadContext d sid date reads deb"
  from False assms(1) have wr: "writeOutcomes w now ?ctx (map (\<lambda>r. decideRead r ?ctx) reads) rid d = Inr (outs, d')"
    by (simp add: ingest_tx_def Let_def)
  have "locked d' i" by (rule locked_kept [OF assms(4) ingest_tx_sessions [OF assms(1,2)] assms(3)])
  then have closed: "\<forall>s \<in> set (t_sessions d'). as_id s = i \<longrightarrow> as_status s = FINALIZED" by (simp add: locked_def)
  show ?thesis
  proof (rule gate_leaves_closed [OF wr refl assms(2)])
    fix opened events scans
    assume e: "t_events d' = t_events d @ events"
      and c: "\<And>i. \<forall>s \<in> set (t_sessions d'). as_id s = i \<longrightarrow> as_status s = FINALIZED \<Longrightarrow>
       filter (\<lambda>r. ar_sessionId r = i) (t_records d') = filter (\<lambda>r. ar_sessionId r = i) (t_records d)
       \<and> i \<notin> ev_sessionId ` set events
       \<and> (\<forall>x \<in> set scans. sv_sessionId x = Some i \<longrightarrow> sv_decision x \<in> {SCHOOL_CLOSED, SESSION_FINALIZED})"
    from e c [OF closed] show ?thesis by (simp add: untouched_def session_records_def)
  qed
qed

lemma att_call_sessions:
  assumes "att_call w d x = Inr d'" "\<And>now schoolId sessionId actor role new reason auto.
     x \<noteq> SetStatus now schoolId sessionId actor role new reason auto"
  shows "sessions_kept w d d'"
proof (cases x)
  case (GateBatch now schoolId tz mode readerId raw deb)
  with assms(1) have "gate_batch w now schoolId tz mode readerId raw deb d = Inr d'" by simp
  then show ?thesis by (rule gate_batchE) (rule ingest_tx_sessions)
qed (use assms in \<open>auto simp: bind_result_Inr_iff
  intro: createAttendanceSession_sessions processQRCode_sessions manualStatusUpdate_sessions
    reconcile_session_sessions sync_event_step_sessions\<close>)

lemma att_call_locked:
  assumes "att_call w d x = Inr d'" "att_inv w d" "inj (gen_uuid w)" "locked d i" "\<not> privileged_edit i x"
  shows "locked d' i \<and> frozen [x] i d d'"
proof (cases x)
  case (SetStatus now schoolId sessionId actor role new reason auto)
  with assms(1) obtain s' where u: "updateSessionStatus w now schoolId sessionId actor role new reason auto d = Inr (s', d')"
    by (auto simp: bind_result_Inr_iff)
  note l = locked_set_status [OF u assms(4) assms(5) [unfolded SetStatus] att_invD(1) [OF assms(2)]]
  from set_status_untouched [OF u assms(4) att_invD(1) [OF assms(2)]] l
  have "untouched i d d'" by blast
  with l untouched_frozen [OF updateSessionStatus_delta [OF u assms(2)]] show ?thesis by blast
next
  case (GateBatch now schoolId tz mode readerId raw deb)
  with assms(1) have g: "gate_batch w now schoolId tz mode readerId raw deb d = Inr d'" by simp
  then have "untouched i d d'"
    by (rule gate_batchE) (rule gate_batch_untouched [OF _ _ assms(2,4)])
  moreover have "locked d' i" using GateBatch by (intro locked_kept [OF assms(4) att_call_sessions [OF assms(1)] assms(2)]) simp
  ultimately show ?thesis using untouched_frozen [OF att_call_delta [OF assms(1-3)]] by blast
next
  case OpenSession
  then have "locked d' i" by (intro locked_kept [OF assms(4) att_call_sessions [OF assms(1)] assms(2)]) simp
  moreover have "untouched i d d'" using OpenSession assms(1,2,4)
    by (auto simp: bind_result_Inr_iff locked_def intro: createAttendanceSession_untouched)
  ultimately show ?thesis using untouched_frozen [OF att_call_delta [OF assms(1-3)]] by blast
next
  case ScanCode
  then have "locked d' i" by (intro locked_kept [OF assms(4) att_call_sessions [OF assms(1)] assms(2)]) simp
  moreover have "untouched i d d'" using ScanCode assms(1,4) att_invD(1) [OF assms(2)]
    by (auto simp: bind_result_Inr_iff intro: processQRCode_untouched)
  ultimately show ?thesis using untouched_frozen [OF att_call_delta [OF assms(1-3)]] by blast
next
  case OfflineSession
  then have "locked d' i" by (intro locked_kept [OF assms(4) att_call_sessions [OF assms(1)] assms(2)]) simp
  moreover have "untouched i d d'" using OfflineSession assms(1,2,4)
    by (auto simp: bind_result_Inr_iff locked_def intro: reconcile_session_untouched)
  ultimately show ?thesis using untouched_frozen [OF att_call_delta [OF assms(1-3)]] by blast
next
  case (OfflineEvent now schoolId actor role dev m e)
  then have "locked d' i" by (intro locked_kept [OF assms(4) att_call_sessions [OF assms(1)] assms(2)]) simp
  moreover from assms(1) OfflineEvent obtain r where "sync_event_step w now schoolId actor role dev m e d = Inr (r, d')"
    by (auto simp: bind_result_Inr_iff)
  from sync_event_step_frozen [OF this assms(4,2)] OfflineEvent have "frozen [x] i d d'" by simp
  ultimately show ?thesis by blast
next
  case (ManualStatus now schoolId sessionId rq)
  then have "locked d' i" by (intro locked_kept [OF assms(4) att_call_sessions [OF assms(1)] assms(2)]) simp
  moreover from assms(1) ManualStatus obtain r' where "manualStatusUpdate w now schoolId sessionId rq d = Inr (r', d')"
    by (auto simp: bind_result_Inr_iff)
  then have "untouched i d d'"
    by (rule manualStatusUpdate_untouched [OF _ assms(4) assms(5) [unfolded ManualStatus] att_invD(1) [OF assms(2)]])
  ultimately show ?thesis using untouched_frozen [OF att_call_delta [OF assms(1-3)]] by blast
qed

lemma att_apply_locked:
  assumes "att_inv w d" "inj (gen_uuid w)" "locked d i" "\<not> privileged_edit i x"
  shows "locked (att_apply w d x) i \<and> frozen [x] i d (att_apply w d x)"
proof (cases "att_call w d x")
  case (Inr d')
  with att_call_locked [OF Inr assms] show ?thesis by (simp add: att_apply_def)
qed (simp add: att_apply_def assms(3))

lemma same_attendance_locked: "same_attendance d d' \<Longrightarrow> locked d' i = locked d i \<and> frozen [] i d d'"
  by (simp add: same_attendance_def locked_def frozen_def session_events_def session_records_def list_all2_refl)

lemma runs_locked:
  "runs w d xs d' \<Longrightarrow> inj (gen_uuid w) \<Longrightarrow> att_inv w d \<Longrightarrow> locked d i \<Longrightarrow> list_all (\<lambda>x. \<not> privileged_edit i x) xs \<Longrightarrow>
     locked d' i \<and> frozen xs i d d'"
proof (induction rule: runs.induct)
  case (step xs d1 x)
  then have 1: "locked d1 i" "frozen xs i d d1" by simp_all
  from step.prems have "\<not> privileged_edit i x" by simp
  from att_apply_locked [OF runs_inv [OF step(1) step.prems(1,2)] step.prems(1) 1(1) this] frozen_trans [OF 1(2)]
  show ?case by blast
next
  case (elsewhere xs d1 d2)
  then have 1: "locked d1 i" "frozen xs i d d1" by simp_all
  from same_attendance_locked [OF elsewhere(2)] 1 frozen_trans [OF 1(2), of "[]" d2] show ?case by simp
qed simp

text \<open>
  C3: a finalized session is frozen.  Once every row of a session is FINALIZED, its events and its whole
  records stay exactly as they are, and it stays finalized, through any run of operations and other
  services, unless an administrator reopens that session or corrects a status of it, with a reason
  that is not blank.  One field is excepted: the conflict flag of a record may be set, and only if the run
  uploads an offline scan of that session that names the student.  Such a scan is refused and no event is
  logged for it, although the documentation of the offline mode says it is stored as a conflict.
\<close>

theorem finalized_session_frozen:
  assumes "inj (gen_uuid w)" "no_attendance d0" "runs w d0 before d" "runs w d ops d'"
    and "i \<in> as_id ` set (t_sessions d)" "list_all (\<lambda>s. as_id s = i \<longrightarrow> as_status s = FINALIZED) (t_sessions d)"
    and "list_all (\<lambda>x. \<not> privileged_edit i x) ops"
  shows "session_events i d' = session_events i d
    \<and> list_all2 (\<lambda>r r'. r' = r \<or> (r' = r\<lparr>ar_hasConflict := True\<rparr> \<and> late_upload ops i (ar_studentId r)))
        (session_records i d) (session_records i d')
    \<and> list_all (\<lambda>s. as_id s = i \<longrightarrow> as_status s = FINALIZED) (t_sessions d')"
proof -
  from assms(5,6) have "locked d i" by (auto simp: locked_def list_all_iff)
  from runs_locked [OF assms(4,1) runs_inv [OF assms(3,1) no_attendance_inv [OF assms(2)]] this assms(7)]
  show ?thesis by (auto simp: locked_def list_all_iff frozen_def flagged_def [abs_def])
qed

lemma att_call_audit:
  assumes "att_call w d x = Inr d'" "distinct (map ar_id (t_records d))"
  shows "\<exists>a. t_audit d' = t_audit d @ a"
proof (cases x)
  case (SetStatus now schoolId sessionId actor role new reason auto)
  with assms(1) obtain s' where "updateSessionStatus w now schoolId sessionId actor role new reason auto d = Inr (s', d')"
    by (auto simp: bind_result_Inr_iff)
  from this assms(2) show ?thesis by (rule updateSessionStatus_effect) blast
qed (use att_call_sessions [OF assms(1)] in \<open>auto simp: sessions_kept_def\<close>)

interpretation audit_trail: append_only "att_apply w" "\<lambda>d. inj (gen_uuid w) \<and> att_inv w d" t_audit for w
proof unfold_locales
  show "\<exists>new. t_audit (att_apply w d x) = t_audit d @ new" if "inj (gen_uuid w) \<and> att_inv w d" for d x
    using that by (auto simp: att_apply_def dest: att_call_audit att_invD(1) split: sum.split)
qed

lemma runs_audit:
  "runs w d xs d' \<Longrightarrow> inj (gen_uuid w) \<Longrightarrow> att_inv w d \<Longrightarrow> \<exists>new. t_audit d' = t_audit d @ new"
proof (induction rule: runs.induct)
  case (step xs d1 x)
  with audit_trail.event_extends [of w d1 x] runs_inv [OF step(1)] show ?case by (metis append_assoc)
qed (auto simp: same_attendance_def)

text \<open>The trace a reopening leaves.\<close>

definition reopened_by :: "uuid \<Rightarrow> att_op list \<Rightarrow> audit_log list \<Rightarrow> bool" where
  "reopened_by i ops audit \<longleftrightarrow>
     (\<exists>now schoolId actor role reason auto. SetStatus now schoolId i actor role REOPENED reason auto \<in> set ops
        \<and> role \<in> {''SUPER_ADMIN'', ''SCHOOL_ADMIN''} \<and> stated reason)
     \<and> (\<exists>a \<in> set audit. au_action a = ''SESSION_STATUS_REOPENED'' \<and> au_resourceId a = js_or (Some i) None)"

lemma reopened_by_mono: "reopened_by i xs as \<Longrightarrow> set xs \<subseteq> set ys \<Longrightarrow> set as \<subseteq> set bs \<Longrightarrow> reopened_by i ys bs"
  unfolding reopened_by_def by blast

lemma reopened_by_append [intro]:
  "reopened_by i xs as \<Longrightarrow> reopened_by i (xs @ ys) (as @ bs)" "reopened_by i ys bs \<Longrightarrow> reopened_by i (xs @ ys) (as @ bs)"
  by (erule reopened_by_mono; simp)+

lemma att_call_reopened:
  assumes "att_call w d x = Inr d'" "att_inv w d" "locked d i"
  shows "locked d' i \<or> reopened_by i [x] (drop (length (t_audit d)) (t_audit d'))"
proof (cases x)
  case (SetStatus now schoolId sessionId actor role new reason auto)
  with assms(1) obtain s' where u: "updateSessionStatus w now schoolId sessionId actor role new reason auto d = Inr (s', d')"
    by (auto simp: bind_result_Inr_iff)
  show ?thesis
  proof (cases "privileged_edit i x")
    case True
    with SetStatus have p: "sessionId = i" "new = REOPENED" "role \<in> {''SUPER_ADMIN'', ''SCHOOL_ADMIN''}" "stated reason" by auto
    from u att_invD(1) [OF assms(2)] have "reopened_by i [x] (drop (length (t_audit d)) (t_audit d'))"
      by (rule updateSessionStatus_effect) (use SetStatus p in \<open>auto simp: reopened_by_def\<close>)
    then show ?thesis ..
  next
    case False
    with locked_set_status [OF u assms(3) _ att_invD(1) [OF assms(2)]] SetStatus show ?thesis by blast
  qed
qed (use locked_kept [OF assms(3) att_call_sessions [OF assms(1)] assms(2)] in auto)

lemma runs_reopened:
  "runs w d xs d' \<Longrightarrow> inj (gen_uuid w) \<Longrightarrow> att_inv w d \<Longrightarrow> locked d i \<Longrightarrow>
     locked d' i \<or> reopened_by i xs (drop (length (t_audit d)) (t_audit d'))"
proof (induction rule: runs.induct)
  case (step xs d1 x)
  then have ih: "locked d1 i \<or> reopened_by i xs (drop (length (t_audit d)) (t_audit d1))" by simp
  note inv1 = runs_inv [OF step(1) step.prems(1,2)]
  from runs_audit [OF step(1) step.prems(1,2)] obtain a where a: "t_audit d1 = t_audit d @ a" by blast
  from audit_trail.event_extends [of w d1 x] step.prems(1) inv1 obtain b where b: "t_audit (att_apply w d1 x) = t_audit d1 @ b" by auto
  from ih show ?case
  proof
    assume l: "locked d1 i"
    show ?thesis
    proof (cases "att_call w d1 x")
      case (Inr d2)
      then have "att_apply w d1 x = d2" by (simp add: att_apply_def)
      with att_call_reopened [OF Inr inv1 l] a b show ?thesis
        by (auto simp flip: append_assoc)
    qed (use l in \<open>simp add: att_apply_def\<close>)
  next
    assume "reopened_by i xs (drop (length (t_audit d)) (t_audit d1))"
    with a b show ?thesis by auto
  qed
next
  case (elsewhere xs d1 d2)
  then have ih: "locked d1 i \<or> reopened_by i xs (drop (length (t_audit d)) (t_audit d1))" by simp
  from elsewhere(2) obtain b where "t_audit d2 = t_audit d1 @ b" by (auto simp: same_attendance_def)
  with ih same_attendance_locked [OF elsewhere(2)] runs_audit [OF elsewhere(1) elsewhere.prems(1,2)] show ?case
    by (auto dest: reopened_by_append(1) [where ys = "[]"])
qed simp

text \<open>
  C10: reopening leaves a trace.  When every row of a session was FINALIZED and, after some run, one of
  them is not, then the run contains a reopening of that session by an administrator with a reason that
  is not blank, and the audit log has gained a SESSION_STATUS_REOPENED entry about the session.
\<close>

theorem reopening_is_audited:
  assumes "inj (gen_uuid w)" "no_attendance d0" "runs w d0 before d" "runs w d ops d'"
    and "list_all (\<lambda>s. as_id s = i \<longrightarrow> as_status s = FINALIZED) (t_sessions d)" "i \<in> as_id ` set (t_sessions d)"
    and "s \<in> set (t_sessions d')" "as_id s = i" "as_status s \<noteq> FINALIZED"
  shows "(\<exists>now schoolId actor role reason auto. SetStatus now schoolId i actor role REOPENED reason auto \<in> set ops
        \<and> role \<in> {''SUPER_ADMIN'', ''SCHOOL_ADMIN''} \<and> stated reason)
     \<and> (\<exists>a \<in> set (drop (length (t_audit d)) (t_audit d')).
          au_action a = ''SESSION_STATUS_REOPENED'' \<and> au_resourceId a = js_or (Some i) None)"
proof -
  from assms(5,6) have "locked d i" by (auto simp: locked_def list_all_iff)
  from runs_reopened [OF assms(4,1) runs_inv [OF assms(3,1) no_attendance_inv [OF assms(2)]] this] assms(7-9)
  show ?thesis unfolding reopened_by_def by (auto simp: locked_def)
qed

section \<open>Examples\<close>

lemma runs_foldl: "runs w d xs (foldl (att_apply w) d xs)"
  by (induction xs rule: rev_induct) (auto intro: runs.intros)

definition decimal :: "string \<Rightarrow> int" where
  "decimal s = foldl (\<lambda>a c. 10 * a + (of_char c - 48)) 0 s"

lemma decimal_show_pos: "0 \<le> i \<Longrightarrow> decimal (show_pos i) = i"
proof (induction i rule: show_pos.induct)
  case (1 i)
  have digit: "of_char (char_of (48 + k) :: char) = (48 + k :: int)" if "0 \<le> k" "k < 10" for k
    using that by simp
  show ?case
  proof (cases "i < 10")
    case True
    with 1 digit [of i] show ?thesis by (subst show_pos.simps) (simp add: decimal_def)
  next
    case False
    with 1 have "decimal (show_pos (i div 10)) = i div 10" by simp
    with False digit [of "i mod 10"] show ?thesis by (subst show_pos.simps) (simp add: decimal_def)
  qed
qed

lemma inj_example_world: "inj (gen_uuid example_world)"
proof (rule injI)
  fix m n assume "gen_uuid example_world m = gen_uuid example_world n"
  then have "show_pos (int m) = show_pos (int n)" by (simp add: example_world_def show_nat_def show_int_def)
  then have "decimal (show_pos (int m)) = decimal (show_pos (int n))" by simp
  then show "m = n" by (simp add: decimal_show_pos)
qed

definition example_manual :: "attendance_status \<Rightarrow> string \<Rightarrow> string option \<Rightarrow> string \<Rightarrow> manual_request" where
  "example_manual status role reason cid = \<lparr>mr_recordId = None, mr_studentId = Some ''p'', mr_newStatus = status, mr_reason = reason,
     mr_actorId = ''t'', mr_userRole = role, mr_clientEventId = Some cid\<rparr>"

text \<open>A session is opened, the pupil marked late and the session finalized.\<close>

definition example_day :: "att_op list" where
  "example_day = [OpenSession 1 ''s'' ''k'' ''t'' ''19675'' ''DAILY'' ''t'' ''TEACHER'',
     ManualStatus 2 ''s'' ''id-0'' (example_manual LATE ''TEACHER'' None ''e1''),
     SetStatus 3 ''s'' ''id-0'' ''t'' ''TEACHER'' FINALIZED None True]"

text \<open>The reopening by the head of the school.\<close>

definition example_reopen :: "att_op list" where
  "example_reopen = [SetStatus 6 ''s'' ''id-0'' ''h'' ''SCHOOL_ADMIN'' REOPENED (Some ''typo'') False]"

definition example_db1 :: db where
  "example_db1 = example_db\<lparr>t_classSections := [\<lparr>cs_id = ''k'', cs_schoolId = ''s'', cs_academicYearId = ''y'',
     cs_className = [53], cs_sectionName = [65]\<rparr>]\<rparr>"

definition example_finalized :: db where
  "example_finalized = foldl (att_apply example_world) example_db1 example_day"


lemma example_db1_empty: "no_attendance example_db1"
  by (simp add: no_attendance_def example_db1_def example_db_def empty_db_def)

text \<open>What the day leaves, evaluated once.\<close>

lemma example_finalized_view:
  "(map (\<lambda>s. (as_id s, as_status s)) (t_sessions example_finalized),
    map (\<lambda>r. (ar_id r, ar_sessionId r, ar_studentId r, ar_status r)) (t_records example_finalized),
    map ev_clientEventId (t_events example_finalized))
   = ([(''id-0'', FINALIZED)], [(''id-2'', ''id-0'', ''p'', LATE)], [''e1''])"
  by code_simp

lemma example_finalized_tables:
  obtains s r e where "t_sessions example_finalized = [s]" "as_id s = ''id-0''" "as_status s = FINALIZED"
    "t_records example_finalized = [r]" "ar_id r = ''id-2''" "ar_sessionId r = ''id-0''" "ar_studentId r = ''p''" "ar_status r = LATE"
    "t_events example_finalized = [e]"
  using example_finalized_view by auto

lemma example_reopened_view:
  "map (\<lambda>s. (as_id s, as_status s)) (t_sessions (foldl (att_apply example_world) example_finalized example_reopen)) = [(''id-0'', REOPENED)]"
  by code_simp

theorem records_project_the_log_witness:
  "map ar_status (t_records example_finalized) = [LATE]
     \<and> project (t_events example_finalized) (''id-0'', ''p'') = LATE"
proof (rule example_finalized_tables)
  have "runs example_world example_db1 example_day example_finalized"
    unfolding example_finalized_def by (rule runs_foldl)
  note f = records_project_the_log [OF inj_example_world example_db1_empty this]
  fix r assume "t_records example_finalized = [r]" "ar_sessionId r = ''id-0''" "ar_studentId r = ''p''" "ar_status r = LATE"
  with f show ?thesis by simp
qed

theorem event_log_append_only_witness:
  "take 1 (t_events (foldl (att_apply example_world) example_finalized example_reopen)) = t_events example_finalized"
proof (rule example_finalized_tables)
  fix e assume e: "t_events example_finalized = [e]"
  have "take (length (t_events example_finalized)) (t_events (foldl (att_apply example_world) example_finalized example_reopen))
     = t_events example_finalized"
    unfolding example_finalized_def by (rule event_log_append_only [OF inj_example_world example_db1_empty runs_foldl runs_foldl])
  with e show ?thesis by simp
qed

text \<open>
  A world in which the first identifier is a proper UUID, the finalized session of that day, and attempts
  on it: a manual change, a reopening and an offline scan of the pupil, which comes too late.
\<close>

definition late_session :: uuid where
  "late_session = ''11111111-1111-4111-8111-111111111111''"

definition late_world :: world where
  "late_world = example_world\<lparr>gen_uuid := (\<lambda>n. if n = 0 then late_session else gen_uuid example_world n)\<rparr>"

definition late_day :: "att_op list" where
  "late_day = [OpenSession 1 ''s'' ''k'' ''t'' ''19675'' ''DAILY'' ''t'' ''TEACHER'',
     ManualStatus 2 ''s'' late_session (example_manual LATE ''TEACHER'' None ''e1''),
     SetStatus 3 ''s'' late_session ''t'' ''TEACHER'' FINALIZED None True]"

definition late_attempts :: "att_op list" where
  "late_attempts = [ManualStatus 4 ''s'' late_session (example_manual PRESENT ''TEACHER'' (Some ''typo'') ''e2''),
     SetStatus 5 ''s'' late_session ''t'' ''TEACHER'' REOPENED (Some ''typo'') False,
     OfflineEvent 6 ''s'' ''t'' ''TEACHER'' ''dev'' []
       \<lparr>sy_clientEventId = ''e3'', sy_sessionId = late_session, sy_rawToken = None, sy_studentId = Some ''p'', sy_statusValue = None,
        sy_clientTimestamp = ''19675'', sy_source = None, sy_metadata = None, sy_clientSessionId = None\<rparr>]"

definition late_finalized :: db where
  "late_finalized = foldl (att_apply late_world) example_db1 late_day"

lemma inj_late_world: "inj (gen_uuid late_world)"
proof (rule injI)
  have other: "gen_uuid example_world n \<noteq> late_session" for n by (simp add: example_world_def late_session_def)
  fix m n assume "gen_uuid late_world m = gen_uuid late_world n"
  with other [of m] other [of n] injD [OF inj_example_world, of m n] show "m = n"
    by (auto simp: late_world_def split: if_splits)
qed

lemma late_finalized_view:
  "(map (\<lambda>s. (as_id s, as_status s)) (t_sessions late_finalized),
    map (\<lambda>r. (ar_id r, ar_sessionId r, ar_studentId r, ar_status r, ar_hasConflict r)) (t_records late_finalized),
    map ev_clientEventId (t_events late_finalized))
   = ([(late_session, FINALIZED)], [(''id-2'', late_session, ''p'', LATE, False)], [''e1''])"
  by code_simp

text \<open>After the attempts the record is flagged and nothing else: its status and the log are as they were.\<close>

lemma late_attempts_view:
  "map ar_hasConflict (t_records (foldl (att_apply late_world) late_finalized late_attempts)) = [True]"
  by code_simp

theorem finalized_session_frozen_witness:
  "map (\<lambda>r. (ar_id r, ar_studentId r, ar_status r)) (session_records late_session (foldl (att_apply late_world) late_finalized late_attempts))
     = [(''id-2'', ''p'', LATE)]
   \<and> map ev_clientEventId (session_events late_session (foldl (att_apply late_world) late_finalized late_attempts))
     = map ev_clientEventId (session_events late_session late_finalized)"
proof -
  let ?d = "foldl (att_apply late_world) late_finalized late_attempts"
  from late_finalized_view have 1: "late_session \<in> as_id ` set (t_sessions late_finalized)"
    "list_all (\<lambda>s. as_id s = late_session \<longrightarrow> as_status s = FINALIZED) (t_sessions late_finalized)" by auto
  from late_finalized_view obtain r where r: "session_records late_session late_finalized = [r]"
    "ar_id r = ''id-2''" "ar_studentId r = ''p''" "ar_status r = LATE" by (auto simp: session_records_def)
  have 2: "list_all (\<lambda>x. \<not> privileged_edit late_session x) late_attempts" by code_simp
  from finalized_session_frozen [OF inj_late_world example_db1_empty runs_foldl runs_foldl 1 [unfolded late_finalized_def] 2]
  have f: "session_events late_session ?d = session_events late_session late_finalized"
    "list_all2 (\<lambda>r r'. r' = r \<or> (r' = r\<lparr>ar_hasConflict := True\<rparr> \<and> late_upload late_attempts late_session (ar_studentId r)))
       (session_records late_session late_finalized) (session_records late_session ?d)"
    unfolding late_finalized_def by simp_all
  from f(2) r have "map (\<lambda>r. (ar_id r, ar_studentId r, ar_status r)) (session_records late_session ?d) = [(''id-2'', ''p'', LATE)]"
    by (auto simp: list_all2_Cons1)
  with f(1) show ?thesis by simp
qed

theorem reopening_is_audited_witness:
  "\<exists>a \<in> set (t_audit (foldl (att_apply example_world) example_finalized example_reopen)).
     au_action a = ''SESSION_STATUS_REOPENED''"
proof (rule example_finalized_tables)
  let ?d = "foldl (att_apply example_world) example_finalized example_reopen"
  fix s assume s: "t_sessions example_finalized = [s]" "as_id s = ''id-0''" "as_status s = FINALIZED"
  from s have 1: "list_all (\<lambda>s. as_id s = ''id-0'' \<longrightarrow> as_status s = FINALIZED) (t_sessions example_finalized)"
    "''id-0'' \<in> as_id ` set (t_sessions example_finalized)" by simp_all
  from example_reopened_view obtain x where "x \<in> set (t_sessions ?d)" "as_id x = ''id-0''" "as_status x \<noteq> FINALIZED" by auto
  from reopening_is_audited [OF inj_example_world example_db1_empty runs_foldl runs_foldl
      1 [unfolded example_finalized_def] this [unfolded example_finalized_def]]
  show ?thesis unfolding example_finalized_def by (blast dest: in_set_dropD)
qed

end
