(* ===== verification/Outbox_Link.thy ===== *)
theory Outbox_Link
  imports Outbox Attendance_Run
begin

text \<open>
  The phone and the server together: the upload route of src/src/routes/syncRoutes.ts with the service
  behind it, reached over a network that loses requests and answers, keeps the contract \<open>sync_server\<close>
  of the outbox; so no scan is lost between the two, and the outbox drains.
\<close>

section \<open>The server behind the network\<close>

text \<open>What the validation of the route asks of an upload; the format of an identifier is a parameter.\<close>

definition iso_date :: "string \<Rightarrow> bool" where
  "iso_date s \<longleftrightarrow> length s = 10 \<and> list_all (\<lambda>(i, c). if i \<in> {4, 7} then c = CHR ''-'' else c \<in> set ''0123456789'') (enumerate 0 s)"

definition valid_upload :: "world \<Rightarrow> (string \<Rightarrow> bool) \<Rightarrow> sync_call \<Rightarrow> bool" where
  "valid_upload w uuid_format rq \<longleftrightarrow>
     sq_deviceIdentifier rq \<noteq> [] \<and> length (sq_sessions rq) \<le> 20
     \<and> list_all (\<lambda>s. uuid_format (sp_clientSessionId s) \<and> uuid_format (sp_classSectionId s) \<and> iso_date (sp_sessionDate s)
          \<and> sp_sessionType s \<in> {''DAILY'', ''SUBJECT'', ''EXAM''}) (sq_sessions rq)
     \<and> 1 \<le> length (sq_events rq) \<and> length (sq_events rq) \<le> 100
     \<and> list_all (\<lambda>e. sy_clientEventId e \<noteq> [] \<and> uuid_format (sy_sessionId e)
          \<and> (case sy_clientSessionId e of None \<Rightarrow> True | Some i \<Rightarrow> uuid_format i)
          \<and> (case sy_studentId e of None \<Rightarrow> True | Some i \<Rightarrow> uuid_format i)
          \<and> sy_statusValue e \<noteq> Some UNMARKED \<and> date_parse w (sy_clientTimestamp e) \<noteq> None) (sq_events rq)"

definition route_error :: "error \<Rightarrow> string" where
  "route_error err =
     (let m = (case err of AppErr c _ \<Rightarrow> c | JsErr s \<Rightarrow> s | DbErr s \<Rightarrow> s)
      in if m \<in> {''DEVICE_REVOKED'', ''DEVICE_IDENTIFIER_REQUIRED'', ''USER_SUSPENDED'', ''UNAUTHORIZED_TEACHER_NOT_ASSIGNED''}
         then m else ''SYNC_FAILED'')"

definition sync_route ::
  "world \<Rightarrow> (string \<Rightarrow> bool) \<Rightarrow> instant \<Rightarrow> uuid \<Rightarrow> string \<Rightarrow> uuid \<Rightarrow> db \<Rightarrow> sync_call \<Rightarrow> db \<times> sync_reply" where
  "sync_route w uuid_format now actorId userRole schoolId d rq =
     (if \<not> valid_upload w uuid_format rq then (d, Inl ''VALIDATION_ERROR'')
      else case syncAttendanceEvents w now schoolId actorId (sq_deviceIdentifier rq) userRole (sq_events rq) (sq_sessions rq) d of
        Inl err \<Rightarrow> (after_failed_sync w now schoolId actorId (sq_deviceIdentifier rq) userRole (sq_events rq) (sq_sessions rq) d,
                    Inl (route_error err))
      | Inr (resp, d1) \<Rightarrow> (d1, Inr (sr_results resp, sr_sessionMappings resp)))"

text \<open>
  The n-th request reaches the server at a time of its own, and the network delivers it, loses it, or
  loses the answer; what stops it before the route (no session, no tenant) is a request that is lost.
\<close>

datatype fate = Delivered | Unreachable string | AnswerLost string

fun sync_link ::
  "world \<Rightarrow> (string \<Rightarrow> bool) \<Rightarrow> (nat \<Rightarrow> instant) \<Rightarrow> (nat \<Rightarrow> fate) \<Rightarrow> uuid \<Rightarrow> string \<Rightarrow> uuid \<Rightarrow> nat \<times> db \<Rightarrow> sync_call
    \<Rightarrow> (nat \<times> db) \<times> sync_reply" where
  "sync_link w uuid_format clock fates actorId userRole schoolId (n, d) rq =
     (let (d1, reply) = sync_route w uuid_format (clock n) actorId userRole schoolId d rq
      in case fates n of
           Delivered \<Rightarrow> ((Suc n, d1), reply)
         | Unreachable m \<Rightarrow> ((Suc n, d), Inl m)
         | AnswerLost m \<Rightarrow> ((Suc n, d1), Inl m))"

definition on_server :: "uuid \<Rightarrow> nat \<times> db \<Rightarrow> string \<Rightarrow> bool" where
  "on_server schoolId s c \<longleftrightarrow> (\<exists>ev \<in> set (t_events (snd s)). ev_schoolId ev = schoolId \<and> ev_clientEventId ev = c)"

lemma upload_effect:
  assumes "syncAttendanceEvents w now sid actor device role events sessions d = Inr (resp, d')"
  shows "map sx_clientEventId (sr_results resp) = map sy_clientEventId events" "set (t_events d) \<subseteq> set (t_events d')"
    "r \<in> set (sr_results resp) \<Longrightarrow> sx_status r \<noteq> SyncRejected \<Longrightarrow> on_server sid (n, d') (sx_clientEventId r)"
proof -
  obtain dev :: device and m d1 rs d2 a where
    r: "reconcile_sessions w now sid actor role (session_payloads w now sessions events) d = Inr (m, d1)"
    and e: "sync_events w now sid actor role (de_id dev) m events d1 = Inr (rs, d2)"
    and resp: "resp = \<lparr>sr_processedCount = length rs, sr_results = rs, sr_sessionMappings = m\<rparr>"
    and d': "d' = d2\<lparr>t_audit := t_audit d2 @ [a]\<rparr>" by (rule syncE [OF assms]) (rule that, assumption+)
  note ef = sync_events_effect [OF e]
  from ef have ids: "map sx_clientEventId rs = map sy_clientEventId events" by simp
  then show "map sx_clientEventId (sr_results resp) = map sy_clientEventId events" by (simp add: resp)
  have "t_events d1 = t_events d" using reconcile_sessions_effect [OF r distinct_payloads] by (simp add: opening_frame_def)
  with ef show "set (t_events d) \<subseteq> set (t_events d')" by (auto simp: d')
  show "on_server sid (n, d') (sx_clientEventId r)" if "r \<in> set (sr_results resp)" "sx_status r \<noteq> SyncRejected"
  proof -
    from that(1) obtain i where i: "i < length rs" "r = rs ! i" by (auto simp: resp in_set_conv_nth)
    have len: "length rs = length events" using ids map_eq_imp_length_eq by blast
    from ef have "list_all2 (\<lambda>e r. sx_status r \<noteq> SyncRejected \<longrightarrow> settled sid actor role m d2 e) events rs" by blast
    with that(2) i len have "settled sid actor role m d2 (events ! i)" by (simp add: list_all2_conv_all_nth)
    then obtain j ev where "known_scan sid j (sy_clientEventId (events ! i)) d2 = Some ev" by (auto simp: settled_def)
    then have "ev \<in> set (t_events d2)" "ev_schoolId ev = sid" "ev_clientEventId ev = sy_clientEventId (events ! i)"
      by (auto simp: known_scan_def dest: sel1_SomeD)
    moreover have "sy_clientEventId (events ! i) = sx_clientEventId r" using ids i len by (metis nth_map)
    ultimately show ?thesis by (auto simp: on_server_def d')
  qed
qed

lemma sync_route_keeps: "set (t_events d) \<subseteq> set (t_events (fst (sync_route w uf now actor role sid d rq)))"
proof (cases "syncAttendanceEvents w now sid actor (sq_deviceIdentifier rq) role (sq_events rq) (sq_sessions rq) d")
  case (Inl err)
  with after_failed_sync_frame show ?thesis by (simp add: sync_route_def opening_frame_def)
next
  case (Inr p)
  then show ?thesis using upload_effect(2) by (cases p) (simp add: sync_route_def)
qed

lemma sync_route_answers:
  assumes "sync_route w uf now actor role sid d rq = (d1, Inr (rs, ms))"
  obtains resp where "syncAttendanceEvents w now sid actor (sq_deviceIdentifier rq) role (sq_events rq) (sq_sessions rq) d = Inr (resp, d1)"
    "rs = sr_results resp"
  using assms by (auto simp: sync_route_def split: if_splits sum.splits prod.splits)

lemma sync_linkE:
  assumes "sync_link w uf clock fates actor role sid s rq = (s', reply)"
  obtains d1 reply1 where "sync_route w uf (clock (fst s)) actor role sid (snd s) rq = (d1, reply1)"
    "snd s' = d1 \<or> snd s' = snd s" "\<And>x. reply = Inr x \<Longrightarrow> snd s' = d1 \<and> reply1 = reply"
  using assms by (cases s) (auto simp: Let_def split: prod.splits fate.splits)

interpretation link: sync_server "sync_link w uf clock fates actor role" on_server for w uf clock fates actor role
proof
  fix sid s rq s' rs ms
  assume a: "sync_link w uf clock fates actor role sid s rq = (s', Inr (rs, ms))"
  then obtain d1 where "sync_route w uf (clock (fst s)) actor role sid (snd s) rq = (d1, Inr (rs, ms))" and s': "snd s' = d1"
    by (rule sync_linkE) auto
  from this(1) obtain resp where u: "syncAttendanceEvents w (clock (fst s)) sid actor (sq_deviceIdentifier rq) role (sq_events rq) (sq_sessions rq) (snd s)
      = Inr (resp, d1)" and rs: "rs = sr_results resp" by (rule sync_route_answers)
  show "map sx_clientEventId rs = map sy_clientEventId (sq_events rq)" using upload_effect(1) [OF u] by (simp add: rs)
  show "on_server sid s' (sx_clientEventId r)" if "r \<in> set rs" "sx_status r \<noteq> SyncRejected" for r
    using upload_effect(3) [OF u, of r 0] that by (simp add: rs on_server_def s')
next
  fix sid s rq s' reply i c
  assume a: "sync_link w uf clock fates actor role sid s rq = (s', reply)" "on_server i s c"
  from a(1) obtain d1 reply1 where "sync_route w uf (clock (fst s)) actor role sid (snd s) rq = (d1, reply1)"
    "snd s' = d1 \<or> snd s' = snd s" by (rule sync_linkE)
  with sync_route_keeps [of "snd s" w uf "clock (fst s)" actor role sid rq] a(2) show "on_server i s' c"
    by (auto simp: on_server_def)
qed

text \<open>On its own the server only adds to its log.\<close>

definition log_grows :: "nat \<times> db \<Rightarrow> nat \<times> db \<Rightarrow> bool" where
  "log_grows s s' \<longleftrightarrow> set (t_events (snd s)) \<subseteq> set (t_events (snd s'))"

lemma log_grows_keeps: "log_grows s s' \<Longrightarrow> on_server i s c \<Longrightarrow> on_server i s' c"
  by (auto simp: log_grows_def on_server_def)

lemma empty_outbox_inv: "outbox_inv w ok empty_offline_db"
  by (simp add: outbox_inv_def empty_offline_db_def)


text \<open>
  C5: A scan is deleted from the phone only when the server has it.  A phone starts empty and downloads
  rosters, opens sessions, scans, flushes and is cleared in any order; requests and answers are lost, a
  flush is cut off at any batch, the server meanwhile works for others.  Whenever an event of its outbox
  is SYNCED, and so has lost the token with which it could be sent again, the event log of the server
  holds that identifier for the school of the scan.  No identifier is in the outbox twice, and no event
  is attempted more than five times.
\<close>

theorem synced_scans_are_on_the_server:
  assumes "inj (gen_uuid w)"
    and "phone_runs (sync_link ws uuid_format clock fates actor role) w log_grows (s0, empty_offline_db) xs (s, ph)"
  shows "list_all (\<lambda>e. on_server (ob_schoolId e) s (ob_clientEventId e) \<and> ob_rawToken e = None)
      (filter (\<lambda>e. ob_syncStatus e = Synced) (od_outbox ph))
    \<and> distinct (map ob_clientEventId (od_outbox ph)) \<and> list_all (\<lambda>e. ob_retryCount e \<le> MAX_SYNC_RETRIES) (od_outbox ph)"
proof -
  have "outbox_inv w (\<lambda>i. on_server i s) ph"
    using link.phone_runs_inv [OF assms(2,1)] log_grows_keeps empty_outbox_inv by fastforce
  then show ?thesis by (auto simp: outbox_inv_def sound_event_def list_all_iff)
qed

text \<open>
  C8: The outbox drains.  After five completed flushes of its school, whatever the network did to them
  and whatever happened in between, an event the phone held is settled: it is SYNCED, or it is kept in
  the outbox as a CONFLICT or PERMANENT_FAILURE; it does not wait any more and it has not disappeared,
  unless the data of the phone were cleared.
\<close>

theorem outbox_drains:
  assumes "inj (gen_uuid w)"
    and "phone_runs (sync_link ws uuid_format clock fates actor role) w log_grows (s0, empty_offline_db) xs (s, ph)"
    and "phone_runs (sync_link ws uuid_format clock fates actor role) w log_grows (s, ph) ys (s', ph')"
    and "e \<in> set (od_outbox ph)" "list_all (\<lambda>x. \<not> clears x) ys"
    and "5 \<le> length (filter (flushes (ob_schoolId e)) ys)"
  shows "\<exists>e' \<in> set (od_outbox ph'). ob_clientEventId e' = ob_clientEventId e
    \<and> ob_syncStatus e' \<in> {Synced, Conflict, PermanentFailure}"
proof -
  have g: "\<forall>s s' i c. log_grows s s' \<longrightarrow> on_server i s c \<longrightarrow> on_server i s' c" using log_grows_keeps by blast
  have "outbox_inv w (\<lambda>i. on_server i s) ph"
    using link.phone_runs_inv [OF assms(2,1) g] empty_outbox_inv by simp
  with link.outbox_settles [OF assms(3,1) g, of e] assms(4-6) obtain e' where
    e': "e' \<in> set (od_outbox ph')" "ob_clientEventId e' = ob_clientEventId e" "\<not> waiting e'" by (auto simp: MAX_SYNC_RETRIES_def)
  then show ?thesis by (intro bexI [of _ e']) (cases "ob_syncStatus e'"; simp add: waiting_def)+
qed

section \<open>Examples\<close>

lemma phone_runs_foldl: "phone_runs call w moves st xs (foldl (phone_step call w) st xs)"
proof (induction xs rule: rev_induct)
  case (snoc x xs)
  then show ?case using phone_runs.act [OF snoc] by simp
qed (simp add: phone_runs.rest)

definition outbox_server :: db where
  "outbox_server = sync_example_db\<lparr>t_classSections := [\<lparr>cs_id = ''k'', cs_schoolId = ''s'', cs_academicYearId = ''y'',
       cs_className = [53], cs_sectionName = [65]\<rparr>],
     t_qrCredentials := [\<lparr>qr_id = ''q'', qr_schoolId = ''s'', qr_studentId = ''p'', qr_tokenDigest = ''tok'', qr_version = 1,
       qr_status = ''ACTIVE'', qr_issuedAt = 0, qr_revokedAt = None\<rparr>]\<rparr>"

definition outbox_package :: "string option + offline_package" where
  "outbox_package = (case getOfflineRosterPackage 1 ''s'' ''k'' (Some ''t'') (Some ''TEACHER'') outbox_server of
     Inl _ \<Rightarrow> Inl None | Inr p \<Rightarrow> Inr p)"

definition outbox_link :: "(nat \<Rightarrow> fate) \<Rightarrow> uuid \<Rightarrow> nat \<times> db \<Rightarrow> sync_call \<Rightarrow> (nat \<times> db) \<times> sync_reply" where
  "outbox_link fates = sync_link (sync_world\<lparr>date_parse := (\<lambda>_. Some 5)\<rparr>) (\<lambda>_. True) (\<lambda>n. 9) fates ''t'' ''TEACHER''"

definition outbox_morning :: "phone_op list" where
  "outbox_morning = [StoreRoster ''s'' ''k'' ''phone'' outbox_package,
     OpenOffline ''s'' ''k'' ''t'' ''2026-01-05'' None (Some phone_session),
     ScanOffline 5 ''s'' phone_session ''tok'' None CAMERA]"

definition outbox_run :: "(nat \<Rightarrow> fate) \<Rightarrow> phone_op list \<Rightarrow> (nat \<times> db) \<times> offline_db" where
  "outbox_run fates xs = foldl (phone_step (outbox_link fates) example_world) ((0, outbox_server), empty_offline_db) xs"

text \<open>The first answer is lost; the second flush finds the scan already there.\<close>

definition lost_once :: "nat \<Rightarrow> fate" where
  "lost_once n = (if n = 0 then AnswerLost ''timeout'' else Delivered)"

lemma lost_once_view:
  "map (\<lambda>e. (ob_syncStatus e, ob_rawToken e)) (od_outbox (snd (outbox_run lost_once (outbox_morning @ [Flush ''s'' ''phone''])))) = [(Failed, Some ''tok'')]"
  "map (\<lambda>e. (ob_clientEventId e, ob_schoolId e, ob_syncStatus e)) (od_outbox (snd (outbox_run lost_once (outbox_morning @ [Flush ''s'' ''phone'', Flush ''s'' ''phone'']))))
    = [(''id-0'', ''s'', Synced)]"
  by code_simp+

lemma no_network_view:
  "map (\<lambda>e. (ob_clientEventId e, ob_schoolId e, ob_syncStatus e)) (od_outbox (snd (outbox_run (\<lambda>_. Unreachable []) outbox_morning))) = [(''id-0'', ''s'', Pending)]"
  by code_simp


theorem synced_scans_are_on_the_server_witness:
  "\<exists>e s. od_outbox (snd (outbox_run lost_once (outbox_morning @ [Flush ''s'' ''phone'', Flush ''s'' ''phone'']))) = [e]
     \<and> ob_syncStatus e = Synced \<and> s = fst (outbox_run lost_once (outbox_morning @ [Flush ''s'' ''phone'', Flush ''s'' ''phone'']))
     \<and> on_server ''s'' s ''id-0''"
proof -
  let ?xs = "outbox_morning @ [Flush ''s'' ''phone'', Flush ''s'' ''phone'']"
  obtain s ph where r: "outbox_run lost_once ?xs = (s, ph)" by (cases "outbox_run lost_once ?xs")
  with lost_once_view(2) obtain e where e: "od_outbox ph = [e]" "ob_clientEventId e = ''id-0''" "ob_schoolId e = ''s''" "ob_syncStatus e = Synced"
    by auto
  have "phone_runs (outbox_link lost_once) example_world log_grows ((0, outbox_server), empty_offline_db) ?xs (s, ph)"
    using phone_runs_foldl [of "outbox_link lost_once" example_world log_grows "((0, outbox_server), empty_offline_db)" ?xs] r
    by (simp add: outbox_run_def)
  from synced_scans_are_on_the_server [OF inj_example_world this [unfolded outbox_link_def]] e r show ?thesis by simp
qed

text \<open>Without a network the scan is given up, and kept, after five attempts.\<close>

theorem outbox_drains_witness:
  "\<exists>e \<in> set (od_outbox (snd (outbox_run (\<lambda>_. Unreachable []) (outbox_morning @ replicate 5 (Flush ''s'' ''phone''))))).
     ob_clientEventId e = ''id-0'' \<and> ob_syncStatus e \<in> {Synced, Conflict, PermanentFailure}"
proof -
  let ?f = "\<lambda>_. Unreachable []"
  obtain s ph where r: "outbox_run ?f outbox_morning = (s, ph)" by (cases "outbox_run ?f outbox_morning")
  with no_network_view obtain e where e: "od_outbox ph = [e]" "ob_clientEventId e = ''id-0''" "ob_schoolId e = ''s''" by auto
  obtain s' ph' where r': "foldl (phone_step (outbox_link ?f) example_world) (s, ph) (replicate 5 (Flush ''s'' ''phone'')) = (s', ph')"
    by (cases "foldl (phone_step (outbox_link ?f) example_world) (s, ph) (replicate 5 (Flush ''s'' ''phone''))")
  have 1: "phone_runs (outbox_link ?f) example_world log_grows ((0, outbox_server), empty_offline_db) outbox_morning (s, ph)"
    using phone_runs_foldl [of "outbox_link ?f" example_world log_grows "((0, outbox_server), empty_offline_db)" outbox_morning] r
    by (simp add: outbox_run_def)
  have 2: "phone_runs (outbox_link ?f) example_world log_grows (s, ph) (replicate 5 (Flush ''s'' ''phone'')) (s', ph')"
    using phone_runs_foldl [of "outbox_link ?f" example_world log_grows "(s, ph)" "replicate 5 (Flush ''s'' ''phone'')"] by (simp only: r')
  have 3: "list_all (\<lambda>x. \<not> clears x) (replicate 5 (Flush ''s'' ''phone''))" by (simp add: list_all_iff clears_def)
  have 4: "5 \<le> length (filter (flushes ''s'') (replicate 5 (Flush ''s'' ''phone'')))" by (simp add: flushes_def)
  have "outbox_run ?f (outbox_morning @ replicate 5 (Flush ''s'' ''phone'')) = (s', ph')"
    using r r' by (simp add: outbox_run_def)
  with outbox_drains [OF inj_example_world 1 [unfolded outbox_link_def] 2 [unfolded outbox_link_def], of e] e 3 4 show ?thesis by simp
qed

end
