(* ===== verification/Csv.thy ===== *)
theory Csv
  imports Schema
begin

text \<open>
  Comma separated values: the parser of uploads (parseRfcCsv in services/importService.ts) and the
  writers of reports (generateCSVExport in services/reportService.ts, buildSecureCSVExport and
  sanitizeSpreadsheetValue in services/excelExportService.ts), on code points.  What the writer
  produces the parser reads back, and no text cell survives as a spreadsheet formula.
\<close>

section \<open>Parsing\<close>

definition bom :: int where "bom = 65279"

text \<open>A row is kept when one of its cells is not empty.\<close>

definition push_row :: "ustring list list \<Rightarrow> ustring list \<Rightarrow> ustring list list" where
  "push_row rows row = (if \<exists>c \<in> set row. c \<noteq> [] then rows @ [row] else rows)"

text \<open>
  The while loop, from index i on: the rest of the text, \<open>inQuotes\<close>, \<open>currentField\<close>, \<open>currentRow\<close>
  and \<open>rows\<close>.  34 is the quote, 44 the comma, 13 and 10 carriage return and line feed.
\<close>

fun csv_loop :: "ustring \<Rightarrow> bool \<Rightarrow> ustring \<Rightarrow> ustring list \<Rightarrow> ustring list list \<Rightarrow> ustring list list" where
  "csv_loop [] inQuotes currentField currentRow rows =
     (if currentField \<noteq> [] \<or> currentRow \<noteq> [] then push_row rows (currentRow @ [utrim currentField]) else rows)"
| "csv_loop (c # s) inQuotes currentField currentRow rows =
     (if inQuotes
      then if c = 34
           then if s \<noteq> [] \<and> hd s = 34 then csv_loop (tl s) True (currentField @ [34]) currentRow rows
                else csv_loop s False currentField currentRow rows
           else csv_loop s True (currentField @ [c]) currentRow rows
      else if c = 34 then csv_loop s True currentField currentRow rows
      else if c = 44 then csv_loop s False [] (currentRow @ [utrim currentField]) rows
      else if c = 13
      then csv_loop (if s \<noteq> [] \<and> hd s = 10 then tl s else s) False [] [] (push_row rows (currentRow @ [utrim currentField]))
      else if c = 10 then csv_loop s False [] [] (push_row rows (currentRow @ [utrim currentField]))
      else csv_loop s False (currentField @ [c]) currentRow rows)"

definition parseRfcCsv :: "ustring \<Rightarrow> ustring list list" where
  "parseRfcCsv content = csv_loop (if content \<noteq> [] \<and> hd content = bom then tl content else content) False [] [] []"

section \<open>Writing\<close>

text \<open>The values a report puts in a cell.\<close>

datatype cell = CText ustring | CNumber "rat option" | CBool bool | CNull

definition formula_chars :: "int set" where "formula_chars = {61, 43, 45, 64, 9, 13}"

definition starts_in :: "int set \<Rightarrow> ustring \<Rightarrow> bool" where
  "starts_in A s \<longleftrightarrow> s \<noteq> [] \<and> hd s \<in> A"

fun sanitizeSpreadsheetValue :: "cell \<Rightarrow> cell" where
  "sanitizeSpreadsheetValue CNull = CText []"
| "sanitizeSpreadsheetValue (CNumber n) = CNumber n"
| "sanitizeSpreadsheetValue (CBool b) = CBool b"
| "sanitizeSpreadsheetValue (CText v) =
     CText (if starts_in formula_chars v \<or> starts_in formula_chars (utrim v) then 39 # v else v)"

text \<open>\<open>String(cell)\<close>\<close>

fun cell_string :: "world \<Rightarrow> cell \<Rightarrow> ustring" where
  "cell_string w (CText s) = s"
| "cell_string w (CNumber n) = utext (show_number w n)"
| "cell_string w (CBool b) = utext (if b then ''true'' else ''false'')"
| "cell_string w CNull = utext ''null''"

definition escape_quotes :: "ustring \<Rightarrow> ustring" where
  "escape_quotes s = concat (map (\<lambda>c. if c = 34 then [34, 34] else [c]) s)"

definition quote_field :: "ustring \<Rightarrow> ustring" where
  "quote_field s = 34 # escape_quotes s @ [34]"

fun join_with :: "ustring \<Rightarrow> ustring list \<Rightarrow> ustring" where
  "join_with sep [] = []"
| "join_with sep [x] = x"
| "join_with sep (x # y # ys) = x @ sep @ join_with sep (y # ys)"

text \<open>
  The branch of the code for a missing sanitized value is dead: the sanitizer turns null into the
  empty string.  \<open>Buffer.from(..., 'utf-8')\<close> keeps the code points.
\<close>

definition generateCSVExport :: "world \<Rightarrow> ustring list \<Rightarrow> cell list list \<Rightarrow> ustring" where
  "generateCSVExport w headers rows =
     (let headerLine = join_with [44] (map quote_field headers);
          rowLines = map (\<lambda>row. join_with [44] (map (\<lambda>c. quote_field (cell_string w (sanitizeSpreadsheetValue c))) row)) rows
      in bom # join_with [13, 10] (headerLine # rowLines))"

definition escapeCSVCell :: "world \<Rightarrow> cell \<Rightarrow> ustring" where
  "escapeCSVCell w c =
     (if c = CNull then [34, 34] else quote_field (cell_string w (sanitizeSpreadsheetValue c)))"

definition buildSecureCSVExport :: "world \<Rightarrow> ustring list \<Rightarrow> cell list list \<Rightarrow> ustring" where
  "buildSecureCSVExport w headers rows =
     (let headerLine = join_with [44] (map (\<lambda>h. escapeCSVCell w (CText h)) headers);
          rowLines = map (\<lambda>r. join_with [44] (map (escapeCSVCell w) r)) rows
      in bom # join_with [13, 10] (headerLine # rowLines))"

section \<open>Reading back\<close>

lemma csv_loop_quoted:
  "csv_loop (escape_quotes x @ 34 # s) True f r rs =
     (if s \<noteq> [] \<and> hd s = 34 then csv_loop (tl s) True (f @ x @ [34]) r rs else csv_loop s False (f @ x) r rs)"
proof (induction x arbitrary: f)
  case (Cons c x)
  then show ?case by (cases "c = 34") (simp_all add: escape_quotes_def)
qed (simp add: escape_quotes_def)

lemma csv_loop_field:
  assumes "s = [] \<or> hd s \<noteq> 34"
  shows "csv_loop (quote_field x @ s) False [] r rs = csv_loop s False x r rs"
  using assms by (auto simp: quote_field_def csv_loop_quoted [of x s "[]" r rs, simplified])

text \<open>The state after a line, which is what the end of the text or a line break finds.\<close>

lemma csv_loop_line:
  assumes "xs \<noteq> []" "s = [] \<or> hd s = 13"
  shows "csv_loop (join_with [44] (map quote_field xs) @ s) False [] r rs =
         csv_loop s False (last xs) (r @ map utrim (butlast xs)) rs"
  using assms(1)
proof (induction xs arbitrary: r rule: induct_list012)
  case (2 x)
  then show ?case using assms(2) by (auto intro!: csv_loop_field)
next
  case (3 x y zs)
  have "csv_loop (join_with [44] (map quote_field (x # y # zs)) @ s) False [] r rs =
        csv_loop (44 # join_with [44] (map quote_field (y # zs)) @ s) False x r rs"
    using csv_loop_field [of "44 # join_with [44] (map quote_field (y # zs)) @ s" x r rs] by simp
  also have "\<dots> = csv_loop (join_with [44] (map quote_field (y # zs)) @ s) False [] (r @ [utrim x]) rs"
    by simp
  also have "\<dots> = csv_loop s False (last (y # zs)) ((r @ [utrim x]) @ map utrim (butlast (y # zs))) rs"
    using 3 by blast
  finally show ?case by simp
qed simp

definition csv_line :: "ustring list \<Rightarrow> ustring" where
  "csv_line xs = join_with [44] (map quote_field xs)"

definition kept_rows :: "ustring list list \<Rightarrow> ustring list list" where
  "kept_rows rows = filter (\<lambda>row. \<exists>c \<in> set row. c \<noteq> []) (map (map utrim) rows)"

lemma push_row_kept: "push_row rs (map utrim xs) = rs @ kept_rows [xs]"
  by (simp add: push_row_def kept_rows_def)

lemma kept_rows_append: "kept_rows (a @ b) = kept_rows a @ kept_rows b"
  by (simp add: kept_rows_def)

lemma utrim_Nil [simp]: "utrim [] = []"
  by (simp add: utrim_def)

lemma map_utrim_snoc: "xs \<noteq> [] \<Longrightarrow> map utrim (butlast xs) @ [utrim (last xs)] = map utrim xs"
  by (cases xs rule: rev_cases) simp_all

lemma csv_loop_last_line: "csv_loop (csv_line xs) False [] [] rs = rs @ kept_rows [xs]"
proof (cases "xs = []")
  case False
  have "csv_loop (csv_line xs) False [] [] rs = csv_loop [] False (last xs) (map utrim (butlast xs)) rs"
    using csv_loop_line [OF False, of "[]" "[]" rs] by (simp add: csv_line_def)
  also have "\<dots> = push_row rs (map utrim (butlast xs) @ [utrim (last xs)])"
  proof (cases "last xs = [] \<and> butlast xs = []")
    case True
    then show ?thesis by (simp add: push_row_def)
  qed simp
  finally show ?thesis using False by (simp add: map_utrim_snoc push_row_kept)
qed (simp add: csv_line_def kept_rows_def)

lemma csv_loop_more_lines:
  "csv_loop (csv_line xs @ 13 # 10 # s) False [] [] rs = csv_loop s False [] [] (rs @ kept_rows [xs])"
proof (cases "xs = []")
  case True
  then show ?thesis by (simp add: csv_line_def kept_rows_def push_row_def)
next
  case False
  then show ?thesis
    using csv_loop_line [OF False, of "13 # 10 # s" "[]" rs]
    by (simp add: csv_line_def map_utrim_snoc push_row_kept)
qed

lemma csv_loop_lines:
  "rows \<noteq> [] \<Longrightarrow> csv_loop (join_with [13, 10] (map csv_line rows)) False [] [] rs = rs @ kept_rows rows"
proof (induction rows arbitrary: rs rule: induct_list012)
  case (3 x y zs)
  then show ?case
    using csv_loop_more_lines [of x "join_with [13, 10] (map csv_line (y # zs))" rs]
    by (simp add: kept_rows_append [of "[x]" "y # zs", simplified])
qed (simp_all add: csv_loop_last_line)

lemma export_as_lines:
  "generateCSVExport w headers rows = bom # join_with [13, 10]
     (map csv_line (headers # map (map (\<lambda>c. cell_string w (sanitizeSpreadsheetValue c))) rows))"
  by (simp add: generateCSVExport_def csv_line_def comp_def)

lemma parse_lines: "rows \<noteq> [] \<Longrightarrow> parseRfcCsv (bom # join_with [13, 10] (map csv_line rows)) = kept_rows rows"
  by (simp add: parseRfcCsv_def csv_loop_lines)

text \<open>
  C28: Parsing an exported report with the parser of the import gives back its header and its rows,
  each cell sanitized, rendered as text and trimmed, less the rows all of whose cells are blank.
  Quotes, commas, line breaks and the byte order mark inside cells need no provision.
\<close>

theorem csv_round_trip:
  "parseRfcCsv (generateCSVExport w headers rows) =
   filter (\<lambda>row. \<exists>c \<in> set row. c \<noteq> [])
     (map (map utrim) (headers # map (map (\<lambda>c. cell_string w (sanitizeSpreadsheetValue c))) rows))"
proof -
  have "generateCSVExport w headers rows = bom # join_with [13, 10]
     (map csv_line (headers # map (map (\<lambda>c. cell_string w (sanitizeSpreadsheetValue c))) rows))"
    by (rule export_as_lines)
  then show ?thesis unfolding kept_rows_def [symmetric] by (simp only: parse_lines list.distinct(2) not_False_eq_True) 
qed

section \<open>Formula injection\<close>

lemma utrim_cons_nonspace: "\<not> u_space c \<Longrightarrow> \<exists>s'. utrim (c # s) = c # s'"
proof -
  assume "\<not> u_space c"
  then have "dropWhile u_space (xs @ [c]) = dropWhile u_space xs @ [c]" for xs
    by (induction xs) auto
  with \<open>\<not> u_space c\<close> show ?thesis by (simp add: utrim_def)
qed

lemma sanitized_text_safe:
  assumes "sanitizeSpreadsheetValue (CText v) = CText s"
  shows "\<not> starts_in formula_chars s \<and> \<not> starts_in formula_chars (utrim s)"
proof (cases "starts_in formula_chars v \<or> starts_in formula_chars (utrim v)")
  case True
  then have "s = 39 # v" using assms by simp
  with utrim_cons_nonspace [of 39 v] show ?thesis by (auto simp: starts_in_def formula_chars_def u_space_def)
next
  case False
  then show ?thesis using assms by simp
qed

lemma sanitized_cell_formula:
  assumes "starts_in formula_chars (utrim (cell_string w (sanitizeSpreadsheetValue c)))"
  shows "\<exists>n. c = CNumber n"
proof (cases c)
  case (CText v)
  obtain s where s: "sanitizeSpreadsheetValue (CText v) = CText s" by simp
  then show ?thesis using sanitized_text_safe [OF s] assms CText by simp
next
  case (CBool b)
  have "utrim (utext ''true'') = utext ''true''" "utrim (utext ''false'') = utext ''false''"
    by (rule utrim_fix, simp add: utext_def u_space_def)+
  then show ?thesis using assms CBool
    by (cases b) (simp_all add: starts_in_def formula_chars_def utext_def)
next
  case CNull
  then show ?thesis using assms by (simp add: starts_in_def)
qed simp

lemma escapeCSVCell_quotes: "escapeCSVCell w c = quote_field (cell_string w (sanitizeSpreadsheetValue c))"
  by (simp add: escapeCSVCell_def quote_field_def escape_quotes_def)

lemma secure_export_as_lines:
  "buildSecureCSVExport w headers rows = bom # join_with [13, 10]
     (map csv_line (map (map (\<lambda>c. cell_string w (sanitizeSpreadsheetValue c))) (map CText headers # rows)))"
  by (simp add: buildSecureCSVExport_def csv_line_def comp_def escapeCSVCell_quotes [abs_def])

lemma kept_rows_cell:
  assumes "row \<in> set (kept_rows (map (map f) rs))" "t \<in> set row"
  shows "\<exists>r c. r \<in> set rs \<and> c \<in> set r \<and> t = utrim (f c)"
proof -
  from assms(1) obtain r where "r \<in> set rs" "row = map utrim (map f r)"
    unfolding kept_rows_def set_filter set_map by blast
  with assms(2) show ?thesis by auto
qed

text \<open>
  C29: In a secure export, read back by the parser, a cell that begins with a character which starts
  a formula in a spreadsheet (equals, plus, minus, at, tab, carriage return) is the rendering of a
  number of the report: no header and no text of a row is left that a spreadsheet would evaluate.
\<close>

theorem export_leaves_no_formula:
  assumes "row \<in> set (parseRfcCsv (buildSecureCSVExport w headers rows))" "text \<in> set row"
    and "starts_in {61, 43, 45, 64, 9, 13} text"
  shows "\<exists>n r. r \<in> set rows \<and> CNumber n \<in> set r \<and> text = utrim (utext (show_number w n))"
proof -
  have "parseRfcCsv (buildSecureCSVExport w headers rows) =
    kept_rows (map (map (\<lambda>c. cell_string w (sanitizeSpreadsheetValue c))) (map CText headers # rows))"
    unfolding secure_export_as_lines by (rule parse_lines) simp
  with kept_rows_cell assms(1, 2) obtain r c where rc: "r \<in> set (map CText headers # rows)" "c \<in> set r"
      "text = utrim (cell_string w (sanitizeSpreadsheetValue c))"
    by metis
  with assms(3) obtain n where "c = CNumber n"
    using sanitized_cell_formula [of w c] by (auto simp: formula_chars_def)
  with rc show ?thesis by (intro exI [of _ n] exI [of _ r]) (cases "r = map CText headers"; auto)
qed

definition example_cells :: "cell list list" where
  "example_cells = [[CText (utext ''=1+1''), CNumber (Some (-5))], [CNull, CText (utext ''a, \"b\"'')]]"

lemma export_leaves_no_formula_witness:
  "(let w = example_world\<lparr>show_number := (\<lambda>n. ''-5'')\<rparr>
    in \<exists>n r. r \<in> set example_cells \<and> CNumber n \<in> set r \<and> utext ''-5'' = utrim (utext (show_number w n)))"
proof -
  define w where "w = example_world\<lparr>show_number := (\<lambda>n. ''-5'')\<rparr>"
  have "[39 # utext ''=1+1'', utext ''-5''] \<in> set (parseRfcCsv (buildSecureCSVExport w [utext ''h''] example_cells))"
    unfolding w_def by code_simp
  from export_leaves_no_formula [OF this, of "utext ''-5''"]
  have "\<exists>n r. r \<in> set example_cells \<and> CNumber n \<in> set r \<and> utext ''-5'' = utrim (utext (show_number w n))"
    by (simp add: starts_in_def utext_def)
  then show ?thesis by (simp add: w_def)
qed

end
