(* ===== verification/Slug.thy ===== *)
theory Slug
  imports Schema
begin

text \<open>
  Models src/src/services/schoolSlug.ts and the choice of the slug of a new school in
  SchoolService.provisionSchool (services/schoolService.ts).  Whatever the name of the school, the slug
  satisfies the check constraint of the schools table.  Lower-casing and compatibility
  decomposition are the engine's (\<open>unicode_lower\<close>, \<open>unicode_nfkd\<close>).
\<close>

section \<open>Slugs\<close>

definition slug_char :: "int \<Rightarrow> bool" where
  "slug_char c \<longleftrightarrow> 97 \<le> c \<and> c \<le> 122 \<or> 48 \<le> c \<and> c \<le> 57"

text \<open>
  The expression \<open>^[a-z0-9]+(-[a-z0-9]+)*$\<close> as its automaton: at the start of a group a letter or
  digit must come, inside a group the text may end.  45 is the dash.
\<close>

fun slug_re :: "ustring \<Rightarrow> bool" and slug_in :: "ustring \<Rightarrow> bool" where
  "slug_re [] = False"
| "slug_re (c # s) = (slug_char c \<and> slug_in s)"
| "slug_in [] = True"
| "slug_in (c # s) = (if c = 45 then slug_re s else slug_char c \<and> slug_in s)"

definition MAX_SLUG_LENGTH :: nat where "MAX_SLUG_LENGTH = 80"

definition isValidSlug :: "ustring \<Rightarrow> bool" where
  "isValidSlug slug =
     (if slug = [] then False
      else let trimmed = utrim slug in
           if length trimmed < 2 \<or> MAX_SLUG_LENGTH < length trimmed then False else slug_re trimmed)"

text \<open>\<open>replace(/[^a-z0-9]+/g, '-')\<close> and \<open>replace(/^-+|-+$/g, '')\<close>\<close>

function dash_runs :: "ustring \<Rightarrow> ustring" where
  "dash_runs [] = []"
| "dash_runs (c # s) = (if slug_char c then c # dash_runs s else 45 # dash_runs (dropWhile (\<lambda>x. \<not> slug_char x) s))"
  by pat_completeness auto
termination by (relation "measure length") (auto simp: le_imp_less_Suc length_dropWhile_le)

definition trim_dashes :: "ustring \<Rightarrow> ustring" where
  "trim_dashes s = rev (dropWhile (\<lambda>c. c = 45) (rev (dropWhile (\<lambda>c. c = 45) s)))"

definition slug_words :: "world \<Rightarrow> ustring \<Rightarrow> ustring" where
  "slug_words w input =
     trim_dashes (dash_runs (filter (\<lambda>c. \<not> (768 \<le> c \<and> c \<le> 879)) (unicode_nfkd w (utrim (unicode_lower w input)))))"

definition sanitizeSlug :: "world \<Rightarrow> ustring \<Rightarrow> ustring" where
  "sanitizeSlug w input = (if input = [] then [] else take 65 (slug_words w input))"

definition generateSchoolSlug :: "world \<Rightarrow> ustring \<Rightarrow> ustring option \<Rightarrow> ustring" where
  "generateSchoolSlug w name udiseCode =
     (let base = (if sanitizeSlug w name = [] then utext ''school'' else sanitizeSlug w name);
          plain = take MAX_SLUG_LENGTH base
      in case udiseCode of
           None \<Rightarrow> plain
         | Some u \<Rightarrow>
             if u = [] \<or> utrim u = [] then plain
             else let cleanUdise = filter slug_char (unicode_lower w (utrim u));
                      suffix = (if 4 \<le> length cleanUdise then slice_last 4 cleanUdise else cleanUdise)
                  in if suffix \<noteq> [] then take MAX_SLUG_LENGTH (base @ 45 # suffix) else plain)"

text \<open>\<open>Date.now().toString(36)\<close>\<close>

fun base36 :: "nat \<Rightarrow> ustring" where
  "base36 n = (let dgt = (if n mod 36 < 10 then 48 + int (n mod 36) else 87 + int (n mod 36))
               in if n < 36 then [dgt] else base36 (n div 36) @ [dgt])"

declare base36.simps [simp del]

text \<open>
  Step 5 of provisionSchool: the slug asked for or made of the name, repaired when it is not valid, and
  given a random suffix \<open>hex\<close> when another school has it.
\<close>

definition candidateSlug :: "world \<Rightarrow> instant \<Rightarrow> ustring option \<Rightarrow> ustring \<Rightarrow> ustring \<Rightarrow> ustring" where
  "candidateSlug w now slug name normalizedUdise =
     (let asked = map_option (\<lambda>s. unicode_lower w (utrim s)) slug;
          c1 = (if truthy asked then the asked else generateSchoolSlug w name (Some normalizedUdise))
      in if isValidSlug c1 then c1
         else let c2 = (if sanitizeSlug w c1 = [] then utext ''school'' else sanitizeSlug w c1)
                       @ 45 # slice_last 4 normalizedUdise
              in if isValidSlug c2 then c2 else utext ''school-'' @ base36 (nat now))"

definition reserveSlug :: "world \<Rightarrow> instant \<Rightarrow> ustring option \<Rightarrow> ustring \<Rightarrow> ustring \<Rightarrow> ustring \<Rightarrow> db \<Rightarrow> ustring" where
  "reserveSlug w now slug name normalizedUdise hex d =
     (let c = candidateSlug w now slug name normalizedUdise
      in if \<exists>s \<in> set (t_schools d). sc_slug s = c then take 70 c @ 45 # hex else c)"

section \<open>What a slug looks like\<close>

lemma slug_char_no_space: "slug_char c \<Longrightarrow> \<not> u_space c"
  by (auto simp: slug_char_def u_space_def)

lemma slug_re_iff: "slug_re s \<longleftrightarrow> s \<noteq> [] \<and> hd s \<noteq> 45 \<and> slug_in s"
  by (cases s) (auto simp: slug_char_def)

lemma slug_in_chars: "(slug_re s \<longrightarrow> (\<forall>c \<in> set s. slug_char c \<or> c = 45)) \<and> (slug_in s \<longrightarrow> (\<forall>c \<in> set s. slug_char c \<or> c = 45))"
  by (induction s) (auto split: if_splits)

lemma slug_in_last: "(slug_re s \<longrightarrow> slug_char (last s)) \<and> (slug_in s \<longrightarrow> s \<noteq> [] \<longrightarrow> slug_char (last s))"
  by (induction s) (auto split: if_splits)

lemma slug_in_append:
  "(slug_re s \<longrightarrow> slug_in t \<longrightarrow> slug_re (s @ t)) \<and> (slug_in s \<longrightarrow> slug_in t \<longrightarrow> slug_in (s @ t))"
  by (induction s) auto

lemma slug_in_words: "(\<forall>c \<in> set s. slug_char c) \<Longrightarrow> slug_in s"
  by (induction s) (auto simp: slug_char_def)

lemma slug_re_words: "s \<noteq> [] \<Longrightarrow> (\<forall>c \<in> set s. slug_char c) \<Longrightarrow> slug_re s"
  by (cases s) (auto intro: slug_in_words)

text \<open>A prefix of a slug is one, up to a dash it may end in.\<close>

lemma slug_take:
  "(slug_re s \<longrightarrow> 0 < n \<longrightarrow> last (take n s) \<noteq> 45 \<longrightarrow> slug_re (take n s)) \<and>
   (slug_in s \<longrightarrow> take n s = [] \<or> last (take n s) \<noteq> 45 \<longrightarrow> slug_in (take n s))"
proof (induction s arbitrary: n)
  case (Cons c s)
  show ?case
  proof (cases n)
    case (Suc m)
    with Cons [of m] show ?thesis by (cases "take m s = []") (auto simp: slug_char_def)
  qed simp
qed simp

lemma slug_re_utrim: "slug_re s \<Longrightarrow> utrim s = s"
  using slug_in_last [of s] by (intro utrim_fix) (cases s; auto intro: slug_char_no_space dest: slug_char_no_space)

lemma isValidSlug_re: "utrim s = s \<Longrightarrow> isValidSlug s \<longleftrightarrow> slug_re s \<and> 2 \<le> length s \<and> length s \<le> 80"
  by (cases "s = []") (auto simp: isValidSlug_def MAX_SLUG_LENGTH_def Let_def)

subsection \<open>The words of a text\<close>

fun single_dashes :: "ustring \<Rightarrow> bool" where
  "single_dashes (a # b # s) = ((slug_char a \<or> a = 45) \<and> \<not> (a = 45 \<and> b = 45) \<and> single_dashes (b # s))"
| "single_dashes [a] = (slug_char a \<or> a = 45)"
| "single_dashes [] = True"

lemma dash_runs_single: "single_dashes (dash_runs s) \<and> (s \<noteq> [] \<longrightarrow> slug_char (hd s) \<longrightarrow> hd (dash_runs s) = hd s)"
proof (induction s rule: dash_runs.induct)
  case (2 c s)
  show ?case
  proof (cases "slug_char c")
    case True
    with 2(1) show ?thesis by (cases "dash_runs s") (auto simp: slug_char_def)
  next
    case False
    let ?r = "dropWhile (\<lambda>x. \<not> slug_char x) s"
    show ?thesis
    proof (cases "?r = []")
      case True
      with False show ?thesis by (simp only: dash_runs.simps if_False) simp
    next
      case r: False
      then have "slug_char (hd ?r)" using hd_dropWhile by blast
      with r 2(2) [OF False] False show ?thesis
        by (cases "dash_runs ?r") (auto simp: slug_char_def)
    qed
  qed
qed simp

lemma single_dashes_dropWhile: "single_dashes s \<Longrightarrow> single_dashes (dropWhile p s)"
  by (induction s rule: single_dashes.induct) auto

lemma single_dashes_snoc: "single_dashes (s @ [a]) \<longleftrightarrow>
   single_dashes s \<and> (slug_char a \<or> a = 45) \<and> (s \<noteq> [] \<longrightarrow> \<not> (last s = 45 \<and> a = 45))"
  by (induction s rule: single_dashes.induct) auto

lemma single_dashes_rev: "single_dashes (rev s) \<longleftrightarrow> single_dashes s"
proof (induction s rule: single_dashes.induct)
  case (1 a b s)
  have "single_dashes (rev (a # b # s)) \<longleftrightarrow> single_dashes (rev (b # s)) \<and> (slug_char a \<or> a = 45) \<and> \<not> (b = 45 \<and> a = 45)"
    by (simp only: rev.simps(2) [of a] single_dashes_snoc) simp
  with 1 show ?case by auto
qed auto

lemma single_dashes_slug:
  "single_dashes s \<Longrightarrow> s = [] \<or> last s \<noteq> 45 \<Longrightarrow> slug_in s \<and> (s \<noteq> [] \<longrightarrow> hd s \<noteq> 45 \<longrightarrow> slug_re s)"
  by (induction s rule: single_dashes.induct) (auto simp: slug_re_iff)

lemma slug_words_re: "slug_words w s = [] \<or> slug_re (slug_words w s)"
proof -
  define t where "t = dash_runs (filter (\<lambda>c. \<not> (768 \<le> c \<and> c \<le> 879)) (unicode_nfkd w (utrim (unicode_lower w s))))"
  define u where "u = dropWhile (\<lambda>c. c = 45) t"
  define v where "v = dropWhile (\<lambda>c. c = 45) (rev u)"
  have "single_dashes v"
    unfolding v_def u_def t_def using dash_runs_single single_dashes_dropWhile single_dashes_rev by metis
  then have single: "single_dashes (rev v)" by (simp add: single_dashes_rev)
  have words: "slug_words w s = rev v" by (simp add: slug_words_def trim_dashes_def t_def u_def v_def)
  show ?thesis
  proof (cases "v = []")
    case False
    then have last: "last (rev v) \<noteq> 45" using hd_dropWhile False unfolding last_rev v_def by blast
    have "u \<noteq> []" using False by (auto simp: v_def)
    then have "hd u \<noteq> 45" unfolding u_def using hd_dropWhile by blast
    moreover have "hd (rev v) = hd u"
    proof -
      have "rev u = takeWhile (\<lambda>c. c = 45) (rev u) @ v" by (simp add: v_def)
      then have "u = rev v @ rev (takeWhile (\<lambda>c. c = 45) (rev u))" by (metis rev_append rev_rev_ident)
      with False show ?thesis by (metis hd_append2 rev_is_Nil_conv)
    qed
    ultimately show ?thesis using single_dashes_slug [OF single] last words False by auto
  qed (simp add: words)
qed

subsection \<open>The slug of a school\<close>

lemma utrim_slug_chars: "(\<forall>c \<in> set s. slug_char c \<or> c = 45) \<Longrightarrow> utrim s = s"
proof -
  assume *: "\<forall>c \<in> set s. slug_char c \<or> c = 45"
  have "\<not> u_space c" if "slug_char c \<or> c = 45" for c
    using that slug_char_no_space by (auto simp: u_space_def)
  with * show ?thesis by (intro utrim_fix) (cases s; auto)
qed

lemma sanitizeSlug_facts:
  "(\<forall>c \<in> set (sanitizeSlug w s). slug_char c \<or> c = 45) \<and> length (sanitizeSlug w s) \<le> 65"
  using slug_words_re [of w s] slug_in_chars [of "slug_words w s"]
  by (auto simp: sanitizeSlug_def dest: in_set_takeD)

lemma school_base_facts:
  assumes "b = (if sanitizeSlug w s = [] then utext ''school'' else sanitizeSlug w s)"
  shows "(\<forall>c \<in> set b. slug_char c \<or> c = 45) \<and> length b \<le> 65"
  using sanitizeSlug_facts [of w s] assms by (auto simp: utext_def slug_char_def)

lemma generateSchoolSlug_facts:
  "(\<forall>c \<in> set (generateSchoolSlug w name udise). slug_char c \<or> c = 45) \<and> length (generateSchoolSlug w name udise) \<le> 70"
proof -
  define b where "b = (if sanitizeSlug w name = [] then utext ''school'' else sanitizeSlug w name)"
  note f = school_base_facts [OF b_def]
  have plain: "take MAX_SLUG_LENGTH b = b" using f by (simp add: MAX_SLUG_LENGTH_def)
  define suffix where "suffix = (\<lambda>u. let cleanUdise = filter slug_char (unicode_lower w (utrim u))
      in if 4 \<le> length cleanUdise then slice_last 4 cleanUdise else cleanUdise)"
  have suf: "(\<forall>c \<in> set (suffix u). slug_char c) \<and> length (suffix u) \<le> 4" for u
    by (auto simp: suffix_def Let_def slice_last_def dest: in_set_dropD)
  have "generateSchoolSlug w name udise = b \<or> (\<exists>u. generateSchoolSlug w name udise = take MAX_SLUG_LENGTH (b @ 45 # suffix u))"
    unfolding generateSchoolSlug_def Let_def b_def [symmetric] plain suffix_def
    by (simp only: split: option.split if_split) blast
  moreover have "(\<forall>c \<in> set (take MAX_SLUG_LENGTH (b @ 45 # suffix u)). slug_char c \<or> c = 45)
      \<and> length (take MAX_SLUG_LENGTH (b @ 45 # suffix u)) \<le> 70" for u
    using f suf [of u] set_take_subset [of MAX_SLUG_LENGTH "b @ 45 # suffix u"] by auto
  ultimately show ?thesis using f by (elim disjE exE) simp_all
qed

lemma base36_facts: "(\<forall>c \<in> set (base36 n). slug_char c) \<and> base36 n \<noteq> [] \<and> (n < 36 ^ Suc k \<longrightarrow> length (base36 n) \<le> Suc k)"
proof (induction n arbitrary: k rule: base36.induct)
  case (1 n)
  have dgt: "slug_char (if n mod 36 < 10 then 48 + int (n mod 36) else 87 + int (n mod 36))"
  proof -
    have "d < 36 \<Longrightarrow> slug_char (if d < 10 then 48 + int d else 87 + int d)" for d by (simp add: slug_char_def)
    then show ?thesis by simp
  qed
  show ?case
  proof (cases "n < 36")
    case True
    then have "base36 n = [if n mod 36 < 10 then 48 + int (n mod 36) else 87 + int (n mod 36)]"
      by (subst base36.simps) (simp add: Let_def)
    then show ?thesis using dgt by simp
  next
    case False
    then have eq: "base36 n = base36 (n div 36) @ [if n mod 36 < 10 then 48 + int (n mod 36) else 87 + int (n mod 36)]"
      by (subst base36.simps) (simp add: Let_def)
    have len: "length (base36 (n div 36)) \<le> k" if "n < 36 ^ Suc k"
    proof (cases k)
      case (Suc j)
      with that have "n div 36 < 36 ^ Suc j" by (simp add: div_less_iff_less_mult mult.commute)
      with 1 [OF refl False, of j] Suc show ?thesis by blast
    qed (use that False in simp)
    then show ?thesis using 1 [OF refl False] dgt unfolding eq by (auto simp del: power_Suc)
  qed
qed

lemma school_suffix_valid: "0 \<le> now \<Longrightarrow> now < 36 ^ 70 \<Longrightarrow> isValidSlug (utext ''school-'' @ base36 (nat now))"
proof -
  assume now: "0 \<le> now" "now < 36 ^ 70"
  then have "nat now < 36 ^ Suc 69" by (simp add: nat_less_iff)
  then have b: "\<forall>c \<in> set (base36 (nat now)). slug_char c" "base36 (nat now) \<noteq> []" "length (base36 (nat now)) \<le> 70"
    using base36_facts [of "nat now" 69] by simp_all
  have re: "slug_re (utext ''school-'' @ base36 (nat now))"
    using slug_re_words [OF b(2,1)] by (simp add: utext_def slug_char_def)
  have "utrim (utext ''school-'' @ base36 (nat now)) = utext ''school-'' @ base36 (nat now)"
    using slug_re_utrim [OF re] .
  then show ?thesis using re b(3) by (simp add: isValidSlug_re) (simp add: utext_def)
qed

lemma slug_double_dash: "\<not> slug_re (s @ 45 # 45 # t) \<and> \<not> slug_in (s @ 45 # 45 # t)"
  by (induction s) (auto simp: slug_char_def)

lemma candidate_facts:
  assumes udise: "\<forall>c \<in> set udise. slug_char c" and now: "0 \<le> now" "now < 36 ^ 60"
    and asked: "\<And>s. slug = Some s \<Longrightarrow> utrim (unicode_lower w (utrim s)) = unicode_lower w (utrim s)"
  shows "slug_re (candidateSlug w now slug name udise) \<and> 2 \<le> length (candidateSlug w now slug name udise)
     \<and> length (candidateSlug w now slug name udise) \<le> 80
     \<and> (70 < length (candidateSlug w now slug name udise) \<longrightarrow> (\<exists>s. slug = Some s \<and> candidateSlug w now slug name udise = unicode_lower w (utrim s)))"
proof -
  define c1 where "c1 = (if truthy (map_option (\<lambda>s. unicode_lower w (utrim s)) slug)
     then the (map_option (\<lambda>s. unicode_lower w (utrim s)) slug) else generateSchoolSlug w name (Some udise))"
  define c2 where "c2 = (if sanitizeSlug w c1 = [] then utext ''school'' else sanitizeSlug w c1) @ 45 # slice_last 4 udise"
  define c3 where "c3 = utext ''school-'' @ base36 (nat now)"
  have c: "candidateSlug w now slug name udise = (if isValidSlug c1 then c1 else if isValidSlug c2 then c2 else c3)"
    unfolding candidateSlug_def Let_def c1_def c2_def c3_def ..
  have t1: "utrim c1 = c1 \<and> (70 < length c1 \<longrightarrow> (\<exists>s. slug = Some s \<and> c1 = unicode_lower w (utrim s)))"
    using generateSchoolSlug_facts [of w name "Some udise"] utrim_slug_chars [of "generateSchoolSlug w name (Some udise)"] asked
    by (cases slug) (auto simp: c1_def)
  have suf: "\<forall>c \<in> set (slice_last 4 udise). slug_char c" "length (slice_last 4 udise) \<le> 4"
    using udise set_drop_subset [of "length udise - 4" udise] unfolding slice_last_def by (blast, simp)
  have t2: "utrim c2 = c2 \<and> length c2 \<le> 70"
  proof -
    define b where "b = (if sanitizeSlug w c1 = [] then utext ''school'' else sanitizeSlug w c1)"
    have "c2 = b @ 45 # slice_last 4 udise" by (simp add: c2_def b_def)
    with school_base_facts [OF b_def] suf show ?thesis by (auto intro!: utrim_slug_chars)
  qed
  have "isValidSlug c3" using school_suffix_valid [OF now(1)] less_le_trans [OF now(2), of "36 ^ 70"] by (simp add: c3_def)
  moreover have "utrim c3 = c3"
    using base36_facts [of "nat now" 0] by (auto simp: c3_def utext_def slug_char_def intro!: utrim_slug_chars)
  moreover have "length c3 \<le> 70"
    using now base36_facts [of "nat now" 59] by (simp add: c3_def utext_def nat_less_iff)
  ultimately show ?thesis using t1 t2 isValidSlug_re unfolding c c3_def [symmetric] by auto
qed

lemma taken_suffix_valid:
  assumes "slug_re c" "length hex = 4" "\<forall>x \<in> set hex. slug_char x"
  shows "slug_re (take 70 c @ 45 # hex) \<longleftrightarrow> length c \<le> 70 \<or> c ! 69 \<noteq> 45"
proof -
  have hex: "slug_in (45 # hex)" using slug_re_words [of hex] assms(2,3) by fastforce
  have last: "last (take 70 c) = c ! 69" if "70 < length c"
    using that by (subst last_conv_nth) auto
  show ?thesis
  proof (cases "length c \<le> 70")
    case True
    with assms(1) hex slug_in_append show ?thesis by auto
  next
    case False
    then have ne: "take 70 c \<noteq> []" by auto
    show ?thesis
    proof (cases "c ! 69 = 45")
      case True
      with False last ne have "take 70 c = butlast (take 70 c) @ [45]" by (metis append_butlast_last_id not_le)
      then have eq: "take 70 c @ 45 # hex = butlast (take 70 c) @ 45 # 45 # hex" by (metis append.assoc append_Cons append_Nil)
      have "\<not> slug_re (take 70 c @ 45 # hex)" unfolding eq using slug_double_dash by blast
      with True False show ?thesis by blast
    next
      case False
      with last \<open>\<not> length c \<le> 70\<close> slug_take [of c 70] assms(1) have "slug_re (take 70 c)" by simp
      with hex slug_in_append False show ?thesis by blast
    qed
  qed
qed

text \<open>
  C39: The slug reserved for a new school satisfies the constraint of the table, which is the expression
  of isValidSlug and 80 characters, with one exception: a name that leaves no letter, a name whose 65th
  character is a dash, a slug asked for that is no slug and a slug that is taken are all repaired.  The
  exception is exactly a slug asked for that is taken, has more than 70 characters (the route accepts 80)
  and has a dash at the 70th: the text reserved then has two dashes in a row, which the constraint
  refuses.  Lower case text is taken to stay trimmed, and the time is that of a 64-bit clock.
\<close>

theorem stored_slug_is_valid:
  assumes "length udise = 11" "\<forall>c \<in> set udise. 48 \<le> c \<and> c \<le> 57"
    and "0 \<le> now" "now < 2 ^ 63" "length hex = 4" "\<forall>c \<in> set hex. slug_char c"
    and "\<And>s. slug = Some s \<Longrightarrow> utrim (unicode_lower w (utrim s)) = unicode_lower w (utrim s)"
  shows "length (reserveSlug w now slug name udise hex d) \<le> MAX_SLUG_LENGTH
    \<and> (if \<exists>s school. slug = Some s \<and> school \<in> set (t_schools d) \<and> sc_slug school = unicode_lower w (utrim s)
            \<and> isValidSlug (unicode_lower w (utrim s)) \<and> 70 < length (unicode_lower w (utrim s)) \<and> unicode_lower w (utrim s) ! 69 = 45
       then \<not> slug_re (reserveSlug w now slug name udise hex d)
       else slug_re (reserveSlug w now slug name udise hex d) \<and> isValidSlug (reserveSlug w now slug name udise hex d))"
proof -
  let ?c = "candidateSlug w now slug name udise" and ?r = "reserveSlug w now slug name udise hex d"
  let ?taken = "\<exists>s \<in> set (t_schools d). sc_slug s = ?c"
  have u: "\<forall>c \<in> set udise. slug_char c" using assms(2) by (auto simp: slug_char_def)
  have n: "now < 36 ^ 60" using assms(4) by (rule less_trans) simp
  note f = candidate_facts [where slug = slug and name = name and w = w, OF u assms(3) n assms(7)]
  have r: "?r = (if ?taken then take 70 ?c @ 45 # hex else ?c)" by (simp add: reserveSlug_def Let_def)
  have len: "length ?r \<le> 80 \<and> 2 \<le> length ?r" using f assms(5) by (auto simp: r)
  have re: "slug_re ?r \<longleftrightarrow> \<not> (?taken \<and> 70 < length ?c \<and> ?c ! 69 = 45)"
    using f taken_suffix_valid [OF _ assms(5,6), of ?c] by (auto simp: r)
  have asked: "?c = unicode_lower w (utrim s)" if "slug = Some s" "isValidSlug (unicode_lower w (utrim s))" for s
  proof -
    from that(2) have "unicode_lower w (utrim s) \<noteq> []" by (auto simp: isValidSlug_def)
    with that show ?thesis by (simp add: candidateSlug_def Let_def truthy_def)
  qed
  have "(\<exists>s school. slug = Some s \<and> school \<in> set (t_schools d) \<and> sc_slug school = unicode_lower w (utrim s)
            \<and> isValidSlug (unicode_lower w (utrim s)) \<and> 70 < length (unicode_lower w (utrim s)) \<and> unicode_lower w (utrim s) ! 69 = 45)
      \<longleftrightarrow> ?taken \<and> 70 < length ?c \<and> ?c ! 69 = 45" (is "?bad = _")
  proof
    assume "?taken \<and> 70 < length ?c \<and> ?c ! 69 = 45"
    moreover from this f obtain s where "slug = Some s" "?c = unicode_lower w (utrim s)" by blast
    moreover have "isValidSlug ?c" using f isValidSlug_re [OF slug_re_utrim] by blast
    ultimately show ?bad by auto
  qed (use asked in auto)
  with re len isValidSlug_re [OF slug_re_utrim, of ?r] show ?thesis by (simp add: MAX_SLUG_LENGTH_def)
qed

definition long_name :: ustring where
  "long_name = replicate 64 97 @ [32, 98]"

text \<open>
  The name leaves a dash at the end of its 65 characters, the slug of generateSchoolSlug has two dashes
  in a row, and the repair of provisionSchool is needed.
\<close>

lemma generated_slug_may_be_invalid: "\<not> isValidSlug (generateSchoolSlug example_world long_name (Some (replicate 11 49)))"
  by code_simp

definition long_slug :: ustring where
  "long_slug = replicate 69 97 @ [45, 98]"

definition slug_taken_db :: db where
  "slug_taken_db = empty_db\<lparr>t_schools := [\<lparr>sc_id = ''s'', sc_name = [], sc_slug = long_slug, sc_udiseCode = [], sc_district = [],
     sc_block = None, sc_preferredLanguage = ''en'', sc_timezone = ''UTC'', sc_rfidMode = ''OFF'', sc_status = ''ACTIVE''\<rparr>]\<rparr>"

text \<open>A repaired name, and the exception.\<close>

theorem stored_slug_is_valid_witness:
  "isValidSlug (reserveSlug example_world 1700000000000 None long_name (replicate 11 49) (replicate 4 102) empty_db)
   \<and> isValidSlug long_slug
   \<and> \<not> slug_re (reserveSlug example_world 1700000000000 (Some long_slug) long_name (replicate 11 49) (replicate 4 102) slug_taken_db)"
proof -
  have digits: "\<forall>c \<in> set (replicate 11 49). 48 \<le> c \<and> c \<le> (57 :: int)" "\<forall>c \<in> set (replicate 4 102). slug_char c"
    by (simp_all add: slug_char_def)
  have asked: "utrim (unicode_lower example_world (utrim long_slug)) = unicode_lower example_world (utrim long_slug)"
    "unicode_lower example_world (utrim long_slug) = long_slug" "isValidSlug long_slug" "70 < length long_slug" "long_slug ! 69 = 45"
    by code_simp+
  have "\<exists>school. school \<in> set (t_schools slug_taken_db) \<and> sc_slug school = long_slug" by (simp add: slug_taken_db_def)
  with asked have bad: "\<exists>s school. Some long_slug = Some s \<and> school \<in> set (t_schools slug_taken_db)
      \<and> sc_slug school = unicode_lower example_world (utrim s) \<and> isValidSlug (unicode_lower example_world (utrim s))
      \<and> 70 < length (unicode_lower example_world (utrim s)) \<and> unicode_lower example_world (utrim s) ! 69 = 45" by simp
  have "\<not> slug_re (reserveSlug example_world 1700000000000 (Some long_slug) long_name (replicate 11 49) (replicate 4 102) slug_taken_db)"
    using stored_slug_is_valid [of "replicate 11 49" 1700000000000 "replicate 4 102" "Some long_slug" example_world long_name slug_taken_db]
      digits asked(1) unfolding if_P [OF bad] by simp
  moreover from stored_slug_is_valid [of "replicate 11 49" 1700000000000 "replicate 4 102" None example_world long_name empty_db] digits
  have "isValidSlug (reserveSlug example_world 1700000000000 None long_name (replicate 11 49) (replicate 4 102) empty_db)" by simp
  ultimately show ?thesis using asked by blast
qed

end
