(* ===== verification/Credentials.thy ===== *)
theory Credentials
  imports Audit_Entry Crypto Sms Ingest_Decide
begin

text \<open>
  Models src/src/services/rfid/credentialService.ts: the life of an RFID badge from enrolment to
  revocation, and the enrolment of many badges.  Each operation runs in one tenant transaction
  (\<open>Inl\<close> is its rollback; no JavaScript error is raised after a write).  Lists for the screens
  (listAllCredentials) are not modelled.  The end of the theory shows that the gate refuses a badge from
  the moment it is revoked, whatever is done with badges afterwards.
\<close>

section \<open>Enrolment\<close>

record enroll_params =
  ep_studentId :: uuid
  ep_credentialDigest :: string
  ep_credentialType :: string
  ep_epcLastFour :: "string option"
  ep_tidDigest :: "string option"
  ep_securityMode :: string
  ep_keyVersion :: int
  ep_operatorUserId :: uuid
  ep_expiresAt :: "instant option"

text \<open>\<open>uniqueIndex('rfid_credentials_school_epc_uq')\<close> on school and digest, whatever the status.\<close>

definition same_badge :: "rfid_credential \<Rightarrow> rfid_credential \<Rightarrow> bool" where
  "same_badge a b \<longleftrightarrow> rc_schoolId a = rc_schoolId b \<and> rc_credentialDigest a = rc_credentialDigest b"

definition insert_badge :: "rfid_credential \<Rightarrow> rfid_credential list \<Rightarrow> rfid_credential list option" where
  "insert_badge c t = (if \<exists>x \<in> set t. same_badge x c then None else Some (t @ [c]))"

interpretation badge_index: unique_index same_badge insert_badge
  by unfold_locales (auto simp: same_badge_def insert_badge_def)

definition insert_credential :: "rfid_credential \<Rightarrow> db \<Rightarrow> db result" where
  "insert_credential c d =
     (case insert_badge c (t_credentials d) of
        None \<Rightarrow> Inl (DbErr ''rfid_credentials_school_epc_uq'')
      | Some t \<Rightarrow> Inr (d\<lparr>t_credentials := t, seq := Suc (seq d)\<rparr>))"

definition enrollCredential ::
  "world \<Rightarrow> instant \<Rightarrow> uuid \<Rightarrow> enroll_params \<Rightarrow> db \<Rightarrow> (db \<times> rfid_credential) result" where
  "enrollCredential w now schoolId p d =
     (if sel1 (\<lambda>s. st_id s = ep_studentId p \<and> st_schoolId s = schoolId \<and> st_status s = ''ACTIVE'') (t_students d) = None
      then Inl (JsErr ''Student not found or inactive'')
      else if \<not> hasConsent d schoolId (ep_studentId p) ''RFID_ATTENDANCE'' then Inl (AppErr ''CONSENT_REQUIRED'' 409)
      else if sel1 (\<lambda>c. rc_studentId c = ep_studentId p \<and> rc_schoolId c = schoolId
                      \<and> rc_status c \<in> {CPending, CActive}) (t_credentials d) \<noteq> None
      then Inl (JsErr ''Student already has an active or pending credential'')
      else if sel1 (\<lambda>c. rc_credentialDigest c = ep_credentialDigest p \<and> rc_schoolId c = schoolId
                      \<and> rc_status c \<in> {CPending, CActive, CSuspended}) (t_credentials d) \<noteq> None
      then Inl (JsErr ''Credential digest already enrolled'')
      else let c = \<lparr>rc_id = gen_uuid w (seq d), rc_schoolId = schoolId, rc_studentId = ep_studentId p,
                    rc_credentialType = ep_credentialType p, rc_credentialDigest = ep_credentialDigest p,
                    rc_epcLastFour = ep_epcLastFour p, rc_tidDigest = ep_tidDigest p,
                    rc_securityMode = ep_securityMode p, rc_keyVersion = ep_keyVersion p, rc_status = CPending,
                    rc_activatedAt = None, rc_expiresAt = ep_expiresAt p, rc_revokedAt = None,
                    rc_revocationReason = None, rc_replacedBy = None,
                    rc_createdByUserId = ep_operatorUserId p, rc_createdAt = now\<rparr>
           in bind_result (insert_credential c d) (\<lambda>d1.
              Inr (createAuditLog schoolId (ep_operatorUserId p) ''RFID_CREDENTIAL_ENROLLED'' ''RFID_CREDENTIAL''
                     (rc_id c) JNull d1, c)))"

section \<open>Changes of status\<close>

definition sanitizeActorId :: "string option \<Rightarrow> string option" where
  "sanitizeActorId actorId =
     (case actorId of None \<Rightarrow> None
      | Some a \<Rightarrow> if a = [] \<or> a = ''SYSTEM'' \<or> \<not> (length a = 36 \<and> list_all (\<lambda>c. is_hex c \<or> c = CHR ''-'') a)
                  then None else Some a)"

text \<open>A null actor is stored as null: the empty string is falsy.\<close>

definition actor_or_null :: "string option \<Rightarrow> string" where
  "actor_or_null actorId = (case sanitizeActorId actorId of None \<Rightarrow> [] | Some a \<Rightarrow> a)"

text \<open>UPDATE ... WHERE id AND school AND guard RETURNING: the changed row, or none.\<close>

definition change_badge ::
  "uuid \<Rightarrow> uuid \<Rightarrow> (cred_status \<Rightarrow> bool) \<Rightarrow> (rfid_credential \<Rightarrow> rfid_credential) \<Rightarrow> db \<Rightarrow> db \<times> rfid_credential option" where
  "change_badge credentialId schoolId guard f d =
     (let p = (\<lambda>c. rc_id c = credentialId \<and> rc_schoolId c = schoolId \<and> guard (rc_status c))
      in (d\<lparr>t_credentials := upd p f (t_credentials d)\<rparr>, map_option f (sel1 p (t_credentials d))))"

definition badge_audit :: "uuid \<Rightarrow> string option \<Rightarrow> string \<Rightarrow> uuid \<Rightarrow> json \<Rightarrow> db \<Rightarrow> db" where
  "badge_audit schoolId actorId action credentialId metadata d =
     createAuditLog schoolId (actor_or_null actorId) action ''RFID_CREDENTIAL'' credentialId metadata d"

definition activateCredential :: "instant \<Rightarrow> uuid \<Rightarrow> uuid \<Rightarrow> string option \<Rightarrow> db \<Rightarrow> (db \<times> rfid_credential) result" where
  "activateCredential now credentialId schoolId actorId d =
     (case change_badge credentialId schoolId (\<lambda>s. s = CPending)
             (\<lambda>c. c\<lparr>rc_status := CActive, rc_activatedAt := Some now\<rparr>) d of
        (_, None) \<Rightarrow> Inl (JsErr ''Credential not found or not PENDING'')
      | (d1, Some c) \<Rightarrow> Inr (badge_audit schoolId actorId ''RFID_CREDENTIAL_ACTIVATED'' credentialId JNull d1, c))"

definition suspendCredential :: "uuid \<Rightarrow> uuid \<Rightarrow> string \<Rightarrow> string option \<Rightarrow> db \<Rightarrow> (db \<times> rfid_credential) result" where
  "suspendCredential credentialId schoolId reason actorId d =
     (case change_badge credentialId schoolId (\<lambda>s. s = CActive) (\<lambda>c. c\<lparr>rc_status := CSuspended\<rparr>) d of
        (_, None) \<Rightarrow> Inl (JsErr ''Credential not found or not ACTIVE'')
      | (d1, Some c) \<Rightarrow> Inr (badge_audit schoolId actorId ''RFID_CREDENTIAL_SUSPENDED'' credentialId
                                (JObj [(''reason'', JStr reason)]) d1, c))"

text \<open>The two errors carry the HTTP status 404 and 409.\<close>

definition cred_status_name :: "cred_status \<Rightarrow> string" where
  "cred_status_name s = (case s of CPending \<Rightarrow> ''PENDING'' | CActive \<Rightarrow> ''ACTIVE'' | CSuspended \<Rightarrow> ''SUSPENDED''
     | CRevoked \<Rightarrow> ''REVOKED'' | CReplaced \<Rightarrow> ''REPLACED'' | CExpired \<Rightarrow> ''EXPIRED'')"

definition reactivateCredential ::
  "uuid \<Rightarrow> uuid \<Rightarrow> string option \<Rightarrow> string option \<Rightarrow> db \<Rightarrow> (db \<times> rfid_credential option) result" where
  "reactivateCredential credentialId schoolId reason actorId d =
     (case sel1 (\<lambda>c. rc_id c = credentialId \<and> rc_schoolId c = schoolId) (t_credentials d) of
        None \<Rightarrow> Inl (AppErr ''CARD_NOT_FOUND: RFID credential not found'' 404)
      | Some target \<Rightarrow>
          if rc_status target \<noteq> CSuspended
          then Inl (AppErr (''CARD_NOT_SUSPENDED: Cannot reactivate card with status '' @ cred_status_name (rc_status target)) 409)
          else case change_badge credentialId schoolId (\<lambda>s. s = CSuspended) (\<lambda>c. c\<lparr>rc_status := CActive\<rparr>) d of
                 (d1, c) \<Rightarrow> Inr (badge_audit schoolId actorId ''RFID_CREDENTIAL_REACTIVATED'' credentialId
                    (JObj [(''reason'', JStr (the (js_or reason (Some ''Reactivated by operator/admin''))))]) d1, c))"

definition revokeCredential ::
  "instant \<Rightarrow> uuid \<Rightarrow> uuid \<Rightarrow> string \<Rightarrow> string option \<Rightarrow> db \<Rightarrow> (db \<times> rfid_credential) result" where
  "revokeCredential now credentialId schoolId reason actorId d =
     (case change_badge credentialId schoolId (\<lambda>s. True)
             (\<lambda>c. c\<lparr>rc_status := CRevoked, rc_revokedAt := Some now, rc_revocationReason := Some reason\<rparr>) d of
        (_, None) \<Rightarrow> Inl (JsErr ''Credential not found'')
      | (d1, Some c) \<Rightarrow> Inr (badge_audit schoolId actorId ''RFID_CREDENTIAL_REVOKED'' credentialId
                                (JObj [(''reason'', JStr reason)]) d1, c))"

definition replaceCredential ::
  "world \<Rightarrow> instant \<Rightarrow> uuid \<Rightarrow> string \<Rightarrow> uuid \<Rightarrow> string \<Rightarrow> int \<Rightarrow> uuid \<Rightarrow> db \<Rightarrow> (db \<times> rfid_credential) result" where
  "replaceCredential w now oldCredentialId newCredentialDigest schoolId securityMode keyVersion operatorUserId d =
     (case change_badge oldCredentialId schoolId (\<lambda>s. True)
             (\<lambda>c. c\<lparr>rc_status := CReplaced, rc_revokedAt := Some now, rc_revocationReason := Some ''Replaced''\<rparr>) d of
        (_, None) \<Rightarrow> Inl (JsErr ''Old credential not found'')
      | (d1, Some old) \<Rightarrow>
          let c = \<lparr>rc_id = gen_uuid w (seq d1), rc_schoolId = schoolId, rc_studentId = rc_studentId old,
                   rc_credentialType = ''UHF_EPC_GEN2'', rc_credentialDigest = newCredentialDigest,
                   rc_epcLastFour = None, rc_tidDigest = None, rc_securityMode = securityMode,
                   rc_keyVersion = keyVersion, rc_status = CActive, rc_activatedAt = Some now,
                   rc_expiresAt = None, rc_revokedAt = None, rc_revocationReason = None, rc_replacedBy = None,
                   rc_createdByUserId = operatorUserId, rc_createdAt = now\<rparr>
          in bind_result (insert_credential c d1) (\<lambda>d2.
               Inr (d2\<lparr>t_credentials := upd (\<lambda>x. rc_id x = rc_id old) (\<lambda>x. x\<lparr>rc_replacedBy := Some (rc_id c)\<rparr>)
                         (t_credentials d2)\<rparr>, c)))"

definition expireCredentials :: "instant \<Rightarrow> uuid \<Rightarrow> db \<Rightarrow> db \<times> rfid_credential list" where
  "expireCredentials now schoolId d =
     (let p = (\<lambda>c. rc_schoolId c = schoolId \<and> rc_status c = CActive
                 \<and> (case rc_expiresAt c of None \<Rightarrow> False | Some t \<Rightarrow> t < now))
      in (d\<lparr>t_credentials := upd p (\<lambda>c. c\<lparr>rc_status := CExpired\<rparr>) (t_credentials d)\<rparr>,
          map (\<lambda>c. c\<lparr>rc_status := CExpired\<rparr>) (filter p (t_credentials d))))"

section \<open>Queries\<close>

text \<open>Despite its name the lookup does not filter on the status.\<close>

definition lookupActiveCredential :: "uuid \<Rightarrow> string \<Rightarrow> db \<Rightarrow> (rfid_credential \<times> student) option" where
  "lookupActiveCredential schoolId credentialDigest d =
     sel1 (\<lambda>(c, s). rc_credentialDigest c = credentialDigest \<and> rc_schoolId c = schoolId)
       (concat (map (\<lambda>c. map (\<lambda>s. (c, s)) (filter (\<lambda>s. st_id s = rc_studentId c) (t_students d))) (t_credentials d)))"

definition redacted :: "rfid_credential \<Rightarrow> rfid_credential" where
  "redacted c = c\<lparr>rc_credentialDigest := redactCredentialDigest (rc_credentialDigest c)\<rparr>"

definition getCredentialHistory :: "uuid \<Rightarrow> uuid \<Rightarrow> db \<Rightarrow> rfid_credential list" where
  "getCredentialHistory schoolId studentId d =
     map redacted (sort_key (\<lambda>c. - rc_createdAt c)
       (filter (\<lambda>c. rc_studentId c = studentId \<and> rc_schoolId c = schoolId) (t_credentials d)))"

definition getCredentialById :: "uuid \<Rightarrow> uuid \<Rightarrow> db \<Rightarrow> rfid_credential option" where
  "getCredentialById credentialId schoolId d =
     map_option redacted (sel1 (\<lambda>c. rc_id c = credentialId \<and> rc_schoolId c = schoolId) (t_credentials d))"

section \<open>Enrolling many badges\<close>

text \<open>
  The roll number is what \<open>Number(entry.rollNumber)\<close> gives: \<open>Some None\<close> is NaN, which no integer column
  can be compared with.
\<close>

record bulk_entry =
  be_studentId :: "uuid option"
  be_studentCode :: "ustring option"
  be_rollNumber :: "rat option option"
  be_classSectionId :: "uuid option"
  be_epc :: "string option"
  be_credentialDigest :: "string option"
  be_securityMode :: "string option"
  be_keyVersion :: "int option"

record bulk_result =
  br_studentId :: "uuid option"
  br_studentCode :: "ustring option"
  br_success :: bool
  br_credentialId :: "uuid option"
  br_epcLastFour :: "string option"
  br_error :: "error option"

definition int_column :: "rat option \<Rightarrow> int result" where
  "int_column n =
     (case n of None \<Rightarrow> Inl (DbErr ''invalid input syntax for type integer'')
      | Some q \<Rightarrow> if q = of_int \<lfloor>q\<rfloor> \<and> - 2147483648 \<le> q \<and> q \<le> 2147483647 then Inr \<lfloor>q\<rfloor>
                  else Inl (DbErr ''invalid input syntax for type integer''))"

definition student_by_roll :: "uuid \<Rightarrow> bulk_entry \<Rightarrow> rat option \<Rightarrow> db \<Rightarrow> uuid option result" where
  "student_by_roll schoolId e n d =
     bind_result (int_column n) (\<lambda>roll.
       Inr (map_option en_studentId (sel1 (\<lambda>x. en_schoolId x = schoolId \<and> en_rollNumber x = roll \<and> en_status x = ''ACTIVE''
              \<and> (truthy (be_classSectionId e) \<longrightarrow> en_classSectionId x = the (be_classSectionId e))) (t_enrollments d))))"

definition resolve_entry :: "uuid \<Rightarrow> bulk_entry \<Rightarrow> db \<Rightarrow> uuid result" where
  "resolve_entry schoolId e d =
     (let byCode = (if \<not> truthy (be_studentId e) \<and> truthy (be_studentCode e)
                    then map_option st_id (sel1 (\<lambda>s. st_schoolId s = schoolId
                           \<and> st_studentCode s = utrim (the (be_studentCode e))) (t_students d))
                    else None);
          known = js_or (be_studentId e) byCode
      in bind_result (case be_rollNumber e of
             Some n \<Rightarrow> if truthy known then Inr known else student_by_roll schoolId e n d
           | None \<Rightarrow> Inr known)
         (\<lambda>found. if truthy found then Inr (the found)
            else Inl (JsErr ''STUDENT_NOT_FOUND: Could not resolve student by ID, code, or roll number'')))"

text \<open>The digest of the badge: the EPC is hashed without a salt.\<close>

definition entry_digest :: "world \<Rightarrow> bulk_entry \<Rightarrow> (string \<times> string option) result" where
  "entry_digest w e =
     bind_result
       (if truthy (be_epc e)
        then bind_result (canonicalizeEpc (the (be_epc e))) (\<lambda>canonical.
               bind_result (computeEpcDigest w canonical []) (\<lambda>dg.
                 Inr (Some dg, Some (getEpcLastFour canonical))))
        else Inr (be_credentialDigest e, None))
       (\<lambda>(dg, last4). if truthy dg then Inr (the dg, last4)
          else Inl (JsErr ''MISSING_EPC_OR_DIGEST: Either epc or credentialDigest must be provided''))"

definition enroll_entry ::
  "world \<Rightarrow> instant \<Rightarrow> uuid \<Rightarrow> uuid \<Rightarrow> bulk_entry \<Rightarrow> db \<Rightarrow> (db \<times> bulk_result) result" where
  "enroll_entry w now schoolId operatorUserId e d =
     bind_result (resolve_entry schoolId e d) (\<lambda>sid.
     bind_result (entry_digest w e) (\<lambda>(dg, last4).
     bind_result (enrollCredential w now schoolId
        \<lparr>ep_studentId = sid, ep_credentialDigest = dg, ep_credentialType = ''UHF_EPC_GEN2'', ep_epcLastFour = last4,
         ep_tidDigest = None, ep_securityMode = the (js_or (be_securityMode e) (Some ''UHF_EPC'')),
         ep_keyVersion = (case be_keyVersion e of None \<Rightarrow> 1 | Some k \<Rightarrow> if k = 0 then 1 else k),
         ep_operatorUserId = operatorUserId, ep_expiresAt = None\<rparr> d) (\<lambda>(d1, c).
     bind_result (activateCredential now (rc_id c) schoolId (Some operatorUserId) d1) (\<lambda>(d2, _).
       Inr (d2, \<lparr>br_studentId = Some sid, br_studentCode = be_studentCode e, br_success = True, br_credentialId = Some (rc_id c),
                 br_epcLastFour = last4, br_error = None\<rparr>)))))"

text \<open>
  The loop runs in one transaction without savepoints.  An error of the database aborts that
  transaction: every later statement fails (\<open>aborted\<close>), and the commit at the end is a rollback that
  reports no error.  Entries after the abort that issue no statement keep their own error; here they
  all get the error of the aborted transaction.
\<close>

definition failed_entry :: "bulk_entry \<Rightarrow> error \<Rightarrow> bulk_result" where
  "failed_entry e err = \<lparr>br_studentId = be_studentId e, br_studentCode = be_studentCode e, br_success = False, br_credentialId = None,
                         br_epcLastFour = None, br_error = Some err\<rparr>"

fun bulk_loop ::
  "world \<Rightarrow> instant \<Rightarrow> uuid \<Rightarrow> uuid \<Rightarrow> bulk_entry list \<Rightarrow> bool \<Rightarrow> db \<Rightarrow> bulk_result list \<times> bool \<times> db" where
  "bulk_loop w now schoolId op [] aborted d = ([], aborted, d)"
| "bulk_loop w now schoolId op (e # es) aborted d =
     (if aborted
      then let (rs, ab, d') = bulk_loop w now schoolId op es True d
           in (failed_entry e (DbErr ''current transaction is aborted'') # rs, ab, d')
      else case enroll_entry w now schoolId op e d of
             Inr (d1, r) \<Rightarrow> (let (rs, ab, d') = bulk_loop w now schoolId op es False d1 in (r # rs, ab, d'))
           | Inl err \<Rightarrow> (let (rs, ab, d') = bulk_loop w now schoolId op es (case err of DbErr _ \<Rightarrow> True | _ \<Rightarrow> False) d
                        in (failed_entry e err # rs, ab, d')))"

definition bulkEnroll :: "world \<Rightarrow> instant \<Rightarrow> uuid \<Rightarrow> bulk_entry list \<Rightarrow> uuid \<Rightarrow> db \<Rightarrow> db \<times> bulk_result list" where
  "bulkEnroll w now schoolId entries operatorUserId d =
     (case bulk_loop w now schoolId operatorUserId entries False d of
        (rs, aborted, d') \<Rightarrow> (if aborted then d else d', rs))"

section \<open>How the table of badges evolves\<close>

definition dead :: "cred_status \<Rightarrow> bool" where
  "dead s \<longleftrightarrow> s \<in> {CRevoked, CReplaced, CExpired}"

text \<open>
  Every operation rewrites the rows in place, keeping school and digest and bringing no dead badge
  back, and appends badges whose digest is new in the school.
\<close>

definition keeps_badge :: "(rfid_credential \<Rightarrow> rfid_credential) \<Rightarrow> bool" where
  "keeps_badge g \<longleftrightarrow> (\<forall>c. rc_schoolId (g c) = rc_schoolId c \<and> rc_credentialDigest (g c) = rc_credentialDigest c
     \<and> (dead (rc_status c) \<longrightarrow> dead (rc_status (g c))))"

definition badges_unique :: "rfid_credential list \<Rightarrow> bool" where
  "badges_unique t \<longleftrightarrow> sorted_wrt (\<lambda>a b. \<not> same_badge a b) t"

definition evolves :: "rfid_credential list \<Rightarrow> rfid_credential list \<Rightarrow> bool" where
  "evolves t t' \<longleftrightarrow> (\<exists>g new. t' = map g t @ new \<and> keeps_badge g) \<and> (badges_unique t \<longrightarrow> badges_unique t')"

lemma evolves_refl: "evolves t t"
  unfolding evolves_def by (intro conjI exI [of _ "\<lambda>c. c"] exI [of _ "[]"]) (simp_all add: keeps_badge_def)

lemma evolves_trans:
  assumes "evolves t u" "evolves u v" shows "evolves t v"
proof -
  obtain g new where 1: "u = map g t @ new" "keeps_badge g" using assms(1) unfolding evolves_def by blast
  obtain h newer where 2: "v = map h u @ newer" "keeps_badge h" using assms(2) unfolding evolves_def by blast
  have "v = map (h \<circ> g) t @ (map h new @ newer)" using 1 2 by simp
  moreover have "keeps_badge (h \<circ> g)" using 1(2) 2(2) by (simp add: keeps_badge_def)
  ultimately show ?thesis using assms unfolding evolves_def by blast
qed

lemma same_badge_keeps: "keeps_badge g \<Longrightarrow> same_badge (g a) (g b) = same_badge a b"
  by (simp add: keeps_badge_def same_badge_def)

lemma evolves_map: "keeps_badge g \<Longrightarrow> evolves t (map g t)"
  unfolding evolves_def badges_unique_def
  by (intro conjI exI [of _ g] exI [of _ "[]"]) (simp_all add: sorted_wrt_map same_badge_keeps)

lemma evolves_upd:
  assumes "\<And>c. p c \<Longrightarrow> rc_schoolId (f c) = rc_schoolId c \<and> rc_credentialDigest (f c) = rc_credentialDigest c
              \<and> (dead (rc_status c) \<longrightarrow> dead (rc_status (f c)))"
  shows "evolves t (upd p f t)"
  unfolding upd_def using assms by (intro evolves_map) (simp add: keeps_badge_def)

lemma evolves_insert: "insert_credential c d = Inr d' \<Longrightarrow> evolves (t_credentials d) (t_credentials d')"
proof -
  assume i: "insert_credential c d = Inr d'"
  then have ins: "insert_badge c (t_credentials d) = Some (t_credentials d')"
    by (auto simp: insert_credential_def split: option.splits)
  have "t_credentials d' = map (\<lambda>c. c) (t_credentials d) @ [c]" "keeps_badge (\<lambda>c. c)"
    using ins badge_index.insert_Some_iff by (auto simp: keeps_badge_def)
  with badge_index.insert_keeps_unique [OF _ ins] show ?thesis
    unfolding evolves_def badges_unique_def by blast
qed

lemma evolves_change_badge:
  assumes "\<And>c. guard (rc_status c) \<Longrightarrow> rc_schoolId (f c) = rc_schoolId c
              \<and> rc_credentialDigest (f c) = rc_credentialDigest c \<and> (dead (rc_status c) \<longrightarrow> dead (rc_status (f c)))"
  shows "evolves (t_credentials d) (t_credentials (fst (change_badge i sid guard f d)))"
  using assms by (auto simp: change_badge_def Let_def intro!: evolves_upd)

lemma badge_audit_credentials [simp]: "t_credentials (badge_audit s a x i m d) = t_credentials d"
  by (simp add: badge_audit_def createAuditLog_frame)

lemma enrollCredential_evolves:
  assumes "enrollCredential w now sid p d = Inr (d', c)"
  shows "evolves (t_credentials d) (t_credentials d')"
  using assms
  by (auto simp: enrollCredential_def Let_def bind_result_Inr_iff createAuditLog_frame
      split: if_splits intro: evolves_insert)

lemma activateCredential_evolves:
  assumes "activateCredential now i sid a d = Inr (d', c)"
  shows "evolves (t_credentials d) (t_credentials d')"
  using evolves_change_badge [of "\<lambda>s. s = CPending" "\<lambda>c. c\<lparr>rc_status := CActive, rc_activatedAt := Some now\<rparr>" d i sid] assms
  by (auto simp: activateCredential_def dead_def split: prod.splits option.splits)

lemma suspendCredential_evolves:
  assumes "suspendCredential i sid reason a d = Inr (d', c)"
  shows "evolves (t_credentials d) (t_credentials d')"
  using evolves_change_badge [of "\<lambda>s. s = CActive" "\<lambda>c. c\<lparr>rc_status := CSuspended\<rparr>" d i sid] assms
  by (auto simp: suspendCredential_def dead_def split: prod.splits option.splits)

lemma reactivateCredential_evolves:
  assumes "reactivateCredential i sid reason a d = Inr (d', c)"
  shows "evolves (t_credentials d) (t_credentials d')"
  using evolves_change_badge [of "\<lambda>s. s = CSuspended" "\<lambda>c. c\<lparr>rc_status := CActive\<rparr>" d i sid] assms
  by (auto simp: reactivateCredential_def dead_def split: prod.splits option.splits if_splits)

lemma revokeCredential_evolves:
  assumes "revokeCredential now i sid reason a d = Inr (d', c)"
  shows "evolves (t_credentials d) (t_credentials d')"
  using evolves_change_badge [of "\<lambda>s. True"
      "\<lambda>c. c\<lparr>rc_status := CRevoked, rc_revokedAt := Some now, rc_revocationReason := Some reason\<rparr>" d i sid] assms
  by (auto simp: revokeCredential_def dead_def split: prod.splits option.splits)

lemma replaceCredential_evolves:
  assumes "replaceCredential w now i dg sid mode kv op d = Inr (d', c)"
  shows "evolves (t_credentials d) (t_credentials d')"
proof -
  let ?f = "\<lambda>c. c\<lparr>rc_status := CReplaced, rc_revokedAt := Some now, rc_revocationReason := Some ''Replaced''\<rparr>"
  obtain d1 old where 1: "change_badge i sid (\<lambda>s. True) ?f d = (d1, Some old)"
    using assms by (auto simp: replaceCredential_def split: prod.splits option.splits)
  obtain cc d2 where 2: "insert_credential cc d1 = Inr d2"
    "t_credentials d' = upd (\<lambda>x. rc_id x = rc_id old) (\<lambda>x. x\<lparr>rc_replacedBy := Some (rc_id cc)\<rparr>) (t_credentials d2)"
    using assms by (auto simp: replaceCredential_def 1 Let_def bind_result_Inr_iff)
  have "evolves (t_credentials d) (t_credentials d1)"
    using evolves_change_badge [of "\<lambda>s. True" ?f d i sid] 1 by (simp add: dead_def)
  moreover have "evolves (t_credentials d1) (t_credentials d2)" using 2(1) by (rule evolves_insert)
  moreover have "evolves (t_credentials d2) (t_credentials d')" unfolding 2(2) by (rule evolves_upd) simp
  ultimately show ?thesis using evolves_trans by blast
qed

lemma expireCredentials_evolves: "evolves (t_credentials d) (t_credentials (fst (expireCredentials now sid d)))"
  by (auto simp: expireCredentials_def Let_def dead_def intro!: evolves_upd)

lemma enroll_entry_evolves:
  assumes "enroll_entry w now sid op e d = Inr (d', r)"
  shows "evolves (t_credentials d) (t_credentials d')"
proof -
  obtain p d1 c a i d2 c2 where 1: "enrollCredential w now sid p d = Inr (d1, c)"
    "activateCredential now i sid a d1 = Inr (d2, c2)" "d' = d2"
    using assms by (auto simp: enroll_entry_def bind_result_Inr_iff split: prod.splits)
  show ?thesis using evolves_trans [OF enrollCredential_evolves [OF 1(1)] activateCredential_evolves [OF 1(2)]] 1(3) by simp
qed

lemma bulk_loop_evolves:
  "bulk_loop w now sid op es ab d = (rs, ab', d') \<Longrightarrow> evolves (t_credentials d) (t_credentials d')"
proof (induction es arbitrary: ab d rs)
  case (Cons e es)
  then show ?case
    by (auto split: if_splits sum.splits prod.splits intro: evolves_trans dest: enroll_entry_evolves)
qed (simp add: evolves_refl)

lemma bulkEnroll_evolves: "evolves (t_credentials d) (t_credentials (fst (bulkEnroll w now sid es op d)))"
  using bulk_loop_evolves by (auto simp: bulkEnroll_def evolves_refl split: prod.split)

section \<open>The life of a badge\<close>

datatype badge_op =
    Enroll enroll_params
  | Activate uuid "string option"
  | Suspend uuid string "string option"
  | Reactivate uuid "string option" "string option"
  | Revoke uuid string "string option"
  | Replace uuid string string int uuid
  | Expire
  | BulkEnroll "bulk_entry list" uuid

text \<open>A call for a school at a time; a failed one changes nothing.\<close>

definition badge_call :: "world \<Rightarrow> instant \<Rightarrow> uuid \<Rightarrow> badge_op \<Rightarrow> db \<Rightarrow> db result" where
  "badge_call w now sid op d =
     (case op of
        Enroll p \<Rightarrow> map_sum id fst (enrollCredential w now sid p d)
      | Activate i a \<Rightarrow> map_sum id fst (activateCredential now i sid a d)
      | Suspend i r a \<Rightarrow> map_sum id fst (suspendCredential i sid r a d)
      | Reactivate i r a \<Rightarrow> map_sum id fst (reactivateCredential i sid r a d)
      | Revoke i r a \<Rightarrow> map_sum id fst (revokeCredential now i sid r a d)
      | Replace i dg mode kv u \<Rightarrow> map_sum id fst (replaceCredential w now i dg sid mode kv u d)
      | Expire \<Rightarrow> Inr (fst (expireCredentials now sid d))
      | BulkEnroll es u \<Rightarrow> Inr (fst (bulkEnroll w now sid es u d)))"

definition badge_step :: "world \<Rightarrow> db \<Rightarrow> instant \<times> uuid \<times> badge_op \<Rightarrow> db" where
  "badge_step w d = (\<lambda>(now, sid, op). case badge_call w now sid op d of Inl _ \<Rightarrow> d | Inr d' \<Rightarrow> d')"

lemma map_sum_Inr_iff: "map_sum id f x = Inr y \<longleftrightarrow> (\<exists>z. x = Inr z \<and> y = f z)"
  by (cases x) auto

lemma badge_call_evolves: "badge_call w now sid op d = Inr d' \<Longrightarrow> evolves (t_credentials d) (t_credentials d')"
  by (cases op)
    (auto simp: badge_call_def map_sum_Inr_iff expireCredentials_evolves bulkEnroll_evolves
      dest: enrollCredential_evolves activateCredential_evolves suspendCredential_evolves
        reactivateCredential_evolves revokeCredential_evolves replaceCredential_evolves)

lemma badge_step_evolves: "evolves (t_credentials d) (t_credentials (badge_step w d e))"
  by (cases e) (auto simp: badge_step_def evolves_refl badge_call_evolves split: sum.split)

definition badge_gone :: "uuid \<Rightarrow> string \<Rightarrow> db \<Rightarrow> bool" where
  "badge_gone sid dg d \<longleftrightarrow> badges_unique (t_credentials d)
     \<and> (\<exists>c \<in> set (t_credentials d). rc_schoolId c = sid \<and> rc_credentialDigest c = dg \<and> dead (rc_status c))"

lemma evolves_gone:
  assumes "evolves (t_credentials d) (t_credentials d')" "badge_gone sid dg d"
  shows "badge_gone sid dg d'"
proof -
  obtain g new where g: "t_credentials d' = map g (t_credentials d) @ new" "keeps_badge g"
    using assms(1) unfolding evolves_def by blast
  obtain c where c: "c \<in> set (t_credentials d)" "rc_schoolId c = sid" "rc_credentialDigest c = dg" "dead (rc_status c)"
    using assms(2) unfolding badge_gone_def by blast
  then have "g c \<in> set (t_credentials d')" "rc_schoolId (g c) = sid" "rc_credentialDigest (g c) = dg" "dead (rc_status (g c))"
    using g by (auto simp: keeps_badge_def)
  with assms show ?thesis unfolding badge_gone_def evolves_def by blast
qed

interpretation gone: guarded_machine "badge_step w" "badge_gone sid dg" for w sid dg
  by unfold_locales (rule evolves_gone [OF badge_step_evolves])

lemma unique_badge:
  assumes "badges_unique t" "a \<in> set t" "b \<in> set t" "same_badge a b"
  shows "a = b"
  using assms
proof (induction t)
  case (Cons c t)
  have "same_badge b a" using Cons.prems(4) by (auto simp: same_badge_def)
  with Cons show ?case by (auto simp: badges_unique_def)
qed simp

lemma gone_badge_refused:
  assumes "badge_gone sid (nr_epcDigest r) d"
  shows "oc_decision (decideRead r (loadContext d sid date reads deb)) \<noteq> ACCEPTED"
proof
  assume "oc_decision (decideRead r (loadContext d sid date reads deb)) = ACCEPTED"
  then show False
  proof (cases rule: decideRead_acceptedE)
    case (1 cred student enr)
    from 1(3) obtain rc where rc: "rc \<in> set (t_credentials d)" "rc_schoolId rc = sid"
      "rc_credentialDigest rc = nr_epcDigest r" "rc_status rc = cr_status cred" by (rule loadContext_creds)
    obtain c where c: "c \<in> set (t_credentials d)" "same_badge c rc" "dead (rc_status c)" "badges_unique (t_credentials d)"
      using assms rc by (auto simp: badge_gone_def same_badge_def)
    with unique_badge rc have "c = rc" by blast
    with c rc 1(4) show False by (simp add: dead_def)
  qed
qed

text \<open>
  C12: Once a badge is revoked, the gate never accepts a read of it again in its school: not after any
  sequence of enrolments, activations, suspensions, reactivations, replacements, expiries and bulk
  enrolments by any school, failed calls included, because no operation leaves the final states and
  the unique index keeps a second badge with that digest out.
\<close>

theorem revoked_badge_is_refused:
  assumes "badges_unique (t_credentials d)" "revokeCredential now i sid reason actor d = Inr (d1, c)"
    and "nr_epcDigest r = rc_credentialDigest c"
  shows "oc_decision (decideRead r (loadContext (foldl (badge_step w) d1 calls) sid date reads deb)) \<noteq> ACCEPTED"
proof -
  have "badges_unique (t_credentials d1)"
    using revokeCredential_evolves [OF assms(2)] assms(1) by (simp add: evolves_def)
  moreover have "c \<in> set (t_credentials d1) \<and> rc_schoolId c = sid \<and> rc_status c = CRevoked"
    using assms(2) sel1_SomeD
    by (fastforce simp: revokeCredential_def change_badge_def Let_def in_upd split: option.splits)
  ultimately have "badge_gone sid (nr_epcDigest r) d1"
    using assms(3) by (auto simp: badge_gone_def dead_def)
  then show ?thesis by (intro gone_badge_refused gone.run_inv)
qed

theorem revoked_badge_is_refused_witness:
  "oc_decision (decideRead (example_normalized 0 5) (loadContext (foldl (badge_step example_world)
      (case revokeCredential 5 ''c'' ''s'' ''lost'' None example_db of Inr (d, _) \<Rightarrow> d | Inl _ \<Rightarrow> empty_db)
      [(6, ''s'', Activate ''c'' None), (7, ''s'', Reactivate ''c'' None None)]) ''s'' ''d''
      [example_normalized 0 5] {})) \<noteq> ACCEPTED"
proof -
  obtain d1 c where r: "revokeCredential 5 ''c'' ''s'' ''lost'' None example_db = Inr (d1, c)"
    "rc_credentialDigest c = ''E200341201B80201:s''"
    by (simp add: revokeCredential_def change_badge_def Let_def example_db_def)
  have "badges_unique (t_credentials example_db)" by code_simp
  moreover have "nr_epcDigest (example_normalized 0 5) = rc_credentialDigest c" using r(2) by (simp add: example_normalized_def)
  ultimately show ?thesis unfolding r(1) sum.case prod.case by (intro revoked_badge_is_refused [OF _ r(1)])
qed

section \<open>What a bulk enrolment reports\<close>

definition active_badge :: "uuid \<Rightarrow> uuid \<Rightarrow> db \<Rightarrow> bool" where
  "active_badge credentialId studentId d \<longleftrightarrow>
     (\<exists>c \<in> set (t_credentials d). rc_id c = credentialId \<and> rc_studentId c = studentId \<and> rc_status c = CActive)"

lemma activateCredential_rows:
  assumes "activateCredential now i sid a d = Inr (d', c)"
  shows "t_credentials d' = upd (\<lambda>x. rc_id x = i \<and> rc_schoolId x = sid \<and> rc_status x = CPending)
     (\<lambda>x. x\<lparr>rc_status := CActive, rc_activatedAt := Some now\<rparr>) (t_credentials d)"
  using assms by (auto simp: activateCredential_def change_badge_def Let_def split: option.splits)

lemma activate_keeps_active:
  assumes "activateCredential now i sid a d = Inr (d', c)" "active_badge k s d"
  shows "active_badge k s d'"
proof -
  obtain x where x: "x \<in> set (t_credentials d)" "rc_id x = k" "rc_studentId x = s" "rc_status x = CActive"
    using assms(2) unfolding active_badge_def by blast
  then have "x \<in> set (t_credentials d')" unfolding activateCredential_rows [OF assms(1)] in_upd by force
  with x show ?thesis unfolding active_badge_def by blast
qed

lemma enroll_adds_pending:
  assumes "enrollCredential w now sid p d = Inr (d', c)"
  shows "t_credentials d' = t_credentials d @ [c] \<and> rc_schoolId c = sid \<and> rc_studentId c = ep_studentId p
    \<and> rc_status c = CPending"
  using assms badge_index.insert_Some_iff
  by (auto simp: enrollCredential_def Let_def bind_result_Inr_iff createAuditLog_frame insert_credential_def
      split: if_splits option.splits)

lemma enroll_entry_active:
  assumes "enroll_entry w now sid op e d = Inr (d', r)"
  shows "br_success r \<and> (\<exists>i s. br_credentialId r = Some i \<and> br_studentId r = Some s \<and> active_badge i s d')
    \<and> (\<forall>k s. active_badge k s d \<longrightarrow> active_badge k s d')"
proof -
  obtain s p d1 c d2 c2 where 1: "enrollCredential w now sid p d = Inr (d1, c)" "ep_studentId p = s"
    "activateCredential now (rc_id c) sid (Some op) d1 = Inr (d2, c2)" "d' = d2"
    "br_success r" "br_credentialId r = Some (rc_id c)" "br_studentId r = Some s"
    using assms by (auto simp: enroll_entry_def bind_result_Inr_iff split: prod.splits)
  note n = enroll_adds_pending [OF 1(1)]
  have "active_badge (rc_id c) s d2"
    using n 1(2) by (simp add: active_badge_def activateCredential_rows [OF 1(3)])
  moreover have "active_badge k t d2" if "active_badge k t d" for k t
    using that n activate_keeps_active [OF 1(3)] by (auto simp: active_badge_def)
  ultimately show ?thesis using 1 by blast
qed

lemma bulk_loop_reports:
  assumes "bulk_loop w now sid op es ab d = (rs, ab', d')"
  shows "(ab \<longrightarrow> ab') \<and> (\<forall>k s. active_badge k s d \<longrightarrow> active_badge k s d')
    \<and> (\<not> ab' \<longrightarrow> (\<forall>r \<in> set rs. br_success r \<longrightarrow>
         (\<exists>i s. br_credentialId r = Some i \<and> br_studentId r = Some s \<and> active_badge i s d')))
    \<and> (ab' \<and> \<not> ab \<longrightarrow> (\<exists>r \<in> set rs. \<exists>what. br_error r = Some (DbErr what)))"
  using assms
proof (induction es arbitrary: ab d rs)
  case (Cons e es)
  show ?case
  proof (cases "\<not> ab \<and> (\<exists>x. enroll_entry w now sid op e d = Inr x)")
    case True
    then obtain d1 r where r: "\<not> ab" "enroll_entry w now sid op e d = Inr (d1, r)" by auto
    then obtain rs1 where rs1: "bulk_loop w now sid op es False d1 = (rs1, ab', d')" "rs = r # rs1"
      using Cons.prems by (auto split: prod.splits)
    note ih = Cons.IH [OF rs1(1)] and own = enroll_entry_active [OF r(2)]
    from own obtain i s where "br_credentialId r = Some i" "br_studentId r = Some s" "active_badge i s d1" by blast
    with ih own show ?thesis using r(1) unfolding rs1(2) by auto
  next
    case False
    then obtain err ab1 rs1 where rs1: "bulk_loop w now sid op es ab1 d = (rs1, ab', d')" "rs = failed_entry e err # rs1"
      "ab \<longrightarrow> ab1" "ab1 \<and> \<not> ab \<longrightarrow> (\<exists>what. err = DbErr what)"
      using Cons.prems by (fastforce split: if_splits sum.splits prod.splits error.splits)
    from Cons.IH [OF rs1(1)] rs1(3,4) show ?thesis unfolding rs1(2) by (auto simp: failed_entry_def)
  qed
qed simp

text \<open>
  C37: After a bulk enrolment either every badge reported as enrolled is in the table, active and its
  student's, or an entry met an error of the database and the table is as before the call: what is
  reported as a success is then lost, since nothing in the loop ends the aborted transaction.
\<close>

theorem bulk_enrolment_reports:
  "list_all (\<lambda>r. \<exists>i s. br_credentialId r = Some i \<and> br_studentId r = Some s
        \<and> active_badge i s (fst (bulkEnroll w now sid es op d))) (filter br_success (snd (bulkEnroll w now sid es op d)))
   \<or> (fst (bulkEnroll w now sid es op d) = d
      \<and> (\<exists>r \<in> set (snd (bulkEnroll w now sid es op d)). \<exists>what. br_error r = Some (DbErr what)))"
proof -
  obtain rs ab d' where l: "bulk_loop w now sid op es False d = (rs, ab, d')" by (rule prod_cases3)
  from bulk_loop_reports [OF l] show ?thesis unfolding bulkEnroll_def l by (cases ab) (auto simp: list_all_iff)
qed

definition example_badges :: db where
  "example_badges = example_db\<lparr>t_credentials := map (\<lambda>c. c\<lparr>rc_status := CRevoked\<rparr>) (t_credentials example_db),
     t_students := t_students example_db @ map (\<lambda>s. s\<lparr>st_id := ''p2''\<rparr>) (t_students example_db)\<rparr>"

definition example_entry :: "uuid \<Rightarrow> string \<Rightarrow> bulk_entry" where
  "example_entry s dg = \<lparr>be_studentId = Some s, be_studentCode = None, be_rollNumber = None, be_classSectionId = None,
     be_epc = None, be_credentialDigest = Some dg, be_securityMode = None, be_keyVersion = None\<rparr>"

text \<open>A card that was revoked is handed out again: the first entry is reported enrolled and is not.\<close>

lemma bulk_enrolment_loses_a_success:
  "map br_success (snd (bulkEnroll example_world 9 ''s'' [example_entry ''p'' ''new'', example_entry ''p2'' ''E200341201B80201:s'']
      ''op'' example_badges)) = [True, False]
   \<and> t_credentials (fst (bulkEnroll example_world 9 ''s'' [example_entry ''p'' ''new'', example_entry ''p2'' ''E200341201B80201:s'']
      ''op'' example_badges)) = t_credentials example_badges"
  by (rule conjI) code_simp+

end
