(* ===== verification/Import.thy ===== *)
theory Import
  imports Csv Qr
begin

text \<open>
  Models src/src/services/importService.ts: the validation of an uploaded list of students and the
  staged import behind a confirmation token, in its three modes.  Reading a JSON or spreadsheet file
  is done by the runtime and the exceljs package: their outcome is a parameter of the upload.
  Text is converted to upper case by the engine (\<open>unicode_upper\<close>).
\<close>

section \<open>Cells\<close>

definition digit :: "int \<Rightarrow> bool" where "digit c \<longleftrightarrow> 48 \<le> c \<and> c \<le> 57"

definition starts_with :: "ustring \<Rightarrow> ustring \<Rightarrow> bool" where
  "starts_with p s \<longleftrightarrow> take (length p) s = p"

definition normalizePhone :: "ustring \<Rightarrow> ustring" where
  "normalizePhone phone =
     (let digits = utrim (filter (\<lambda>c. digit c \<or> c = 43) phone) in
      if starts_with (utext ''+91'') digits then digits
      else if length digits = 10 then utext ''+91'' @ digits
      else if starts_with (utext ''91'') digits \<and> length digits = 12 then utext ''+'' @ digits
      else digits)"

definition sanitizeCell :: "world \<Rightarrow> cell option \<Rightarrow> ustring" where
  "sanitizeCell w val =
     (case val of None \<Rightarrow> [] | Some CNull \<Rightarrow> []
      | Some c \<Rightarrow> let str = utrim (cell_string w c) in
          if starts_in formula_chars str then dropWhile (\<lambda>x. x \<in> formula_chars) str else str)"

text \<open>\<open>a || b\<close> on the values of a row\<close>

definition cell_truthy :: "cell option \<Rightarrow> bool" where
  "cell_truthy v = (case v of None \<Rightarrow> False | Some CNull \<Rightarrow> False | Some (CText s) \<Rightarrow> s \<noteq> []
     | Some (CNumber n) \<Rightarrow> n \<noteq> None \<and> n \<noteq> Some 0 | Some (CBool b) \<Rightarrow> b)"

definition cell_or :: "cell option \<Rightarrow> cell option \<Rightarrow> cell option" where
  "cell_or a b = (if cell_truthy a then a else b)"

text \<open>\<open>parseInt(s, 10)\<close>: white space, a sign, and the digits that follow; \<open>None\<close> is NaN.\<close>

definition js_parseInt :: "ustring \<Rightarrow> int option" where
  "js_parseInt s =
     (let t = dropWhile u_space s;
          (neg, body) = (if t \<noteq> [] \<and> hd t = 45 then (True, tl t) else if t \<noteq> [] \<and> hd t = 43 then (False, tl t) else (False, t));
          ds = takeWhile digit body
      in if ds = [] then None
         else Some ((if neg then -1 else 1) * foldl (\<lambda>n c. 10 * n + (c - 48)) 0 ds))"

text \<open>Text of code points below 256, after a check that it is (ASCII patterns and lists of words).\<close>

definition ascii :: "ustring \<Rightarrow> string" where "ascii s = map char_of s"

section \<open>Reading a file\<close>

type_synonym raw_row = "(ustring \<times> cell) list"

datatype upload_content = CsvContent ustring | ParsedContent "raw_row list result"

record upload =
  up_schoolId :: uuid
  up_fileName :: string
  up_size :: nat
  up_hash :: string
  up_content :: upload_content
  up_createdBy :: uuid
  up_mode :: "import_mode option"

definition csv_row :: "ustring list \<Rightarrow> ustring list \<Rightarrow> raw_row" where
  "csv_row headers row =
     foldl (\<lambda>m i. AList.update (headers ! i) (CText (if i < length row then row ! i else [])) m) [] [0..<length headers]"

definition csv_rows :: "ustring \<Rightarrow> raw_row list result" where
  "csv_rows content =
     (let matrix = parseRfcCsv content in
      if length matrix < 2 then Inl (JsErr ''EMPTY_SHEET'')
      else let headers = map utrim (hd matrix)
           in Inr (filter (\<lambda>r. \<exists>v \<in> set r. snd v \<noteq> CText []) (map (csv_row headers) (tl matrix))))"

definition read_rows :: "upload_content \<Rightarrow> raw_row list result" where
  "read_rows c =
     bind_result (case c of CsvContent s \<Rightarrow> csv_rows s | ParsedContent r \<Rightarrow> r)
       (\<lambda>rows. if rows = [] then Inl (JsErr ''EMPTY_SHEET'') else Inr rows)"

section \<open>Validation of the rows\<close>

type_synonym row_error = "nat \<times> string \<times> ustring"

definition field2 :: "raw_row \<Rightarrow> string \<Rightarrow> string \<Rightarrow> cell option" where
  "field2 r a b = cell_or (map_of r (utext a)) (map_of r (utext b))"

text \<open>What a row says, before it is checked.\<close>

record row_values =
  rw_studentCode :: ustring
  rw_name :: ustring
  rw_nameBn :: ustring
  rw_banglarShikshaId :: ustring
  rw_className :: ustring
  rw_sectionName :: ustring
  rw_roll :: "int option"
  rw_gender :: ustring
  rw_dob :: ustring
  rw_guardianName :: ustring
  rw_phone :: ustring
  rw_relationship :: ustring

definition row_values_of :: "world \<Rightarrow> raw_row \<Rightarrow> row_values" where
  "row_values_of w r =
     (let rel = unicode_upper w (sanitizeCell w (field2 r ''Guardian Relationship'' ''guardianRelationship''));
          rollRaw = field2 r ''Roll Number'' ''rollNumber''
      in \<lparr>rw_studentCode = sanitizeCell w (field2 r ''Student Code'' ''studentCode''),
          rw_name = sanitizeCell w (cell_or (field2 r ''Student Name (English)'' ''name'') (map_of r (utext ''Student Name''))),
          rw_nameBn = sanitizeCell w (field2 r ''Bengali Name'' ''nameBn''),
          rw_banglarShikshaId = sanitizeCell w (field2 r ''Banglar Shiksha ID'' ''banglarShikshaId''),
          rw_className = sanitizeCell w (field2 r ''Class Name'' ''className''),
          rw_sectionName = sanitizeCell w (field2 r ''Section Name'' ''sectionName''),
          rw_roll = (case rollRaw of None \<Rightarrow> None | Some c \<Rightarrow> js_parseInt (cell_string w c)),
          rw_gender = unicode_upper w (sanitizeCell w (field2 r ''Gender'' ''gender'')),
          rw_dob = sanitizeCell w (field2 r ''Date of Birth (YYYY-MM-DD)'' ''dateOfBirth''),
          rw_guardianName = sanitizeCell w (field2 r ''Guardian Name'' ''guardianName''),
          rw_phone = normalizePhone (sanitizeCell w (field2 r ''Guardian Phone'' ''guardianPhone'')),
          rw_relationship = (if rel = [] then utext ''PARENT'' else rel)\<rparr>)"

definition validGenders :: "ustring list" where
  "validGenders = map utext [''MALE'', ''FEMALE'', ''TRANSGENDER'', ''OTHER'']"

definition validRelationships :: "ustring list" where
  "validRelationships = map utext [''FATHER'', ''MOTHER'', ''GUARDIAN'', ''PARENT'', ''OTHER'']"

text \<open>\<open>/^\d{4}-\d{2}-\d{2}$/\<close> and \<open>/^\+91[6-9]\d{9}$/\<close>\<close>

definition date_pattern :: "ustring \<Rightarrow> bool" where
  "date_pattern s \<longleftrightarrow> length s = 10 \<and> (\<forall>i \<in> {0, 1, 2, 3, 5, 6, 8, 9}. digit (s ! i)) \<and> s ! 4 = 45 \<and> s ! 7 = 45"

definition phone_pattern :: "ustring \<Rightarrow> bool" where
  "phone_pattern s \<longleftrightarrow> length s = 13 \<and> starts_with (utext ''+91'') s \<and> 54 \<le> s ! 3 \<and> s ! 3 \<le> 57 \<and> list_all digit (drop 4 s)"

definition class_roll_key :: "world \<Rightarrow> ustring \<Rightarrow> ustring \<Rightarrow> int \<Rightarrow> ustring" where
  "class_roll_key w className sectionName roll =
     unicode_upper w className @ 58 # unicode_upper w sectionName @ 58 # utext (show_int roll)"

text \<open>The two sets of what was seen in the upload: student codes, and rolls of a class section.\<close>

type_synonym seen = "ustring set \<times> ustring set"

definition code_errors :: "world \<Rightarrow> nat \<Rightarrow> row_values \<Rightarrow> ustring set \<Rightarrow> row_error list \<times> ustring set" where
  "code_errors w rowNum v codes =
     (if rw_studentCode v = [] then ([(rowNum, ''Student Code'', utext ''Student Code is required'')], codes)
      else if unicode_upper w (rw_studentCode v) \<in> codes
      then ([(rowNum, ''Student Code'', utext ''Duplicate Student Code in upload: '' @ rw_studentCode v)], codes)
      else ([], insert (unicode_upper w (rw_studentCode v)) codes))"

definition roll_errors :: "world \<Rightarrow> nat \<Rightarrow> row_values \<Rightarrow> ustring set \<Rightarrow> row_error list \<times> ustring set" where
  "roll_errors w rowNum v rolls =
     (case rw_roll v of
        None \<Rightarrow> ([(rowNum, ''Roll Number'', utext ''Valid positive Roll Number is required'')], rolls)
      | Some n \<Rightarrow>
          if n < 1 then ([(rowNum, ''Roll Number'', utext ''Valid positive Roll Number is required'')], rolls)
          else if rw_className v \<noteq> [] \<and> rw_sectionName v \<noteq> []
          then let key = class_roll_key w (rw_className v) (rw_sectionName v) n in
               if key \<in> rolls
               then ([(rowNum, ''Roll Number'', utext ''Duplicate Roll Number '' @ utext (show_int n) @ utext '' in ''
                        @ rw_className v @ 32 # rw_sectionName v)], rolls)
               else ([], insert key rolls)
          else ([], rolls))"

definition required :: "nat \<Rightarrow> string \<Rightarrow> ustring \<Rightarrow> row_error list" where
  "required rowNum column v = (if v = [] then [(rowNum, column, utext (column @ '' is required''))] else [])"

definition join_words :: "ustring list \<Rightarrow> ustring" where
  "join_words ws = join_with (utext '', '') ws"

definition other_errors :: "nat \<Rightarrow> row_values \<Rightarrow> row_error list" where
  "other_errors rowNum v =
     (if rw_gender v = [] \<or> rw_gender v \<notin> set validGenders
      then [(rowNum, ''Gender'', utext ''Gender must be one of: '' @ join_words validGenders)] else [])
     @ (if rw_dob v \<noteq> [] \<and> \<not> date_pattern (rw_dob v)
        then [(rowNum, ''Date of Birth'', utext ''Date of Birth must be in YYYY-MM-DD format'')] else [])
     @ required rowNum ''Guardian Name'' (rw_guardianName v)
     @ (if rw_phone v = [] \<or> \<not> phone_pattern (rw_phone v)
        then [(rowNum, ''Guardian Phone'', utext ''Valid 10-digit Indian phone number is required (+91)'')] else [])
     @ (if rw_relationship v \<noteq> [] \<and> rw_relationship v \<notin> set validRelationships
        then [(rowNum, ''Guardian Relationship'', utext ''Relationship must be one of: '' @ join_words validRelationships)] else [])"

definition check_row :: "world \<Rightarrow> nat \<Rightarrow> row_values \<Rightarrow> seen \<Rightarrow> row_error list \<times> seen" where
  "check_row w rowNum v = (\<lambda>(codes, rolls).
     let (e1, codes') = code_errors w rowNum v codes;
         (e2, rolls') = roll_errors w rowNum v rolls
     in (e1 @ required rowNum ''Student Name'' (rw_name v) @ required rowNum ''Class Name'' (rw_className v)
           @ required rowNum ''Section Name'' (rw_sectionName v) @ e2 @ other_errors rowNum v, (codes', rolls')))"

definition accepted_row :: "nat \<Rightarrow> row_values \<Rightarrow> student_row_in" where
  "accepted_row rowNum v =
     \<lparr>ri_rowNumber = rowNum, ri_studentCode = rw_studentCode v, ri_name = rw_name v,
      ri_nameBn = js_or (Some (rw_nameBn v)) None, ri_banglarShikshaId = js_or (Some (rw_banglarShikshaId v)) None,
      ri_className = rw_className v, ri_sectionName = rw_sectionName v, ri_rollNumber = the (rw_roll v),
      ri_gender = ascii (rw_gender v), ri_dateOfBirth = js_or (Some (ascii (rw_dob v))) None,
      ri_guardianName = rw_guardianName v, ri_guardianPhone = ascii (rw_phone v),
      ri_guardianRelationship = ascii (rw_relationship v)\<rparr>"

fun check_rows :: "world \<Rightarrow> nat \<Rightarrow> raw_row list \<Rightarrow> seen \<Rightarrow> row_error list \<times> student_row_in list" where
  "check_rows w rowNum [] seen = ([], [])"
| "check_rows w rowNum (r # rs) seen =
     (let v = row_values_of w r;
          (errs, seen') = check_row w rowNum v seen;
          (moreErrs, valid) = check_rows w (Suc rowNum) rs seen'
      in (errs @ moreErrs, (if errs = [] then [accepted_row rowNum v] else []) @ valid))"

definition existing_codes :: "world \<Rightarrow> uuid \<Rightarrow> student_row_in list \<Rightarrow> db \<Rightarrow> ustring set" where
  "existing_codes w schoolId rows d =
     set (map (\<lambda>s. unicode_upper w (st_studentCode s))
       (filter (\<lambda>s. st_schoolId s = schoolId \<and> st_studentCode s \<in> set (map ri_studentCode rows)) (t_students d)))"

definition mode_errors :: "world \<Rightarrow> import_mode \<Rightarrow> ustring set \<Rightarrow> student_row_in list \<Rightarrow> row_error list" where
  "mode_errors w mode existing rows =
     (case mode of
        CREATE_ONLY \<Rightarrow> map (\<lambda>r. (ri_rowNumber r, ''Student Code'',
              utext ''Student Code already exists in database (CREATE_ONLY mode): '' @ ri_studentCode r))
            (filter (\<lambda>r. unicode_upper w (ri_studentCode r) \<in> existing) rows)
      | UPDATE_EXISTING \<Rightarrow> map (\<lambda>r. (ri_rowNumber r, ''Student Code'',
              utext ''Student Code does not exist in database (UPDATE_EXISTING mode): '' @ ri_studentCode r))
            (filter (\<lambda>r. unicode_upper w (ri_studentCode r) \<notin> existing) rows)
      | UPSERT \<Rightarrow> [])"

section \<open>Staging\<close>

definition busy :: "uuid \<Rightarrow> import_job \<Rightarrow> bool" where
  "busy schoolId j \<longleftrightarrow> ij_schoolId j = schoolId \<and> ij_status j \<in> {''PROCESSING'', ''VALIDATING''}"

definition stale_job :: "error_summary \<Rightarrow> import_job \<Rightarrow> import_job" where
  "stale_job e j = j\<lparr>ij_status := ''FAILED'', ij_stagedData := None, ij_errorSummary := Some e\<rparr>"

text \<open>The stale jobs are failed even when another job is in progress.\<close>

definition acquireImportLock :: "instant \<Rightarrow> uuid \<Rightarrow> db \<Rightarrow> db \<times> unit result" where
  "acquireImportLock now schoolId d =
     (let jobs = upd (\<lambda>j. busy schoolId j \<and> ij_createdAt j < now - 3600000)
                   (stale_job (ErrorMsg ''STALE_IMPORT_TIMED_OUT'')) (t_importJobs d)
      in (d\<lparr>t_importJobs := jobs\<rparr>,
          throw_if (sel1 (busy schoolId) jobs \<noteq> None) (JsErr ''ANOTHER_IMPORT_IN_PROGRESS'')))"

definition current_year_of :: "uuid \<Rightarrow> db \<Rightarrow> academic_year option" where
  "current_year_of schoolId d = sel1 (\<lambda>y. ay_schoolId y = schoolId \<and> ay_isCurrent y) (t_academicYears d)"

record validation_outcome =
  vo_importJobId :: uuid
  vo_status :: string
  vo_confirmToken :: "string option"
  vo_mode :: import_mode
  vo_totalRows :: nat
  vo_validRowsCount :: nat
  vo_errors :: "row_error list"
  vo_validRowsPreview :: "student_row_in list"

definition stage_job :: "world \<Rightarrow> instant \<Rightarrow> upload \<Rightarrow> nat \<Rightarrow> row_error list \<Rightarrow> student_row_in list \<Rightarrow> db \<Rightarrow> import_job" where
  "stage_job w now u totalRows errors valid d =
     \<lparr>ij_id = gen_uuid w (seq d), ij_schoolId = up_schoolId u, ij_fileName = up_fileName u,
      ij_status = (if errors = [] then ''VALIDATED'' else ''FAILED''), ij_totalRows = totalRows, ij_successfulRows = 0,
      ij_failedRows = length errors,
      ij_errorSummary = (if errors = [] then None else Some (RowErrors (take 100 errors) (length errors))),
      ij_stagedData = (if errors = []
         then Some \<lparr>sd_rows = valid, sd_confirmToken = Some (gen_token w (seq d)),
                    sd_mode = (case up_mode u of None \<Rightarrow> CREATE_ONLY | Some m \<Rightarrow> m), sd_fileHash = up_hash u,
                    sd_userId = up_createdBy u, sd_schoolId = up_schoolId u, sd_expiresAt = now + 3600000\<rparr>
         else None),
      ij_createdBy = up_createdBy u, ij_createdAt = now\<rparr>"

definition parseAndValidateFile :: "world \<Rightarrow> instant \<Rightarrow> upload \<Rightarrow> db \<Rightarrow> db \<times> validation_outcome result" where
  "parseAndValidateFile w now u d =
     (case acquireImportLock now (up_schoolId u) d of
        (d1, Inl e) \<Rightarrow> (d1, Inl e)
      | (d1, Inr _) \<Rightarrow>
          if 10485760 < up_size u then (d1, Inl (JsErr ''FILE_SIZE_LIMIT_EXCEEDED''))
          else case read_rows (up_content u) of
            Inl e \<Rightarrow> (d1, Inl e)
          | Inr rawRows \<Rightarrow>
              if current_year_of (up_schoolId u) d1 = None then (d1, Inl (JsErr ''NO_CURRENT_ACADEMIC_YEAR''))
              else let mode = (case up_mode u of None \<Rightarrow> CREATE_ONLY | Some m \<Rightarrow> m);
                       (rowErrs, valid) = check_rows w 2 rawRows ({}, {});
                       errors = rowErrs @ (if valid = [] then []
                         else mode_errors w mode (existing_codes w (up_schoolId u) valid d1) valid);
                       job = stage_job w now u (length rawRows) errors valid d1
                   in (d1\<lparr>t_importJobs := t_importJobs d1 @ [job], seq := Suc (seq d1)\<rparr>,
                       Inr \<lparr>vo_importJobId = ij_id job, vo_status = ij_status job,
                            vo_confirmToken = (if errors = [] then Some (gen_token w (seq d1)) else None),
                            vo_mode = mode, vo_totalRows = length rawRows,
                            vo_validRowsCount = (if errors = [] then length valid else 0),
                            vo_errors = errors, vo_validRowsPreview = take 50 valid\<rparr>))"

section \<open>Execution\<close>

text \<open>The lengths of the two buffers are compared before their bytes.\<close>

definition verifyConfirmationToken :: "string \<Rightarrow> string \<Rightarrow> bool" where
  "verifyConfirmationToken provided expected \<longleftrightarrow> provided \<noteq> [] \<and> expected \<noteq> [] \<and> provided = expected"

subsection \<open>Inserts\<close>

definition insert_section :: "class_section \<Rightarrow> db \<Rightarrow> db result" where
  "insert_section c d =
     (if \<exists>x \<in> set (t_classSections d). cs_schoolId x = cs_schoolId c \<and> cs_academicYearId x = cs_academicYearId c
           \<and> cs_className x = cs_className c \<and> cs_sectionName x = cs_sectionName c
      then Inl (DbErr ''class_sections_unique_idx'')
      else Inr (d\<lparr>t_classSections := t_classSections d @ [c], seq := Suc (seq d)\<rparr>))"

definition insert_guardian :: "guardian \<Rightarrow> db \<Rightarrow> db" where
  "insert_guardian g d = d\<lparr>t_guardians := t_guardians d @ [g], seq := Suc (seq d)\<rparr>"

definition insert_student :: "student \<Rightarrow> db \<Rightarrow> db result" where
  "insert_student s d =
     (if \<exists>x \<in> set (t_students d). st_schoolId x = st_schoolId s \<and> st_studentCode x = st_studentCode s
      then Inl (DbErr ''students_school_code_idx'')
      else Inr (d\<lparr>t_students := t_students d @ [s], seq := Suc (seq d)\<rparr>))"

definition enr_clash :: "enrollment \<Rightarrow> enrollment \<Rightarrow> bool" where
  "enr_clash a b \<longleftrightarrow> en_schoolId a = en_schoolId b \<and> en_classSectionId a = en_classSectionId b
     \<and> en_rollNumber a = en_rollNumber b \<and> en_academicYearId a = en_academicYearId b"

definition fits_int4 :: "int \<Rightarrow> bool" where
  "fits_int4 n \<longleftrightarrow> - 2147483648 \<le> n \<and> n \<le> 2147483647"

definition insert_enrollment :: "enrollment \<Rightarrow> db \<Rightarrow> db result" where
  "insert_enrollment e d =
     (if \<not> fits_int4 (en_rollNumber e) then Inl (DbErr ''integer out of range'')
      else if \<exists>x \<in> set (t_enrollments d). enr_clash x e then Inl (DbErr ''enrollments_roll_unique_idx'')
      else Inr (d\<lparr>t_enrollments := t_enrollments d @ [e], seq := Suc (seq d)\<rparr>))"

definition insert_student_guardian :: "student_guardian \<Rightarrow> db \<Rightarrow> db result" where
  "insert_student_guardian g d =
     (if \<exists>x \<in> set (t_studentGuardians d). sg_studentId x = sg_studentId g \<and> sg_guardianId x = sg_guardianId g
      then Inl (DbErr ''student_guardians_pkey'')
      else Inr (d\<lparr>t_studentGuardians := t_studentGuardians d @ [g]\<rparr>))"

text \<open>Several statements in a row; the first error ends them.\<close>

fun each :: "('a \<Rightarrow> db \<Rightarrow> (db \<times> 'b) result) \<Rightarrow> 'a list \<Rightarrow> db \<Rightarrow> (db \<times> 'b list) result" where
  "each f [] d = Inr (d, [])"
| "each f (x # xs) d = bind_result (f x d) (\<lambda>(d1, y). bind_result (each f xs d1) (\<lambda>(d2, ys). Inr (d2, y # ys)))"

definition stmt :: "(db \<Rightarrow> db result) \<Rightarrow> db \<Rightarrow> (db \<times> unit) result" where
  "stmt f d = bind_result (f d) (\<lambda>d1. Inr (d1, ()))"

subsection \<open>Sections and guardians\<close>

definition section_key :: "world \<Rightarrow> ustring \<Rightarrow> ustring \<Rightarrow> ustring" where
  "section_key w className sectionName = unicode_upper w className @ 58 # unicode_upper w sectionName"

type_synonym id_map = "(ustring \<times> uuid) list"

definition section_map :: "world \<Rightarrow> uuid \<Rightarrow> uuid \<Rightarrow> db \<Rightarrow> id_map" where
  "section_map w schoolId yearId d =
     js_map (map (\<lambda>c. (section_key w (cs_className c) (cs_sectionName c), cs_id c))
       (filter (\<lambda>c. cs_schoolId c = schoolId \<and> cs_academicYearId c = yearId) (t_classSections d)))"

fun ensure_sections :: "world \<Rightarrow> uuid \<Rightarrow> uuid \<Rightarrow> student_row_in list \<Rightarrow> id_map \<Rightarrow> db \<Rightarrow> (db \<times> id_map) result" where
  "ensure_sections w schoolId yearId [] m d = Inr (d, m)"
| "ensure_sections w schoolId yearId (r # rs) m d =
     (let key = section_key w (ri_className r) (ri_sectionName r) in
      if map_of m key \<noteq> None then ensure_sections w schoolId yearId rs m d
      else bind_result (insert_section \<lparr>cs_id = gen_uuid w (seq d), cs_schoolId = schoolId, cs_academicYearId = yearId,
                          cs_className = ri_className r, cs_sectionName = ri_sectionName r\<rparr> d)
             (ensure_sections w schoolId yearId rs (AList.update key (gen_uuid w (seq d)) m)))"

type_synonym phone_map = "(string \<times> uuid) list"

definition guardian_map :: "uuid \<Rightarrow> student_row_in list \<Rightarrow> db \<Rightarrow> phone_map" where
  "guardian_map schoolId rows d =
     js_map (map (\<lambda>g. (gu_phoneNumber g, gu_id g))
       (filter (\<lambda>g. gu_schoolId g = schoolId \<and> gu_phoneNumber g \<in> set (map ri_guardianPhone rows) \<and> gu_phoneNumber g \<noteq> [])
         (t_guardians d)))"

fun ensure_guardians :: "world \<Rightarrow> uuid \<Rightarrow> student_row_in list \<Rightarrow> phone_map \<Rightarrow> db \<Rightarrow> db \<times> phone_map" where
  "ensure_guardians w schoolId [] m d = (d, m)"
| "ensure_guardians w schoolId (r # rs) m d =
     (if map_of m (ri_guardianPhone r) \<noteq> None then ensure_guardians w schoolId rs m d
      else ensure_guardians w schoolId rs (AList.update (ri_guardianPhone r) (gen_uuid w (seq d)) m)
             (insert_guardian \<lparr>gu_id = gen_uuid w (seq d), gu_schoolId = schoolId, gu_name = ri_guardianName r,
                gu_phoneNumber = ri_guardianPhone r,
                gu_relationship = the (js_or (Some (ri_guardianRelationship r)) (Some ''PARENT'')),
                gu_smsOptOut = False\<rparr> d))"

subsection \<open>Students\<close>

record processed =
  pr_studentId :: uuid
  pr_mode :: string

definition find_student :: "uuid \<Rightarrow> student_row_in \<Rightarrow> db \<Rightarrow> student option" where
  "find_student schoolId r d =
     sel1 (\<lambda>s. st_schoolId s = schoolId \<and> st_studentCode s = ri_studentCode r) (t_students d)"

definition section_of :: "world \<Rightarrow> id_map \<Rightarrow> student_row_in \<Rightarrow> uuid" where
  "section_of w m r = the (map_of m (section_key w (ri_className r) (ri_sectionName r)))"

definition new_student :: "world \<Rightarrow> uuid \<Rightarrow> student_row_in \<Rightarrow> nat \<Rightarrow> student" where
  "new_student w schoolId r n =
     \<lparr>st_id = gen_uuid w n, st_schoolId = schoolId, st_studentCode = ri_studentCode r,
      st_banglarShikshaId = js_or (ri_banglarShikshaId r) None, st_name = ri_name r, st_nameBn = js_or (ri_nameBn r) None,
      st_dateOfBirth = js_or (ri_dateOfBirth r) None, st_gender = Some (ri_gender r), st_photoUrl = None,
      st_status = ''ACTIVE''\<rparr>"

definition new_enrollment :: "world \<Rightarrow> instant \<Rightarrow> uuid \<Rightarrow> uuid \<Rightarrow> id_map \<Rightarrow> uuid \<Rightarrow> student_row_in \<Rightarrow> nat \<Rightarrow> enrollment" where
  "new_enrollment w now schoolId yearId secs studentId r n =
     \<lparr>en_id = gen_uuid w n, en_schoolId = schoolId, en_studentId = studentId, en_classSectionId = section_of w secs r,
      en_academicYearId = yearId, en_rollNumber = ri_rollNumber r, en_startDate = take 10 (iso_string w now),
      en_status = ''ACTIVE''\<rparr>"

definition update_student :: "student_row_in \<Rightarrow> student \<Rightarrow> db \<Rightarrow> db" where
  "update_student r ex d =
     d\<lparr>t_students := upd (\<lambda>s. st_id s = st_id ex)
        (\<lambda>s. s\<lparr>st_name := ri_name r, st_nameBn := js_or (ri_nameBn r) (st_nameBn ex),
               st_banglarShikshaId := js_or (ri_banglarShikshaId r) (st_banglarShikshaId ex),
               st_gender := Some (ri_gender r), st_dateOfBirth := js_or (ri_dateOfBirth r) (st_dateOfBirth ex)\<rparr>) (t_students d)\<rparr>"

definition move_enrollment :: "world \<Rightarrow> uuid \<Rightarrow> uuid \<Rightarrow> id_map \<Rightarrow> student_row_in \<Rightarrow> uuid \<Rightarrow> db \<Rightarrow> db result" where
  "move_enrollment w schoolId yearId secs r studentId d =
     (let p = (\<lambda>e. en_schoolId e = schoolId \<and> en_studentId e = studentId \<and> en_academicYearId e = yearId);
          t = upd p (\<lambda>e. e\<lparr>en_classSectionId := section_of w secs r, en_rollNumber := ri_rollNumber r\<rparr>) (t_enrollments d)
      in if filter p (t_enrollments d) \<noteq> [] \<and> \<not> fits_int4 (ri_rollNumber r) then Inl (DbErr ''integer out of range'')
         else if \<not> sorted_wrt (\<lambda>a b. \<not> enr_clash a b) t then Inl (DbErr ''enrollments_roll_unique_idx'')
         else Inr (d\<lparr>t_enrollments := t\<rparr>))"

definition update_row ::
  "world \<Rightarrow> uuid \<Rightarrow> uuid \<Rightarrow> id_map \<Rightarrow> student_row_in \<Rightarrow> student \<Rightarrow> db \<Rightarrow> (db \<times> processed list) result" where
  "update_row w schoolId yearId secs r ex d =
     bind_result (move_enrollment w schoolId yearId secs r (st_id ex) (update_student r ex d))
       (\<lambda>d1. Inr (d1, [\<lparr>pr_studentId = st_id ex, pr_mode = ''UPDATED''\<rparr>]))"

definition import_update ::
  "world \<Rightarrow> uuid \<Rightarrow> uuid \<Rightarrow> id_map \<Rightarrow> student_row_in \<Rightarrow> db \<Rightarrow> (db \<times> processed list) result" where
  "import_update w schoolId yearId secs r d =
     (case find_student schoolId r d of
        None \<Rightarrow> Inr (d, [])
      | Some ex \<Rightarrow> update_row w schoolId yearId secs r ex d)"

definition import_upsert ::
  "world \<Rightarrow> instant \<Rightarrow> uuid \<Rightarrow> uuid \<Rightarrow> id_map \<Rightarrow> phone_map \<Rightarrow> student_row_in \<Rightarrow> db \<Rightarrow> (db \<times> processed list) result" where
  "import_upsert w now schoolId yearId secs phones r d =
     (case find_student schoolId r d of
        Some ex \<Rightarrow> update_row w schoolId yearId secs r ex d
      | None \<Rightarrow>
          let s = new_student w schoolId r (seq d) in
          bind_result (insert_student s d) (\<lambda>d1.
          bind_result (insert_enrollment (new_enrollment w now schoolId yearId secs (st_id s) r (seq d1)) d1) (\<lambda>d2.
          bind_result (insert_student_guardian \<lparr>sg_studentId = st_id s,
              sg_guardianId = the (map_of phones (ri_guardianPhone r)), sg_isPrimary = True\<rparr> d2) (\<lambda>d3.
          bind_result (createQrCredential w now schoolId (st_id s) d3) (\<lambda>(d4, _).
            Inr (d4, [\<lparr>pr_studentId = st_id s, pr_mode = ''CREATED''\<rparr>]))))))"

text \<open>A chunk of CREATE_ONLY: all students, then all enrolments, all guardians and all QR codes.\<close>

definition import_chunk ::
  "world \<Rightarrow> instant \<Rightarrow> uuid \<Rightarrow> uuid \<Rightarrow> id_map \<Rightarrow> phone_map \<Rightarrow> student_row_in list \<Rightarrow> db \<Rightarrow> (db \<times> processed list) result" where
  "import_chunk w now schoolId yearId secs phones chunk d =
     bind_result (each (\<lambda>r d. let s = new_student w schoolId r (seq d)
                             in bind_result (insert_student s d) (\<lambda>d1. Inr (d1, (r, st_id s)))) chunk d) (\<lambda>(d1, ins).
     bind_result (each (\<lambda>(r, sid). stmt (\<lambda>d. insert_enrollment
                    (new_enrollment w now schoolId yearId secs sid r (seq d)) d)) ins d1) (\<lambda>(d2, _).
     bind_result (each (\<lambda>(r, sid). stmt (insert_student_guardian \<lparr>sg_studentId = sid,
                    sg_guardianId = the (map_of phones (ri_guardianPhone r)), sg_isPrimary = True\<rparr>)) ins d2) (\<lambda>(d3, _).
     bind_result (each (\<lambda>(r, sid) d. createQrCredential w now schoolId sid d) ins d3) (\<lambda>(d4, _).
       Inr (d4, map (\<lambda>(r, sid). \<lparr>pr_studentId = sid, pr_mode = ''CREATED''\<rparr>) ins)))))"

definition CHUNK_SIZE :: nat where "CHUNK_SIZE = 100"

definition complete_job :: "uuid \<Rightarrow> nat \<Rightarrow> db \<Rightarrow> db" where
  "complete_job jobId n d =
     d\<lparr>t_importJobs := upd (\<lambda>j. ij_id j = jobId)
        (\<lambda>j. j\<lparr>ij_status := ''COMPLETED'', ij_successfulRows := n, ij_failedRows := 0, ij_stagedData := None\<rparr>) (t_importJobs d)\<rparr>"

definition import_tx ::
  "world \<Rightarrow> instant \<Rightarrow> uuid \<Rightarrow> uuid \<Rightarrow> uuid \<Rightarrow> import_mode \<Rightarrow> student_row_in list \<Rightarrow> db \<Rightarrow> (db \<times> processed list) result" where
  "import_tx w now schoolId yearId jobId mode rows d =
     bind_result (ensure_sections w schoolId yearId rows (section_map w schoolId yearId d) d) (\<lambda>(d1, secs).
     case ensure_guardians w schoolId rows (guardian_map schoolId rows d1) d1 of (d2, phones) \<Rightarrow>
     bind_result (case mode of
         UPDATE_EXISTING \<Rightarrow> each (import_update w schoolId yearId secs) rows d2
       | UPSERT \<Rightarrow> each (import_upsert w now schoolId yearId secs phones) rows d2
       | CREATE_ONLY \<Rightarrow> each (import_chunk w now schoolId yearId secs phones) (chunks CHUNK_SIZE rows) d2)
     (\<lambda>(d3, done). Inr (complete_job jobId (length rows) d3, concat done)))"

definition error_message :: "error \<Rightarrow> string" where
  "error_message e = (case e of AppErr c _ \<Rightarrow> c | JsErr m \<Rightarrow> m | DbErr m \<Rightarrow> m)"

subsection \<open>The confirmed import\<close>

definition set_job :: "uuid \<Rightarrow> (import_job \<Rightarrow> import_job) \<Rightarrow> db \<Rightarrow> db" where
  "set_job jobId f d = d\<lparr>t_importJobs := upd (\<lambda>j. ij_id j = jobId) f (t_importJobs d)\<rparr>"

text \<open>
  The import itself runs in a savepoint of the request: when it fails, the job is failed and the error
  wrapped.  Staged data kept as a bare array by older versions is not modelled.
\<close>

definition executeTransactionalImport ::
  "world \<Rightarrow> instant \<Rightarrow> uuid \<Rightarrow> uuid \<Rightarrow> string \<Rightarrow> db \<Rightarrow> db \<times> processed list result" where
  "executeTransactionalImport w now schoolId jobId confirmToken d =
     (case sel1 (\<lambda>j. ij_schoolId j = schoolId \<and> ij_id j = jobId) (t_importJobs d) of
        None \<Rightarrow> (d, Inl (JsErr ''IMPORT_JOB_NOT_FOUND''))
      | Some job \<Rightarrow>
          if ij_status job \<noteq> ''VALIDATED'' then (d, Inl (JsErr ''INVALID_JOB_STATUS''))
          else case ij_stagedData job of
            None \<Rightarrow> (d, Inl (JsErr ''STAGED_DATA_EXPIRED_OR_NOT_FOUND''))
          | Some sd \<Rightarrow>
              if confirmToken = [] \<or> \<not> truthy (sd_confirmToken sd)
                 \<or> \<not> verifyConfirmationToken confirmToken (the (sd_confirmToken sd))
              then (d, Inl (JsErr ''INVALID_CONFIRMATION_TOKEN''))
              else if sd_schoolId sd \<noteq> [] \<and> sd_schoolId sd \<noteq> schoolId then (d, Inl (JsErr ''TOKEN_TENANT_MISMATCH''))
              else if sd_expiresAt sd < now
              then (set_job jobId (stale_job (ErrorMsg ''CONFIRMATION_TOKEN_EXPIRED'')) d,
                    Inl (JsErr ''CONFIRMATION_TOKEN_EXPIRED''))
              else case current_year_of schoolId d of
                None \<Rightarrow> (d, Inl (JsErr ''NO_CURRENT_ACADEMIC_YEAR''))
              | Some year \<Rightarrow>
                  let d1 = set_job jobId (\<lambda>j. j\<lparr>ij_status := ''PROCESSING'',
                             ij_stagedData := Some (sd\<lparr>sd_confirmToken := None\<rparr>)\<rparr>) d
                  in case import_tx w now schoolId (ay_id year) jobId (sd_mode sd) (sd_rows sd) d1 of
                       Inr (d2, done) \<Rightarrow> (d2, Inr done)
                     | Inl e \<Rightarrow> (set_job jobId (\<lambda>j. (stale_job (ErrorMsg (error_message e)) j)\<lparr>ij_failedRows := length (sd_rows sd)\<rparr>) d1,
                                Inl (JsErr (''IMPORT_TRANSACTION_FAILED: '' @ error_message e))))"

section \<open>Frames\<close>

text \<open>What the inserts of an import keep: rows are only added, and jobs and the other tables stay.\<close>

definition extends :: "db \<Rightarrow> db \<Rightarrow> bool" where
  "extends d d' \<longleftrightarrow> set (t_students d) \<subseteq> set (t_students d') \<and> set (t_enrollments d) \<subseteq> set (t_enrollments d')
     \<and> set (t_classSections d) \<subseteq> set (t_classSections d') \<and> set (t_guardians d) \<subseteq> set (t_guardians d')
     \<and> set (t_studentGuardians d) \<subseteq> set (t_studentGuardians d') \<and> set (t_qrCredentials d) \<subseteq> set (t_qrCredentials d')"

lemma extends_refl [intro]: "extends d d"
  by (simp add: extends_def)

lemma extends_trans [trans]: "extends d d' \<Longrightarrow> extends d' d'' \<Longrightarrow> extends d d''"
  unfolding extends_def by blast

named_theorems import_frame \<open>the statements of an import keep the jobs and extend the tables\<close>

lemma insert_section_frame [import_frame]:
  "insert_section c d = Inr d' \<Longrightarrow> t_importJobs d' = t_importJobs d \<and> extends d d' \<and> c \<in> set (t_classSections d')"
  by (auto simp: insert_section_def extends_def split: if_splits)

lemma insert_guardian_frame:
  "t_importJobs (insert_guardian g d) = t_importJobs d \<and> extends d (insert_guardian g d) \<and> g \<in> set (t_guardians (insert_guardian g d))"
  by (auto simp: insert_guardian_def extends_def)

lemma insert_student_frame [import_frame]:
  "insert_student s d = Inr d' \<Longrightarrow> t_importJobs d' = t_importJobs d \<and> extends d d' \<and> s \<in> set (t_students d')"
  by (auto simp: insert_student_def extends_def split: if_splits)

lemma insert_enrollment_frame [import_frame]:
  "insert_enrollment e d = Inr d' \<Longrightarrow> t_importJobs d' = t_importJobs d \<and> extends d d' \<and> e \<in> set (t_enrollments d')"
  by (auto simp: insert_enrollment_def extends_def split: if_splits)

lemma insert_student_guardian_frame [import_frame]:
  "insert_student_guardian g d = Inr d' \<Longrightarrow> t_importJobs d' = t_importJobs d \<and> extends d d' \<and> g \<in> set (t_studentGuardians d')"
  by (auto simp: insert_student_guardian_def extends_def split: if_splits)

lemma createQrCredential_frame [import_frame]:
  "createQrCredential w now sid s d = Inr (d', c, raw) \<Longrightarrow>
     t_importJobs d' = t_importJobs d \<and> extends d d' \<and> c \<in> set (t_qrCredentials d') \<and> active_qr sid s c"
  using qr_index.insert_Some_iff
  by (auto simp: createQrCredential_def generateSecureQrToken_def Let_def active_qr_def extends_def split: option.splits)

subsection \<open>Statements in a row\<close>

lemma each_keeps:
  assumes "each f xs d = Inr (d', ys)" "\<And>x d d1 y. f x d = Inr (d1, y) \<Longrightarrow> R d d1"
    and "\<And>d. R d d" "\<And>a b c. R a b \<Longrightarrow> R b c \<Longrightarrow> R a c"
  shows "R d d'"
  using assms(1)
proof (induction xs arbitrary: d ys)
  case (Cons x xs)
  then obtain d1 y zs where "f x d = Inr (d1, y)" "each f xs d1 = Inr (d', zs)"
    by (auto simp: bind_result_Inr_iff split: prod.splits)
  with Cons.IH assms(2,4) show ?case by blast
qed (simp add: assms(3))

text \<open>What each statement establishes lasts to the end when later statements keep it.\<close>

lemma each_establishes:
  assumes "each f xs d = Inr (d', ys)"
    and "\<And>x d d1 y. x \<in> set xs \<Longrightarrow> R start d \<Longrightarrow> f x d = Inr (d1, y) \<Longrightarrow> R d d1 \<and> Q x y d1"
    and "\<And>x y a b. R a b \<Longrightarrow> Q x y a \<Longrightarrow> Q x y b"
    and "\<And>d. R d d" "\<And>a b c. R a b \<Longrightarrow> R b c \<Longrightarrow> R a c" "R start d"
  shows "R d d' \<and> list_all2 (\<lambda>x y. Q x y d') xs ys"
  using assms(1,2,6)
proof (induction xs arbitrary: d ys)
  case Nil
  then show ?case by (simp add: assms(4))
next
  case (Cons x xs)
  from Cons.prems(1) obtain d1 y zs where s: "f x d = Inr (d1, y)" "each f xs d1 = Inr (d', zs)" "ys = y # zs"
    by (auto simp: bind_result_Inr_iff split: prod.splits)
  have 1: "R d d1 \<and> Q x y d1" using Cons.prems(2) [of x d d1 y] Cons.prems(3) s(1) by simp
  have 2: "R d1 d' \<and> list_all2 (\<lambda>x y. Q x y d') xs zs"
    using Cons.IH [OF s(2)] Cons.prems(2,3) 1 assms(5) by (meson list.set_intros(2))
  show ?case using 1 2 assms(3,5) s(3) by auto
qed

lemma each_extends:
  assumes "each f xs d = Inr (d', ys)"
    and "\<And>x d d1 y. x \<in> set xs \<Longrightarrow> extends start d \<Longrightarrow> f x d = Inr (d1, y) \<Longrightarrow> extends d d1 \<and> Q x y d1"
    and "\<And>x y a b. extends a b \<Longrightarrow> Q x y a \<Longrightarrow> Q x y b" "extends start d"
  shows "extends d d' \<and> list_all2 (\<lambda>x y. Q x y d') xs ys"
  by (rule each_establishes [OF assms(1), where R = extends and start = start and Q = Q])
    (fact assms(2) assms(3) extends_refl extends_trans assms(4))+

lemma list_all2_leftD: "list_all2 (\<lambda>x y. P x) xs ys \<Longrightarrow> \<forall>x \<in> set xs. P x"
  by (induction rule: list_all2_induct) simp_all

lemma ensure_sections_frame:
  assumes "ensure_sections w sid yid rows m d = Inr (d', m')"
    and "\<forall>k i. map_of m k = Some i \<longrightarrow> (\<exists>c \<in> set (t_classSections d). cs_id c = i \<and> cs_schoolId c = sid
           \<and> cs_academicYearId c = yid \<and> section_key w (cs_className c) (cs_sectionName c) = k)"
  shows "t_importJobs d' = t_importJobs d \<and> extends d d' \<and> dom (map_of m) \<subseteq> dom (map_of m')
    \<and> (\<forall>r \<in> set rows. section_key w (ri_className r) (ri_sectionName r) \<in> dom (map_of m'))
    \<and> (\<forall>k i. map_of m' k = Some i \<longrightarrow> (\<exists>c \<in> set (t_classSections d'). cs_id c = i \<and> cs_schoolId c = sid
           \<and> cs_academicYearId c = yid \<and> section_key w (cs_className c) (cs_sectionName c) = k))"
  using assms
proof (induction rows arbitrary: m d)
  case (Cons r rows)
  let ?k = "section_key w (ri_className r) (ri_sectionName r)"
  let ?c = "\<lparr>cs_id = gen_uuid w (seq d), cs_schoolId = sid, cs_academicYearId = yid,
             cs_className = ri_className r, cs_sectionName = ri_sectionName r\<rparr>"
  show ?case
  proof (cases "map_of m ?k = None")
    case False
    with Cons.prems(1) have "ensure_sections w sid yid rows m d = Inr (d', m')" by (simp add: Let_def)
    from Cons.IH [OF this Cons.prems(2)] False show ?thesis by auto
  next
    case True
    with Cons.prems(1) obtain d1 where i: "insert_section ?c d = Inr d1"
      "ensure_sections w sid yid rows (AList.update ?k (gen_uuid w (seq d)) m) d1 = Inr (d', m')"
      by (auto simp: Let_def bind_result_Inr_iff)
    note f = insert_section_frame [OF i(1)]
    have m1: "\<forall>k i. map_of (AList.update ?k (gen_uuid w (seq d)) m) k = Some i \<longrightarrow>
        (\<exists>c \<in> set (t_classSections d1). cs_id c = i \<and> cs_schoolId c = sid
           \<and> cs_academicYearId c = yid \<and> section_key w (cs_className c) (cs_sectionName c) = k)"
    proof (intro allI impI)
      fix k i assume k: "map_of (AList.update ?k (gen_uuid w (seq d)) m) k = Some i"
      show "\<exists>c \<in> set (t_classSections d1). cs_id c = i \<and> cs_schoolId c = sid
           \<and> cs_academicYearId c = yid \<and> section_key w (cs_className c) (cs_sectionName c) = k"
      proof (cases "k = ?k")
        case True
        with k f show ?thesis by (intro bexI [of _ ?c]) (auto simp: update_conv')
      next
        case False
        with k have "map_of m k = Some i" by (auto simp: update_conv')
        with Cons.prems(2) f show ?thesis unfolding extends_def by blast
      qed
    qed
    have dm: "insert ?k (dom (map_of m)) \<subseteq> dom (map_of (AList.update ?k (gen_uuid w (seq d)) m))"
      by (auto simp: update_conv')
    note ih = Cons.IH [OF i(2) m1]
    note ihs = ih [THEN conjunct1] ih [THEN conjunct2, THEN conjunct1] ih [THEN conjunct2, THEN conjunct2, THEN conjunct1]
      ih [THEN conjunct2, THEN conjunct2, THEN conjunct2, THEN conjunct1]
      ih [THEN conjunct2, THEN conjunct2, THEN conjunct2, THEN conjunct2]
    have dom: "insert ?k (dom (map_of m)) \<subseteq> dom (map_of m')" using dm ihs(3) by (rule subset_trans)
    have "t_importJobs d' = t_importJobs d" using ihs(1) f [THEN conjunct1] by (rule trans)
    moreover have "extends d d'" using f [THEN conjunct2, THEN conjunct1] ihs(2) by (rule extends_trans)
    moreover have "dom (map_of m) \<subseteq> dom (map_of m')" using dom by blast
    moreover have "\<forall>r' \<in> set (r # rows). section_key w (ri_className r') (ri_sectionName r') \<in> dom (map_of m')"
      using dom ihs(4) by (simp only: list.set ball_simps insert_subset simp_thms)
    ultimately show ?thesis using ihs(5) by (intro conjI)
  qed
qed auto

lemma section_map_sound:
  "map_of (section_map w sid yid d) k = Some i \<Longrightarrow> \<exists>c \<in> set (t_classSections d). cs_id c = i \<and> cs_schoolId c = sid
     \<and> cs_academicYearId c = yid \<and> section_key w (cs_className c) (cs_sectionName c) = k"
  by (auto simp: section_map_def dest!: map_of_js_map_SomeD)

lemma ensure_guardians_frame:
  assumes "ensure_guardians w sid rows m d = (d', m')"
    and "\<forall>k i. map_of m k = Some i \<longrightarrow> (\<exists>g \<in> set (t_guardians d). gu_id g = i \<and> gu_schoolId g = sid \<and> gu_phoneNumber g = k)"
  shows "t_importJobs d' = t_importJobs d \<and> extends d d' \<and> dom (map_of m) \<subseteq> dom (map_of m')
    \<and> (\<forall>r \<in> set rows. ri_guardianPhone r \<in> dom (map_of m'))
    \<and> (\<forall>k i. map_of m' k = Some i \<longrightarrow> (\<exists>g \<in> set (t_guardians d'). gu_id g = i \<and> gu_schoolId g = sid \<and> gu_phoneNumber g = k))"
  using assms
proof (induction rows arbitrary: m d)
  case (Cons r rows)
  let ?k = "ri_guardianPhone r"
  let ?m = "AList.update ?k (gen_uuid w (seq d)) m"
  define g where "g = \<lparr>gu_id = gen_uuid w (seq d), gu_schoolId = sid, gu_name = ri_guardianName r,
                gu_phoneNumber = ri_guardianPhone r,
                gu_relationship = the (js_or (Some (ri_guardianRelationship r)) (Some ''PARENT'')),
                gu_smsOptOut = False\<rparr>"
  show ?case
  proof (cases "map_of m ?k = None")
    case False
    with Cons.prems(1) have "ensure_guardians w sid rows m d = (d', m')" by simp
    from Cons.IH [OF this Cons.prems(2)] False show ?thesis by auto
  next
    case True
    with Cons.prems(1) have i: "ensure_guardians w sid rows ?m (insert_guardian g d) = (d', m')"
      by (simp add: g_def)
    note f = insert_guardian_frame [of g d]
    have m1: "\<exists>g' \<in> set (t_guardians (insert_guardian g d)). gu_id g' = i \<and> gu_schoolId g' = sid \<and> gu_phoneNumber g' = k"
      if k: "map_of ?m k = Some i" for k i
    proof (cases "k = ?k")
      case True
      with k f show ?thesis by (intro bexI [of _ g]) (auto simp: update_conv' g_def)
    next
      case False
      with k have "map_of m k = Some i" by (auto simp: update_conv')
      with Cons.prems(2) f show ?thesis unfolding extends_def by blast
    qed
    then have ih: "t_importJobs d' = t_importJobs (insert_guardian g d) \<and> extends (insert_guardian g d) d'
        \<and> dom (map_of ?m) \<subseteq> dom (map_of m') \<and> (\<forall>r \<in> set rows. ri_guardianPhone r \<in> dom (map_of m'))
        \<and> (\<forall>k i. map_of m' k = Some i \<longrightarrow> (\<exists>g \<in> set (t_guardians d'). gu_id g = i \<and> gu_schoolId g = sid \<and> gu_phoneNumber g = k))"
      by (intro Cons.IH [OF i]) blast
    have dm: "insert ?k (dom (map_of m)) \<subseteq> dom (map_of ?m)" by (auto simp: update_conv')
    note ihs = ih [THEN conjunct1] ih [THEN conjunct2, THEN conjunct1] ih [THEN conjunct2, THEN conjunct2, THEN conjunct1]
      ih [THEN conjunct2, THEN conjunct2, THEN conjunct2, THEN conjunct1]
      ih [THEN conjunct2, THEN conjunct2, THEN conjunct2, THEN conjunct2]
    have dom: "insert ?k (dom (map_of m)) \<subseteq> dom (map_of m')" using dm ihs(3) by (rule subset_trans)
    have "t_importJobs d' = t_importJobs d" using ihs(1) f [THEN conjunct1] by (rule trans)
    moreover have "extends d d'" using f [THEN conjunct2, THEN conjunct1] ihs(2) by (rule extends_trans)
    moreover have "dom (map_of m) \<subseteq> dom (map_of m')" using dom by blast
    moreover have "\<forall>r' \<in> set (r # rows). ri_guardianPhone r' \<in> dom (map_of m')"
      using dom ihs(4) by (simp only: list.set ball_simps insert_subset simp_thms)
    ultimately show ?thesis using ihs(5) by (intro conjI)
  qed
qed auto

lemma guardian_map_sound:
  "map_of (guardian_map sid rows d) k = Some i \<Longrightarrow> \<exists>g \<in> set (t_guardians d). gu_id g = i \<and> gu_schoolId g = sid \<and> gu_phoneNumber g = k"
  by (auto simp: guardian_map_def dest!: map_of_js_map_SomeD)

subsection \<open>Jobs are changed by the import only at its end\<close>

lemma stmt_Inr: "stmt f d = Inr (d', u) \<longleftrightarrow> f d = Inr d'"
  by (auto simp: stmt_def bind_result_Inr_iff)

lemma each_jobs:
  assumes "each f xs d = Inr (d', ys)" "\<And>x d d1 y. f x d = Inr (d1, y) \<Longrightarrow> t_importJobs d1 = t_importJobs d"
  shows "t_importJobs d' = t_importJobs d"
  using each_keeps [OF assms(1), of "\<lambda>a b. t_importJobs b = t_importJobs a"] assms(2) by simp

lemma update_row_jobs: "update_row w sid yid secs r ex d = Inr (d', p) \<Longrightarrow> t_importJobs d' = t_importJobs d"
  by (auto simp: update_row_def move_enrollment_def update_student_def Let_def bind_result_Inr_iff split: if_splits)

lemma import_update_jobs: "import_update w sid yid secs r d = Inr (d', p) \<Longrightarrow> t_importJobs d' = t_importJobs d"
  by (auto simp: import_update_def split: option.splits dest: update_row_jobs)

lemma import_upsert_jobs: "import_upsert w now sid yid secs ph r d = Inr (d', p) \<Longrightarrow> t_importJobs d' = t_importJobs d"
  by (auto simp: import_upsert_def Let_def bind_result_Inr_iff split: option.splits prod.splits
      dest!: update_row_jobs import_frame)

lemma import_chunk_jobs:
  assumes "import_chunk w now sid yid secs ph ch d = Inr (d', p)"
  shows "t_importJobs d' = t_importJobs d"
proof -
  obtain d1 ins d2 u2 d3 u3 d4 u4 where s:
    "each (\<lambda>r d. let s = new_student w sid r (seq d)
                 in bind_result (insert_student s d) (\<lambda>d1. Inr (d1, (r, st_id s)))) ch d = Inr (d1, ins)"
    "each (\<lambda>(r, s). stmt (\<lambda>d. insert_enrollment (new_enrollment w now sid yid secs s r (seq d)) d)) ins d1 = Inr (d2, u2)"
    "each (\<lambda>(r, s). stmt (insert_student_guardian \<lparr>sg_studentId = s,
        sg_guardianId = the (map_of ph (ri_guardianPhone r)), sg_isPrimary = True\<rparr>)) ins d2 = Inr (d3, u3)"
    "each (\<lambda>(r, s) d. createQrCredential w now sid s d) ins d3 = Inr (d4, u4)" "d' = d4"
    using assms by (auto simp: import_chunk_def bind_result_Inr_iff split: prod.splits)
  have "t_importJobs d1 = t_importJobs d"
    using s(1) by (rule each_jobs) (auto simp: Let_def bind_result_Inr_iff dest!: import_frame)
  moreover have "t_importJobs d2 = t_importJobs d1"
    using s(2) by (rule each_jobs) (auto simp: stmt_Inr dest!: import_frame)
  moreover have "t_importJobs d3 = t_importJobs d2"
    using s(3) by (rule each_jobs) (auto simp: stmt_Inr dest!: import_frame)
  moreover have "t_importJobs d4 = t_importJobs d3"
    using s(4) by (rule each_jobs) (auto dest!: import_frame)
  ultimately show ?thesis using s(5) by simp
qed

lemma import_txE:
  assumes "import_tx w now sid yid jid mode rows d = Inr (d', p)"
  obtains d1 secs d2 ph d3 ps where
    "ensure_sections w sid yid rows (section_map w sid yid d) d = Inr (d1, secs)"
    "ensure_guardians w sid rows (guardian_map sid rows d1) d1 = (d2, ph)"
    "(case mode of
         UPDATE_EXISTING \<Rightarrow> each (import_update w sid yid secs) rows d2
       | UPSERT \<Rightarrow> each (import_upsert w now sid yid secs ph) rows d2
       | CREATE_ONLY \<Rightarrow> each (import_chunk w now sid yid secs ph) (chunks CHUNK_SIZE rows) d2) = Inr (d3, ps)"
    "d' = complete_job jid (length rows) d3" "p = concat ps"
proof -
  obtain x where x: "ensure_sections w sid yid rows (section_map w sid yid d) d = Inr x"
    using assms by (cases "ensure_sections w sid yid rows (section_map w sid yid d) d") (simp_all add: import_tx_def)
  obtain d1 secs where 1: "x = (d1, secs)" by (cases x)
  obtain d2 ph where 2: "ensure_guardians w sid rows (guardian_map sid rows d1) d1 = (d2, ph)"
    by (cases "ensure_guardians w sid rows (guardian_map sid rows d1) d1")
  let ?m = "case mode of
         UPDATE_EXISTING \<Rightarrow> each (import_update w sid yid secs) rows d2
       | UPSERT \<Rightarrow> each (import_upsert w now sid yid secs ph) rows d2
       | CREATE_ONLY \<Rightarrow> each (import_chunk w now sid yid secs ph) (chunks CHUNK_SIZE rows) d2"
  have 3: "bind_result ?m (\<lambda>(d3, done). Inr (complete_job jid (length rows) d3, concat done)) = Inr (d', p)"
    using assms by (simp add: import_tx_def x 1 2)
  then obtain d3 ps where "?m = Inr (d3, ps)" by (cases ?m) auto
  with 3 x 1 2 show thesis by (intro that [of d1 secs d2 ph d3 ps]) simp_all
qed

lemma import_tx_jobs:
  assumes "import_tx w now sid yid jid mode rows d = Inr (d', p)"
  shows "t_importJobs d' = upd (\<lambda>j. ij_id j = jid)
     (\<lambda>j. j\<lparr>ij_status := ''COMPLETED'', ij_successfulRows := length rows, ij_failedRows := 0, ij_stagedData := None\<rparr>) (t_importJobs d)"
  using assms
proof (cases rule: import_txE)
  case (1 d1 secs d2 ph d3 ps)
  have "t_importJobs d1 = t_importJobs d" using ensure_sections_frame [OF 1(1)] section_map_sound by blast
  moreover have "t_importJobs d2 = t_importJobs d1" using ensure_guardians_frame [OF 1(2)] guardian_map_sound by blast
  moreover have "t_importJobs d3 = t_importJobs d2"
    using 1(3) by (cases mode) (auto elim!: each_jobs dest: import_update_jobs import_upsert_jobs import_chunk_jobs)
  ultimately show ?thesis using 1(4) by (simp add: complete_job_def)
qed

section \<open>A confirmation is used once\<close>

lemma sel1_upd_covered:
  assumes "\<And>x. p (f x) = p x" "\<And>x. p x \<Longrightarrow> q x"
  shows "sel1 p (upd q f t) = map_option f (sel1 p t)"
  using assms by (induction t) auto

definition same_job :: "uuid \<Rightarrow> uuid \<Rightarrow> import_job \<Rightarrow> bool" where
  "same_job schoolId jobId j \<longleftrightarrow> ij_schoolId j = schoolId \<and> ij_id j = jobId"

lemma job_not_validated:
  assumes "t_importJobs d' = upd (\<lambda>j. ij_id j = jid) f (t_importJobs d)"
    and "\<And>j. ij_schoolId (f j) = ij_schoolId j \<and> ij_id (f j) = ij_id j \<and> ij_status (f j) \<noteq> ''VALIDATED''"
    and "sel1 (\<lambda>j. ij_schoolId j = sid \<and> ij_id j = jid) (t_importJobs d) \<noteq> None"
  shows "executeTransactionalImport w now sid jid tok d' = (d', Inl (JsErr ''INVALID_JOB_STATUS''))"
proof -
  have "sel1 (\<lambda>j. ij_schoolId j = sid \<and> ij_id j = jid) (t_importJobs d') =
        map_option f (sel1 (\<lambda>j. ij_schoolId j = sid \<and> ij_id j = jid) (t_importJobs d))"
    unfolding assms(1) by (rule sel1_upd_covered) (simp_all add: assms(2))
  with assms(2,3) show ?thesis by (auto simp: executeTransactionalImport_def)
qed

text \<open>The branches of an execution that change the job.\<close>

lemma execute_cases:
  assumes "executeTransactionalImport w now sid jid tok d = (d', r)"
  obtains (refused) e where "d' = d" "r = Inl e"
  | (expired) "d' = set_job jid (stale_job (ErrorMsg ''CONFIRMATION_TOKEN_EXPIRED'')) d" "r = Inl (JsErr ''CONFIRMATION_TOKEN_EXPIRED'')"
      "sel1 (\<lambda>j. ij_schoolId j = sid \<and> ij_id j = jid) (t_importJobs d) \<noteq> None"
  | (run) job sd year d1 where
      "sel1 (\<lambda>j. ij_schoolId j = sid \<and> ij_id j = jid) (t_importJobs d) = Some job" "ij_status job = ''VALIDATED''"
      "ij_stagedData job = Some sd" "sd_confirmToken sd = Some tok" "tok \<noteq> []" "now \<le> sd_expiresAt sd"
      "current_year_of sid d = Some year"
      "d1 = set_job jid (\<lambda>j. j\<lparr>ij_status := ''PROCESSING'', ij_stagedData := Some (sd\<lparr>sd_confirmToken := None\<rparr>)\<rparr>) d"
      "(\<exists>d2 done. import_tx w now sid (ay_id year) jid (sd_mode sd) (sd_rows sd) d1 = Inr (d2, done) \<and> d' = d2 \<and> r = Inr done)
       \<or> (\<exists>e. import_tx w now sid (ay_id year) jid (sd_mode sd) (sd_rows sd) d1 = Inl e
           \<and> d' = set_job jid (\<lambda>j. (stale_job (ErrorMsg (error_message e)) j)\<lparr>ij_failedRows := length (sd_rows sd)\<rparr>) d1
           \<and> r = Inl (JsErr (''IMPORT_TRANSACTION_FAILED: '' @ error_message e)))"
proof (cases "sel1 (\<lambda>j. ij_schoolId j = sid \<and> ij_id j = jid) (t_importJobs d)")
  case None
  then show thesis using assms refused by (auto simp: executeTransactionalImport_def)
next
  case job: (Some job)
  show thesis
  proof (cases "ij_status job = ''VALIDATED''")
    case False
    then show thesis using assms refused job by (auto simp: executeTransactionalImport_def)
  next
    case status: True
    show thesis
    proof (cases "ij_stagedData job")
      case None
      then show thesis using assms refused job status by (auto simp: executeTransactionalImport_def)
    next
      case sd: (Some sd)
      let ?bad = "tok = [] \<or> \<not> truthy (sd_confirmToken sd) \<or> \<not> verifyConfirmationToken tok (the (sd_confirmToken sd))"
      show thesis
      proof (cases "?bad \<or> (sd_schoolId sd \<noteq> [] \<and> sd_schoolId sd \<noteq> sid)")
        case True
        then show thesis using assms refused job status sd
          by (auto simp: executeTransactionalImport_def split: if_splits)
      next
        case ok: False
        then have ok': "?bad = False" "(sd_schoolId sd \<noteq> [] \<and> sd_schoolId sd \<noteq> sid) = False" by auto
        then have tok: "sd_confirmToken sd = Some tok" "tok \<noteq> []"
          by (auto simp: verifyConfirmationToken_def elim: truthyE)
        show thesis
        proof (cases "sd_expiresAt sd < now")
          case True
          then show thesis using assms expired job status sd ok
            by (auto simp: executeTransactionalImport_def)
        next
          case fresh: False
          define d1 where "d1 = set_job jid (\<lambda>j. j\<lparr>ij_status := ''PROCESSING'', ij_stagedData := Some (sd\<lparr>sd_confirmToken := None\<rparr>)\<rparr>) d"
          show thesis
          proof (cases "current_year_of sid d")
            case None
            then show thesis using assms refused job status sd ok fresh
              by (auto simp: executeTransactionalImport_def)
          next
            case year: (Some year)
            have "(case import_tx w now sid (ay_id year) jid (sd_mode sd) (sd_rows sd) d1 of
                       Inr (d2, done) \<Rightarrow> (d2, Inr done)
                     | Inl e \<Rightarrow> (set_job jid (\<lambda>j. (stale_job (ErrorMsg (error_message e)) j)\<lparr>ij_failedRows := length (sd_rows sd)\<rparr>) d1,
                                Inl (JsErr (''IMPORT_TRANSACTION_FAILED: '' @ error_message e)))) = (d', r)"
              using assms job status sd ok' fresh year unfolding d1_def
              by (simp only: executeTransactionalImport_def option.case Let_def if_False if_True not_True_eq_False ok' simp_thms)
            then show thesis
              using job status sd tok fresh year
              by (intro run [OF job status sd tok _ year d1_def]) (auto split: sum.splits prod.splits)
          qed
        qed
      qed
    qed
  qed
qed

lemma set_job_only_jobs: "(set_job jid f d)\<lparr>t_importJobs := t_importJobs d\<rparr> = d"
  by (simp add: set_job_def)

text \<open>
  C11: An import that fails leaves nothing behind but its job: of the students, sections, guardians,
  enrolments and QR codes it had created none remain.  And a confirmation is good for one attempt:
  once an execution has imported, failed or found the token expired, every later execution of that job is
  refused whatever token it brings, so a job is never imported twice.
\<close>

theorem import_is_atomic_and_single_use:
  assumes "executeTransactionalImport w now sid jid tok d = (d', r)"
  shows "(\<forall>e. r = Inl e \<longrightarrow> d'\<lparr>t_importJobs := t_importJobs d\<rparr> = d)
    \<and> ((\<exists>p. r = Inr p) \<or> t_importJobs d' \<noteq> t_importJobs d \<longrightarrow>
        (\<forall>w2 now2 tok2. executeTransactionalImport w2 now2 sid jid tok2 d' = (d', Inl (JsErr ''INVALID_JOB_STATUS''))))"
  using assms
proof (cases rule: execute_cases)
  case (refused e)
  then show ?thesis by simp
next
  case expired
  have "executeTransactionalImport w2 now2 sid jid tok2 d' = (d', Inl (JsErr ''INVALID_JOB_STATUS''))" for w2 now2 tok2
    by (rule job_not_validated [where d = d and f = "stale_job (ErrorMsg ''CONFIRMATION_TOKEN_EXPIRED'')"])
      (simp_all add: expired(1,3) set_job_def stale_job_def)
  then show ?thesis using expired(1,2) set_job_only_jobs by simp
next
  case (run job sd year d1)
  let ?start = "\<lambda>j. j\<lparr>ij_status := ''PROCESSING'', ij_stagedData := Some (sd\<lparr>sd_confirmToken := None\<rparr>)\<rparr>"
  have j1: "t_importJobs d1 = upd (\<lambda>j. ij_id j = jid) ?start (t_importJobs d)"
    by (simp add: run(8) set_job_def)
  have upd2: "upd (\<lambda>j. ij_id j = jid) g (t_importJobs d1) = upd (\<lambda>j. ij_id j = jid) (g \<circ> ?start) (t_importJobs d)" for g
    unfolding j1 by (simp add: upd_def)
  have present: "sel1 (\<lambda>j. ij_schoolId j = sid \<and> ij_id j = jid) (t_importJobs d) \<noteq> None" using run(1) by simp
  from run(9) show ?thesis
  proof (elim disjE exE conjE)
    fix d2 ps assume tx: "import_tx w now sid (ay_id year) jid (sd_mode sd) (sd_rows sd) d1 = Inr (d2, ps)"
      "d' = d2" "r = Inr ps"
    have "executeTransactionalImport w2 now2 sid jid tok2 d' = (d', Inl (JsErr ''INVALID_JOB_STATUS''))" for w2 now2 tok2
      by (rule job_not_validated [OF _ _ present]) (simp add: tx(2) import_tx_jobs [OF tx(1)] upd2, simp)
    then show ?thesis using tx(3) by simp
  next
    fix e assume fl: "import_tx w now sid (ay_id year) jid (sd_mode sd) (sd_rows sd) d1 = Inl e"
      "d' = set_job jid (\<lambda>j. (stale_job (ErrorMsg (error_message e)) j)\<lparr>ij_failedRows := length (sd_rows sd)\<rparr>) d1"
      "r = Inl (JsErr (''IMPORT_TRANSACTION_FAILED: '' @ error_message e))"
    have "executeTransactionalImport w2 now2 sid jid tok2 d' = (d', Inl (JsErr ''INVALID_JOB_STATUS''))" for w2 now2 tok2
      by (rule job_not_validated [OF _ _ present]) (simp add: fl(2) set_job_def upd2, simp add: stale_job_def)
    moreover have "d'\<lparr>t_importJobs := t_importJobs d\<rparr> = d" by (simp add: fl(2) run(8) set_job_def)
    ultimately show ?thesis using fl(3) by simp
  qed
qed

section \<open>What an import creates\<close>

text \<open>A row of the upload is in the school: student, enrolment, section, guardian and QR code.\<close>

definition has_student :: "uuid \<Rightarrow> student_row_in \<Rightarrow> uuid \<Rightarrow> db \<Rightarrow> bool" where
  "has_student sid r s d \<longleftrightarrow> (\<exists>x \<in> set (t_students d). st_id x = s \<and> st_schoolId x = sid
     \<and> st_studentCode x = ri_studentCode r \<and> st_name x = ri_name r \<and> st_status x = ''ACTIVE'')"

definition has_enrollment :: "world \<Rightarrow> uuid \<Rightarrow> uuid \<Rightarrow> student_row_in \<Rightarrow> uuid \<Rightarrow> db \<Rightarrow> bool" where
  "has_enrollment w sid yid r s d \<longleftrightarrow> (\<exists>e \<in> set (t_enrollments d). \<exists>c \<in> set (t_classSections d).
     en_schoolId e = sid \<and> en_studentId e = s \<and> en_academicYearId e = yid \<and> en_rollNumber e = ri_rollNumber r
     \<and> en_status e = ''ACTIVE'' \<and> en_classSectionId e = cs_id c \<and> cs_schoolId c = sid \<and> cs_academicYearId c = yid
     \<and> section_key w (cs_className c) (cs_sectionName c) = section_key w (ri_className r) (ri_sectionName r))"

definition has_guardian :: "uuid \<Rightarrow> student_row_in \<Rightarrow> uuid \<Rightarrow> db \<Rightarrow> bool" where
  "has_guardian sid r s d \<longleftrightarrow> (\<exists>g \<in> set (t_guardians d). \<exists>l \<in> set (t_studentGuardians d).
     gu_schoolId g = sid \<and> gu_phoneNumber g = ri_guardianPhone r
     \<and> sg_studentId l = s \<and> sg_guardianId l = gu_id g \<and> sg_isPrimary l)"

definition has_qr :: "uuid \<Rightarrow> uuid \<Rightarrow> db \<Rightarrow> bool" where
  "has_qr sid s d \<longleftrightarrow> (\<exists>q \<in> set (t_qrCredentials d). active_qr sid s q)"

definition row_imported :: "world \<Rightarrow> uuid \<Rightarrow> uuid \<Rightarrow> student_row_in \<Rightarrow> db \<Rightarrow> bool" where
  "row_imported w sid yid r d \<longleftrightarrow> (\<exists>s. has_student sid r s d \<and> has_enrollment w sid yid r s d
     \<and> has_guardian sid r s d \<and> has_qr sid s d)"

lemma has_mono:
  assumes "extends d d'"
  shows "has_student sid r s d \<Longrightarrow> has_student sid r s d'" "has_enrollment w sid yid r s d \<Longrightarrow> has_enrollment w sid yid r s d'"
    "has_guardian sid r s d \<Longrightarrow> has_guardian sid r s d'" "has_qr sid s d \<Longrightarrow> has_qr sid s d'"
  using assms unfolding extends_def has_student_def has_enrollment_def has_guardian_def has_qr_def by blast+

lemma row_imported_mono: "extends d d' \<Longrightarrow> row_imported w sid yid r d \<Longrightarrow> row_imported w sid yid r d'"
  unfolding row_imported_def by (elim exE conjE) (intro exI conjI; erule has_mono; assumption)

text \<open>The maps name sections and guardians of the tables.\<close>

definition maps_sound :: "world \<Rightarrow> uuid \<Rightarrow> uuid \<Rightarrow> id_map \<Rightarrow> phone_map \<Rightarrow> student_row_in list \<Rightarrow> db \<Rightarrow> bool" where
  "maps_sound w sid yid secs ph rows d \<longleftrightarrow> (\<forall>r \<in> set rows.
     (\<exists>c \<in> set (t_classSections d). cs_id c = section_of w secs r \<and> cs_schoolId c = sid \<and> cs_academicYearId c = yid
        \<and> section_key w (cs_className c) (cs_sectionName c) = section_key w (ri_className r) (ri_sectionName r))
     \<and> (\<exists>g \<in> set (t_guardians d). gu_id g = the (map_of ph (ri_guardianPhone r)) \<and> gu_schoolId g = sid
        \<and> gu_phoneNumber g = ri_guardianPhone r))"

lemma maps_sound_mono: "maps_sound w sid yid secs ph rows d \<Longrightarrow> extends d d' \<Longrightarrow> maps_sound w sid yid secs ph rows d'"
  unfolding maps_sound_def extends_def by blast

lemma maps_sound_subset: "maps_sound w sid yid secs ph rows d \<Longrightarrow> set rows' \<subseteq> set rows \<Longrightarrow> maps_sound w sid yid secs ph rows' d"
  unfolding maps_sound_def by blast

lemma import_chunk_rows:
  assumes "import_chunk w now sid yid secs ph ch d = Inr (d', p)" "maps_sound w sid yid secs ph ch d"
  shows "extends d d' \<and> (\<forall>r \<in> set ch. row_imported w sid yid r d')"
proof -
  obtain d1 ins d2 u2 d3 u3 u4 where s:
    "each (\<lambda>r d. let s = new_student w sid r (seq d)
                 in bind_result (insert_student s d) (\<lambda>d1. Inr (d1, (r, st_id s)))) ch d = Inr (d1, ins)"
    "each (\<lambda>(r, s). stmt (\<lambda>d. insert_enrollment (new_enrollment w now sid yid secs s r (seq d)) d)) ins d1 = Inr (d2, u2)"
    "each (\<lambda>(r, s). stmt (insert_student_guardian \<lparr>sg_studentId = s,
        sg_guardianId = the (map_of ph (ri_guardianPhone r)), sg_isPrimary = True\<rparr>)) ins d2 = Inr (d3, u3)"
    "each (\<lambda>(r, s) d. createQrCredential w now sid s d) ins d3 = Inr (d', u4)"
    using assms(1) by (auto simp: import_chunk_def bind_result_Inr_iff split: prod.splits)
  have 1: "extends d d1 \<and> list_all2 (\<lambda>r y. fst y = r \<and> has_student sid r (snd y) d1) ch ins"
  proof (rule each_extends [OF s(1), where start = d and Q = "\<lambda>r y d. fst y = r \<and> has_student sid r (snd y) d"])
    fix x da db y
    assume "(let s = new_student w sid x (seq da)
              in bind_result (insert_student s da) (\<lambda>d1. Inr (d1, x, st_id s))) = Inr (db, y)"
    then have i: "insert_student (new_student w sid x (seq da)) da = Inr db" "y = (x, st_id (new_student w sid x (seq da)))"
      by (auto simp: Let_def bind_result_Inr_iff)
    from insert_student_frame [OF i(1)] show "extends da db \<and> fst y = x \<and> has_student sid x (snd y) db"
      unfolding has_student_def i(2)
      by (intro conjI bexI [of _ "new_student w sid x (seq da)"]) (simp_all add: new_student_def)
  qed (auto intro: has_mono)
  have paired: "list_all2 (\<lambda>r y. fst y = r \<and> has_student sid r (snd y) d1) xs ys \<Longrightarrow>
      map fst ys = xs \<and> (\<forall>y \<in> set ys. has_student sid (fst y) (snd y) d1)" for xs ys
    by (induction rule: list_all2_induct) simp_all
  from paired [OF 1 [THEN conjunct2]] have ins: "map fst ins = ch" "\<forall>y \<in> set ins. has_student sid (fst y) (snd y) d1"
    by (rule conjunct1, rule conjunct2)
  then have fst_ch: "\<forall>y \<in> set ins. fst y \<in> set ch" by (metis image_eqI list.set_map)
  have ext1: "extends d d1" using 1 by blast
  have 2: "extends d1 d2 \<and> list_all2 (\<lambda>y u. has_enrollment w sid yid (fst y) (snd y) d2) ins u2"
  proof (rule each_extends [OF s(2), where start = d1 and Q = "\<lambda>y u d. has_enrollment w sid yid (fst y) (snd y) d"])
    fix x da db u
    assume x: "x \<in> set ins" "extends d1 da"
      "(case x of (r, s) \<Rightarrow> stmt (\<lambda>d. insert_enrollment (new_enrollment w now sid yid secs s r (seq d)) d)) da = Inr (db, u)"
    then have i: "insert_enrollment (new_enrollment w now sid yid secs (snd x) (fst x) (seq da)) da = Inr db"
      by (simp add: stmt_Inr split: prod.splits)
    note f = insert_enrollment_frame [OF i]
    have "maps_sound w sid yid secs ph ch db"
      by (rule maps_sound_mono [OF assms(2)], rule extends_trans [OF ext1],
          rule extends_trans [OF x(2) f [THEN conjunct2, THEN conjunct1]])
    then obtain c where c: "c \<in> set (t_classSections db)" "cs_id c = section_of w secs (fst x)" "cs_schoolId c = sid"
      "cs_academicYearId c = yid" "section_key w (cs_className c) (cs_sectionName c) = section_key w (ri_className (fst x)) (ri_sectionName (fst x))"
      using fst_ch x(1) unfolding maps_sound_def by blast
    have "has_enrollment w sid yid (fst x) (snd x) db"
      unfolding has_enrollment_def
      by (rule bexI [OF bexI [OF _ c(1)] f [THEN conjunct2, THEN conjunct2]]) (use c in \<open>simp add: new_enrollment_def\<close>)
    with f show "extends da db \<and> has_enrollment w sid yid (fst x) (snd x) db" by blast
  qed (auto intro: has_mono)
  have 3: "extends d2 d3 \<and> list_all2 (\<lambda>y u. has_guardian sid (fst y) (snd y) d3) ins u3"
  proof (rule each_extends [OF s(3), where start = d2 and Q = "\<lambda>y u d. has_guardian sid (fst y) (snd y) d"])
    fix x da db u
    assume x: "x \<in> set ins" "extends d2 da"
      "(case x of (r, s) \<Rightarrow> stmt (insert_student_guardian \<lparr>sg_studentId = s,
         sg_guardianId = the (map_of ph (ri_guardianPhone r)), sg_isPrimary = True\<rparr>)) da = Inr (db, u)"
    then have i: "insert_student_guardian \<lparr>sg_studentId = snd x,
         sg_guardianId = the (map_of ph (ri_guardianPhone (fst x))), sg_isPrimary = True\<rparr> da = Inr db"
      by (simp add: stmt_Inr split: prod.splits)
    note f = insert_student_guardian_frame [OF i]
    have "maps_sound w sid yid secs ph ch db"
      by (rule maps_sound_mono [OF assms(2)], rule extends_trans [OF ext1], rule extends_trans [OF 2 [THEN conjunct1]],
          rule extends_trans [OF x(2) f [THEN conjunct2, THEN conjunct1]])
    then obtain g where g: "g \<in> set (t_guardians db)" "gu_id g = the (map_of ph (ri_guardianPhone (fst x)))"
      "gu_schoolId g = sid" "gu_phoneNumber g = ri_guardianPhone (fst x)"
      using fst_ch x(1) unfolding maps_sound_def by blast
    have "has_guardian sid (fst x) (snd x) db"
      unfolding has_guardian_def
      by (rule bexI [OF bexI [OF _ f [THEN conjunct2, THEN conjunct2]] g(1)]) (use g in simp)
    with f show "extends da db \<and> has_guardian sid (fst x) (snd x) db" by blast
  qed (auto intro: has_mono)
  have 4: "extends d3 d' \<and> list_all2 (\<lambda>y u. has_qr sid (snd y) d') ins u4"
  proof (rule each_extends [OF s(4), where start = d3 and Q = "\<lambda>y u d. has_qr sid (snd y) d"])
    fix x da db u
    assume "(case x of (r, s) \<Rightarrow> \<lambda>d. createQrCredential w now sid s d) da = Inr (db, u)"
    then obtain c raw where i: "createQrCredential w now sid (snd x) da = Inr (db, c, raw)"
      by (cases u) (simp split: prod.splits)
    from createQrCredential_frame [OF i] show "extends da db \<and> has_qr sid (snd x) db"
      unfolding has_qr_def by blast
  qed (auto intro: has_mono)
  have e3: "extends d3 d'" using 4 by (rule conjunct1)
  have e2: "extends d2 d'" by (rule extends_trans [OF 3 [THEN conjunct1] e3])
  have e1: "extends d1 d'" by (rule extends_trans [OF 2 [THEN conjunct1] e2])
  have ext3: "extends d d'" by (rule extends_trans [OF ext1 e1])
  have "row_imported w sid yid (fst y) d'" if y: "y \<in> set ins" for y
  proof -
    have s1: "has_student sid (fst y) (snd y) d'" by (rule has_mono(1) [OF e1]) (use ins(2) y in blast)
    have s2: "has_enrollment w sid yid (fst y) (snd y) d'"
      by (rule has_mono(2) [OF e2 bspec [OF list_all2_leftD [OF 2 [THEN conjunct2]] y]])
    have s3: "has_guardian sid (fst y) (snd y) d'"
      by (rule has_mono(3) [OF e3 bspec [OF list_all2_leftD [OF 3 [THEN conjunct2]] y]])
    have s4: "has_qr sid (snd y) d'"
      by (rule bspec [OF list_all2_leftD [OF 4 [THEN conjunct2]] y])
    from s1 s2 s3 s4 show ?thesis unfolding row_imported_def by blast
  qed
  with ext3 ins(1) show ?thesis by (metis (no_types, lifting) imageE list.set_map)
qed

lemma import_create_rows:
  assumes "import_tx w now sid yid jid CREATE_ONLY rows d = Inr (d', p)"
  shows "\<forall>r \<in> set rows. row_imported w sid yid r d'"
  using assms
proof (cases rule: import_txE)
  case (1 d1 secs d2 ph d3 ps)
  have sm: "\<forall>k i. map_of (section_map w sid yid d) k = Some i \<longrightarrow> (\<exists>c \<in> set (t_classSections d). cs_id c = i \<and> cs_schoolId c = sid
     \<and> cs_academicYearId c = yid \<and> section_key w (cs_className c) (cs_sectionName c) = k)"
    using section_map_sound by blast
  have gm: "\<forall>k i. map_of (guardian_map sid rows d1) k = Some i \<longrightarrow>
      (\<exists>g \<in> set (t_guardians d1). gu_id g = i \<and> gu_schoolId g = sid \<and> gu_phoneNumber g = k)"
    using guardian_map_sound by blast
  note secs = ensure_sections_frame [OF 1(1) sm] and gs = ensure_guardians_frame [OF 1(2) gm]
  have sound: "maps_sound w sid yid secs ph rows d2"
    unfolding maps_sound_def
  proof (intro ballI conjI)
    fix r assume r: "r \<in> set rows"
    then obtain i where i: "map_of secs (section_key w (ri_className r) (ri_sectionName r)) = Some i"
      using secs by blast
    then obtain c where "c \<in> set (t_classSections d1)" "cs_id c = i" "cs_schoolId c = sid" "cs_academicYearId c = yid"
      "section_key w (cs_className c) (cs_sectionName c) = section_key w (ri_className r) (ri_sectionName r)"
      using secs by blast
    then show "\<exists>c \<in> set (t_classSections d2). cs_id c = section_of w secs r \<and> cs_schoolId c = sid \<and> cs_academicYearId c = yid
        \<and> section_key w (cs_className c) (cs_sectionName c) = section_key w (ri_className r) (ri_sectionName r)"
      using gs i unfolding extends_def section_of_def by auto
    obtain j where j: "map_of ph (ri_guardianPhone r) = Some j" using gs r by blast
    then obtain g where "g \<in> set (t_guardians d2)" "gu_id g = j" "gu_schoolId g = sid" "gu_phoneNumber g = ri_guardianPhone r"
      using gs by blast
    then show "\<exists>g \<in> set (t_guardians d2). gu_id g = the (map_of ph (ri_guardianPhone r)) \<and> gu_schoolId g = sid
        \<and> gu_phoneNumber g = ri_guardianPhone r" using j by auto
  qed
  have chunk_rows: "set ch \<subseteq> set rows" if "ch \<in> set (chunks CHUNK_SIZE rows)" for ch
  proof -
    have "set rows = set (concat (chunks CHUNK_SIZE rows))" by (simp only: concat_chunks CHUNK_SIZE_def zero_less_numeral)
    with that show ?thesis by auto
  qed
  have e: "each (import_chunk w now sid yid secs ph) (chunks CHUNK_SIZE rows) d2 = Inr (d3, ps)" using 1(3) by simp
  have "extends d2 d3 \<and> list_all2 (\<lambda>ch y. \<forall>r \<in> set ch. row_imported w sid yid r d3) (chunks CHUNK_SIZE rows) ps"
  proof (rule each_extends [OF e, where start = d2 and Q = "\<lambda>ch y d. \<forall>r \<in> set ch. row_imported w sid yid r d"])
    fix ch da db y assume ch: "ch \<in> set (chunks CHUNK_SIZE rows)" "extends d2 da" "import_chunk w now sid yid secs ph ch da = Inr (db, y)"
    have "maps_sound w sid yid secs ph ch da"
      using maps_sound_subset [OF maps_sound_mono [OF sound ch(2)] chunk_rows [OF ch(1)]] .
    from import_chunk_rows [OF ch(3) this] show "extends da db \<and> (\<forall>r \<in> set ch. row_imported w sid yid r db)" .
  qed (auto intro: row_imported_mono)
  then have all: "\<forall>ch \<in> set (chunks CHUNK_SIZE rows). \<forall>r \<in> set ch. row_imported w sid yid r d3"
    by (rule conjunct2 [THEN list_all2_leftD])
  have "extends d3 d'" by (auto simp: 1(4) complete_job_def extends_def)
  show ?thesis
  proof
    fix r assume "r \<in> set rows"
    then obtain ch where "ch \<in> set (chunks CHUNK_SIZE rows)" "r \<in> set ch"
      using concat_chunks [of CHUNK_SIZE rows] by (metis CHUNK_SIZE_def UN_E set_concat zero_less_numeral)
    with all \<open>extends d3 d'\<close> show "row_imported w sid yid r d'" using row_imported_mono by blast
  qed
qed

text \<open>
  C27: A confirmed import in the mode CREATE_ONLY that succeeds has put every row of the upload into the
  school: an active student with its code and name, an active enrolment of the current academic year with
  its roll number in the section of that name, a primary guardian with its phone number and an active QR
  code; the job is completed with the number of rows and keeps no personal data.
\<close>

theorem confirmed_import_creates_every_row:
  assumes "executeTransactionalImport w now sid jid tok d = (d', Inr p)"
    and "sel1 (\<lambda>j. ij_schoolId j = sid \<and> ij_id j = jid) (t_importJobs d) = Some job"
    and "ij_stagedData job = Some sd" "sd_mode sd = CREATE_ONLY" "current_year_of sid d = Some year"
  shows "(\<forall>r \<in> set (sd_rows sd). row_imported w sid (ay_id year) r d')
    \<and> (\<forall>j \<in> set (t_importJobs d'). ij_id j = jid \<longrightarrow> ij_status j = ''COMPLETED'' \<and> ij_stagedData j = None
         \<and> ij_successfulRows j = length (sd_rows sd))"
  using assms(1)
proof (cases rule: execute_cases)
  case (run job' sd' year' d1)
  then have same: "job' = job" "sd' = sd" "year' = year" using assms by simp_all
  from run(9) obtain ps where tx: "import_tx w now sid (ay_id year) jid CREATE_ONLY (sd_rows sd) d1 = Inr (d', ps)"
    unfolding same assms(4) by auto
  show ?thesis
  proof
    show "\<forall>r \<in> set (sd_rows sd). row_imported w sid (ay_id year) r d'" by (rule import_create_rows [OF tx])
    show "\<forall>j \<in> set (t_importJobs d'). ij_id j = jid \<longrightarrow> ij_status j = ''COMPLETED'' \<and> ij_stagedData j = None
         \<and> ij_successfulRows j = length (sd_rows sd)"
    proof (intro ballI impI)
      fix j assume j: "j \<in> set (t_importJobs d')" "ij_id j = jid"
      then obtain x where x: "j = (if ij_id x = jid then x\<lparr>ij_status := ''COMPLETED'',
          ij_successfulRows := length (sd_rows sd), ij_failedRows := 0, ij_stagedData := None\<rparr> else x)"
        unfolding import_tx_jobs [OF tx] in_upd by blast
      with j(2) have "ij_id x = jid" by (cases "ij_id x = jid") simp_all
      with x show "ij_status j = ''COMPLETED'' \<and> ij_stagedData j = None \<and> ij_successfulRows j = length (sd_rows sd)"
        by simp
    qed
  qed
qed simp_all

section \<open>Example\<close>

definition example_row :: student_row_in where
  "example_row = \<lparr>ri_rowNumber = 2, ri_studentCode = [83, 49], ri_name = [65], ri_nameBn = None,
     ri_banglarShikshaId = None, ri_className = [56], ri_sectionName = [65], ri_rollNumber = 7, ri_gender = ''FEMALE'',
     ri_dateOfBirth = None, ri_guardianName = [77], ri_guardianPhone = ''+919876543210'', ri_guardianRelationship = ''PARENT''\<rparr>"

definition example_staged :: staged_data where
  "example_staged = \<lparr>sd_rows = [example_row], sd_confirmToken = Some ''tok'', sd_mode = CREATE_ONLY, sd_fileHash = ''h'',
     sd_userId = ''u'', sd_schoolId = ''s'', sd_expiresAt = 3600000\<rparr>"

definition example_import_job :: import_job where
  "example_import_job = \<lparr>ij_id = ''i'', ij_schoolId = ''s'', ij_fileName = ''a.csv'', ij_status = ''VALIDATED'',
     ij_totalRows = 1, ij_successfulRows = 0, ij_failedRows = 0, ij_errorSummary = None,
     ij_stagedData = Some example_staged, ij_createdBy = ''u'', ij_createdAt = 0\<rparr>"

definition staged_db :: db where
  "staged_db = empty_db\<lparr>t_academicYears := [\<lparr>ay_id = ''y'', ay_schoolId = ''s'', ay_name = ''2026'',
       ay_startDate = ''2026-01-01'', ay_endDate = ''2026-12-31'', ay_isCurrent = True\<rparr>],
     t_importJobs := [example_import_job]\<rparr>"

definition imported :: "db \<times> processed list result" where
  "imported = executeTransactionalImport example_world 5 ''s'' ''i'' ''tok'' staged_db"

lemma imported_value: "\<exists>d' p. imported = (d', Inr p) \<and> map st_studentCode (t_students d') = [[83, 49]]"
proof -
  have v: "(case snd imported of Inr _ \<Rightarrow> map st_studentCode (t_students (fst imported)) = [[83, 49]] | Inl _ \<Rightarrow> False)"
    by code_simp
  obtain d' r where i: "imported = (d', r)" by (cases imported)
  from v show ?thesis unfolding i by (cases r) simp_all
qed

theorem import_is_atomic_and_single_use_witness:
  "executeTransactionalImport example_world 6 ''s'' ''i'' ''tok'' (fst imported) = (fst imported, Inl (JsErr ''INVALID_JOB_STATUS''))"
proof -
  from imported_value obtain d' p where i: "imported = (d', Inr p)" by blast
  from import_is_atomic_and_single_use [OF i [unfolded imported_def]] show ?thesis unfolding i by simp
qed

theorem confirmed_import_creates_every_row_witness:
  "\<exists>s. has_student ''s'' example_row s (fst imported) \<and> has_qr ''s'' s (fst imported)"
proof -
  from imported_value obtain d' p where p: "imported = (d', Inr p)" by blast
  have j: "sel1 (\<lambda>j. ij_schoolId j = ''s'' \<and> ij_id j = ''i'') (t_importJobs staged_db) = Some example_import_job"
    "ij_stagedData example_import_job = Some example_staged" "sd_mode example_staged = CREATE_ONLY"
    by (simp_all add: staged_db_def example_import_job_def example_staged_def)
  obtain year where y: "current_year_of ''s'' staged_db = Some year"
    by (simp add: staged_db_def current_year_of_def)
  note th = confirmed_import_creates_every_row [OF p [unfolded imported_def] j y]
  have "example_row \<in> set (sd_rows example_staged)" by (simp add: example_staged_def)
  with th show ?thesis unfolding row_imported_def p fst_conv by blast
qed

end
