(* ===== verification/Retention.thy ===== *)
theory Retention
  imports Audit_Entry
begin

text \<open>
  Models src/src/jobs/retention.ts: the purge of old scan events and notification jobs of every school
  with a retention policy, 5000 rows a statement until a statement deletes fewer.  The loop is a partial
  function whose returning is proved.  Each statement is a transaction of its own; the jobs take their
  attempts with them (the foreign key cascades).
\<close>

section \<open>Batches\<close>

definition BATCH :: nat where "BATCH = 5000"

text \<open>\<open>DELETE ... WHERE ctid IN (SELECT ctid ... WHERE p LIMIT n)\<close>: the first \<open>n\<close> rows that match.\<close>

fun delete_limit :: "nat \<Rightarrow> ('r \<Rightarrow> bool) \<Rightarrow> 'r list \<Rightarrow> 'r list \<times> 'r list" where
  "delete_limit n p [] = ([], [])"
| "delete_limit n p (r # t) =
     (if p r \<and> 0 < n then (let (gone, kept) = delete_limit (n - 1) p t in (r # gone, kept))
      else (let (gone, kept) = delete_limit n p t in (gone, r # kept)))"

text \<open>The loop \<open>for (;;)\<close>: the rows deleted so far, the table, and the statements issued.\<close>

partial_function (option) purge_loop ::
  "('r \<Rightarrow> bool) \<Rightarrow> 'r list \<Rightarrow> 'r list \<Rightarrow> nat \<Rightarrow> ('r list \<times> 'r list \<times> nat) option" where
  "purge_loop p deleted t statements =
     (let (gone, kept) = delete_limit BATCH p t in
      if length gone < BATCH then Some (deleted @ gone, kept, Suc statements)
      else purge_loop p (deleted @ gone) kept (Suc statements))"

section \<open>The job\<close>

record purge_result =
  pu_schoolId :: uuid
  pu_scanEventsDeleted :: nat
  pu_notificationsDeleted :: nat

definition DAY_MS :: int where "DAY_MS = 86400000"

definition expired_scan :: "instant \<Rightarrow> retention_policy \<Rightarrow> scan_event \<Rightarrow> bool" where
  "expired_scan now p e \<longleftrightarrow> sv_schoolId e = rp_schoolId p \<and> sv_scanTimestamp e < now - DAY_MS * rp_scanEventsDays p"

definition expired_job :: "instant \<Rightarrow> retention_policy \<Rightarrow> job \<Rightarrow> bool" where
  "expired_job now p j \<longleftrightarrow> nj_schoolId j = rp_schoolId p \<and> nj_queuedAt j < now - DAY_MS * rp_notificationLogDays p"

definition purge_audit :: "uuid \<Rightarrow> string \<Rightarrow> nat \<Rightarrow> string \<Rightarrow> db \<Rightarrow> db" where
  "purge_audit schoolId resourceType n table d =
     (if 0 < n then createAuditLog schoolId [] ''RETENTION_PURGE'' resourceType schoolId
                      (JObj [(''deleted'', JNum (Some (of_nat n))), (''table'', JStr table)]) d
      else d)"

definition purge_school :: "instant \<Rightarrow> retention_policy \<Rightarrow> db \<Rightarrow> (db \<times> purge_result) option" where
  "purge_school now p d =
     (case purge_loop (expired_scan now p) [] (t_scanEvents d) 0 of
        None \<Rightarrow> None
      | Some (scans, scanEvents, _) \<Rightarrow>
          let d1 = purge_audit (rp_schoolId p) ''RFID_SCAN_EVENTS'' (length scans) ''rfid_scan_events''
                     (d\<lparr>t_scanEvents := scanEvents\<rparr>)
          in case purge_loop (expired_job now p) [] (t_jobs d1) 0 of
               None \<Rightarrow> None
             | Some (jobs, kept, _) \<Rightarrow>
                 let d2 = purge_audit (rp_schoolId p) ''NOTIFICATION_JOBS'' (length jobs) ''notification_jobs''
                            (d1\<lparr>t_jobs := kept,
                                t_attempts := filter (\<lambda>a. na_jobId a \<notin> nj_id ` set jobs) (t_attempts d1)\<rparr>)
                 in Some (d2, \<lparr>pu_schoolId = rp_schoolId p, pu_scanEventsDeleted = length scans,
                               pu_notificationsDeleted = length jobs\<rparr>))"

fun purge_schools :: "instant \<Rightarrow> retention_policy list \<Rightarrow> db \<Rightarrow> (db \<times> purge_result list) option" where
  "purge_schools now [] d = Some (d, [])"
| "purge_schools now (p # ps) d =
     (case purge_school now p d of
        None \<Rightarrow> None
      | Some (d1, r) \<Rightarrow> (case purge_schools now ps d1 of None \<Rightarrow> None | Some (d2, rs) \<Rightarrow> Some (d2, r # rs)))"

definition runRetention :: "instant \<Rightarrow> uuid option \<Rightarrow> db \<Rightarrow> (db \<times> purge_result list) option" where
  "runRetention now targetSchoolId d =
     purge_schools now (if truthy targetSchoolId
        then filter (\<lambda>p. rp_schoolId p = the targetSchoolId) (t_retention d) else t_retention d) d"

section \<open>The loop returns\<close>

lemma delete_limit_facts:
  "delete_limit n p t = (gone, kept) \<Longrightarrow>
     (\<forall>r \<in> set gone. p r) \<and> length gone \<le> n \<and> length t = length gone + length kept
     \<and> filter (\<lambda>r. \<not> p r) kept = filter (\<lambda>r. \<not> p r) t
     \<and> filter p t = gone @ filter p kept \<and> (length gone < n \<longrightarrow> kept = filter (\<lambda>r. \<not> p r) t)"
proof (induction n p t arbitrary: gone kept rule: delete_limit.induct)
  case (2 n p r t)
  show ?case
  proof (cases "p r \<and> 0 < n")
    case True
    obtain g k where gk: "delete_limit (n - 1) p t = (g, k)" by (cases "delete_limit (n - 1) p t")
    with 2(3) True have "gone = r # g" "kept = k" by auto
    with 2(1) [OF True gk] True show ?thesis by auto
  next
    case False
    obtain g k where gk: "delete_limit n p t = (g, k)" by (cases "delete_limit n p t")
    with 2(3) False have "gone = g" "kept = r # k" by auto
    with 2(2) [OF False gk] False show ?thesis by auto
  qed
qed simp

lemma purge_loop_returns:
  "purge_loop p deleted t n = Some (deleted @ filter p t, filter (\<lambda>r. \<not> p r) t, n + length (filter p t) div BATCH + 1)"
proof (induction "length t" arbitrary: deleted t n rule: less_induct)
  case less
  obtain gone kept where g: "delete_limit BATCH p t = (gone, kept)" by (cases "delete_limit BATCH p t")
  note f = delete_limit_facts [OF g]
  show ?case
  proof (cases "length gone < BATCH")
    case True
    with f have "kept = filter (\<lambda>r. \<not> p r) t" "filter p t = gone" by auto
    then show ?thesis using True by (subst purge_loop.simps) (simp add: g)
  next
    case False
    then have b: "length gone = BATCH" using f by simp
    then have "length kept < length t" using f by (simp add: BATCH_def)
    note ih = less [OF this]
    have "length (filter p t) div BATCH = length (filter p kept) div BATCH + 1"
      using f b by (simp add: BATCH_def)
    then show ?thesis using b f by (subst purge_loop.simps) (simp add: g ih)
  qed
qed

lemma purge_audit_frame [simp]:
  "t_scanEvents (purge_audit s rt n tb d) = t_scanEvents d" "t_jobs (purge_audit s rt n tb d) = t_jobs d"
  "t_attempts (purge_audit s rt n tb d) = t_attempts d"
  by (simp_all add: purge_audit_def createAuditLog_def)

lemma purge_school_returns:
  "\<exists>d' r. purge_school now p d = Some (d', r)
     \<and> t_scanEvents d' = filter (\<lambda>e. \<not> expired_scan now p e) (t_scanEvents d)
     \<and> t_jobs d' = filter (\<lambda>j. \<not> expired_job now p j) (t_jobs d)
     \<and> r = \<lparr>pu_schoolId = rp_schoolId p, pu_scanEventsDeleted = length (filter (expired_scan now p) (t_scanEvents d)),
            pu_notificationsDeleted = length (filter (expired_job now p) (t_jobs d))\<rparr>"
  by (simp add: purge_school_def purge_loop_returns Let_def)

lemma purge_schools_returns:
  "\<exists>d' rs. purge_schools now ps d = Some (d', rs) \<and> map pu_schoolId rs = map rp_schoolId ps
     \<and> t_scanEvents d' = filter (\<lambda>e. \<forall>p \<in> set ps. \<not> expired_scan now p e) (t_scanEvents d)
     \<and> t_jobs d' = filter (\<lambda>j. \<forall>p \<in> set ps. \<not> expired_job now p j) (t_jobs d)"
proof (induction ps arbitrary: d)
  case (Cons p ps)
  obtain d1 r where 1: "purge_school now p d = Some (d1, r)"
    "t_scanEvents d1 = filter (\<lambda>e. \<not> expired_scan now p e) (t_scanEvents d)"
    "t_jobs d1 = filter (\<lambda>j. \<not> expired_job now p j) (t_jobs d)" "pu_schoolId r = rp_schoolId p"
    using purge_school_returns [of now p d] by auto
  obtain d2 rs where 2: "purge_schools now ps d1 = Some (d2, rs)" "map pu_schoolId rs = map rp_schoolId ps"
    "t_scanEvents d2 = filter (\<lambda>e. \<forall>p \<in> set ps. \<not> expired_scan now p e) (t_scanEvents d1)"
    "t_jobs d2 = filter (\<lambda>j. \<forall>p \<in> set ps. \<not> expired_job now p j) (t_jobs d1)"
    using Cons [of d1] by blast
  show ?case using 1 2 by (auto simp: conj_commute)
qed simp

text \<open>
  C40: The retention job ends on every database, whatever the number of old rows, and reports every
  school with a policy.  What is left is exactly the scan events and notification jobs that no policy of
  their school makes too old; nothing of a school without a policy is touched.
\<close>

theorem retention_ends_and_purges:
  "\<exists>d' rs. runRetention now None d = Some (d', rs)
     \<and> map pu_schoolId rs = map rp_schoolId (t_retention d)
     \<and> t_scanEvents d' = filter (\<lambda>e. \<not> list_ex (\<lambda>p. expired_scan now p e) (t_retention d)) (t_scanEvents d)
     \<and> t_jobs d' = filter (\<lambda>j. \<not> list_ex (\<lambda>p. expired_job now p j) (t_retention d)) (t_jobs d)"
  using purge_schools_returns [of now "t_retention d" d] by (simp add: runRetention_def list_ex_iff)

end
