(* ===== verification/Session.thy ===== *)
theory Session
  imports Zebra_Auth Audit_Entry
begin

text \<open>
  Models src/src/auth/session.ts (login sessions), the queries of src/src/db/authFunctions.ts and the
  operations of src/src/routes/authRoutes.ts that create, replace and end a session.  Tokens are 32
  random bytes, \<open>gen_token\<close>, of which the table keeps a hash.  The verification of argon2 is a
  parameter, as is the time.  The stamp of the last access is not awaited in the code; it is sent on the
  connection of the query and is applied at once here.
\<close>

section \<open>Session contexts\<close>

record membership_view =
  mv_schoolId :: uuid
  mv_schoolName :: ustring
  mv_role :: string
  mv_status :: string

record session_user =
  su_id :: uuid
  su_fullName :: ustring
  su_phoneNumber :: string
  su_platformRole :: "string option"
  su_status :: string

record active_membership =
  am_schoolId :: uuid
  am_role :: string
  am_status :: string

record session_context =
  cx_sessionId :: uuid
  cx_userId :: uuid
  cx_schoolId :: "uuid option"
  cx_platformRole :: "string option"
  cx_user :: session_user
  cx_memberships :: "membership_view list"
  cx_activeMembership :: "active_membership option"

definition SESSION_DURATION_MS :: int where "SESSION_DURATION_MS = 86400000"
definition SESSION_IDLE_TIMEOUT_MS :: int where "SESSION_IDLE_TIMEOUT_MS = 7200000"

section \<open>Creating and ending a session\<close>

definition insert_session :: "auth_session \<Rightarrow> auth_session list \<Rightarrow> auth_session list option" where
  "insert_session s t = (if \<exists>x \<in> set t. ses_sessionToken x = ses_sessionToken s then None else Some (t @ [s]))"

interpretation session_index: unique_index "\<lambda>a b. ses_sessionToken a = ses_sessionToken b" insert_session
  by unfold_locales (auto simp: insert_session_def)

text \<open>The answer is the token and its expiry.\<close>

definition createSession ::
  "world \<Rightarrow> db_context \<Rightarrow> instant \<Rightarrow> uuid \<Rightarrow> uuid option \<Rightarrow> db \<Rightarrow> ((string \<times> instant) \<times> db) result" where
  "createSession w active now userId schoolId d =
     (let token = gen_token w (seq d);
          expiresAt = now + SESSION_DURATION_MS;
          s = \<lparr>ses_id = gen_uuid w (Suc (seq d)), ses_userId = userId, ses_schoolId = js_or schoolId None,
               ses_sessionToken = sha256 w token, ses_expiresAt = expiresAt, ses_lastAccessedAt = now\<rparr>
      in withSystemContext active
           (case insert_session s (t_authSessions d) of
              None \<Rightarrow> Inl (DbErr ''auth_sessions_session_token_unique'')
            | Some t \<Rightarrow> Inr ((token, expiresAt), d\<lparr>t_authSessions := t, seq := seq d + 2\<rparr>)))"

definition invalidateSession :: "world \<Rightarrow> db_context \<Rightarrow> string \<Rightarrow> db \<Rightarrow> db result" where
  "invalidateSession w active token d =
     (if token = [] then Inr d
      else withSystemContext active
        (Inr (d\<lparr>t_authSessions := filter (\<lambda>s. ses_sessionToken s \<noteq> sha256 w token) (t_authSessions d)\<rparr>)))"

section \<open>Reading a session\<close>

text \<open>The active memberships of a user in active schools.\<close>

definition user_memberships :: "uuid \<Rightarrow> db \<Rightarrow> membership_view list" where
  "user_memberships userId d =
     concat (map (\<lambda>m. map (\<lambda>s. \<lparr>mv_schoolId = me_schoolId m, mv_schoolName = sc_name s, mv_role = me_role m, mv_status = me_status m\<rparr>)
                        (filter (\<lambda>s. sc_id s = me_schoolId m \<and> sc_status s = ''ACTIVE'') (t_schools d)))
       (filter (\<lambda>m. me_userId m = userId \<and> me_status m = ''ACTIVE'') (t_memberships d)))"

definition is_super :: "user \<Rightarrow> membership_view list \<Rightarrow> bool" where
  "is_super u ms \<longleftrightarrow> us_platformRole u = Some ''SUPER_ADMIN'' \<or> (\<exists>m \<in> set ms. mv_role m = ''SUPER_ADMIN'')"

definition as_active :: "membership_view \<Rightarrow> active_membership" where
  "as_active m = \<lparr>am_schoolId = mv_schoolId m, am_role = mv_role m, am_status = mv_status m\<rparr>"

definition active_membership_of :: "auth_session \<Rightarrow> user \<Rightarrow> membership_view list \<Rightarrow> db \<Rightarrow> active_membership option" where
  "active_membership_of s u ms d =
     (if truthy (ses_schoolId s) then
        let sid = the (ses_schoolId s) in
        (case sel1 (\<lambda>m. mv_schoolId m = sid) ms of
           Some m \<Rightarrow> Some (as_active m)
         | None \<Rightarrow>
             if is_super u ms \<and> sel1 (\<lambda>x. sc_id x = sid \<and> sc_status x = ''ACTIVE'') (t_schools d) \<noteq> None
             then Some \<lparr>am_schoolId = sid, am_role = ''SUPER_ADMIN'', am_status = ''ACTIVE''\<rparr> else None)
      else (case ms of [] \<Rightarrow> None | m # _ \<Rightarrow> Some (as_active m)))"

definition live_session :: "world \<Rightarrow> instant \<Rightarrow> string \<Rightarrow> auth_session \<Rightarrow> bool" where
  "live_session w now token s \<longleftrightarrow> ses_sessionToken s = sha256 w token \<and> now < ses_expiresAt s
     \<and> now - SESSION_IDLE_TIMEOUT_MS < ses_lastAccessedAt s"

definition touch_session :: "world \<Rightarrow> instant \<Rightarrow> string \<Rightarrow> db \<Rightarrow> db" where
  "touch_session w now token d =
     d\<lparr>t_authSessions := upd (\<lambda>s. ses_sessionToken s = sha256 w token) (\<lambda>s. s\<lparr>ses_lastAccessedAt := now\<rparr>) (t_authSessions d)\<rparr>"

definition session_context_of :: "auth_session \<Rightarrow> db \<Rightarrow> session_context option" where
  "session_context_of s d =
     (case sel1 (\<lambda>u. us_id u = ses_userId s) (t_users d) of
        None \<Rightarrow> None
      | Some u \<Rightarrow>
          if us_status u \<noteq> ''ACTIVE'' then None
          else
            let ms = user_memberships (us_id u) d;
                active = active_membership_of s u ms d;
                role = js_or (us_platformRole u) (if is_super u ms then Some ''SUPER_ADMIN'' else None)
            in if active = None \<and> \<not> is_super u ms then None
               else Some \<lparr>cx_sessionId = ses_id s, cx_userId = us_id u,
                          cx_schoolId = js_or (ses_schoolId s) (js_or (map_option am_schoolId active) None),
                          cx_platformRole = role,
                          cx_user = \<lparr>su_id = us_id u, su_fullName = us_fullName u, su_phoneNumber = us_phoneNumber u,
                                     su_platformRole = role, su_status = us_status u\<rparr>,
                          cx_memberships = ms, cx_activeMembership = active\<rparr>)"

definition getSession :: "world \<Rightarrow> db_context \<Rightarrow> instant \<Rightarrow> string \<Rightarrow> db \<Rightarrow> (session_context option \<times> db) result" where
  "getSession w active now token d =
     (if token = [] then Inr (None, d)
      else withSystemContext active
        (case sel1 (live_session w now token) (t_authSessions d) of
           None \<Rightarrow> Inr (None, d)
         | Some s \<Rightarrow> let d1 = touch_session w now token d in Inr (session_context_of s d1, d1)))"

definition isPlatformSuperAdmin :: "session_context option \<Rightarrow> bool" where
  "isPlatformSuperAdmin session =
     (case session of None \<Rightarrow> False
      | Some c \<Rightarrow> cx_platformRole c = Some ''SUPER_ADMIN'' \<or> su_platformRole (cx_user c) = Some ''SUPER_ADMIN''
                 \<or> (\<exists>m \<in> set (cx_memberships c). mv_role m = ''SUPER_ADMIN''))"

text \<open>An empty list of roles allows every role.\<close>

definition check_member :: "string list \<Rightarrow> uuid \<Rightarrow> string \<Rightarrow> string \<Rightarrow> (string \<times> uuid) result" where
  "check_member allowedRoles schoolId role status =
     (if status = ''SUSPENDED'' then Inl (AppErr ''MEMBERSHIP_SUSPENDED'' 403)
      else if allowedRoles \<noteq> [] \<and> role \<notin> set allowedRoles then Inl (AppErr ''FORBIDDEN'' 403)
      else Inr (role, schoolId))"

definition assertMembership ::
  "db_context \<Rightarrow> session_user \<Rightarrow> uuid \<Rightarrow> string list \<Rightarrow> session_context option \<Rightarrow> db \<Rightarrow> (string \<times> uuid) result" where
  "assertMembership active user schoolId allowedRoles session d =
     (if su_platformRole user = Some ''SUPER_ADMIN'' then Inr (''SUPER_ADMIN'', schoolId)
      else case (case session of None \<Rightarrow> None | Some c \<Rightarrow> sel1 (\<lambda>m. mv_schoolId m = schoolId) (cx_memberships c)) of
             Some m \<Rightarrow> check_member allowedRoles schoolId (mv_role m) (mv_status m)
           | None \<Rightarrow> withSystemContext active
               (case sel1 (\<lambda>m. me_userId m = su_id user \<and> me_schoolId m = schoolId) (t_memberships d) of
                  None \<Rightarrow> Inl (AppErr ''CROSS_TENANT_DENIED'' 403)
                | Some m \<Rightarrow> check_member allowedRoles schoolId (me_role m) (me_status m)))"

section \<open>Login, logout and the change of school\<close>

definition login_phone :: "string \<Rightarrow> string" where
  "login_phone raw =
     (let t = js_trim raw in
      if t \<noteq> [] \<and> hd t = CHR ''+'' then t else ''+91'' @ filter (\<lambda>c. c \<in> set ''0123456789'') t)"

text \<open>
  \<open>verify hash password\<close> is argon2.  A hash of another kind is replaced by a constant one, so that a
  missing user costs the same time.
\<close>

definition DUMMY_PASSWORD_HASH :: string where
  "DUMMY_PASSWORD_HASH = ''$argon2id$v=19$m=65536,t=3,p=4$ZHVtbXlzYWx0MTIzNDU2Nw$8xN4T3nF1zK9W7p0L2m5Q6v8R1y3U5i7O9p4S2a5D8f''"

definition timingSafeVerifyPassword :: "(string \<Rightarrow> string \<Rightarrow> bool) \<Rightarrow> string option \<Rightarrow> string \<Rightarrow> bool" where
  "timingSafeVerifyPassword verify userHash attempt =
     (let h = (if truthy userHash \<and> take 7 (the userHash) = ''$argon2'' then the userHash else DUMMY_PASSWORD_HASH)
      in truthy userHash \<and> verify h attempt)"

definition login_school :: "uuid option \<Rightarrow> bool \<Rightarrow> membership_view list \<Rightarrow> uuid option result" where
  "login_school schoolId super ms =
     (if truthy schoolId then
        (if (\<exists>m \<in> set ms. mv_schoolId m = the schoolId) \<or> super then Inr schoolId else Inl (AppErr ''SCHOOL_ACCESS_DENIED'' 403))
      else (case ms of m # _ \<Rightarrow> Inr (Some (mv_schoolId m))
            | [] \<Rightarrow> if super then Inr None else Inl (AppErr ''SCHOOL_ACCESS_DENIED'' 403)))"

definition or_empty :: "string option \<Rightarrow> string" where
  "or_empty v = (case v of None \<Rightarrow> [] | Some s \<Rightarrow> s)"

text \<open>The format of the school's identifier is checked by zod and is a parameter.\<close>

definition login ::
  "world \<Rightarrow> (string \<Rightarrow> string \<Rightarrow> bool) \<Rightarrow> (string \<Rightarrow> bool) \<Rightarrow> instant \<Rightarrow> string \<Rightarrow> string \<Rightarrow> uuid option \<Rightarrow> db \<Rightarrow> (string \<times> db) result" where
  "login w verify uuid_format now rawPhone password schoolId d =
     (if length rawPhone < 10 \<or> password = [] \<or> (case schoolId of None \<Rightarrow> False | Some s \<Rightarrow> \<not> uuid_format s)
      then Inl (AppErr ''INVALID_INPUT'' 400)
      else case sel1 (\<lambda>u. us_phoneNumber u = login_phone rawPhone) (t_users d) of
        None \<Rightarrow> Inl (AppErr ''INVALID_CREDENTIALS'' 401)
      | Some u \<Rightarrow>
          if \<not> timingSafeVerifyPassword verify (Some (us_passwordHash u)) password \<or> us_status u = ''SUSPENDED''
          then Inl (AppErr ''INVALID_CREDENTIALS'' 401)
          else
            let ms = user_memberships (us_id u) d in
            bind_result (login_school schoolId (is_super u ms) ms) (\<lambda>target.
            case createSession w NoContext now (us_id u) target d of
              Inl _ \<Rightarrow> Inl (AppErr ''LOGIN_FAILED'' 500)
            | Inr ((token, _), d1) \<Rightarrow>
                Inr (token, createAuditLog (or_empty target) (us_id u) ''USER_LOGIN'' ''USER'' (us_id u) JNull d1)))"

text \<open>\<open>logout\<close> and \<open>switch_school\<close> run behind \<open>requireAuth\<close>, which has read the session.\<close>

definition logout :: "world \<Rightarrow> string \<Rightarrow> session_context \<Rightarrow> db \<Rightarrow> db result" where
  "logout w token c d =
     bind_result (invalidateSession w SystemContext token d) (\<lambda>d1.
     Inr (createAuditLog (or_empty (cx_schoolId c)) (su_id (cx_user c)) ''USER_LOGOUT'' ''USER'' (su_id (cx_user c)) JNull d1))"

definition switch_school ::
  "world \<Rightarrow> (string \<Rightarrow> bool) \<Rightarrow> instant \<Rightarrow> string \<Rightarrow> session_context \<Rightarrow> uuid \<Rightarrow> db \<Rightarrow> (string \<times> db) result" where
  "switch_school w uuid_format now token c schoolId d =
     (if \<not> uuid_format schoolId then Inl (AppErr ''INVALID_INPUT'' 400)
      else if sel1 (\<lambda>m. mv_schoolId m = schoolId) (user_memberships (su_id (cx_user c)) d) = None \<and> \<not> isPlatformSuperAdmin (Some c)
      then Inl (AppErr ''MEMBERSHIP_NOT_FOUND'' 403)
      else case sel1 (\<lambda>s. sc_id s = schoolId) (t_schools d) of
        None \<Rightarrow> Inl (AppErr ''SCHOOL_NOT_ACTIVE'' 403)
      | Some s \<Rightarrow>
          if sc_status s \<noteq> ''ACTIVE'' then Inl (AppErr ''SCHOOL_NOT_ACTIVE'' 403)
          else
            bind_result (invalidateSession w NoContext token d) (\<lambda>d1.
            bind_result (createSession w NoContext now (su_id (cx_user c)) (Some schoolId) d1) (\<lambda>((t, _), d2). Inr (t, d2))))"

section \<open>Facts\<close>

lemma withSystemContext_NoContext [simp]: "withSystemContext NoContext body = body" "withSystemContext SystemContext body = body"
  by (simp_all add: withSystemContext_def)

lemma getSession_result:
  "getSession w NoContext now token d = Inr r \<Longrightarrow>
     r = (None, d) \<or> (\<exists>s. sel1 (live_session w now token) (t_authSessions d) = Some s \<and> token \<noteq> []
       \<and> r = (session_context_of s (touch_session w now token d), touch_session w now token d))"
  by (auto simp: getSession_def Let_def split: if_splits option.splits)

lemma getSession_returns: "\<exists>r. getSession w NoContext now token d = Inr r"
  by (simp add: getSession_def Let_def split: option.split)

lemma touch_session_frame [simp]:
  "t_users (touch_session w now token d) = t_users d" "t_memberships (touch_session w now token d) = t_memberships d"
  "t_schools (touch_session w now token d) = t_schools d" "seq (touch_session w now token d) = seq d"
  by (simp_all add: touch_session_def)

lemma user_memberships_cong:
  "t_schools d = t_schools d' \<Longrightarrow> t_memberships d = t_memberships d' \<Longrightarrow> user_memberships u d = user_memberships u d'"
  by (simp add: user_memberships_def)

lemma user_memberships_mem:
  assumes "m \<in> set (user_memberships u d)"
  obtains r s where "r \<in> set (t_memberships d)" "me_userId r = u" "me_status r = ''ACTIVE''" "me_schoolId r = mv_schoolId m"
    "me_role r = mv_role m" "mv_status m = ''ACTIVE''" "s \<in> set (t_schools d)" "sc_id s = mv_schoolId m" "sc_status s = ''ACTIVE''"
  using assms by (auto simp: user_memberships_def)

lemma session_context_ofE:
  assumes "session_context_of s d = Some c"
  obtains u where "u \<in> set (t_users d)" "us_id u = ses_userId s" "us_status u = ''ACTIVE''" "su_id (cx_user c) = us_id u"
    "su_platformRole (cx_user c) = cx_platformRole c" "su_status (cx_user c) = ''ACTIVE''"
    "cx_memberships c = user_memberships (us_id u) d"
    "cx_platformRole c = js_or (us_platformRole u) (if is_super u (user_memberships (us_id u) d) then Some ''SUPER_ADMIN'' else None)"
  using assms
  by (auto simp: session_context_of_def Let_def split: option.splits if_splits dest!: sel1_SomeD)

section \<open>The life of a token\<close>

text \<open>
  Logins, requests that read a session, logouts and changes of school, in any order; whatever other
  services do leaves the sessions alone or deletes some (with their user), and the supply only grows.
\<close>

datatype session_op =
    Login instant string string "uuid option"
  | Use instant string
  | Logout instant string
  | Switch instant string uuid
  | Elsewhere "auth_session \<Rightarrow> bool" db

fun session_step :: "world \<Rightarrow> (string \<Rightarrow> string \<Rightarrow> bool) \<Rightarrow> (string \<Rightarrow> bool) \<Rightarrow> db \<Rightarrow> session_op \<Rightarrow> db" where
  "session_step w verify uf d (Login now phone password school) =
     (case login w verify uf now phone password school d of Inl _ \<Rightarrow> d | Inr (_, d1) \<Rightarrow> d1)"
| "session_step w verify uf d (Use now token) =
     (case getSession w NoContext now token d of Inl _ \<Rightarrow> d | Inr (_, d1) \<Rightarrow> d1)"
| "session_step w verify uf d (Logout now token) =
     (case getSession w NoContext now token d of
        Inl _ \<Rightarrow> d
      | Inr (None, d1) \<Rightarrow> d1
      | Inr (Some c, d1) \<Rightarrow> (case logout w token c d1 of Inl _ \<Rightarrow> d1 | Inr d2 \<Rightarrow> d2))"
| "session_step w verify uf d (Switch now token school) =
     (case getSession w NoContext now token d of
        Inl _ \<Rightarrow> d
      | Inr (None, d1) \<Rightarrow> d1
      | Inr (Some c, d1) \<Rightarrow> (case switch_school w uf now token c school d1 of Inl _ \<Rightarrow> d1 | Inr (_, d2) \<Rightarrow> d2))"
| "session_step w verify uf d (Elsewhere keep d1) =
     d1\<lparr>t_authSessions := filter keep (t_authSessions d), seq := max (seq d) (seq d1)\<rparr>"

fun bears :: "string \<Rightarrow> session_op \<Rightarrow> instant option" where
  "bears token (Use now t) = (if t = token then Some now else None)"
| "bears token (Logout now t) = (if t = token then Some now else None)"
| "bears token (Switch now t _) = (if t = token then Some now else None)"
| "bears token _ = None"

text \<open>How one operation may change the session table: rows go, rows are stamped by a request of their
  token, and a new row has the hash of a new token.\<close>

definition session_origin :: "world \<Rightarrow> (string \<Rightarrow> instant \<Rightarrow> bool) \<Rightarrow> db \<Rightarrow> nat \<Rightarrow> auth_session \<Rightarrow> bool" where
  "session_origin w stamped d hi s' \<longleftrightarrow>
     (\<exists>s \<in> set (t_authSessions d). ses_sessionToken s' = ses_sessionToken s \<and> ses_expiresAt s' = ses_expiresAt s
        \<and> (ses_lastAccessedAt s' = ses_lastAccessedAt s
           \<or> (\<exists>t. ses_sessionToken s = sha256 w t \<and> stamped t (ses_lastAccessedAt s'))))
     \<or> (\<exists>n \<ge> seq d. n < hi \<and> ses_sessionToken s' = sha256 w (gen_token w n))"

definition sessions_evolve :: "world \<Rightarrow> (string \<Rightarrow> instant \<Rightarrow> bool) \<Rightarrow> db \<Rightarrow> db \<Rightarrow> bool" where
  "sessions_evolve w stamped d d' \<longleftrightarrow> seq d \<le> seq d' \<and> (\<forall>s' \<in> set (t_authSessions d'). session_origin w stamped d (seq d') s')"

lemma origin_old: "s \<in> set (t_authSessions d) \<Longrightarrow> session_origin w p d hi s"
  unfolding session_origin_def by blast

lemma origin_stamped:
  assumes "s \<in> set (t_authSessions d)" "ses_sessionToken s = sha256 w t" "p t now"
  shows "session_origin w p d hi (s\<lparr>ses_lastAccessedAt := now\<rparr>)"
  unfolding session_origin_def using assms by (intro disjI1 bexI [OF _ assms(1)]) auto

lemma origin_more: "session_origin w p d hi s \<Longrightarrow> hi \<le> hi' \<Longrightarrow> session_origin w p d hi' s"
  unfolding session_origin_def by (meson less_le_trans)

lemma evolve_refl [simp]: "sessions_evolve w p d d"
  by (simp add: sessions_evolve_def origin_old)

lemma evolve_audit: "sessions_evolve w p d d' \<Longrightarrow> sessions_evolve w p d (createAuditLog a b c e f g d')"
  by (simp add: sessions_evolve_def createAuditLog_def)

lemma evolve_touch:
  assumes "p token now"
  shows "sessions_evolve w p d (touch_session w now token d)"
  unfolding sessions_evolve_def
proof (intro conjI ballI)
  fix s' assume "s' \<in> set (t_authSessions (touch_session w now token d))"
  then obtain s where "s \<in> set (t_authSessions d)"
    "s' = (if ses_sessionToken s = sha256 w token then s\<lparr>ses_lastAccessedAt := now\<rparr> else s)"
    by (auto simp: touch_session_def in_upd)
  with assms show "session_origin w p d (seq (touch_session w now token d)) s'"
    using origin_old [of s] origin_stamped [of s d w token p now] by (cases "ses_sessionToken s = sha256 w token") simp_all
qed simp

lemma evolve_invalidate:
  assumes "sessions_evolve w p d d'" "invalidateSession w active token d' = Inr d''"
  shows "sessions_evolve w p d d''"
proof -
  have "seq d'' = seq d' \<and> set (t_authSessions d'') \<subseteq> set (t_authSessions d')"
    using assms(2) by (cases active) (auto simp: invalidateSession_def withSystemContext_def split: if_splits)
  with assms(1) show ?thesis by (auto simp: sessions_evolve_def)
qed

lemma createSession_row:
  assumes "createSession w active now u sch d = Inr ((t, e), d')"
  obtains s where "t = gen_token w (seq d)" "e = now + SESSION_DURATION_MS" "ses_sessionToken s = sha256 w t" "ses_expiresAt s = e"
    "ses_lastAccessedAt s = now" "d' = d\<lparr>t_authSessions := t_authSessions d @ [s], seq := seq d + 2\<rparr>"
    "sha256 w t \<notin> ses_sessionToken ` set (t_authSessions d)"
proof -
  let ?s = "\<lparr>ses_id = gen_uuid w (Suc (seq d)), ses_userId = u, ses_schoolId = js_or sch None, ses_sessionToken = sha256 w t,
    ses_expiresAt = e, ses_lastAccessedAt = now\<rparr>"
  from assms have "t = gen_token w (seq d) \<and> e = now + SESSION_DURATION_MS
      \<and> d' = d\<lparr>t_authSessions := t_authSessions d @ [?s], seq := seq d + 2\<rparr> \<and> sha256 w t \<notin> ses_sessionToken ` set (t_authSessions d)"
    by (cases active) (auto simp: createSession_def Let_def withSystemContext_def insert_session_def split: if_splits)
  then show thesis by (elim conjE) (rule that [of ?s], simp_all)
qed

lemma evolve_create:
  assumes "sessions_evolve w p d d'" "createSession w active now u sch d' = Inr ((t, e), d'')"
  shows "sessions_evolve w p d d''"
  using assms(2)
proof (rule createSession_row)
  fix s
  assume s: "t = gen_token w (seq d')" "ses_sessionToken s = sha256 w t"
    and d'': "d'' = d'\<lparr>t_authSessions := t_authSessions d' @ [s], seq := seq d' + 2\<rparr>"
  from assms(1) have le: "seq d \<le> seq d'" by (simp add: sessions_evolve_def)
  show ?thesis unfolding sessions_evolve_def
  proof (intro conjI ballI)
    show "seq d \<le> seq d''" using le d'' by simp
    have new: "session_origin w p d (seq d'') s"
      unfolding session_origin_def using s le d'' by (intro disjI2 exI [of _ "seq d'"]) simp
    fix s' assume "s' \<in> set (t_authSessions d'')"
    then have "s' \<in> set (t_authSessions d') \<or> s' = s" using d'' by auto
    then show "session_origin w p d (seq d'') s'"
    proof
      assume "s' \<in> set (t_authSessions d')"
      with assms(1) have "session_origin w p d (seq d') s'" by (simp add: sessions_evolve_def)
      then show ?thesis by (rule origin_more) (simp add: d'')
    qed (simp add: new)
  qed
qed

lemma login_steps:
  assumes "login w verify uf now phone password school d = Inr (t, d')"
  obtains u target e d1 where "createSession w NoContext now u target d = Inr ((t, e), d1)"
    "d' = createAuditLog (or_empty target) u ''USER_LOGIN'' ''USER'' u JNull d1"
proof -
  from assms obtain u :: user and target where "(case createSession w NoContext now (us_id u) target d of
              Inl _ \<Rightarrow> Inl (AppErr ''LOGIN_FAILED'' 500)
            | Inr ((token, _), d1) \<Rightarrow>
                Inr (token, createAuditLog (or_empty target) (us_id u) ''USER_LOGIN'' ''USER'' (us_id u) JNull d1)) = Inr (t, d')"
    unfolding login_def Let_def bind_result_Inr_iff by (auto simp: bind_result_Inr_iff simp del: case_prod_conv split: if_splits option.splits)
  with that show thesis by (auto split: sum.splits prod.splits)
qed

lemma logout_steps:
  assumes "logout w token c d = Inr d'"
  obtains d1 where "invalidateSession w SystemContext token d = Inr d1"
    "d' = createAuditLog (or_empty (cx_schoolId c)) (su_id (cx_user c)) ''USER_LOGOUT'' ''USER'' (su_id (cx_user c)) JNull d1"
  using assms by (auto simp: logout_def bind_result_Inr_iff)

lemma switch_steps:
  assumes "switch_school w uf now token c school d = Inr (t, d')"
  obtains d1 u e where "invalidateSession w NoContext token d = Inr d1" "createSession w NoContext now u (Some school) d1 = Inr ((t, e), d')"
  using assms by (auto simp: switch_school_def bind_result_Inr_iff split: if_splits option.splits)

lemma session_step_evolve: "sessions_evolve w (\<lambda>t n. bears t x = Some n) d (session_step w verify uf d x)"
proof (cases x)
  case (Login now phone password school)
  show ?thesis
  proof (cases "login w verify uf now phone password school d")
    case (Inr r)
    obtain t d' where r: "r = (t, d')" by (cases r)
    from Inr [unfolded r] show ?thesis
    proof (rule login_steps)
      fix u target e d1
      assume "createSession w NoContext now u target d = Inr ((t, e), d1)"
        "d' = createAuditLog (or_empty target) u ''USER_LOGIN'' ''USER'' u JNull d1"
      with evolve_create [OF evolve_refl] show ?thesis unfolding Login session_step.simps Inr r by (simp add: evolve_audit)
    qed
  qed (simp add: Login)
next
  case (Use now token)
  obtain r where r: "getSession w NoContext now token d = Inr r" using getSession_returns by blast
  have "snd r = d \<or> snd r = touch_session w now token d" using getSession_result [OF r] by auto
  then have "sessions_evolve w (\<lambda>t n. bears t x = Some n) d (snd r)" using evolve_touch [of "\<lambda>t n. bears t x = Some n"] by (auto simp: Use)
  then show ?thesis using r by (cases r) (simp add: Use)
next
  case (Logout now token)
  obtain r where r: "getSession w NoContext now token d = Inr r" using getSession_returns by blast
  have r2: "snd r = d \<or> snd r = touch_session w now token d" using getSession_result [OF r] by auto
  have e: "sessions_evolve w (\<lambda>t n. bears t x = Some n) d (snd r)" using r2 evolve_touch [of "\<lambda>t n. bears t x = Some n"] by (auto simp: Logout)
  show ?thesis
  proof (cases "fst r")
    case None
    with r e show ?thesis unfolding Logout by (cases r) simp
  next
    case (Some c)
    have "sessions_evolve w (\<lambda>t n. bears t x = Some n) d d2" if "logout w token c (snd r) = Inr d2" for d2
      using that by (rule logout_steps) (simp add: evolve_audit evolve_invalidate [OF e])
    with r Some e show ?thesis unfolding Logout by (cases r) (auto split: sum.split)
  qed
next
  case (Switch now token school)
  obtain r where r: "getSession w NoContext now token d = Inr r" using getSession_returns by blast
  have r2: "snd r = d \<or> snd r = touch_session w now token d" using getSession_result [OF r] by auto
  have e: "sessions_evolve w (\<lambda>t n. bears t x = Some n) d (snd r)" using r2 evolve_touch [of "\<lambda>t n. bears t x = Some n"] by (auto simp: Switch)
  show ?thesis
  proof (cases "fst r")
    case None
    with r e show ?thesis unfolding Switch by (cases r) simp
  next
    case (Some c)
    have "sessions_evolve w (\<lambda>t n. bears t x = Some n) d d2" if "switch_school w uf now token c school (snd r) = Inr (t, d2)" for t d2
      using that by (rule switch_steps) (rule evolve_create [OF evolve_invalidate [OF e]])
    with r Some e show ?thesis unfolding Switch by (cases r) (auto split: sum.split)
  qed
next
  case (Elsewhere keep d1)
  then show ?thesis by (auto simp: sessions_evolve_def intro: origin_old)
qed

text \<open>A token of the supply: once no row has its hash none ever has, and its rows keep their expiry.\<close>

definition token_gone :: "world \<Rightarrow> nat \<Rightarrow> db \<Rightarrow> bool" where
  "token_gone w k d \<longleftrightarrow> k < seq d \<and> sha256 w (gen_token w k) \<notin> ses_sessionToken ` set (t_authSessions d)"

definition token_within :: "world \<Rightarrow> nat \<Rightarrow> instant \<Rightarrow> instant \<Rightarrow> db \<Rightarrow> bool" where
  "token_within w k expiry seen d \<longleftrightarrow> k < seq d \<and> (\<forall>s \<in> set (t_authSessions d).
     ses_sessionToken s = sha256 w (gen_token w k) \<longrightarrow> ses_expiresAt s \<le> expiry \<and> ses_lastAccessedAt s \<le> seen)"

lemma token_fresh:
  assumes "inj (sha256 w)" "inj (gen_token w)"
  shows "sha256 w (gen_token w n) = sha256 w (gen_token w k) \<longleftrightarrow> n = k"
  using assms by (simp add: inj_eq)

lemma evolve_gone:
  assumes "inj (sha256 w)" "inj (gen_token w)" "sessions_evolve w p d d'" "token_gone w k d"
  shows "token_gone w k d'"
  using assms(3,4) token_fresh [OF assms(1,2)] unfolding token_gone_def sessions_evolve_def session_origin_def
  by (auto simp: image_iff) (metis leD)

lemma evolve_within:
  assumes "inj (sha256 w)" "inj (gen_token w)" "sessions_evolve w p d d'" "token_within w k expiry seen d"
    "\<And>n. p (gen_token w k) n \<Longrightarrow> n \<le> seen"
  shows "token_within w k expiry seen d'"
  unfolding token_within_def
proof (intro conjI ballI impI)
  have k: "k < seq d" using assms(4) by (simp add: token_within_def)
  with assms(3) show "k < seq d'" by (simp add: sessions_evolve_def)
  fix s' assume s': "s' \<in> set (t_authSessions d')" "ses_sessionToken s' = sha256 w (gen_token w k)"
  from assms(3) s'(1) have "session_origin w p d (seq d') s'" by (simp add: sessions_evolve_def)
  then consider (old) s where "s \<in> set (t_authSessions d)" "ses_sessionToken s' = ses_sessionToken s" "ses_expiresAt s' = ses_expiresAt s"
      "ses_lastAccessedAt s' = ses_lastAccessedAt s \<or> (\<exists>t. ses_sessionToken s = sha256 w t \<and> p t (ses_lastAccessedAt s'))"
    | (new) n where "seq d \<le> n" "ses_sessionToken s' = sha256 w (gen_token w n)"
    unfolding session_origin_def by blast
  then have "ses_expiresAt s' \<le> expiry \<and> ses_lastAccessedAt s' \<le> seen"
  proof cases
    case old
    then have "ses_expiresAt s \<le> expiry" "ses_lastAccessedAt s \<le> seen" using assms(4) s'(2) by (auto simp: token_within_def)
    moreover have "t = gen_token w k" if "ses_sessionToken s = sha256 w t" for t
      using that old(2) s'(2) assms(1) by (simp add: inj_eq)
    ultimately show ?thesis using old(3,4) assms(5) by auto
  next
    case new
    with s'(2) token_fresh [OF assms(1,2)] k show ?thesis by simp
  qed
  then show "ses_expiresAt s' \<le> expiry" "ses_lastAccessedAt s' \<le> seen" by simp_all
qed

interpretation token: guarded_machine "session_step w verify uf" "\<lambda>d. inj (sha256 w) \<and> inj (gen_token w) \<and> token_gone w k d" for w verify uf k
  by unfold_locales (use evolve_gone session_step_evolve in blast)

lemma steps_within:
  assumes "inj (sha256 w)" "inj (gen_token w)" "token_within w k expiry seen d"
    "list_all (\<lambda>x. case bears (gen_token w k) x of None \<Rightarrow> True | Some n \<Rightarrow> n \<le> seen) xs"
  shows "token_within w k expiry seen (foldl (session_step w verify uf) d xs)"
  using assms(3,4)
proof (induction xs arbitrary: d)
  case (Cons x xs)
  have "token_within w k expiry seen (session_step w verify uf d x)"
    by (rule evolve_within [OF assms(1,2) session_step_evolve Cons.prems(1)]) (use Cons.prems(2) in simp)
  with Cons show ?case by simp
qed simp

lemma steps_seq: "seq d \<le> seq (foldl (session_step w verify uf) d xs)"
proof (induction xs arbitrary: d)
  case (Cons x xs)
  from session_step_evolve [of w x d verify uf] have "seq d \<le> seq (session_step w verify uf d x)" by (simp add: sessions_evolve_def)
  also note Cons
  finally show ?case by simp
qed simp

lemma invalidate_gone:
  assumes "invalidateSession w active (gen_token w k) d = Inr d'" "gen_token w k \<noteq> []" "k < seq d"
  shows "token_gone w k d'"
  using assms by (cases active) (auto simp: invalidateSession_def withSystemContext_def token_gone_def)

lemma gone_no_session: "token_gone w k d \<Longrightarrow> getSession w NoContext now (gen_token w k) d = Inr (None, d)"
  by (auto simp: getSession_def token_gone_def live_session_def sel1_None_iff image_iff split: option.split dest!: sel1_SomeD)

lemma stale_no_session:
  assumes "token_within w k expiry seen d" "expiry \<le> now \<or> seen + SESSION_IDLE_TIMEOUT_MS \<le> now"
  shows "getSession w NoContext now (gen_token w k) d = Inr (None, d)"
proof -
  have "sel1 (live_session w now (gen_token w k)) (t_authSessions d) = None"
    using assms by (fastforce simp: sel1_None_iff live_session_def token_within_def)
  then show ?thesis by (simp add: getSession_def)
qed

text \<open>
  C19: A session ends.  A token handed out by a login answers for at most 24 hours from the login, and not
  after two hours without a request that carries it, whatever logins, requests, changes of school and
  other services' work happen meanwhile; and the moment it is logged out or exchanged for another
  school's it is dead for good.
\<close>

theorem session_ends:
  assumes "inj (sha256 w)" "inj (gen_token w)"
    and "login w verify uf t phone password school d = Inr (token, d1)"
  shows "(t \<le> seen \<and> list_all (\<lambda>x. case bears token x of None \<Rightarrow> True | Some n \<Rightarrow> n \<le> seen) xs
        \<and> (t + 86400000 \<le> now \<or> seen + 7200000 \<le> now) \<longrightarrow>
      getSession w NoContext now token (foldl (session_step w verify uf) d1 xs) = Inr (None, foldl (session_step w verify uf) d1 xs))
    \<and> (\<forall>c d2 ys. logout w token c (foldl (session_step w verify uf) d1 xs) = Inr d2
        \<or> (\<exists>new. switch_school w uf t2 token c other (foldl (session_step w verify uf) d1 xs) = Inr (new, d2)) \<longrightarrow>
      getSession w NoContext now token (foldl (session_step w verify uf) d2 ys) = Inr (None, foldl (session_step w verify uf) d2 ys))"
  using assms(3)
proof (rule login_steps)
  fix u target e d0
  assume c: "createSession w NoContext t u target d = Inr ((token, e), d0)"
    and d1: "d1 = createAuditLog (or_empty target) u ''USER_LOGIN'' ''USER'' u JNull d0"
  from c obtain s where s: "token = gen_token w (seq d)" "e = t + SESSION_DURATION_MS" "ses_sessionToken s = sha256 w token"
    "ses_expiresAt s = e" "ses_lastAccessedAt s = t" "d0 = d\<lparr>t_authSessions := t_authSessions d @ [s], seq := seq d + 2\<rparr>"
    "sha256 w token \<notin> ses_sessionToken ` set (t_authSessions d)" by (rule createSession_row)
  have within: "token_within w (seq d) (t + SESSION_DURATION_MS) seen d1" if "t \<le> seen"
  proof -
    have "ses_sessionToken x \<noteq> sha256 w token" if "x \<in> set (t_authSessions d)" for x using s(7) that by (metis image_eqI)
    with that s(2,4,5,6) show ?thesis by (auto simp: token_within_def d1 createAuditLog_def s(1) [symmetric])
  qed
  have stale: "getSession w NoContext now token (foldl (session_step w verify uf) d1 xs) = Inr (None, foldl (session_step w verify uf) d1 xs)"
    if "t \<le> seen" "list_all (\<lambda>x. case bears token x of None \<Rightarrow> True | Some n \<Rightarrow> n \<le> seen) xs"
      "t + 86400000 \<le> now \<or> seen + 7200000 \<le> now"
    using steps_within [OF assms(1,2) within [OF that(1)]] that(2,3) unfolding s(1)
    by (intro stale_no_session) (simp_all add: SESSION_DURATION_MS_def SESSION_IDLE_TIMEOUT_MS_def)
  have k: "seq d < seq (foldl (session_step w verify uf) d1 xs)"
    by (rule less_le_trans [OF _ steps_seq]) (simp add: d1 s(6) createAuditLog_def)
  have dead: "getSession w NoContext now token (foldl (session_step w verify uf) d2 ys) = Inr (None, foldl (session_step w verify uf) d2 ys)"
    if "logout w token c (foldl (session_step w verify uf) d1 xs) = Inr d2
        \<or> (\<exists>new. switch_school w uf t2 token c other (foldl (session_step w verify uf) d1 xs) = Inr (new, d2))" for c d2 ys
  proof (cases "token = []")
    case False
    have "token_gone w (seq d) d2"
      using that
    proof (elim disjE exE)
      assume "logout w token c (foldl (session_step w verify uf) d1 xs) = Inr d2"
      then show ?thesis
      proof (rule logout_steps)
        fix d3
        assume "invalidateSession w SystemContext token (foldl (session_step w verify uf) d1 xs) = Inr d3"
          and d2: "d2 = createAuditLog (or_empty (cx_schoolId c)) (su_id (cx_user c)) ''USER_LOGOUT'' ''USER'' (su_id (cx_user c)) JNull d3"
        from invalidate_gone [OF this(1) [unfolded s(1)] False [unfolded s(1)] k] show ?thesis
          by (simp add: d2 token_gone_def createAuditLog_def)
      qed
    next
      fix new assume "switch_school w uf t2 token c other (foldl (session_step w verify uf) d1 xs) = Inr (new, d2)"
      then show ?thesis
      proof (rule switch_steps)
        fix d3 u e
        assume "invalidateSession w NoContext token (foldl (session_step w verify uf) d1 xs) = Inr d3"
          and cr: "createSession w NoContext t2 u (Some other) d3 = Inr ((new, e), d2)"
        from invalidate_gone [OF this(1) [unfolded s(1)] False [unfolded s(1)] k] show ?thesis
          by (rule evolve_gone [OF assms(1,2) evolve_create [OF evolve_refl cr]])
      qed
    qed
    then have "token_gone w (seq d) (foldl (session_step w verify uf) d2 ys)"
      using token.run_inv [of w "seq d" d2 verify uf ys] assms(1,2) by blast
    from gone_no_session [OF this] show ?thesis unfolding s(1) .
  qed (simp add: getSession_def)
  show ?thesis by (rule conjI, intro impI, elim conjE, erule (2) stale, intro allI impI, erule dead)
qed

section \<open>Examples\<close>

definition session_world :: world where
  "session_world = example_world\<lparr>gen_token := (\<lambda>n. replicate (Suc n) (CHR ''t''))\<rparr>"

definition session_db :: db where
  "session_db = empty_db\<lparr>
     t_schools := [\<lparr>sc_id = ''s'', sc_name = [], sc_slug = [], sc_udiseCode = [], sc_district = [], sc_block = None, sc_preferredLanguage = ''en'', sc_timezone = ''UTC'', sc_rfidMode = ''LIVE'', sc_status = ''ACTIVE''\<rparr>],
     t_users := [\<lparr>us_id = ''t'', us_fullName = [65], us_phoneNumber = ''+910000000000'', us_passwordHash = ''$argon2pw'', us_platformRole = None, us_status = ''ACTIVE''\<rparr>],
     t_memberships := [\<lparr>me_id = ''m'', me_schoolId = ''s'', me_userId = ''t'', me_role = ''TEACHER'', me_status = ''ACTIVE''\<rparr>]\<rparr>"

definition session_verify :: "string \<Rightarrow> string \<Rightarrow> bool" where
  "session_verify h p \<longleftrightarrow> h = ''$argon2'' @ p"

lemma inj_session_world: "inj (sha256 session_world)" "inj (gen_token session_world)"
  by (auto simp: session_world_def example_world_def inj_def replicate_eq_replicate)

definition session_login :: "(string \<times> db) result" where
  "session_login = login session_world session_verify (\<lambda>_. True) 0 ''+910000000000'' ''pw'' None session_db"

text \<open>The token is \<open>t\<close>, and it answers ten milliseconds later.\<close>

lemma session_login_view:
  "(case session_login of Inl _ \<Rightarrow> None | Inr (token, d) \<Rightarrow> Some token) = Some ''t''"
  "(case session_login of Inl _ \<Rightarrow> None | Inr (token, d) \<Rightarrow>
     (case getSession session_world NoContext 10 token d of Inl _ \<Rightarrow> None | Inr (c, _) \<Rightarrow> map_option cx_userId c)) = Some ''t''"
  by code_simp+

theorem session_ends_witness:
  "\<exists>d. login session_world session_verify (\<lambda>_. True) 0 ''+910000000000'' ''pw'' None session_db = Inr (''t'', d)
     \<and> getSession session_world NoContext 7200010 ''t'' (foldl (session_step session_world session_verify (\<lambda>_. True)) d [Use 10 ''t''])
       = Inr (None, foldl (session_step session_world session_verify (\<lambda>_. True)) d [Use 10 ''t''])"
proof -
  from session_login_view(1) obtain d where l: "login session_world session_verify (\<lambda>_. True) 0 ''+910000000000'' ''pw'' None session_db = Inr (''t'', d)"
    unfolding session_login_def by (auto split: sum.splits prod.splits)
  note e = conjunct1 [OF session_ends [OF inj_session_world l, of 10 "[Use 10 ''t'']" 7200010 0 "[]"]]
  show ?thesis by (intro exI [of _ d] conjI l e [THEN mp]) simp_all
qed

end
