(* ===== verification/Access.thy ===== *)
theory Access
  imports Session
begin

text \<open>
  Models the guards between a request and a handler: src/src/middleware/authMiddleware.ts,
  tenantMiddleware.ts and resolveSchoolId.ts, the guard of src/src/http/tenantRoute.ts, and the roles and
  permissions of src/src/auth/permissions.ts.  A request is what these read of it; the values of the query
  and the body are already text, as the code compares them with \<open>String\<close>.
\<close>

section \<open>Requests\<close>

record web_request =
  wr_method :: string
  wr_originalUrl :: string
  wr_cookies :: "string \<Rightarrow> string option"
  wr_headers :: headers
  wr_schoolId :: "uuid option"
  wr_paramSchool :: "uuid option"
  wr_querySchool :: "string option"
  wr_bodySchool :: "string option"
  wr_bodyCsrf :: "string option"

definition session_token :: "web_request \<Rightarrow> string option" where
  "session_token req = js_or (wr_cookies req ''session'') (map_option strip_bearer (wr_headers req ''authorization''))"

text \<open>A refusal leaves the database as the look-up of the session left it.\<close>

definition requireAuth :: "world \<Rightarrow> instant \<Rightarrow> web_request \<Rightarrow> db \<Rightarrow> db \<times> session_context result" where
  "requireAuth w now req d =
     (if \<not> truthy (session_token req) then (d, Inl (AppErr ''UNAUTHORIZED'' 401))
      else case getSession w NoContext now (the (session_token req)) d of
        Inl e \<Rightarrow> (d, Inl e)
      | Inr (None, d1) \<Rightarrow> (d1, Inl (AppErr ''INVALID_SESSION'' 401))
      | Inr (Some c, d1) \<Rightarrow>
          if su_status (cx_user c) = ''SUSPENDED'' then (d1, Inl (AppErr ''USER_SUSPENDED'' 403)) else (d1, Inr c))"

definition requireRole :: "string list \<Rightarrow> session_context \<Rightarrow> string option \<Rightarrow> unit result" where
  "requireRole allowedRoles c userRole =
     (let platform = cx_platformRole c = Some ''SUPER_ADMIN'' \<or> su_platformRole (cx_user c) = Some ''SUPER_ADMIN'';
          activeRole = js_or userRole (map_option am_role (cx_activeMembership c))
      in if platform \<or> activeRole = Some ''SUPER_ADMIN'' then Inr ()
         else throw_if (\<not> truthy activeRole \<or> the activeRole \<notin> set allowedRoles) (AppErr ''FORBIDDEN_ROLE'' 403))"

definition requirePlatformRole :: "string list \<Rightarrow> session_context \<Rightarrow> unit result" where
  "requirePlatformRole allowedPlatformRoles c =
     (let platformRole = js_or (cx_platformRole c) (js_or (su_platformRole (cx_user c))
            (if \<exists>m \<in> set (cx_memberships c). mv_role m = ''SUPER_ADMIN'' then Some ''SUPER_ADMIN'' else None))
      in throw_if (\<not> truthy platformRole \<or> the platformRole \<notin> set allowedPlatformRoles) (AppErr ''FORBIDDEN_PLATFORM_ROLE'' 403))"

section \<open>The school of a request\<close>

text \<open>\<open>/\schools/([^/?#]+)/i\<close>: the first segment of the address after one named schools.\<close>

fun school_segment :: "string \<Rightarrow> string option" where
  "school_segment [] = None"
| "school_segment (c # url) =
     (let seg = takeWhile (\<lambda>x. x \<notin> set ''/?#'') (drop 8 url)
      in if to_lower (take 9 (c # url)) = ''/schools/'' \<and> seg \<noteq> [] then Some seg else school_segment url)"

text \<open>The pattern of tenantMiddleware.ts also looks at version and variant of the identifier.\<close>

definition strict_uuid :: "string \<Rightarrow> bool" where
  "strict_uuid s \<longleftrightarrow> isUuid s \<and> s ! 14 \<in> set ''12345678'' \<and> s ! 19 \<in> set ''89abAB''"

fun school_uuid :: "string \<Rightarrow> string option" where
  "school_uuid [] = None"
| "school_uuid (c # url) =
     (let i = take 36 (drop 8 url)
      in if to_lower (take 9 (c # url)) = ''/schools/'' \<and> length i = 36 \<and> strict_uuid i then Some i else school_uuid url)"

definition other_school :: "web_request \<Rightarrow> string \<Rightarrow> bool" where
  "other_school req pathId \<longleftrightarrow>
     (\<exists>v \<in> set [wr_headers req ''x-school-id'', wr_querySchool req, wr_bodySchool req]. v \<noteq> None \<and> v \<noteq> Some pathId)"

definition extractSchoolId :: "web_request \<Rightarrow> uuid result" where
  "extractSchoolId req =
     (let pathId = js_or (wr_schoolId req) (js_or (wr_paramSchool req) (school_segment (wr_originalUrl req)))
      in if \<not> truthy pathId \<or> \<not> isUuid (the pathId) then Inl (AppErr ''INVALID_SCHOOL_ID'' 400)
         else if other_school req (the pathId) then Inl (AppErr ''SCHOOL_ID_MISMATCH'' 400)
         else Inr (the pathId))"

definition starts_with_text :: "string \<Rightarrow> string \<Rightarrow> bool" where
  "starts_with_text p s \<longleftrightarrow> take (length p) s = p"

definition resolveSchoolId :: "web_request \<Rightarrow> web_request result" where
  "resolveSchoolId req =
     (let url = wr_originalUrl req;
          pathId = js_or (wr_paramSchool req) (school_segment url)
      in if starts_with_text ''/api/v1/public/'' url \<or> starts_with_text ''/readyz'' url \<or> starts_with_text ''/metrics'' url then Inr req
         else if \<not> truthy pathId \<or> the pathId = ''by-slug'' then Inr req
         else if \<not> isUuid (the pathId) then Inl (AppErr ''INVALID_SCHOOL_ID'' 400)
         else if other_school req (the pathId) then Inl (AppErr ''SCHOOL_ID_MISMATCH'' 400)
         else Inr (req\<lparr>wr_schoolId := pathId, wr_paramSchool := pathId\<rparr>))"

text \<open>The school and the role with which the handler runs, in the context of that school.\<close>

definition requireTenant :: "web_request \<Rightarrow> session_context \<Rightarrow> (uuid \<times> string option) result" where
  "requireTenant req c =
     (let target = js_or (wr_paramSchool req) (js_or (school_uuid (wr_originalUrl req))
            (js_or (wr_headers req ''x-school-id'') (js_or (wr_bodySchool req) (wr_querySchool req))));
          super = isPlatformSuperAdmin (Some c);
          m = sel1 (\<lambda>m. Some (mv_schoolId m) = target) (cx_memberships c)
      in if \<not> truthy target then Inl (AppErr ''MISSING_SCHOOL_ID'' 400)
         else if \<not> isUuid (the target) then Inl (AppErr ''INVALID_SCHOOL_ID'' 400)
         else if \<not> super \<and> m = None then Inl (AppErr ''CROSS_TENANT_DENIED'' 403)
         else if \<not> super \<and> mv_status (the m) = ''SUSPENDED'' then Inl (AppErr ''MEMBERSHIP_SUSPENDED'' 403)
         else withTenantContext NoContext (the target)
           (Inr (the target, js_or (map_option mv_role m) (if super then Some ''SUPER_ADMIN'' else None))))"

section \<open>The two ways to guard a route\<close>

text \<open>Most routes: \<open>requireAuth\<close>, \<open>requireTenant\<close> and \<open>requireRole\<close> behind \<open>resolveSchoolId\<close>.\<close>

definition middleware_guard ::
  "world \<Rightarrow> instant \<Rightarrow> string list \<Rightarrow> web_request \<Rightarrow> db \<Rightarrow> db \<times> (uuid \<times> string option \<times> session_context) result" where
  "middleware_guard w now roles req d =
     (case resolveSchoolId req of
        Inl e \<Rightarrow> (d, Inl e)
      | Inr req1 \<Rightarrow>
          (case requireAuth w now req1 d of
             (d1, Inl e) \<Rightarrow> (d1, Inl e)
           | (d1, Inr c) \<Rightarrow>
               (d1, bind_result (requireTenant req1 c) (\<lambda>(sid, role).
                    bind_result (requireRole roles c role) (\<lambda>_. Inr (sid, role, c))))))"

text \<open>The newer routes: \<open>tenantRoute\<close>, which asks \<open>assertMembership\<close>.\<close>

definition tenantRoute_guard ::
  "world \<Rightarrow> instant \<Rightarrow> string list \<Rightarrow> web_request \<Rightarrow> db \<Rightarrow> db \<times> (uuid \<times> string option \<times> session_context) result" where
  "tenantRoute_guard w now roles req d =
     (if \<not> truthy (session_token req) then (d, Inl (AppErr ''UNAUTHORIZED'' 401))
      else case getSession w NoContext now (the (session_token req)) d of
        Inl e \<Rightarrow> (d, Inl e)
      | Inr (None, d1) \<Rightarrow> (d1, Inl (AppErr ''INVALID_SESSION'' 401))
      | Inr (Some c, d1) \<Rightarrow>
          if su_status (cx_user c) = ''SUSPENDED'' then (d1, Inl (AppErr ''USER_SUSPENDED'' 403))
          else (d1, bind_result (extractSchoolId req) (\<lambda>sid.
                    bind_result (assertMembership NoContext (cx_user c) sid roles (Some c) d1) (\<lambda>(role, _).
                    withTenantContext NoContext sid (Inr (sid, Some role, c))))))"

section \<open>Roles and permissions\<close>

definition ROLES :: "string list" where
  "ROLES = [''SUPER_ADMIN'', ''SCHOOL_ADMIN'', ''TEACHER'', ''REPORT_VIEWER'', ''RFID_OPERATOR'']"

definition PERMISSIONS :: "string list" where
  "PERMISSIONS =
     [''platform.schools.read'', ''platform.schools.manage'', ''platform.security.read'', ''platform.audit.read'',
      ''school.settings.read'', ''school.settings.manage'', ''school.users.read'', ''school.users.manage'',
      ''school.academics.read'', ''school.academics.manage'',
      ''attendance.sessions.read'', ''attendance.sessions.create'', ''attendance.sessions.review'',
      ''attendance.sessions.finalize'', ''attendance.manualCorrection'',
      ''reports.read'', ''reports.export'', ''qr.issue'', ''qr.reissue'',
      ''rfid.dashboard.read'', ''rfid.readers.read'', ''rfid.readers.manage'', ''rfid.cards.read'', ''rfid.cards.enroll'',
      ''rfid.cards.bulkEnroll'', ''rfid.cards.suspend'', ''rfid.cards.revoke'', ''rfid.events.read'',
      ''notifications.read'', ''notifications.retry'', ''audit.read'',
      ''CROSS_SCHOOL_VIEW'', ''CROSS_SCHOOL_MANAGE'', ''SCHOOL_ADMIN_SETTINGS'', ''STUDENT_MANAGE'', ''TEACHER_MANAGE'',
      ''ATTENDANCE_TAKE'', ''ATTENDANCE_OVERRIDE'', ''RFID_ENROLL_CARDS'', ''RFID_MANAGE_READERS'',
      ''REPORT_VIEW_ANALYTICS'', ''REPORT_EXPORT'']"

definition ROLE_PERMISSIONS :: "string \<Rightarrow> string list" where
  "ROLE_PERMISSIONS role =
     (if role = ''SUPER_ADMIN'' then PERMISSIONS
      else if role = ''SCHOOL_ADMIN'' then
        [''school.settings.read'', ''school.settings.manage'', ''school.users.read'', ''school.users.manage'',
         ''school.academics.read'', ''school.academics.manage'',
         ''attendance.sessions.read'', ''attendance.sessions.create'', ''attendance.sessions.review'',
         ''attendance.sessions.finalize'', ''attendance.manualCorrection'',
         ''reports.read'', ''reports.export'', ''qr.issue'', ''qr.reissue'',
         ''rfid.dashboard.read'', ''rfid.readers.read'', ''rfid.readers.manage'', ''rfid.cards.read'', ''rfid.cards.enroll'',
         ''rfid.cards.bulkEnroll'', ''rfid.cards.suspend'', ''rfid.cards.revoke'', ''rfid.events.read'',
         ''notifications.read'', ''notifications.retry'', ''audit.read'',
         ''SCHOOL_ADMIN_SETTINGS'', ''STUDENT_MANAGE'', ''TEACHER_MANAGE'', ''ATTENDANCE_TAKE'', ''ATTENDANCE_OVERRIDE'',
         ''RFID_ENROLL_CARDS'', ''RFID_MANAGE_READERS'', ''REPORT_VIEW_ANALYTICS'', ''REPORT_EXPORT'']
      else if role = ''TEACHER'' then
        [''attendance.sessions.read'', ''attendance.sessions.create'', ''attendance.sessions.review'',
         ''attendance.sessions.finalize'', ''reports.read'', ''ATTENDANCE_TAKE'', ''ATTENDANCE_OVERRIDE'', ''REPORT_VIEW_ANALYTICS'']
      else if role = ''REPORT_VIEWER'' then
        [''attendance.sessions.read'', ''reports.read'', ''reports.export'', ''REPORT_VIEW_ANALYTICS'', ''REPORT_EXPORT'']
      else
        [''rfid.dashboard.read'', ''rfid.readers.read'', ''rfid.readers.manage'', ''rfid.cards.read'', ''rfid.cards.enroll'',
         ''rfid.cards.bulkEnroll'', ''rfid.cards.suspend'', ''rfid.cards.revoke'', ''rfid.events.read'', ''reports.read'',
         ''RFID_ENROLL_CARDS'', ''RFID_MANAGE_READERS''])"

definition isUserRole :: "string option \<Rightarrow> bool" where
  "isUserRole v \<longleftrightarrow> truthy v \<and> the v \<in> set ROLES"

definition hasPermission :: "string option \<Rightarrow> string \<Rightarrow> bool" where
  "hasPermission role permission \<longleftrightarrow> isUserRole role \<and> permission \<in> set (ROLE_PERMISSIONS (the role))"

definition hasAnyPermission :: "string option \<Rightarrow> string list \<Rightarrow> bool" where
  "hasAnyPermission role permissions \<longleftrightarrow> (\<exists>p \<in> set permissions. hasPermission role p)"

definition getDefaultRouteForRole :: "bool \<Rightarrow> string option \<Rightarrow> string" where
  "getDefaultRouteForRole rfid role =
     (if role = Some ''SUPER_ADMIN'' then ''/app/super-admin''
      else if role = Some ''SCHOOL_ADMIN'' then ''/app/school-admin''
      else if role = Some ''TEACHER'' then ''/app/teacher''
      else if role = Some ''REPORT_VIEWER'' then ''/app/reports''
      else if role = Some ''RFID_OPERATOR'' \<and> rfid then ''/app/rfid''
      else ''/login'')"

record navigation_item =
  ni_id :: string
  ni_href :: string
  ni_permissions :: "string list"

abbreviation nav :: "string \<Rightarrow> string \<Rightarrow> string \<Rightarrow> navigation_item" where
  "nav i h p \<equiv> \<lparr>ni_id = i, ni_href = h, ni_permissions = [p]\<rparr>"

definition allNavItems :: "navigation_item list" where
  "allNavItems =
     [nav ''super-admin-overview'' ''/app/super-admin'' ''platform.schools.read'',
      nav ''super-admin-schools'' ''/app/super-admin/schools'' ''platform.schools.manage'',
      nav ''super-admin-security'' ''/app/super-admin/security'' ''platform.security.read'',
      nav ''super-admin-audit'' ''/app/super-admin/audit'' ''platform.audit.read'',
      nav ''school-admin-overview'' ''/app/school-admin'' ''school.settings.read'',
      nav ''school-admin-users'' ''/app/school-admin/users'' ''school.users.read'',
      nav ''school-admin-students'' ''/app/school-admin/students'' ''school.users.read'',
      nav ''school-admin-academics'' ''/app/school-admin/academics'' ''school.academics.read'',
      nav ''school-admin-attendance'' ''/app/school-admin/attendance'' ''attendance.sessions.read'',
      nav ''school-admin-notifications'' ''/app/school-admin/notifications'' ''notifications.read'',
      nav ''teacher-scanner'' ''/app/teacher'' ''attendance.sessions.create'',
      nav ''teacher-classes'' ''/app/teacher/classes'' ''attendance.sessions.read'',
      nav ''teacher-offline'' ''/app/teacher/offline'' ''attendance.sessions.create'',
      nav ''reports-daily'' ''/app/reports/daily'' ''reports.read'',
      nav ''reports-trends'' ''/app/reports/trends'' ''reports.read'',
      nav ''reports-exports'' ''/app/reports/exports'' ''reports.export'',
      nav ''rfid-dashboard'' ''/app/rfid'' ''rfid.dashboard.read'',
      nav ''rfid-readers'' ''/app/rfid/readers'' ''rfid.readers.read'',
      nav ''rfid-cards'' ''/app/rfid/cards'' ''rfid.cards.read'',
      nav ''rfid-enrollment'' ''/app/rfid/enrollment'' ''rfid.cards.enroll'',
      nav ''rfid-events'' ''/app/rfid/events'' ''rfid.events.read'']"

definition getNavigationForRole :: "bool \<Rightarrow> string option \<Rightarrow> navigation_item list" where
  "getNavigationForRole rfid role =
     filter (\<lambda>i. ni_permissions i = [] \<or> hasAnyPermission role (ni_permissions i))
       (filter (\<lambda>i. rfid \<or> \<not> starts_with_text ''rfid-'' (ni_id i)) allNavItems)"

section \<open>What a guard lets through\<close>

text \<open>The session and the user behind a context that was read at a time.\<close>

definition backed_by :: "world \<Rightarrow> instant \<Rightarrow> web_request \<Rightarrow> db \<Rightarrow> user \<Rightarrow> bool" where
  "backed_by w now req d u \<longleftrightarrow> us_status u = ''ACTIVE'' \<and> u \<in> set (t_users d)
     \<and> (\<exists>token s. session_token req = Some token \<and> token \<noteq> [] \<and> s \<in> set (t_authSessions d) \<and> ses_userId s = us_id u
          \<and> ses_sessionToken s = sha256 w token \<and> now < ses_expiresAt s \<and> now < ses_lastAccessedAt s + SESSION_IDLE_TIMEOUT_MS)"

lemma getSession_backed:
  assumes "getSession w NoContext now token d = Inr (Some c, d1)" "session_token req = Some token"
  obtains u where "backed_by w now req d u" "us_id u = su_id (cx_user c)" "su_status (cx_user c) = ''ACTIVE''"
    "cx_memberships c = user_memberships (us_id u) d" "su_platformRole (cx_user c) = cx_platformRole c"
    "cx_platformRole c = js_or (us_platformRole u) (if is_super u (user_memberships (us_id u) d) then Some ''SUPER_ADMIN'' else None)"
    "t_memberships d1 = t_memberships d" "t_schools d1 = t_schools d"
proof -
  from getSession_result [OF assms(1)] obtain s where s: "sel1 (live_session w now token) (t_authSessions d) = Some s" "token \<noteq> []"
    "session_context_of s (touch_session w now token d) = Some c" "d1 = touch_session w now token d" by auto
  have ms: "user_memberships u (touch_session w now token d) = user_memberships u d" for u by (rule user_memberships_cong) simp_all
  from s(1) have "s \<in> set (t_authSessions d)" "live_session w now token s" by (auto dest: sel1_SomeD)
  moreover from s(3) obtain u where u: "u \<in> set (t_users d)" "us_id u = ses_userId s" "us_status u = ''ACTIVE''" "su_id (cx_user c) = us_id u"
    "su_platformRole (cx_user c) = cx_platformRole c" "su_status (cx_user c) = ''ACTIVE''"
    "cx_memberships c = user_memberships (us_id u) d"
    "cx_platformRole c = js_or (us_platformRole u) (if is_super u (user_memberships (us_id u) d) then Some ''SUPER_ADMIN'' else None)"
    by (rule session_context_ofE) (simp add: ms)
  ultimately have "backed_by w now req d u" using s(2) assms(2) by (auto simp: backed_by_def live_session_def)
  with u s(4) show thesis by (intro that [of u]) simp_all
qed

lemma requireAuth_Inr:
  assumes "requireAuth w now req d = (d1, Inr c)"
  obtains token where "session_token req = Some token" "getSession w NoContext now token d = Inr (Some c, d1)"
  using assms by (auto simp: requireAuth_def elim: truthyE split: if_splits sum.splits option.splits prod.splits)

lemma super_of_platform:
  "js_or (us_platformRole u) (if is_super u ms then Some ''SUPER_ADMIN'' else None) = Some ''SUPER_ADMIN'' \<Longrightarrow> is_super u ms"
  by (auto simp: js_or_def is_super_def split: if_splits)

lemma requireTenantE:
  assumes "requireTenant req c = Inr (sid, role)"
  obtains "isUuid sid" "isPlatformSuperAdmin (Some c)"
  | m where "isUuid sid" "\<not> isPlatformSuperAdmin (Some c)" "m \<in> set (cx_memberships c)" "mv_schoolId m = sid" "role = js_or (Some (mv_role m)) None"
proof (cases "isPlatformSuperAdmin (Some c)")
  case True
  from assms have "isUuid sid" by (auto simp: requireTenant_def Let_def withTenantContext_def split: if_splits)
  with True that(1) show thesis by blast
next
  case False
  from assms False have "isUuid sid \<and> (\<exists>m. sel1 (\<lambda>m. mv_schoolId m = sid) (cx_memberships c) = Some m \<and> role = js_or (Some (mv_role m)) None)"
    by (auto simp: requireTenant_def Let_def withTenantContext_def elim!: truthyE split: if_splits)
  with False that(2) show thesis by (auto dest: sel1_SomeD)
qed

lemma resolveSchoolId_token: "resolveSchoolId req = Inr req1 \<Longrightarrow> session_token req1 = session_token req"
  by (auto simp: resolveSchoolId_def Let_def session_token_def split: if_splits)

text \<open>
  C4: A request that reaches a handler is backed by a session, a user and a right.  Behind either guard the
  handler runs only when the token of the request hashes to a stored session that has not expired and was
  used in the last two hours, its user is active, and the user is a platform administrator or has a
  membership in the very school of the request that is not suspended and whose role the route allows.
  The guard of the middlewares also asks that membership and school be active; \<open>tenantRoute\<close> does not
  (\<open>tenantRoute_opens_suspended_school\<close>).
\<close>

theorem authorized_request_is_backed:
  assumes "list_all (\<lambda>m. me_role m \<noteq> []) (t_memberships d)"
    and "snd (guard w now roles req d) = Inr (sid, role, c)"
    and "guard = middleware_guard \<or> guard = tenantRoute_guard"
  shows "\<exists>u. backed_by w now req d u \<and> us_id u = su_id (cx_user c) \<and> isUuid sid
    \<and> (is_super u (user_memberships (us_id u) d)
       \<or> (\<exists>m \<in> set (t_memberships d). me_userId m = us_id u \<and> me_schoolId m = sid \<and> role = Some (me_role m)
            \<and> me_status m \<noteq> ''SUSPENDED'' \<and> (roles = [] \<or> me_role m \<in> set roles)
            \<and> (guard = middleware_guard \<longrightarrow> me_status m = ''ACTIVE'' \<and> (\<exists>s \<in> set (t_schools d). sc_id s = sid \<and> sc_status s = ''ACTIVE''))))"
proof (cases "guard = middleware_guard")
  case g: True
  from assms(2) g obtain req1 d1 where r: "resolveSchoolId req = Inr req1" "requireAuth w now req1 d = (d1, Inr c)"
    "requireTenant req1 c = Inr (sid, role)" "requireRole roles c role = Inr ()"
    by (auto simp: middleware_guard_def bind_result_Inr_iff split: sum.splits prod.splits)
  from r(2) obtain token where "session_token req1 = Some token" "getSession w NoContext now token d = Inr (Some c, d1)"
    by (rule requireAuth_Inr)
  with resolveSchoolId_token [OF r(1)] obtain u where u: "backed_by w now req d u" "us_id u = su_id (cx_user c)"
    "cx_memberships c = user_memberships (us_id u) d" "su_platformRole (cx_user c) = cx_platformRole c"
    "cx_platformRole c = js_or (us_platformRole u) (if is_super u (user_memberships (us_id u) d) then Some ''SUPER_ADMIN'' else None)"
    using getSession_backed [of w now token d c d1 req] by (auto simp del: not_None_eq)
  have super: "is_super u (user_memberships (us_id u) d)" if "isPlatformSuperAdmin (Some c)"
    using that u(3-5) super_of_platform [of u "user_memberships (us_id u) d"] by (auto simp: isPlatformSuperAdmin_def is_super_def)
  from r(3) show ?thesis
  proof (cases rule: requireTenantE)
    case 1
    with super u(1,2) show ?thesis by blast
  next
    case (2 m)
    from 2(3) u(3) obtain x s where x: "x \<in> set (t_memberships d)" "me_userId x = us_id u" "me_status x = ''ACTIVE''"
      "me_schoolId x = mv_schoolId m" "me_role x = mv_role m" "s \<in> set (t_schools d)" "sc_id s = mv_schoolId m" "sc_status s = ''ACTIVE''"
      using user_memberships_mem [of m "us_id u" d] by metis
    from x(1) assms(1) have ne: "me_role x \<noteq> []" by (simp add: list_all_iff)
    with 2(5) x(5) have role: "role = Some (me_role x)" by (simp add: js_or_def)
    from 2(2) have "cx_platformRole c \<noteq> Some ''SUPER_ADMIN''" "su_platformRole (cx_user c) \<noteq> Some ''SUPER_ADMIN''" "mv_role m \<noteq> ''SUPER_ADMIN''"
      using 2(3) by (auto simp: isPlatformSuperAdmin_def)
    with r(4) role ne x(5) have "me_role x \<in> set roles" by (auto simp: requireRole_def Let_def js_or_def split: if_splits)
    with u(1,2) 2(1,4) x role show ?thesis by (intro exI [of _ u] conjI disjI2 bexI [of _ x]) auto
  qed
next
  case no: False
  with assms(3) have g: "guard = tenantRoute_guard" by blast
  from assms(2) g obtain token d1 rr where r: "session_token req = Some token" "getSession w NoContext now token d = Inr (Some c, d1)"
    "assertMembership NoContext (cx_user c) sid roles (Some c) d1 = Inr rr" "role = Some (fst rr)" "isUuid sid"
    by (auto simp: tenantRoute_guard_def bind_result_Inr_iff withTenantContext_def elim!: truthyE split: if_splits sum.splits prod.splits option.splits)
  from r(2,1) obtain u where u: "backed_by w now req d u" "us_id u = su_id (cx_user c)"
    "cx_memberships c = user_memberships (us_id u) d" "su_platformRole (cx_user c) = cx_platformRole c"
    "cx_platformRole c = js_or (us_platformRole u) (if is_super u (user_memberships (us_id u) d) then Some ''SUPER_ADMIN'' else None)"
    "t_memberships d1 = t_memberships d" by (rule getSession_backed)
  show ?thesis
  proof (cases "su_platformRole (cx_user c) = Some ''SUPER_ADMIN''")
    case True
    with u(4) have "cx_platformRole c = Some ''SUPER_ADMIN''" by simp
    from super_of_platform [OF this [unfolded u(5)]] have "is_super u (user_memberships (us_id u) d)" .
    with u(1,2) r(5) show ?thesis by blast
  next
    case False
    with r(3) have "(\<exists>m. sel1 (\<lambda>m. mv_schoolId m = sid) (cx_memberships c) = Some m \<and> check_member roles sid (mv_role m) (mv_status m) = Inr rr)
      \<or> (\<exists>m. sel1 (\<lambda>m. me_userId m = su_id (cx_user c) \<and> me_schoolId m = sid) (t_memberships d1) = Some m
           \<and> check_member roles sid (me_role m) (me_status m) = Inr rr)"
      by (auto simp: assertMembership_def split: option.splits)
    then obtain x where x: "x \<in> set (t_memberships d)" "me_userId x = us_id u" "me_schoolId x = sid"
      "check_member roles sid (me_role x) (me_status x) = Inr rr"
    proof (elim disjE exE conjE)
      fix m assume m: "sel1 (\<lambda>m. mv_schoolId m = sid) (cx_memberships c) = Some m" "check_member roles sid (mv_role m) (mv_status m) = Inr rr"
      from sel1_SomeD [OF m(1)] u(3) have "m \<in> set (user_memberships (us_id u) d)" "mv_schoolId m = sid" by auto
      from user_memberships_mem [OF this(1)] this(2) m(2) show thesis by (metis that)
    next
      fix m assume "sel1 (\<lambda>m. me_userId m = su_id (cx_user c) \<and> me_schoolId m = sid) (t_memberships d1) = Some m"
        and c: "check_member roles sid (me_role m) (me_status m) = Inr rr"
      from sel1_SomeD [OF this(1)] u(2,6) c show thesis by (intro that [of m]) auto
    qed
    from x(4) r(4) have "role = Some (me_role x)" "me_status x \<noteq> ''SUSPENDED''" "roles = [] \<or> me_role x \<in> set roles"
      by (auto simp: check_member_def split: if_splits)
    with x(1-3) no have "\<exists>m \<in> set (t_memberships d). me_userId m = us_id u \<and> me_schoolId m = sid \<and> role = Some (me_role m)
            \<and> me_status m \<noteq> ''SUSPENDED'' \<and> (roles = [] \<or> me_role m \<in> set roles)
            \<and> (guard = middleware_guard \<longrightarrow> me_status m = ''ACTIVE'' \<and> (\<exists>s \<in> set (t_schools d). sc_id s = sid \<and> sc_status s = ''ACTIVE''))"
      by (intro bexI [of _ x] conjI) simp_all
    with u(1,2) r(5) show ?thesis by blast
  qed
qed

section \<open>Examples\<close>

text \<open>A teacher of two schools, one of which has been suspended.\<close>

definition school_a :: uuid where "school_a = ''aaaaaaaa-aaaa-4aaa-8aaa-aaaaaaaaaaaa''"
definition school_b :: uuid where "school_b = ''bbbbbbbb-bbbb-4bbb-8bbb-bbbbbbbbbbbb''"

definition access_db :: db where
  "access_db = session_db\<lparr>
     t_schools := map (\<lambda>(i, st). (hd (t_schools session_db))\<lparr>sc_id := i, sc_status := st\<rparr>) [(school_a, ''ACTIVE''), (school_b, ''SUSPENDED'')],
     t_memberships := map (\<lambda>i. (hd (t_memberships session_db))\<lparr>me_schoolId := i\<rparr>) [school_a, school_b],
     t_authSessions := [\<lparr>ses_id = ''x'', ses_userId = ''t'', ses_schoolId = None, ses_sessionToken = ''t'',
                         ses_expiresAt = 100, ses_lastAccessedAt = 0\<rparr>]\<rparr>"

definition access_request :: "uuid \<Rightarrow> web_request" where
  "access_request sid = \<lparr>wr_method = ''GET'', wr_originalUrl = ''/api/v1/schools/'' @ sid @ ''/students'',
     wr_cookies = (\<lambda>n. if n = ''session'' then Some ''t'' else None), wr_headers = (\<lambda>_. None), wr_schoolId = None,
     wr_paramSchool = None, wr_querySchool = None, wr_bodySchool = None, wr_bodyCsrf = None\<rparr>"

definition outcome_of :: "db \<times> (uuid \<times> string option \<times> session_context) result \<Rightarrow> error + uuid \<times> string option" where
  "outcome_of r = (case snd r of Inl e \<Rightarrow> Inl e | Inr (sid, role, _) \<Rightarrow> Inr (sid, role))"

lemma access_views:
  "outcome_of (middleware_guard session_world 10 [''TEACHER''] (access_request school_a) access_db) = Inr (school_a, Some ''TEACHER'')"
  "outcome_of (middleware_guard session_world 10 [''TEACHER''] (access_request school_b) access_db) = Inl (AppErr ''CROSS_TENANT_DENIED'' 403)"
  "outcome_of (tenantRoute_guard session_world 10 [''TEACHER''] (access_request school_b) access_db) = Inr (school_b, Some ''TEACHER'')"
  by code_simp+

text \<open>The school that is closed to every other route is open to a \<open>tenantRoute\<close>.\<close>

lemma tenantRoute_opens_suspended_school:
  "(\<exists>c. snd (tenantRoute_guard session_world 10 [''TEACHER''] (access_request school_b) access_db) = Inr (school_b, Some ''TEACHER'', c))
   \<and> \<not> (\<exists>s \<in> set (t_schools access_db). sc_id s = school_b \<and> sc_status s = ''ACTIVE'')"
proof
  from access_views(3) show "\<exists>c. snd (tenantRoute_guard session_world 10 [''TEACHER''] (access_request school_b) access_db) = Inr (school_b, Some ''TEACHER'', c)"
    by (auto simp: outcome_of_def split: sum.splits prod.splits)
qed (simp add: access_db_def session_db_def school_a_def school_b_def)

theorem authorized_request_is_backed_witness:
  "\<exists>u. backed_by session_world 10 (access_request school_a) access_db u"
proof -
  from access_views(1) obtain c where "snd (middleware_guard session_world 10 [''TEACHER''] (access_request school_a) access_db)
      = Inr (school_a, Some ''TEACHER'', c)"
    by (auto simp: outcome_of_def split: sum.splits prod.splits)
  from authorized_request_is_backed [where guard = middleware_guard, OF _ this] show ?thesis by (auto simp: access_db_def session_db_def)
qed

end
