(* ===== verification/Csrf.thy ===== *)
theory Csrf
  imports Access
begin

text \<open>
  Models src/src/middleware/csrfProtection.ts and csrfExemptions.ts: the signed token a browser must send
  back with a request that changes something, the check of the origin, and the routes that are exempt.
  The parser of URLs is the runtime's: \<open>url_host\<close> is the host of an address it accepts.
\<close>

section \<open>Tokens\<close>

text \<open>\<open>CSRF_SECRET || SESSION_SECRET\<close> and the switch for test runners.\<close>

record csrf_env =
  ce_secret :: "string option"
  ce_testBypass :: bool

definition getCsrfSecret :: "world \<Rightarrow> csrf_env \<Rightarrow> string result" where
  "getCsrfSecret w env =
     (if env_production w then
        (if \<not> truthy (ce_secret env) \<or> length (the (ce_secret env)) < 32
         then Inl (JsErr ''CSRF_SECRET (or SESSION_SECRET of at least 32 characters) must be explicitly provided in production mode'')
         else Inr (the (ce_secret env)))
      else Inr (the (js_or (ce_secret env) (Some ''attendance-dev-csrf-hmac-master-secret-key-32b-min''))))"

definition csrf_payload :: "string \<Rightarrow> string option \<Rightarrow> string" where
  "csrf_payload token sessionToken = (if truthy sessionToken then token @ '':'' @ the sessionToken else token)"

definition generateCsrfToken :: "world \<Rightarrow> csrf_env \<Rightarrow> nat \<Rightarrow> string option \<Rightarrow> (string \<times> string) result" where
  "generateCsrfToken w env n sessionToken =
     bind_result (getCsrfSecret w env) (\<lambda>secret.
       let token = gen_token w n in Inr (token, hmac_sha256 w secret (csrf_payload token sessionToken)))"

definition verifyCsrfToken :: "world \<Rightarrow> csrf_env \<Rightarrow> string \<Rightarrow> string \<Rightarrow> string option \<Rightarrow> bool result" where
  "verifyCsrfToken w env token signature sessionToken =
     (if token = [] \<or> signature = [] then Inr False
      else bind_result (getCsrfSecret w env) (\<lambda>secret.
        Inr (timingSafeEqual signature (hmac_sha256 w secret (csrf_payload token sessionToken)))))"

section \<open>Exempt routes\<close>

definition requestPath :: "string \<Rightarrow> string" where
  "requestPath url = takeWhile (\<lambda>c. c \<notin> set ''?#'') url"

text \<open>Patterns are anchored, ignore case and allow one slash at the end.\<close>

definition path_is :: "string \<Rightarrow> string \<Rightarrow> bool" where
  "path_is p path \<longleftrightarrow> to_lower path = p \<or> to_lower path = p @ ''/''"

definition is_health_path :: "string \<Rightarrow> bool" where
  "is_health_path path \<longleftrightarrow> path_is ''/api/v1/health'' path
     \<or> (starts_with_text ''/api/v1/health/'' (to_lower path)
        \<and> (let rest = drop 15 (to_lower path); word = takeWhile (\<lambda>c. c \<noteq> CHR ''/'') rest
           in word \<noteq> [] \<and> list_all (\<lambda>c. c \<in> set ''abcdefghijklmnopqrstuvwxyz'') word \<and> drop (length word) rest \<in> {[], ''/''}))"

definition is_zebra_path :: "string \<Rightarrow> bool" where
  "is_zebra_path path \<longleftrightarrow> starts_with_text ''/api/v1/schools/'' (to_lower path) \<and> strict_uuid (take 36 (drop 16 path))
     \<and> path_is ''/rfid/zebra/reads'' (drop 52 path)"

definition isCsrfExempt :: "web_request \<Rightarrow> bool" where
  "isCsrfExempt req \<longleftrightarrow>
     (let path = requestPath (wr_originalUrl req); m = to_upper (wr_method req)
      in m = ''POST'' \<and> (path_is ''/api/v1/notifications/callback'' path \<or> path_is ''/api/v1/auth/login'' path \<or> is_zebra_path path)
         \<or> m = ''GET'' \<and> (path_is ''/api/v1/auth/csrf'' path \<or> is_health_path path \<or> path_is ''/readyz'' path \<or> path_is ''/metrics'' path))"

definition ends_with_text :: "string \<Rightarrow> string \<Rightarrow> bool" where
  "ends_with_text p s \<longleftrightarrow> drop (length s - length p) s = p"

definition isMachineRoute :: "web_request \<Rightarrow> bool" where
  "isMachineRoute req \<longleftrightarrow>
     (\<exists>p \<in> set [''/rfid/zebra/reads'', ''/rfid/zebra/reads/'', ''/rfid/scans'', ''/rfid/scans/''].
        ends_with_text p (to_lower (requestPath (wr_originalUrl req))))"

section \<open>The middleware\<close>

text \<open>A request goes on, goes on with a new pair of cookies, or is refused with status 403.\<close>

datatype csrf_outcome = Pass | PassIssuing string string | Refuse string

definition csrf_safe :: "world \<Rightarrow> csrf_env \<Rightarrow> nat \<Rightarrow> web_request \<Rightarrow> csrf_outcome result" where
  "csrf_safe w env n req =
     (let token = wr_cookies req ''XSRF-TOKEN''; signature = wr_cookies req ''_csrf_sig''; session = wr_cookies req ''session''
      in bind_result (if \<not> truthy token \<or> \<not> truthy signature then Inr False
                      else verifyCsrfToken w env (the token) (the signature) session) (\<lambda>ok.
         if ok then Inr Pass
         else bind_result (generateCsrfToken w env n session) (\<lambda>(t, s). Inr (PassIssuing t s))))"

definition csrf_origin :: "world \<Rightarrow> (string \<Rightarrow> string option) \<Rightarrow> web_request \<Rightarrow> string option" where
  "csrf_origin w url_host req =
     (let h = wr_headers req; origin = js_or (h ''origin'') (h ''referer''); host = h ''host''
      in if truthy origin \<and> truthy host then
           (case url_host (the origin) of
              None \<Rightarrow> Some ''CSRF_INVALID_ORIGIN''
            | Some x \<Rightarrow> if x \<noteq> the host then Some ''CSRF_ORIGIN_MISMATCH'' else None)
         else if env_production w \<and> \<not> truthy origin
                 \<and> (truthy (h ''sec-fetch-site'') \<or> truthy (h ''user-agent'')) \<and> h ''sec-fetch-site'' = Some ''cross-site''
         then Some ''CSRF_CROSS_SITE_BLOCKED'' else None)"

definition client_csrf_token :: "web_request \<Rightarrow> string option" where
  "client_csrf_token req = js_or (wr_headers req ''x-csrf-token'') (js_or (wr_headers req ''x-xsrf-token'') (wr_bodyCsrf req))"

definition csrf_token_check :: "world \<Rightarrow> csrf_env \<Rightarrow> web_request \<Rightarrow> csrf_outcome result" where
  "csrf_token_check w env req =
     (let token = client_csrf_token req; signature = wr_cookies req ''_csrf_sig''
      in if \<not> truthy token \<or> \<not> truthy signature then Inr (Refuse ''CSRF_TOKEN_MISSING'')
         else bind_result (verifyCsrfToken w env (the token) (the signature) (wr_cookies req ''session'')) (\<lambda>ok.
           Inr (if ok then Pass else Refuse ''CSRF_TOKEN_INVALID'')))"

definition csrfProtection ::
  "world \<Rightarrow> csrf_env \<Rightarrow> (string \<Rightarrow> string option) \<Rightarrow> nat \<Rightarrow> web_request \<Rightarrow> csrf_outcome result" where
  "csrfProtection w env url_host n req =
     (let m = to_upper (wr_method req); session = wr_cookies req ''session''
      in if m \<in> {''GET'', ''HEAD'', ''OPTIONS''} then csrf_safe w env n req
         else if m \<in> {''POST'', ''PUT'', ''PATCH'', ''DELETE''} then
           (if isCsrfExempt req then
              Inr (if truthy session \<and> isMachineRoute req then Refuse ''CSRF_COOKIE_ON_MACHINE_ROUTE'' else Pass)
            else if \<not> env_production w \<and> ce_testBypass env
                    \<and> (wr_headers req ''x-benchmark-load-test'' = Some ''true'' \<or> wr_headers req ''x-playwright-e2e'' = Some ''true'')
            then Inr Pass
            else if \<not> truthy session then Inr Pass
            else case csrf_origin w url_host req of
                   Some code \<Rightarrow> Inr (Refuse code)
                 | None \<Rightarrow> csrf_token_check w env req)
         else Inr Pass)"

section \<open>Facts\<close>

text \<open>A pair issued for a session is accepted for it, and neither for another session nor for a guest.\<close>

lemma colon_split:
  assumes "a @ '':'' @ s = b @ '':'' @ t" "CHR '':'' \<notin> set a" "CHR '':'' \<notin> set b"
  shows "a = b \<and> s = t"
  using assms
proof (induction a arbitrary: b)
  case Nil
  then show ?case by (cases b) auto
next
  case (Cons x a)
  then show ?case by (cases b) auto
qed

lemma verify_binds:
  assumes "getCsrfSecret w env = Inr secret" "signature = hmac_sha256 w secret (token @ '':'' @ s)" "inj (hmac_sha256 w secret)"
    "CHR '':'' \<notin> set token" "CHR '':'' \<notin> set other" "s' \<noteq> []" "verifyCsrfToken w env other signature (Some s') = Inr True"
  shows "other = token \<and> s' = s"
proof -
  from assms(1,2,6,7) have "hmac_sha256 w secret (token @ '':'' @ s) = hmac_sha256 w secret (other @ '':'' @ s')"
    by (auto simp: verifyCsrfToken_def csrf_payload_def split: if_splits)
  with assms(3) have "token @ '':'' @ s = other @ '':'' @ s'" by (rule injD)
  from colon_split [OF this assms(4,5)] show ?thesis by simp
qed

lemma csrf_pair_is_bound:
  assumes "generateCsrfToken w env n (Some s) = Inr (token, signature)" "s \<noteq> []" "token \<noteq> []" "signature \<noteq> []"
    and "\<And>k. inj (hmac_sha256 w k)" "CHR '':'' \<notin> set token" "CHR '':'' \<notin> set other"
  shows "verifyCsrfToken w env token signature (Some s) = Inr True"
    "verifyCsrfToken w env other signature (Some s') = Inr True \<Longrightarrow> s' \<noteq> [] \<Longrightarrow> other = token \<and> s' = s"
    "verifyCsrfToken w env other signature None \<noteq> Inr True"
proof -
  from assms(1,2) obtain secret where k: "getCsrfSecret w env = Inr secret" "signature = hmac_sha256 w secret (token @ '':'' @ s)"
    by (auto simp: generateCsrfToken_def bind_result_Inr_iff csrf_payload_def Let_def)
  with assms(2-4) show "verifyCsrfToken w env token signature (Some s) = Inr True" by (simp add: verifyCsrfToken_def csrf_payload_def)
  show "other = token \<and> s' = s" if "verifyCsrfToken w env other signature (Some s') = Inr True" "s' \<noteq> []"
    by (rule verify_binds [OF k assms(5-7) that(2,1)])
  show "verifyCsrfToken w env other signature None \<noteq> Inr True"
  proof
    assume "verifyCsrfToken w env other signature None = Inr True"
    with k have "hmac_sha256 w secret (token @ '':'' @ s) = hmac_sha256 w secret other"
      by (auto simp: verifyCsrfToken_def csrf_payload_def split: if_splits)
    with assms(5) [of secret] have "token @ '':'' @ s = other" by (rule injD)
    with assms(7) show False by auto
  qed
qed

text \<open>
  C20: A page of another site cannot act for a browser that is logged in.  In production a request that
  changes something and carries a session cookie, on any route that is not exempt, passes only with a
  token whose signature in the cookie is the HMAC, under a secret of at least 32 characters, of that token
  together with this very session; if it names an origin, that is the host it is sent to; and the
  signature fits no other session and no other token.  On the routes of the readers a session cookie is refused.
\<close>

theorem csrf_stops_forgery:
  assumes "env_production w" "csrfProtection w env url_host n req = Inr Pass"
    and "to_upper (wr_method req) \<in> {''POST'', ''PUT'', ''PATCH'', ''DELETE''}" "wr_cookies req ''session'' = Some s" "s \<noteq> []"
  shows "if isCsrfExempt req then \<not> isMachineRoute req
    else \<exists>secret token. client_csrf_token req = Some token \<and> 32 \<le> length secret
      \<and> wr_cookies req ''_csrf_sig'' = Some (hmac_sha256 w secret (token @ '':'' @ s))
      \<and> (truthy (wr_headers req ''origin'') \<and> truthy (wr_headers req ''host'') \<longrightarrow>
           url_host (the (wr_headers req ''origin'')) = wr_headers req ''host'')
      \<and> (inj (hmac_sha256 w secret) \<and> CHR '':'' \<notin> set token \<longrightarrow>
           (\<forall>other s'. CHR '':'' \<notin> set other \<and> s' \<noteq> []
              \<and> verifyCsrfToken w env other (the (wr_cookies req ''_csrf_sig'')) (Some s') = Inr True \<longrightarrow> other = token \<and> s' = s))"
proof (cases "isCsrfExempt req")
  case True
  with assms show ?thesis by (auto simp: csrfProtection_def Let_def split: if_splits)
next
  case False
  from assms False have o: "csrf_origin w url_host req = None" and t: "csrf_token_check w env req = Inr Pass"
    by (auto simp: csrfProtection_def Let_def split: option.splits)
  from t obtain token signature where ts: "client_csrf_token req = Some token" "wr_cookies req ''_csrf_sig'' = Some signature"
    "token \<noteq> []" "signature \<noteq> []" "verifyCsrfToken w env token signature (Some s) = Inr True"
    by (auto simp: csrf_token_check_def Let_def bind_result_Inr_iff assms(4) elim!: truthyE split: if_splits)
  from ts(3-5) assms(1,5) obtain secret where k: "getCsrfSecret w env = Inr secret" "32 \<le> length secret"
    "signature = hmac_sha256 w secret (token @ '':'' @ s)"
    by (auto simp: verifyCsrfToken_def bind_result_Inr_iff csrf_payload_def getCsrfSecret_def split: if_splits)
  have origin: "url_host (the (wr_headers req ''origin'')) = wr_headers req ''host''"
    if "truthy (wr_headers req ''origin'')" "truthy (wr_headers req ''host'')"
    using o that by (auto simp: csrf_origin_def Let_def js_or_def elim!: truthyE split: option.splits if_splits)
  note only = verify_binds [OF k(1,3)]
  show ?thesis unfolding if_not_P [OF False]
    by (rule exI [of _ secret], rule exI [of _ token])
      (use ts(1,2) k(2,3) origin only in \<open>simp, blast\<close>)
qed

section \<open>Examples\<close>

definition csrf_example_env :: csrf_env where
  "csrf_example_env = \<lparr>ce_secret = Some (replicate 32 (CHR ''k'')), ce_testBypass = True\<rparr>"

definition csrf_example :: web_request where
  "csrf_example = \<lparr>wr_method = ''post'', wr_originalUrl = ''/api/v1/auth/logout'',
     wr_cookies = (\<lambda>n. if n = ''session'' then Some ''s1'' else if n = ''_csrf_sig'' then Some (replicate 32 (CHR ''k'') @ ''|tok:s1'') else None),
     wr_headers = (\<lambda>n. if n = ''x-csrf-token'' then Some ''tok'' else if n = ''origin'' then Some ''https://a'' else if n = ''host'' then Some ''a'' else None),
     wr_schoolId = None, wr_paramSchool = None, wr_querySchool = None, wr_bodySchool = None, wr_bodyCsrf = None\<rparr>"

lemma csrf_example_passes:
  "csrfProtection example_world csrf_example_env (\<lambda>x. Some (drop 8 x)) 0 csrf_example = Inr Pass"
  by code_simp

theorem csrf_stops_forgery_witness:
  "\<exists>secret. 32 \<le> length secret \<and> wr_cookies csrf_example ''_csrf_sig'' = Some (hmac_sha256 example_world secret (''tok:s1''))"
proof -
  have 1: "to_upper (wr_method csrf_example) \<in> {''POST'', ''PUT'', ''PATCH'', ''DELETE''}" "\<not> isCsrfExempt csrf_example"
    "client_csrf_token csrf_example = Some ''tok''" by code_simp+
  have 2: "wr_cookies csrf_example ''session'' = Some ''s1''" "env_production example_world" by (simp_all add: csrf_example_def example_world_def)
  from csrf_stops_forgery [OF 2(2) csrf_example_passes 1(1) 2(1)] 1(2,3) show ?thesis by auto
qed

end
