(* ===== verification/Calendar.thy ===== *)
theory Calendar
  imports Zebra_Auth
begin

text \<open>
  Models src/src/services/calendarService.ts and the operations of src/src/routes/calendarRoutes.ts: the
  academic calendar of a school in versions that are drafted, approved and superseded, and the working
  days the reports count.  Dates are text of the form YYYY-MM-DD, which PostgreSQL compares as dates and
  the model as text, which is the same order; the conversions between such text and time are the engine's
  \<open>date_parse\<close> and \<open>iso_string\<close>.  The constraints of the tables are those of the migration that
  created them (drizzle/0018).
\<close>

section \<open>Dates\<close>

definition DAY :: int where "DAY = 86400000"

definition digit_char :: "char \<Rightarrow> bool" where "digit_char c \<longleftrightarrow> c \<in> set ''0123456789''"

definition date_shape :: "string \<Rightarrow> bool" where
  "date_shape s \<longleftrightarrow> length s = 10 \<and> s ! 4 = CHR ''-'' \<and> s ! 7 = CHR ''-''
     \<and> list_all digit_char (take 4 s @ take 2 (drop 5 s) @ drop 8 s)"

definition midnight :: "world \<Rightarrow> string \<Rightarrow> instant option" where
  "midnight w date = date_parse w (date @ ''T00:00:00Z'')"

definition assertDate :: "world \<Rightarrow> string \<Rightarrow> unit result" where
  "assertDate w v = throw_if (\<not> date_shape v \<or> midnight w v = None) (JsErr ''CALENDAR_DATE_INVALID'')"

definition number_of :: "string \<Rightarrow> int" where
  "number_of s = foldl (\<lambda>n c. 10 * n + (of_char c - 48)) 0 s"

text \<open>\<open>Number(date.slice(0, 4))\<close>\<close>

definition year_of :: "string \<Rightarrow> int" where "year_of date = number_of (take 4 date)"

text \<open>What a cast to \<open>date\<close> accepts; the engine's parser may be more lenient.\<close>

definition days_in_month :: "int \<Rightarrow> int \<Rightarrow> int" where
  "days_in_month y m =
     (if m = 2 then (if y mod 4 = 0 \<and> (y mod 100 \<noteq> 0 \<or> y mod 400 = 0) then 29 else 28)
      else if m \<in> {4, 6, 9, 11} then 30 else 31)"

definition pg_date :: "string \<Rightarrow> bool" where
  "pg_date s \<longleftrightarrow> date_shape s \<and>
     (let y = year_of s; m = number_of (take 2 (drop 5 s)); dd = number_of (drop 8 s)
      in 1 \<le> y \<and> 1 \<le> m \<and> m \<le> 12 \<and> 1 \<le> dd \<and> dd \<le> days_in_month y m)"

definition cast_date :: "string \<Rightarrow> unit result" where
  "cast_date s = throw_if (\<not> pg_date s) (DbErr ''datetime_field_overflow'')"

definition iso_day :: "world \<Rightarrow> instant \<Rightarrow> string" where "iso_day w t = take 10 (iso_string w t)"

text \<open>The values of a cursor that starts at an instant and is moved by a day while it is not past the end.\<close>

definition cursor_days :: "instant \<Rightarrow> instant \<Rightarrow> instant list" where
  "cursor_days start end = map (\<lambda>k. start + int k * DAY) [0..<nat ((end - start) div DAY + 1)]"

section \<open>Days and versions\<close>

record day_input =
  di_classification :: string
  di_reason :: "ustring option"
  di_isWorkingDay :: "bool option"
  di_sourceType :: "string option"
  di_sourceReference :: "string option"
  di_isApproximate :: "bool option"
  di_createdBy :: "uuid option"

definition NON_WORKING :: "string list" where
  "NON_WORKING = [''SUNDAY_WEEKEND'', ''GOVERNMENT_HOLIDAY'', ''SCHOOL_HOLIDAY'', ''VACATION'', ''EMERGENCY_CLOSURE'']"

definition calendar_source_types :: "string list" where
  "calendar_source_types = [''SCHOOL_CONFIRMED'', ''DEPARTMENT_ORDER'', ''LEGACY_UNVERIFIED'', ''SYSTEM_TEMPLATE'']"

definition year_versions :: "uuid \<Rightarrow> int \<Rightarrow> db \<Rightarrow> calendar_version list" where
  "year_versions schoolId year d =
     filter (\<lambda>v. cv_schoolId v = schoolId \<and> cv_academicYear v = year) (t_calendarVersions d)"

definition listCalendarVersions :: "uuid \<Rightarrow> int \<Rightarrow> db \<Rightarrow> calendar_version list" where
  "listCalendarVersions schoolId year d = sort_key (\<lambda>v. - cv_version v) (year_versions schoolId year d)"

text \<open>
  A statement that violates a constraint leaves the transaction of the request aborted, so the second
  look-up of the code fails as well.
\<close>

definition draftVersion ::
  "world \<Rightarrow> uuid \<Rightarrow> int \<Rightarrow> uuid option \<Rightarrow> string \<Rightarrow> string option \<Rightarrow> db \<Rightarrow> (calendar_version \<times> db) result" where
  "draftVersion w schoolId year createdBy sourceType sourceReference d =
     (case filter (\<lambda>v. cv_status v = ''DRAFT'') (listCalendarVersions schoolId year d) of
        v # _ \<Rightarrow> Inr (v, d)
      | [] \<Rightarrow>
          if \<not> (2000 \<le> year \<and> year \<le> 2100) \<or> sourceType \<notin> set calendar_source_types
          then Inl (DbErr ''in_failed_sql_transaction'')
          else
            let v = \<lparr>cv_id = gen_uuid w (seq d), cv_schoolId = schoolId, cv_academicYear = year,
                     cv_version = foldr max (map cv_version (year_versions schoolId year d)) 0 + 1,
                     cv_status = ''DRAFT'', cv_sourceType = sourceType, cv_sourceReference = js_or sourceReference None,
                     cv_createdBy = js_or createdBy None, cv_approvedBy = None, cv_approvedAt = None, cv_supersededAt = None\<rparr>
            in Inr (v, d\<lparr>t_calendarVersions := t_calendarVersions d @ [v], seq := Suc (seq d)\<rparr>))"

text \<open>\<open>INSERT \<dots> ON CONFLICT (school_id, calendar_version_id, calendar_date) DO UPDATE\<close>\<close>

definition same_calendar_day :: "calendar_day \<Rightarrow> calendar_day \<Rightarrow> bool" where
  "same_calendar_day x y \<longleftrightarrow> cd_schoolId x = cd_schoolId y \<and> cd_calendarVersionId x = cd_calendarVersionId y
     \<and> cd_calendarDate x = cd_calendarDate y"

definition put_day :: "calendar_day \<Rightarrow> calendar_day list \<Rightarrow> calendar_day list" where
  "put_day r t =
     (if \<exists>x \<in> set t. same_calendar_day x r
      then upd (same_calendar_day r)
             (\<lambda>x. x\<lparr>cd_classification := cd_classification r, cd_reason := cd_reason r, cd_isWorkingDay := cd_isWorkingDay r,
                    cd_sourceType := cd_sourceType r, cd_sourceReference := cd_sourceReference r,
                    cd_isApproximate := cd_isApproximate r\<rparr>) t
      else t @ [r])"

definition the_or :: "'a \<Rightarrow> 'a option \<Rightarrow> 'a" where "the_or x v = (case v of None \<Rightarrow> x | Some y \<Rightarrow> y)"

definition new_day :: "world \<Rightarrow> uuid \<Rightarrow> calendar_version \<Rightarrow> string \<Rightarrow> day_input \<Rightarrow> db \<Rightarrow> calendar_day" where
  "new_day w schoolId v date i d =
     \<lparr>cd_id = gen_uuid w (seq d), cd_schoolId = schoolId, cd_calendarVersionId = cv_id v, cd_calendarDate = date,
      cd_classification = di_classification i, cd_reason = js_or (di_reason i) None,
      cd_isWorkingDay = the_or (di_classification i \<notin> set NON_WORKING) (di_isWorkingDay i),
      cd_sourceType = the (js_or (di_sourceType i) (Some ''SCHOOL_CONFIRMED'')),
      cd_sourceReference = js_or (di_sourceReference i) None, cd_isApproximate = the_or False (di_isApproximate i),
      cd_createdBy = js_or (di_createdBy i) None\<rparr>"

definition upsertCalendarDay :: "world \<Rightarrow> uuid \<Rightarrow> string \<Rightarrow> day_input \<Rightarrow> db \<Rightarrow> (calendar_version \<times> db) result" where
  "upsertCalendarDay w schoolId date i d =
     bind_result (assertDate w date) (\<lambda>_.
     bind_result (draftVersion w schoolId (year_of date) (di_createdBy i)
        (the (js_or (di_sourceType i) (Some ''SCHOOL_CONFIRMED''))) (di_sourceReference i) d) (\<lambda>(v, d1).
     bind_result (cast_date date) (\<lambda>_.
     Inr (v, d1\<lparr>t_calendar := put_day (new_day w schoolId v date i d1) (t_calendar d1), seq := Suc (seq d1)\<rparr>))))"

fun upsert_days :: "world \<Rightarrow> uuid \<Rightarrow> (string \<times> day_input) list \<Rightarrow> db \<Rightarrow> db result" where
  "upsert_days w schoolId [] d = Inr d"
| "upsert_days w schoolId ((date, i) # ds) d =
     bind_result (upsertCalendarDay w schoolId date i d) (\<lambda>(_, d1). upsert_days w schoolId ds d1)"

definition bulkSetDateRange :: "world \<Rightarrow> uuid \<Rightarrow> string \<Rightarrow> string \<Rightarrow> day_input \<Rightarrow> db \<Rightarrow> (int \<times> db) result" where
  "bulkSetDateRange w schoolId startDate endDate i d =
     bind_result (assertDate w startDate) (\<lambda>_.
     bind_result (assertDate w endDate) (\<lambda>_.
       let start = the (midnight w startDate); end = the (midnight w endDate); count = (end - start) div DAY + 1
       in bind_result (throw_if (count < 1) (JsErr ''CALENDAR_RANGE_INVALID'')) (\<lambda>_.
          bind_result (throw_if (370 < count) (JsErr ''CALENDAR_RANGE_LIMIT_EXCEEDED'')) (\<lambda>_.
          bind_result (upsert_days w schoolId (map (\<lambda>t. (iso_day w t, i)) (cursor_days start end)) d) (\<lambda>d1.
          Inr (count, d1))))))"

section \<open>The planning template\<close>

record default_holiday =
  dh_date :: string
  dh_classification :: string
  dh_reason :: ustring
  dh_isApproximate :: bool
  dh_sourceReference :: string

definition fixed_holiday :: "int \<Rightarrow> string \<Rightarrow> string \<Rightarrow> default_holiday" where
  "fixed_holiday year md reason =
     \<lparr>dh_date = show_int year @ ''-'' @ md, dh_classification = ''GOVERNMENT_HOLIDAY'', dh_reason = utext reason, dh_isApproximate = False,
      dh_sourceReference = ''Fixed annual date; verify the applicable department order before approval''\<rparr>"

definition proposed_holiday :: "int \<Rightarrow> string \<Rightarrow> string \<Rightarrow> default_holiday" where
  "proposed_holiday year md reason =
     \<lparr>dh_date = show_int year @ ''-'' @ md, dh_classification = ''SCHOOL_HOLIDAY'',
      dh_reason = utext reason @ utext '' (proposed date '' @ [8212] @ utext '' confirmation required)'', dh_isApproximate = True,
      dh_sourceReference = ''Planning template only; replace with the exact applicable department-order date''\<rparr>"

definition getDefaultWestBengalHolidays :: "int \<Rightarrow> default_holiday list" where
  "getDefaultWestBengalHolidays year =
     (let fixed = fixed_holiday year; proposed = proposed_holiday year
      in [fixed ''01-26'' ''Republic Day'', proposed ''02-03'' ''Saraswati Puja / Vasant Panchami'',
          proposed ''03-14'' ''Doljatra / Holi'', proposed ''04-15'' ''Bengali New Year'', proposed ''04-18'' ''Good Friday'',
          proposed ''05-09'' ''Rabindra Jayanti'', proposed ''05-12'' ''Buddha Purnima'', proposed ''05-31'' ''Eid-ul-Fitr'',
          proposed ''06-07'' ''Bakrid / Eid-ul-Adha'', proposed ''07-06'' ''Muharram'', fixed ''08-15'' ''Independence Day'',
          proposed ''08-16'' ''Janmashtami'', proposed ''09-21'' ''Mahalaya'', proposed ''09-26'' ''Durga Puja / Maha Panchami'',
          proposed ''09-27'' ''Durga Puja / Maha Shasthi'', proposed ''09-28'' ''Durga Puja / Maha Saptami'',
          proposed ''09-29'' ''Durga Puja / Maha Ashtami'', proposed ''09-30'' ''Durga Puja / Maha Navami'',
          proposed ''10-01'' ''Durga Puja / Bijoya Dashami'', fixed ''10-02'' ''Gandhi Jayanti'', proposed ''10-06'' ''Lakshmi Puja'',
          proposed ''10-20'' ''Kali Puja / Diwali'', proposed ''10-22'' ''Bhai Phonta'', proposed ''10-27'' ''Chhath Puja'',
          proposed ''11-05'' ''Guru Nanak Jayanti'', fixed ''12-25'' ''Christmas Day''])"

definition template_day :: "uuid option \<Rightarrow> default_holiday \<Rightarrow> string \<times> day_input" where
  "template_day createdBy h =
     (dh_date h, \<lparr>di_classification = dh_classification h, di_reason = Some (dh_reason h), di_isWorkingDay = Some False,
                  di_sourceType = Some ''SYSTEM_TEMPLATE'', di_sourceReference = Some (dh_sourceReference h),
                  di_isApproximate = Some (dh_isApproximate h), di_createdBy = createdBy\<rparr>)"

record template_import =
  ti_importedCount :: nat
  ti_approximateCount :: nat
  ti_calendarVersion :: "calendar_version option"

definition populateDefaultWestBengalHolidays ::
  "world \<Rightarrow> uuid \<Rightarrow> int \<Rightarrow> uuid option \<Rightarrow> db \<Rightarrow> (template_import \<times> db) result" where
  "populateDefaultWestBengalHolidays w schoolId year createdBy d =
     (let holidays = getDefaultWestBengalHolidays year
      in bind_result (upsert_days w schoolId (map (template_day createdBy) holidays) d) (\<lambda>d1.
         Inr (\<lparr>ti_importedCount = length holidays, ti_approximateCount = length (filter dh_isApproximate holidays),
               ti_calendarVersion = sel1 (\<lambda>v. cv_status v = ''DRAFT'') (listCalendarVersions schoolId year d1)\<rparr>, d1)))"

section \<open>Approval\<close>

definition version_days :: "uuid \<Rightarrow> uuid \<Rightarrow> db \<Rightarrow> calendar_day list" where
  "version_days schoolId versionId d =
     filter (\<lambda>x. cd_schoolId x = schoolId \<and> cd_calendarVersionId x = versionId) (t_calendar d)"

definition supersede_year :: "instant \<Rightarrow> uuid \<Rightarrow> int \<Rightarrow> calendar_version list \<Rightarrow> calendar_version list" where
  "supersede_year now schoolId year =
     upd (\<lambda>v. cv_schoolId v = schoolId \<and> cv_academicYear v = year \<and> cv_status v = ''APPROVED'')
       (\<lambda>v. v\<lparr>cv_status := ''SUPERSEDED'', cv_supersededAt := Some now\<rparr>)"

definition approve_row :: "instant \<Rightarrow> uuid \<Rightarrow> uuid \<Rightarrow> uuid \<Rightarrow> string \<Rightarrow> calendar_version list \<Rightarrow> calendar_version list" where
  "approve_row now schoolId versionId approvedBy sourceReference =
     upd (\<lambda>v. cv_id v = versionId \<and> cv_schoolId v = schoolId)
       (\<lambda>v. v\<lparr>cv_status := ''APPROVED'', cv_approvedBy := Some approvedBy, cv_approvedAt := Some now,
              cv_sourceReference := Some sourceReference\<rparr>)"

definition approveCalendarVersion :: "instant \<Rightarrow> uuid \<Rightarrow> uuid \<Rightarrow> uuid \<Rightarrow> string \<Rightarrow> db \<Rightarrow> db result" where
  "approveCalendarVersion now schoolId versionId approvedBy sourceReference d =
     (if js_trim sourceReference = [] then Inl (JsErr ''CALENDAR_SOURCE_REFERENCE_REQUIRED'')
      else case sel1 (\<lambda>v. cv_id v = versionId \<and> cv_schoolId v = schoolId) (t_calendarVersions d) of
        None \<Rightarrow> Inl (JsErr ''CALENDAR_VERSION_NOT_FOUND'')
      | Some row \<Rightarrow>
          if cv_status row \<noteq> ''DRAFT'' then Inl (JsErr ''CALENDAR_VERSION_NOT_DRAFT'')
          else
            let days = version_days schoolId versionId d
            in if days = [] then Inl (JsErr ''CALENDAR_VERSION_EMPTY'')
               else if \<exists>x \<in> set days. cd_isApproximate x then Inl (JsErr ''CALENDAR_APPROXIMATE_DATES_REQUIRE_CONFIRMATION'')
               else Inr (d\<lparr>t_calendarVersions := approve_row now schoolId versionId approvedBy sourceReference
                             (supersede_year now schoolId (cv_academicYear row) (t_calendarVersions d))\<rparr>))"

section \<open>Reading the calendar\<close>

text \<open>Per year the draft comes first, then the approved version; \<open>version_rank\<close> is that order.\<close>

definition version_rank :: "calendar_version \<Rightarrow> int" where
  "version_rank v = (if cv_status v = ''DRAFT'' then 0 else if cv_status v = ''APPROVED'' then 1 else 2)"

definition selected_version :: "uuid \<Rightarrow> uuid option \<Rightarrow> int \<Rightarrow> int \<Rightarrow> calendar_version \<Rightarrow> db \<Rightarrow> bool" where
  "selected_version schoolId requested firstYear lastYear v d =
     (if truthy requested then Some (cv_id v) = requested \<and> cv_schoolId v = schoolId
      else cv_schoolId v = schoolId \<and> firstYear \<le> cv_academicYear v \<and> cv_academicYear v \<le> lastYear
           \<and> Some v = sel1 (\<lambda>x. True)
               (sort_key version_rank (filter (\<lambda>x. cv_status x \<in> {''DRAFT'', ''APPROVED''}) (listCalendarVersions schoolId (cv_academicYear v) d))))"

definition getCalendarDays ::
  "world \<Rightarrow> uuid \<Rightarrow> string \<Rightarrow> string \<Rightarrow> uuid option \<Rightarrow> db \<Rightarrow> (calendar_day list) result" where
  "getCalendarDays w schoolId startDate endDate requestedVersionId d =
     bind_result (assertDate w startDate) (\<lambda>_.
     bind_result (assertDate w endDate) (\<lambda>_.
     bind_result (cast_date startDate) (\<lambda>_.
     bind_result (cast_date endDate) (\<lambda>_.
     Inr (sort_by (\<lambda>x y. cd_calendarDate x \<le> cd_calendarDate y)
       (filter (\<lambda>x. cd_schoolId x = schoolId \<and> startDate \<le> cd_calendarDate x \<and> cd_calendarDate x \<le> endDate
                \<and> (\<exists>v \<in> set (t_calendarVersions d). cv_id v = cd_calendarVersionId x
                     \<and> selected_version schoolId requestedVersionId (year_of startDate) (year_of endDate) v d))
          (t_calendar d)))))))"

definition approved_years :: "uuid \<Rightarrow> int \<Rightarrow> int \<Rightarrow> db \<Rightarrow> int list" where
  "approved_years schoolId first lst d =
     map cv_academicYear (filter (\<lambda>v. cv_schoolId v = schoolId \<and> cv_status v = ''APPROVED''
        \<and> first \<le> cv_academicYear v \<and> cv_academicYear v \<le> lst) (t_calendarVersions d))"

definition getCalendarCoverageStatus :: "world \<Rightarrow> uuid \<Rightarrow> string \<Rightarrow> string \<Rightarrow> db \<Rightarrow> (int list) result" where
  "getCalendarCoverageStatus w schoolId startDate endDate d =
     bind_result (assertDate w startDate) (\<lambda>_.
     bind_result (assertDate w endDate) (\<lambda>_.
       let first = year_of startDate; lst = year_of endDate; approved = approved_years schoolId first lst d
       in Inr (filter (\<lambda>y. y \<notin> set approved) (map (\<lambda>k. first + int k) [0..<nat (lst - first + 1)]))))"

record day_status =
  ds_isWorkingDay :: bool
  ds_classification :: string
  ds_reason :: "ustring option"

definition day_status_of :: "calendar_day \<Rightarrow> day_status" where
  "day_status_of x = \<lparr>ds_isWorkingDay = cd_isWorkingDay x, ds_classification = cd_classification x, ds_reason = js_or (cd_reason x) None\<rparr>"

text \<open>\<open>getUTCDay\<close>: the first of January 1970 was a Thursday.\<close>

definition utc_day :: "instant \<Rightarrow> int" where "utc_day t = (t div DAY + 4) mod 7"

definition default_status :: "instant \<Rightarrow> day_status" where
  "default_status t =
     (if utc_day t = 0 then \<lparr>ds_isWorkingDay = False, ds_classification = ''SUNDAY_WEEKEND'', ds_reason = Some (utext ''Sunday'')\<rparr>
      else \<lparr>ds_isWorkingDay = True, ds_classification = ''WORKING_DAY'', ds_reason = None\<rparr>)"

definition approved_days :: "uuid \<Rightarrow> string \<Rightarrow> string \<Rightarrow> db \<Rightarrow> calendar_day list" where
  "approved_days schoolId startDate endDate d =
     filter (\<lambda>x. cd_schoolId x = schoolId \<and> startDate \<le> cd_calendarDate x \<and> cd_calendarDate x \<le> endDate
       \<and> (\<exists>v \<in> set (t_calendarVersions d). cv_id v = cd_calendarVersionId x \<and> cv_status v = ''APPROVED'')) (t_calendar d)"

definition getWorkingDaysMap :: "world \<Rightarrow> uuid \<Rightarrow> string \<Rightarrow> string \<Rightarrow> db \<Rightarrow> ((string \<times> day_status) list) result" where
  "getWorkingDaysMap w schoolId startDate endDate d =
     bind_result (assertDate w startDate) (\<lambda>_.
     bind_result (assertDate w endDate) (\<lambda>_.
     bind_result (cast_date startDate) (\<lambda>_.
     bind_result (cast_date endDate) (\<lambda>_.
       let explicit = js_map (map (\<lambda>x. (cd_calendarDate x, day_status_of x)) (approved_days schoolId startDate endDate d))
       in Inr (js_map (map (\<lambda>t. (iso_day w t, the_or (default_status t) (map_of explicit (iso_day w t))))
             (cursor_days (the (midnight w startDate)) (the (midnight w endDate)))))))))"

section \<open>The routes that change the calendar\<close>

text \<open>The bodies of the requests, as the schemas of the routes let them through.\<close>

datatype calendar_request =
    SetDay string day_input
  | SetRange string string day_input
  | ImportTemplate int
  | ApproveVersion uuid string

definition calendar_classifications :: "string list" where
  "calendar_classifications = [''WORKING_DAY'', ''SUNDAY_WEEKEND'', ''GOVERNMENT_HOLIDAY'', ''SCHOOL_HOLIDAY'', ''VACATION'',
     ''EXAMINATION_DAY'', ''EMERGENCY_CLOSURE'', ''OPTIONAL_WORKING_DAY'']"

definition at_most :: "nat \<Rightarrow> 'a list option \<Rightarrow> bool" where
  "at_most n v = (case v of None \<Rightarrow> True | Some s \<Rightarrow> length s \<le> n)"

definition valid_day_input :: "day_input \<Rightarrow> bool" where
  "valid_day_input i \<longleftrightarrow> di_classification i \<in> set calendar_classifications \<and> at_most 255 (di_reason i)
     \<and> (case di_sourceType i of None \<Rightarrow> True | Some s \<Rightarrow> s \<in> set calendar_source_types) \<and> at_most 1000 (di_sourceReference i)"

text \<open>The schemas default the source type and the mark for approximate dates; the author is the user.\<close>

definition with_defaults :: "uuid \<Rightarrow> day_input \<Rightarrow> day_input" where
  "with_defaults userId i = i\<lparr>di_sourceType := Some (the_or ''SCHOOL_CONFIRMED'' (di_sourceType i)),
     di_isApproximate := Some (the_or False (di_isApproximate i)), di_createdBy := Some userId\<rparr>"

definition invalid_request :: "db \<Rightarrow> db result" where
  "invalid_request d = Inl (AppErr ''CALENDAR_REQUEST_INVALID'' 400)"

definition calendar_handler :: "world \<Rightarrow> instant \<Rightarrow> uuid \<Rightarrow> uuid \<Rightarrow> calendar_request \<Rightarrow> db \<Rightarrow> db result" where
  "calendar_handler w now schoolId userId r d =
     (case r of
        SetDay date i \<Rightarrow>
          if \<not> date_shape date \<or> \<not> valid_day_input i then invalid_request d
          else map_sum id snd (upsertCalendarDay w schoolId date (with_defaults userId i) d)
      | SetRange startDate endDate i \<Rightarrow>
          if \<not> date_shape startDate \<or> \<not> date_shape endDate \<or> \<not> valid_day_input i \<or> endDate < startDate then invalid_request d
          else map_sum id snd (bulkSetDateRange w schoolId startDate endDate (with_defaults userId i) d)
      | ImportTemplate year \<Rightarrow>
          if \<not> (2000 \<le> year \<and> year \<le> 2100) then invalid_request d
          else map_sum id snd (populateDefaultWestBengalHolidays w schoolId year (Some userId) d)
      | ApproveVersion versionId sourceReference \<Rightarrow>
          let source = js_trim sourceReference
          in if \<not> isUuid versionId \<or> length source < 3 \<or> 1000 < length source then invalid_request d
             else approveCalendarVersion now schoolId versionId userId source d)"

section \<open>The life of a version\<close>

definition days_of :: "uuid \<Rightarrow> db \<Rightarrow> calendar_day list" where
  "days_of i d = filter (\<lambda>x. cd_calendarVersionId x = i) (t_calendar d)"

definition one_approved :: "calendar_version list \<Rightarrow> bool" where
  "one_approved vs \<longleftrightarrow> (\<forall>v \<in> set vs. \<forall>v' \<in> set vs. cv_status v = ''APPROVED'' \<and> cv_status v' = ''APPROVED''
     \<and> cv_schoolId v' = cv_schoolId v \<and> cv_academicYear v' = cv_academicYear v \<longrightarrow> v' = v)"

definition confirmed :: "db \<Rightarrow> calendar_version \<Rightarrow> bool" where
  "confirmed d v \<longleftrightarrow> cv_approvedBy v \<noteq> None \<and> cv_approvedAt v \<noteq> None \<and> truthy (cv_sourceReference v)
     \<and> days_of (cv_id v) d \<noteq> [] \<and> (\<forall>x \<in> set (days_of (cv_id v) d). \<not> cd_isApproximate x)"

definition of_version :: "calendar_version \<Rightarrow> calendar_day \<Rightarrow> bool" where
  "of_version v x \<longleftrightarrow> cv_id v = cd_calendarVersionId x \<and> cv_schoolId v = cd_schoolId x \<and> cv_academicYear v = year_of (cd_calendarDate x)"

definition calendar_ok :: "world \<Rightarrow> db \<Rightarrow> bool" where
  "calendar_ok w d \<longleftrightarrow> distinct (map cv_id (t_calendarVersions d))
     \<and> (\<forall>v \<in> set (t_calendarVersions d). \<exists>k < seq d. cv_id v = gen_uuid w k)
     \<and> one_approved (t_calendarVersions d)
     \<and> (\<forall>v \<in> set (t_calendarVersions d). cv_status v = ''APPROVED'' \<longrightarrow> confirmed d v)
     \<and> (\<forall>x \<in> set (t_calendar d). \<exists>v \<in> set (t_calendarVersions d). of_version v x)
     \<and> sorted_wrt (\<lambda>x y. \<not> same_calendar_day x y) (t_calendar d)"

definition advances_to :: "string \<Rightarrow> string \<Rightarrow> bool" where
  "advances_to s t \<longleftrightarrow> t = s \<or> s = ''DRAFT'' \<or> (s = ''APPROVED'' \<and> t = ''SUPERSEDED'')"

text \<open>A version is kept, moves forward only, and once it is no draft its days are final.\<close>

definition version_kept :: "db \<Rightarrow> db \<Rightarrow> calendar_version \<Rightarrow> calendar_version \<Rightarrow> bool" where
  "version_kept d d' v v' \<longleftrightarrow> cv_id v' = cv_id v \<and> cv_schoolId v' = cv_schoolId v \<and> cv_academicYear v' = cv_academicYear v
     \<and> cv_version v' = cv_version v \<and> advances_to (cv_status v) (cv_status v')
     \<and> (cv_status v \<noteq> ''DRAFT'' \<longrightarrow> days_of (cv_id v) d' = days_of (cv_id v) d)"

definition calendar_moves :: "world \<Rightarrow> db \<Rightarrow> db \<Rightarrow> bool" where
  "calendar_moves w d d' \<longleftrightarrow> (calendar_ok w d \<longrightarrow> calendar_ok w d'
     \<and> (\<forall>v \<in> set (t_calendarVersions d). \<exists>v' \<in> set (t_calendarVersions d'). version_kept d d' v v'))"

lemma advances_to_refl [simp]: "advances_to s s"
  by (simp add: advances_to_def)

lemma version_kept_trans: "version_kept d d' v v' \<Longrightarrow> version_kept d' d'' v' v'' \<Longrightarrow> version_kept d d'' v v''"
  by (auto simp: version_kept_def advances_to_def)

lemma calendar_moves_refl [simp]: "calendar_moves w d d"
  by (auto simp: calendar_moves_def version_kept_def)

lemma calendar_moves_trans: "calendar_moves w d d' \<Longrightarrow> calendar_moves w d' d'' \<Longrightarrow> calendar_moves w d d''"
  unfolding calendar_moves_def by (meson version_kept_trans)

lemma version_by_id:
  assumes "calendar_ok w d" "v \<in> set (t_calendarVersions d)" "v' \<in> set (t_calendarVersions d)" "cv_id v' = cv_id v"
  shows "v' = v"
  using assms by (auto simp: calendar_ok_def distinct_map dest: inj_onD)

lemma moves_new_version:
  assumes "inj (gen_uuid w)" "cv_id v = gen_uuid w (seq d)" "cv_status v = ''DRAFT''"
  shows "calendar_moves w d (d\<lparr>t_calendarVersions := t_calendarVersions d @ [v], seq := Suc (seq d)\<rparr>)"
proof -
  have fresh: "gen_uuid w k = gen_uuid w (seq d) \<longleftrightarrow> k = seq d" for k using assms(1) by (auto dest: injD)
  have "calendar_ok w (d\<lparr>t_calendarVersions := t_calendarVersions d @ [v], seq := Suc (seq d)\<rparr>)" if "calendar_ok w d"
    using that assms(2,3) unfolding calendar_ok_def one_approved_def confirmed_def days_of_def of_version_def
    by (auto simp: fresh less_Suc_eq) (metis fresh less_irrefl)
  then show ?thesis by (auto simp: calendar_moves_def version_kept_def days_of_def)
qed

lemma put_day_keeps:
  "(x \<in> set (put_day r t) \<Longrightarrow> \<exists>y \<in> set (r # t). same_calendar_day y x)"
  "i \<noteq> cd_calendarVersionId r \<Longrightarrow> filter (\<lambda>x. cd_calendarVersionId x = i) (put_day r t) = filter (\<lambda>x. cd_calendarVersionId x = i) t"
  "sorted_wrt (\<lambda>x y. \<not> same_calendar_day x y) t \<Longrightarrow> sorted_wrt (\<lambda>x y. \<not> same_calendar_day x y) (put_day r t)"
proof -
  show "x \<in> set (put_day r t) \<Longrightarrow> \<exists>y \<in> set (r # t). same_calendar_day y x"
    by (auto simp: put_day_def in_upd same_calendar_day_def split: if_splits)
  show "i \<noteq> cd_calendarVersionId r \<Longrightarrow>
      filter (\<lambda>x. cd_calendarVersionId x = i) (put_day r t) = filter (\<lambda>x. cd_calendarVersionId x = i) t"
    by (auto simp: put_day_def same_calendar_day_def intro: filter_upd_other)
  show "sorted_wrt (\<lambda>x y. \<not> same_calendar_day x y) t \<Longrightarrow> sorted_wrt (\<lambda>x y. \<not> same_calendar_day x y) (put_day r t)"
    by (auto simp: put_day_def upd_def sorted_wrt_map sorted_wrt_append same_calendar_day_def elim!: sorted_wrt_mono_rel [rotated])
qed

lemma new_day_simps [simp]:
  "cd_calendarVersionId (new_day w sid v date i d) = cv_id v" "cd_schoolId (new_day w sid v date i d) = sid"
  "cd_calendarDate (new_day w sid v date i d) = date"
  by (simp_all add: new_day_def)

lemma of_version_same: "same_calendar_day x y \<Longrightarrow> of_version v x = of_version v y"
  by (auto simp: of_version_def same_calendar_day_def)

lemma moves_put_day:
  assumes "v \<in> set (t_calendarVersions d)" "cv_status v = ''DRAFT''" "of_version v r"
  shows "calendar_moves w d (d\<lparr>t_calendar := put_day r (t_calendar d), seq := Suc (seq d)\<rparr>)"
proof -
  let ?d = "d\<lparr>t_calendar := put_day r (t_calendar d), seq := Suc (seq d)\<rparr>"
  have days: "days_of (cv_id v') ?d = days_of (cv_id v') d"
    if "calendar_ok w d" "v' \<in> set (t_calendarVersions d)" "cv_status v' \<noteq> ''DRAFT''" for v'
  proof -
    from version_by_id [OF that(1) assms(1) that(2)] assms(2) that(3) have "cv_id v' \<noteq> cv_id v" by metis
    with assms(3) have "cv_id v' \<noteq> cd_calendarVersionId r" by (simp add: of_version_def)
    from put_day_keeps(2) [OF this] show ?thesis by (simp add: days_of_def)
  qed
  have "calendar_ok w ?d" if ok: "calendar_ok w d"
  proof -
    have "\<exists>v' \<in> set (t_calendarVersions d). of_version v' x" if "x \<in> set (put_day r (t_calendar d))" for x
    proof -
      from put_day_keeps(1) [OF that] obtain y where "y = r \<or> y \<in> set (t_calendar d)" "same_calendar_day y x" by auto
      with ok assms(1,3) of_version_same show ?thesis unfolding calendar_ok_def by metis
    qed
    moreover have "confirmed ?d v'" if "v' \<in> set (t_calendarVersions d)" "cv_status v' = ''APPROVED''" for v'
      using ok that days [OF ok that(1)] by (simp add: calendar_ok_def confirmed_def)
    moreover have "\<exists>k < Suc (seq d). cv_id v' = gen_uuid w k" if "v' \<in> set (t_calendarVersions d)" for v'
      using ok that by (auto simp: calendar_ok_def less_Suc_eq)
    ultimately show ?thesis using ok put_day_keeps(3) [of "t_calendar d" r] unfolding calendar_ok_def by simp
  qed
  with days show ?thesis by (auto simp: calendar_moves_def version_kept_def)
qed

lemma draftVersionE:
  assumes "draftVersion w sid year u st ref d = Inr (v, d1)" "inj (gen_uuid w)"
  shows "calendar_moves w d d1 \<and> v \<in> set (t_calendarVersions d1) \<and> cv_status v = ''DRAFT'' \<and> cv_schoolId v = sid \<and> cv_academicYear v = year"
proof (cases "filter (\<lambda>v. cv_status v = ''DRAFT'') (listCalendarVersions sid year d)")
  case Nil
  with assms show ?thesis by (auto simp: draftVersion_def Let_def intro!: moves_new_version split: if_splits)
next
  case (Cons x xs)
  then have "x \<in> set (filter (\<lambda>v. cv_status v = ''DRAFT'') (listCalendarVersions sid year d))" by simp
  with Cons assms show ?thesis by (auto simp: draftVersion_def listCalendarVersions_def year_versions_def)
qed

lemma upsertCalendarDay_moves:
  assumes "upsertCalendarDay w sid date i d = Inr (v, d1)" "inj (gen_uuid w)"
  shows "calendar_moves w d d1"
proof -
  from assms(1) obtain d2 where d2: "draftVersion w sid (year_of date) (di_createdBy i)
      (the (js_or (di_sourceType i) (Some ''SCHOOL_CONFIRMED''))) (di_sourceReference i) d = Inr (v, d2)"
    and d1: "d1 = d2\<lparr>t_calendar := put_day (new_day w sid v date i d2) (t_calendar d2), seq := Suc (seq d2)\<rparr>"
    by (auto simp: upsertCalendarDay_def bind_result_Inr_iff)
  from draftVersionE [OF d2 assms(2)] have v: "calendar_moves w d d2" "v \<in> set (t_calendarVersions d2)" "cv_status v = ''DRAFT''"
    "of_version v (new_day w sid v date i d2)" by (auto simp: of_version_def)
  show ?thesis unfolding d1 by (rule calendar_moves_trans [OF v(1) moves_put_day [OF v(2-4)]])
qed

lemma upsert_days_moves: "upsert_days w sid ds d = Inr d1 \<Longrightarrow> inj (gen_uuid w) \<Longrightarrow> calendar_moves w d d1"
  by (induction w sid ds d rule: upsert_days.induct)
    (auto simp: bind_result_Inr_iff intro: calendar_moves_trans dest: upsertCalendarDay_moves)

definition after_approval :: "instant \<Rightarrow> calendar_version \<Rightarrow> uuid \<Rightarrow> string \<Rightarrow> calendar_version \<Rightarrow> calendar_version" where
  "after_approval now row u src v =
     (if v = row then v\<lparr>cv_status := ''APPROVED'', cv_approvedBy := Some u, cv_approvedAt := Some now, cv_sourceReference := Some src\<rparr>
      else if cv_schoolId v = cv_schoolId row \<and> cv_academicYear v = cv_academicYear row \<and> cv_status v = ''APPROVED''
      then v\<lparr>cv_status := ''SUPERSEDED'', cv_supersededAt := Some now\<rparr> else v)"

lemma after_approval_simps [simp]:
  "cv_id (after_approval now row u src v) = cv_id v" "cv_schoolId (after_approval now row u src v) = cv_schoolId v"
  "cv_academicYear (after_approval now row u src v) = cv_academicYear v" "cv_version (after_approval now row u src v) = cv_version v"
  by (simp_all add: after_approval_def)

lemma approval_rows:
  assumes "calendar_ok w d" "row \<in> set (t_calendarVersions d)" "cv_status row = ''DRAFT''"
  shows "approve_row now (cv_schoolId row) (cv_id row) u src (supersede_year now (cv_schoolId row) (cv_academicYear row) (t_calendarVersions d))
    = map (after_approval now row u src) (t_calendarVersions d)"
proof -
  have "cv_id v = cv_id row \<longleftrightarrow> v = row" if "v \<in> set (t_calendarVersions d)" for v
    using version_by_id [OF assms(1,2) that] by auto
  with assms(3) show ?thesis by (simp add: approve_row_def supersede_year_def upd_def after_approval_def cong: if_cong)
qed

lemma days_of_row:
  assumes "calendar_ok w d" "row \<in> set (t_calendarVersions d)"
  shows "version_days (cv_schoolId row) (cv_id row) d = days_of (cv_id row) d"
proof -
  have "cd_schoolId x = cv_schoolId row" if "x \<in> set (t_calendar d)" "cd_calendarVersionId x = cv_id row" for x
  proof -
    from assms(1) that(1) obtain v where "v \<in> set (t_calendarVersions d)" "of_version v x" unfolding calendar_ok_def by blast
    with version_by_id [OF assms, of v] that(2) show ?thesis by (auto simp: of_version_def)
  qed
  then show ?thesis by (auto simp: version_days_def days_of_def intro!: filter_cong)
qed

lemma approveCalendarVersion_moves:
  assumes "approveCalendarVersion now sid i u src d = Inr d1"
  shows "calendar_moves w d d1"
proof -
  from assms obtain row where row: "row \<in> set (t_calendarVersions d)" "cv_id row = i" "cv_schoolId row = sid" "cv_status row = ''DRAFT''"
    and days: "version_days sid i d \<noteq> []" "\<not> (\<exists>x \<in> set (version_days sid i d). cd_isApproximate x)" and src: "js_trim src \<noteq> []"
    and d1: "d1 = d\<lparr>t_calendarVersions := approve_row now sid i u src (supersede_year now sid (cv_academicYear row) (t_calendarVersions d))\<rparr>"
    by (auto simp: approveCalendarVersion_def Let_def split: if_splits option.splits dest!: sel1_SomeD)
  have src': "src \<noteq> []" using src by (auto simp: js_trim_def)
  show ?thesis unfolding calendar_moves_def
  proof (intro impI conjI)
    assume ok: "calendar_ok w d"
    have vs: "t_calendarVersions d1 = map (after_approval now row u src) (t_calendarVersions d)"
      using approval_rows [OF ok row(1,4)] row(2,3) by (simp add: d1)
    have same: "days_of k d1 = days_of k d" "t_calendar d1 = t_calendar d" "seq d1 = seq d" for k by (simp_all add: d1 days_of_def)
    have one: "one_approved (map (after_approval now row u src) (t_calendarVersions d))"
    proof -
      have st: "cv_status (after_approval now row u src v) = ''APPROVED'' \<longleftrightarrow> v = row \<or> (cv_status v = ''APPROVED''
          \<and> \<not> (cv_schoolId v = cv_schoolId row \<and> cv_academicYear v = cv_academicYear row))" for v
        by (auto simp: after_approval_def)
      have "v' = v" if "v \<in> set (t_calendarVersions d)" "v' \<in> set (t_calendarVersions d)"
        "cv_status (after_approval now row u src v) = ''APPROVED''" "cv_status (after_approval now row u src v') = ''APPROVED''"
        "cv_schoolId v' = cv_schoolId v" "cv_academicYear v' = cv_academicYear v" for v v'
      proof (cases "v = row \<or> v' = row")
        case True
        with that(3-6) show ?thesis unfolding st by auto
      next
        case False
        with that ok show ?thesis unfolding st calendar_ok_def one_approved_def by blast
      qed
      then show ?thesis unfolding one_approved_def set_map by (auto simp del: One_nat_def)
    qed
    have conf: "confirmed d1 (after_approval now row u src v)" if "v \<in> set (t_calendarVersions d)"
      "cv_status (after_approval now row u src v) = ''APPROVED''" for v
    proof (cases "v = row")
      case True
      from days days_of_row [OF ok row(1)] row(2,3) src' show ?thesis
        by (simp add: True confirmed_def same after_approval_def)
    next
      case False
      with ok that show ?thesis by (auto simp: calendar_ok_def confirmed_def same after_approval_def split: if_splits)
    qed
    from ok one conf show "calendar_ok w d1"
      unfolding calendar_ok_def vs same by (simp add: comp_def of_version_def)
    show "\<forall>v \<in> set (t_calendarVersions d). \<exists>v' \<in> set (t_calendarVersions d1). version_kept d d1 v v'"
    proof
      fix v assume "v \<in> set (t_calendarVersions d)"
      moreover have "version_kept d d1 v (after_approval now row u src v)"
        using row(4) by (simp add: version_kept_def same advances_to_def) (simp add: after_approval_def)
      ultimately show "\<exists>v' \<in> set (t_calendarVersions d1). version_kept d d1 v v'" unfolding vs by auto
    qed
  qed
qed

lemma map_sum_snd_Inr: "map_sum id snd r = Inr d \<longleftrightarrow> (\<exists>x. r = Inr (x, d))"
  by (cases r) auto

lemma calendar_handler_moves:
  assumes "calendar_handler w now sid userId r d = Inr d1" "inj (gen_uuid w)"
  shows "calendar_moves w d d1"
  using assms
  by (auto simp: calendar_handler_def invalid_request_def map_sum_snd_Inr bulkSetDateRange_def bind_result_Inr_iff
        populateDefaultWestBengalHolidays_def Let_def
      split: calendar_request.splits if_splits
      dest: upsertCalendarDay_moves upsert_days_moves approveCalendarVersion_moves)

text \<open>One request to the calendar: the time, the school, the user and the request.  An error rolls back.\<close>

type_synonym calendar_call = "instant \<times> uuid \<times> uuid \<times> calendar_request"

fun calendar_step :: "world \<Rightarrow> db \<Rightarrow> calendar_call \<Rightarrow> db" where
  "calendar_step w d (now, sid, userId, r) = (case calendar_handler w now sid userId r d of Inl _ \<Rightarrow> d | Inr d1 \<Rightarrow> d1)"

lemma calendar_step_moves: "inj (gen_uuid w) \<Longrightarrow> calendar_moves w d (calendar_step w d c)"
  by (cases c) (auto split: sum.splits dest: calendar_handler_moves)

lemma calendar_steps_move: "inj (gen_uuid w) \<Longrightarrow> calendar_moves w d (foldl (calendar_step w) d cs)"
  by (induction cs arbitrary: d) (auto intro: calendar_moves_trans calendar_step_moves)

interpretation calendar: guarded_machine "calendar_step w" "\<lambda>d. inj (gen_uuid w) \<and> calendar_ok w d" for w
  using calendar_step_moves by unfold_locales (auto simp: calendar_moves_def)

lemma no_calendar_ok: "t_calendar d = [] \<Longrightarrow> t_calendarVersions d = [] \<Longrightarrow> calendar_ok w d"
  by (simp add: calendar_ok_def one_approved_def)

text \<open>
  C18: The calendar is governed.  Whatever requests have shaped the calendars of the schools, a version in force
  was approved by somebody, with a source, has days and none of them is approximate, and it is the only one of
  its school and year; and whatever requests follow, a version that was approved or superseded keeps exactly
  the days it has, no version disappears, and none goes back to being a draft.
\<close>

theorem calendar_is_governed:
  assumes "inj (gen_uuid w)" "t_calendar d0 = []" "t_calendarVersions d0 = []"
    and "d = foldl (calendar_step w) d0 xs" "d' = foldl (calendar_step w) d ys" "v \<in> set (t_calendarVersions d)"
  shows "(cv_status v = ''APPROVED'' \<longrightarrow>
        cv_approvedBy v \<noteq> None \<and> cv_approvedAt v \<noteq> None \<and> truthy (cv_sourceReference v)
      \<and> days_of (cv_id v) d \<noteq> [] \<and> (\<forall>x \<in> set (days_of (cv_id v) d). \<not> cd_isApproximate x)
      \<and> (\<forall>v' \<in> set (t_calendarVersions d). cv_status v' = ''APPROVED'' \<and> cv_schoolId v' = cv_schoolId v
           \<and> cv_academicYear v' = cv_academicYear v \<longrightarrow> v' = v))
    \<and> (\<exists>v' \<in> set (t_calendarVersions d'). cv_id v' = cv_id v \<and> cv_schoolId v' = cv_schoolId v
        \<and> cv_academicYear v' = cv_academicYear v
        \<and> (cv_status v \<noteq> ''DRAFT'' \<longrightarrow> days_of (cv_id v) d' = days_of (cv_id v) d \<and> cv_status v' \<in> {cv_status v, ''SUPERSEDED''}))"
proof -
  from calendar.run_inv [of w d0 xs] no_calendar_ok assms(1-4) have ok: "calendar_ok w d" by blast
  with calendar_steps_move [OF assms(1), of d ys] assms(5,6) obtain v'
    where "v' \<in> set (t_calendarVersions d')" "version_kept d d' v v'" unfolding calendar_moves_def by blast
  moreover from this(2) have "cv_id v' = cv_id v \<and> cv_schoolId v' = cv_schoolId v \<and> cv_academicYear v' = cv_academicYear v
        \<and> (cv_status v \<noteq> ''DRAFT'' \<longrightarrow> days_of (cv_id v) d' = days_of (cv_id v) d \<and> cv_status v' \<in> {cv_status v, ''SUPERSEDED''})"
    by (auto simp: version_kept_def advances_to_def)
  moreover from ok assms(6) have "cv_status v = ''APPROVED'' \<longrightarrow> confirmed d v" unfolding calendar_ok_def by blast
  moreover from ok assms(6) have "cv_status v = ''APPROVED'' \<longrightarrow> (\<forall>v' \<in> set (t_calendarVersions d).
      cv_status v' = ''APPROVED'' \<and> cv_schoolId v' = cv_schoolId v \<and> cv_academicYear v' = cv_academicYear v \<longrightarrow> v' = v)"
    unfolding calendar_ok_def one_approved_def by blast
  ultimately show ?thesis unfolding confirmed_def by blast
qed

section \<open>Working days\<close>

text \<open>\<open>new Map\<close> of entries with different keys keeps them as they are.\<close>

lemma js_map_distinct: "distinct (map fst ps) \<Longrightarrow> js_map ps = ps"
proof -
  have *: "foldl (\<lambda>m (k, v). AList.update k v m) m0 ps = m0 @ ps" if "distinct (map fst (m0 @ ps))" for m0
    using that
  proof (induction ps arbitrary: m0)
    case (Cons p ps)
    obtain k v where p: "p = (k, v)" by (cases p)
    have "AList.update k v m0 = m0 @ [(k, v)]" if "k \<notin> fst ` set m0" for k v using that by (induction m0) auto
    with Cons show ?case by (auto simp: p)
  qed simp
  show "distinct (map fst ps) \<Longrightarrow> js_map ps = ps" using * [of "[]"] by (simp add: js_map_def)
qed

text \<open>
  What ECMAScript says of two dates written YYYY-MM-DD and the days between them: \<open>toISOString\<close> gives
  back what was parsed, whole days lie between, and their dates are in order.
\<close>

definition iso_dates :: "world \<Rightarrow> string \<Rightarrow> string \<Rightarrow> bool" where
  "iso_dates w startDate endDate \<longleftrightarrow>
     (case (midnight w startDate, midnight w endDate) of
        (Some start, Some end) \<Rightarrow> (end - start) mod DAY = 0 \<and> iso_day w start = startDate \<and> iso_day w end = endDate
          \<and> sorted_wrt (<) (map (iso_day w) (cursor_days start end))
      | _ \<Rightarrow> False)"

definition in_force :: "uuid \<Rightarrow> db \<Rightarrow> calendar_day \<Rightarrow> bool" where
  "in_force schoolId d x \<longleftrightarrow> x \<in> set (t_calendar d) \<and> cd_schoolId x = schoolId
     \<and> (\<exists>v \<in> set (t_calendarVersions d). cv_id v = cd_calendarVersionId x \<and> cv_status v = ''APPROVED'')"

lemma in_force_unique:
  assumes ok: "calendar_ok w d" and "in_force sid d x" "in_force sid d y" "cd_calendarDate x = cd_calendarDate y"
  shows "x = y"
proof -
  have ver: "\<exists>v \<in> set (t_calendarVersions d). of_version v z \<and> cv_status v = ''APPROVED''" if "in_force sid d z" for z
  proof -
    from that obtain v where v: "v \<in> set (t_calendarVersions d)" "cv_id v = cd_calendarVersionId z" "cv_status v = ''APPROVED''"
      and "z \<in> set (t_calendar d)" by (auto simp: in_force_def)
    with ok obtain v' where "v' \<in> set (t_calendarVersions d)" "of_version v' z" unfolding calendar_ok_def by blast
    moreover from this(2) v(2) have "cv_id v' = cv_id v" by (simp add: of_version_def)
    ultimately show ?thesis using version_by_id [OF ok v(1)] v(1,3) by metis
  qed
  from ver [OF assms(2)] ver [OF assms(3)] obtain v v' where "v \<in> set (t_calendarVersions d)" "v' \<in> set (t_calendarVersions d)"
    "of_version v x" "of_version v' y" "cv_status v = ''APPROVED''" "cv_status v' = ''APPROVED''" by blast
  moreover from this(3,4) assms(2-4) have "cv_schoolId v' = cv_schoolId v" "cv_academicYear v' = cv_academicYear v"
    by (auto simp: of_version_def in_force_def)
  ultimately have "v' = v" using ok unfolding calendar_ok_def one_approved_def by blast
  with \<open>of_version v x\<close> \<open>of_version v' y\<close> assms(4) have same: "same_calendar_day x y" "same_calendar_day y x"
    by (auto simp: of_version_def same_calendar_day_def)
  from ok have "sorted_wrt (\<lambda>x y. \<not> same_calendar_day x y) (t_calendar d)" by (simp add: calendar_ok_def)
  with same assms(2,3) show ?thesis unfolding in_force_def
    by (metis in_set_conv_nth linorder_neqE_nat sorted_wrt_nth_less)
qed

lemma sorted_between:
  fixes xs :: "string list"
  assumes "sorted_wrt (<) xs" "x \<in> set xs"
  shows "hd xs \<le> x \<and> x \<le> last xs"
proof -
  from assms(2) obtain i where i: "i < length xs" "x = xs ! i" by (auto simp: in_set_conv_nth)
  have "hd xs \<le> x"
  proof (cases i)
    case (Suc k)
    with i have "xs ! 0 < xs ! i" by (intro sorted_wrt_nth_less [OF assms(1)]) auto
    with i show ?thesis by (cases xs) auto
  qed (use i in \<open>auto simp: hd_conv_nth\<close>)
  moreover have "x \<le> last xs"
  proof (cases "i = length xs - 1")
    case False
    with i have "xs ! i < xs ! (length xs - 1)" by (intro sorted_wrt_nth_less [OF assms(1)]) auto
    with i(2) last_conv_nth [of xs] i(1) show ?thesis by (cases "xs = []") (auto intro: less_imp_le)
  qed (use i last_conv_nth [of xs] in \<open>cases "xs = []", auto\<close>)
  ultimately show ?thesis ..
qed

lemma cursor_ends:
  assumes "(end - start) mod DAY = 0" "t \<in> set (cursor_days start end)"
  shows "hd (cursor_days start end) = start" "last (cursor_days start end) = end" "cursor_days start end \<noteq> []"
proof -
  let ?n = "(end - start) div DAY + 1"
  from assms(2) have n: "0 < nat ?n" by (auto simp: cursor_days_def)
  then obtain k where k: "nat ?n = Suc k" by (cases "nat ?n") auto
  then have "int k = (end - start) div DAY" by linarith
  moreover have "(end - start) div DAY * DAY = end - start" using assms(1) div_mult_mod_eq [of "end - start" DAY] by simp
  ultimately have "start + int k * DAY = end" by simp
  then show "last (cursor_days start end) = end" by (simp add: cursor_days_def k)
  show "hd (cursor_days start end) = start" "cursor_days start end \<noteq> []" by (simp_all add: cursor_days_def k upt_rec [of 0])
qed

text \<open>
  C21: Working days follow the approved calendar.  For every range of dates the map of working days has each day
  exactly once and in order: a day that is in the version in force has the status written there, and every
  other day is a working day unless it is a Sunday.  Drafts, superseded versions, days proposed by the template
  and the calendars of other schools never count.
\<close>

theorem working_days_follow_the_calendar:
  assumes "inj (gen_uuid w)" "t_calendar d0 = []" "t_calendarVersions d0 = []" "d = foldl (calendar_step w) d0 xs"
    and "iso_dates w startDate endDate" "pg_date startDate" "pg_date endDate"
    and "ts = cursor_days (the (midnight w startDate)) (the (midnight w endDate))"
  shows "\<exists>m. getWorkingDaysMap w schoolId startDate endDate d = Inr m \<and> map fst m = map (iso_day w) ts
    \<and> (\<forall>t \<in> set ts. (\<forall>x. in_force schoolId d x \<and> cd_calendarDate x = iso_day w t \<longrightarrow> map_of m (iso_day w t) = Some (day_status_of x))
        \<and> ((\<forall>x. in_force schoolId d x \<longrightarrow> cd_calendarDate x \<noteq> iso_day w t) \<longrightarrow> map_of m (iso_day w t) = Some (default_status t)))"
proof -
  from calendar.run_inv [of w d0 xs] no_calendar_ok assms(1-4) have ok: "calendar_ok w d" by blast
  from assms(5) obtain start finish where lim: "midnight w startDate = Some start" "midnight w endDate = Some finish"
    "(finish - start) mod DAY = 0" "iso_day w start = startDate" "iso_day w finish = endDate"
    "sorted_wrt (<) (map (iso_day w) (cursor_days start finish))" by (auto simp: iso_dates_def split: option.splits)
  have ts: "ts = cursor_days start finish" by (simp add: assms(8) lim(1,2))
  define explicit where "explicit = js_map (map (\<lambda>x. (cd_calendarDate x, day_status_of x)) (approved_days schoolId startDate endDate d))"
  define m where "m = map (\<lambda>t. (iso_day w t, the_or (default_status t) (map_of explicit (iso_day w t)))) ts"
  from lim(6) have dist: "distinct (map (iso_day w) ts)" by (simp add: ts strict_sorted_iff)
  have "getWorkingDaysMap w schoolId startDate endDate d = Inr m"
    using assms(6,7) dist lim(1,2)
    by (simp add: getWorkingDaysMap_def assertDate_def cast_date_def throw_if_def pg_date_def m_def explicit_def ts js_map_distinct comp_def)
  moreover have "map fst m = map (iso_day w) ts" by (simp add: m_def comp_def)
  moreover have at: "map_of m (iso_day w t) = Some (the_or (default_status t) (map_of explicit (iso_day w t)))" if "t \<in> set ts" for t
    using that dist by (intro map_of_is_SomeI) (auto simp: m_def comp_def)
  moreover have "map_of explicit (iso_day w t) = Some (day_status_of x)"
    if "t \<in> set ts" "in_force schoolId d x" "cd_calendarDate x = iso_day w t" for t x
  proof -
    have "iso_day w t \<in> set (map (iso_day w) ts)" using that(1) by simp
    from sorted_between [OF lim(6) this [unfolded ts]] cursor_ends [OF lim(3) that(1) [unfolded ts]] lim(4,5)
    have "startDate \<le> iso_day w t" "iso_day w t \<le> endDate" by (auto simp: hd_map last_map)
    with that(2,3) have x: "x \<in> set (approved_days schoolId startDate endDate d)" by (auto simp: approved_days_def in_force_def)
    then have "map_of explicit (iso_day w t) \<noteq> None"
      unfolding explicit_def map_of_js_map_None_iff using that(3) by force
    then obtain s where s: "map_of explicit (iso_day w t) = Some s" by auto
    then have "(iso_day w t, s) \<in> set (map (\<lambda>x. (cd_calendarDate x, day_status_of x)) (approved_days schoolId startDate endDate d))"
      unfolding explicit_def by (rule map_of_js_map_SomeD)
    then obtain y where y: "y \<in> set (approved_days schoolId startDate endDate d)" "cd_calendarDate y = iso_day w t" "s = day_status_of y"
      by auto
    from y(1) have "in_force schoolId d y" by (auto simp: approved_days_def in_force_def)
    with in_force_unique [OF ok that(2), of y] that(3) s y(2,3) show ?thesis by simp
  qed
  moreover have "map_of explicit (iso_day w t) = None" if "\<forall>x. in_force schoolId d x \<longrightarrow> cd_calendarDate x \<noteq> iso_day w t" for t
    using that unfolding explicit_def map_of_js_map_None_iff by (auto simp: approved_days_def in_force_def)
  ultimately show ?thesis by (intro exI [of _ m]) (auto simp: the_or_def)
qed

section \<open>Examples\<close>

text \<open>An engine that knows the first nine days of 2025.  The first Sunday is a working day, the Monday after it a holiday.\<close>

definition calendar_world :: world where
  "calendar_world = example_world\<lparr>
     gen_uuid := (\<lambda>n. ''00000000-0000-4000-8000-000000000001'' @ replicate n (CHR ''x'')),
     date_parse := (\<lambda>s. if take 9 s = ''2025-01-0'' then Some ((20088 + (of_char (s ! 9) - 48)) * 86400000) else None),
     iso_string := (\<lambda>t. ''2025-01-0'' @ char_of (t div 86400000 - 20088 + 48) # ''T00:00:00.000Z'')\<rparr>"

definition calendar_day_of :: "string \<Rightarrow> day_input" where
  "calendar_day_of c = \<lparr>di_classification = c, di_reason = None, di_isWorkingDay = None, di_sourceType = None,
     di_sourceReference = None, di_isApproximate = None, di_createdBy = None\<rparr>"

definition calendar_calls :: "calendar_call list" where
  "calendar_calls =
     [(1, ''school'', ''head'', SetDay ''2025-01-05'' (calendar_day_of ''OPTIONAL_WORKING_DAY'')),
      (2, ''school'', ''head'', SetDay ''2025-01-06'' (calendar_day_of ''GOVERNMENT_HOLIDAY'')),
      (3, ''school'', ''head'', ApproveVersion ''00000000-0000-4000-8000-000000000001'' ''order 17''),
      (4, ''school'', ''head'', SetDay ''2025-01-07'' (calendar_day_of ''VACATION''))]"

lemma inj_calendar_world: "inj (gen_uuid calendar_world)"
  by (auto simp: calendar_world_def inj_def dest: arg_cong [where f = length])

lemma calendar_view:
  "map (\<lambda>v. (cv_version v, cv_status v)) (t_calendarVersions (foldl (calendar_step calendar_world) empty_db calendar_calls))
     = [(1, ''APPROVED''), (2, ''DRAFT'')]"
  "case getWorkingDaysMap calendar_world ''school'' ''2025-01-04'' ''2025-01-07''
      (foldl (calendar_step calendar_world) empty_db calendar_calls) of Inl _ \<Rightarrow> False
   | Inr m \<Rightarrow> map (ds_isWorkingDay \<circ> snd) m = [True, True, False, True]"
  by code_simp+

theorem calendar_is_governed_witness:
  "\<exists>d d' v. d = foldl (calendar_step calendar_world) empty_db calendar_calls \<and> v \<in> set (t_calendarVersions d)
     \<and> cv_status v = ''APPROVED'' \<and> days_of (cv_id v) d \<noteq> []
     \<and> d' = foldl (calendar_step calendar_world) d [(5, ''school'', ''head'', SetDay ''2025-01-06'' (calendar_day_of ''WORKING_DAY''))]
     \<and> days_of (cv_id v) d' = days_of (cv_id v) d"
proof -
  let ?d = "foldl (calendar_step calendar_world) empty_db calendar_calls"
  from calendar_view(1) obtain v :: calendar_version where v: "v \<in> set (t_calendarVersions ?d)" "cv_status v = ''APPROVED''"
    by (cases "t_calendarVersions ?d") auto
  note g = calendar_is_governed [OF inj_calendar_world _ _ refl refl v(1), of "[(5, ''school'', ''head'', SetDay ''2025-01-06'' (calendar_day_of ''WORKING_DAY''))]"]
  show ?thesis using g v by (intro exI [of _ ?d] exI [of _ v] exI) (auto simp: empty_db_def)
qed

lemma calendar_dates: "iso_dates calendar_world ''2025-01-04'' ''2025-01-07''" "pg_date ''2025-01-04''" "pg_date ''2025-01-07''"
  by code_simp+

theorem working_days_follow_the_calendar_witness:
  "\<exists>m. getWorkingDaysMap calendar_world ''school'' ''2025-01-04'' ''2025-01-07''
      (foldl (calendar_step calendar_world) empty_db calendar_calls) = Inr m
     \<and> map (ds_isWorkingDay \<circ> snd) m = [True, True, False, True] \<and> length (map fst m) = 4"
proof -
  note f = working_days_follow_the_calendar [where ?d0.0 = empty_db and xs = calendar_calls and schoolId = "''school''",
    OF inj_calendar_world _ _ refl calendar_dates refl]
  then obtain m where "getWorkingDaysMap calendar_world ''school'' ''2025-01-04'' ''2025-01-07''
      (foldl (calendar_step calendar_world) empty_db calendar_calls) = Inr m" by (auto simp: empty_db_def)
  with calendar_view(2) show ?thesis by (auto dest: arg_cong [where f = length])
qed

end
