(* ===== verification/Report_Scope.thy ===== *)
theory Report_Scope
  imports Calendar
begin

text \<open>
  Models src/src/services/reportGenerationQueue.ts and reportValidationService.ts: the bounded queue in which
  reports are generated, the limits on their size, and the check of the scope of a report before it is
  generated.  The texts of the messages are left out; an item has its code and its count.
\<close>

section \<open>Limits\<close>

text \<open>The values of the environment, as text.\<close>

record report_env =
  re_concurrency :: "string option"
  re_maxPending :: "string option"
  re_maxCells :: "string option"
  re_maxPeriodDays :: "string option"
  re_maxStudents :: "string option"
  re_storage :: "string option"
  re_maxBytes :: "string option"

definition MAX_SAFE_INTEGER :: int where "MAX_SAFE_INTEGER = 9007199254740991"

definition positiveInteger :: "world \<Rightarrow> string option \<Rightarrow> int \<Rightarrow> int" where
  "positiveInteger w v fallback =
     (case v of None \<Rightarrow> fallback
      | Some s \<Rightarrow> (case js_number w s of None \<Rightarrow> fallback
          | Some q \<Rightarrow> if q = of_int \<lfloor>q\<rfloor> \<and> 0 < q \<and> \<lfloor>q\<rfloor> \<le> MAX_SAFE_INTEGER then \<lfloor>q\<rfloor> else fallback))"

record report_limits =
  rl_maxConcurrent :: int
  rl_maxPending :: int
  rl_maxEstimatedCells :: int
  rl_maxPeriodDays :: int
  rl_maxStudents :: int

definition getReportGenerationLimits :: "world \<Rightarrow> report_env \<Rightarrow> report_limits" where
  "getReportGenerationLimits w env =
     \<lparr>rl_maxConcurrent = positiveInteger w (re_concurrency env) 1, rl_maxPending = positiveInteger w (re_maxPending env) 8,
      rl_maxEstimatedCells = positiveInteger w (re_maxCells env) 750000,
      rl_maxPeriodDays = positiveInteger w (re_maxPeriodDays env) 370, rl_maxStudents = positiveInteger w (re_maxStudents env) 5000\<rparr>"

text \<open>The answer is the number of days and the estimated number of cells.\<close>

definition assertReportGenerationBounds :: "world \<Rightarrow> report_limits \<Rightarrow> string \<Rightarrow> string \<Rightarrow> int \<Rightarrow> (int \<times> int) result" where
  "assertReportGenerationBounds w limits periodStart periodEnd studentCount =
     (case (midnight w periodStart, midnight w periodEnd) of
        (Some start, Some end) \<Rightarrow>
          let periodDays = (end - start) div DAY + 1; cells = max 1 studentCount * (periodDays + 12)
          in bind_result (throw_if (periodDays < 1) (JsErr ''REPORT_PERIOD_INVALID'')) (\<lambda>_.
             bind_result (throw_if (rl_maxPeriodDays limits < periodDays) (JsErr ''REPORT_PERIOD_LIMIT_EXCEEDED'')) (\<lambda>_.
             bind_result (throw_if (rl_maxStudents limits < studentCount) (JsErr ''REPORT_STUDENT_LIMIT_EXCEEDED'')) (\<lambda>_.
             bind_result (throw_if (rl_maxEstimatedCells limits < cells) (JsErr ''REPORT_ESTIMATED_SIZE_LIMIT_EXCEEDED'')) (\<lambda>_.
             Inr (periodDays, cells)))))
      | _ \<Rightarrow> Inl (JsErr ''REPORT_PERIOD_INVALID''))"

section \<open>The queue\<close>

record 'j report_queue =
  rq_running :: int
  rq_waiting :: "'j list"

text \<open>The jobs that start, and the queue.  A job that ends, well or not, calls \<open>queue_finished\<close>.\<close>

fun start_jobs :: "int \<Rightarrow> int \<Rightarrow> 'j list \<Rightarrow> 'j list \<times> int \<times> 'j list" where
  "start_jobs maxConcurrent running [] = ([], running, [])"
| "start_jobs maxConcurrent running (j # js) =
     (if running < maxConcurrent
      then (case start_jobs maxConcurrent (running + 1) js of (started, r, waiting) \<Rightarrow> (j # started, r, waiting))
      else ([], running, j # js))"

definition drain :: "report_limits \<Rightarrow> 'j report_queue \<Rightarrow> 'j list \<times> 'j report_queue" where
  "drain limits q =
     (case start_jobs (rl_maxConcurrent limits) (rq_running q) (rq_waiting q) of
        (started, r, waiting) \<Rightarrow> (started, \<lparr>rq_running = r, rq_waiting = waiting\<rparr>))"

definition enqueue :: "report_limits \<Rightarrow> 'j \<Rightarrow> 'j report_queue \<Rightarrow> ('j list \<times> 'j report_queue) result" where
  "enqueue limits j q =
     (if rl_maxConcurrent limits \<le> rq_running q \<and> rl_maxPending limits \<le> int (length (rq_waiting q))
      then Inl (JsErr ''REPORT_GENERATION_QUEUE_FULL'')
      else Inr (drain limits (q\<lparr>rq_waiting := rq_waiting q @ [j]\<rparr>)))"

definition queue_finished :: "report_limits \<Rightarrow> 'j report_queue \<Rightarrow> 'j list \<times> 'j report_queue" where
  "queue_finished limits q = drain limits (q\<lparr>rq_running := rq_running q - 1\<rparr>)"

section \<open>The scope of a report\<close>

record scope_request =
  vs_schoolId :: uuid
  vs_scopeType :: string
  vs_classSectionIds :: "uuid list option"
  vs_studentIds :: "uuid list option"
  vs_allowedClassSectionIds :: "uuid list option"
  vs_startDate :: string
  vs_endDate :: string

text \<open>An item: its code and the count or the years it reports.\<close>

type_synonym validation_item = "string \<times> int list"

record validation_summary =
  vm_totalStudents :: nat
  vm_totalClasses :: nat
  vm_workingDays :: nat
  vm_totalSessions :: nat
  vm_finalizedSessions :: nat
  vm_missingBanglarShikshaCount :: nat
  vm_missingBengaliNameCount :: nat
  vm_duplicateRollCount :: nat
  vm_unmarkedCount :: nat
  vm_correctionsCount :: nat
  vm_estimatedCells :: int

record validation_result =
  vr_blockingErrors :: "validation_item list"
  vr_warnings :: "validation_item list"
  vr_classSectionIds :: "uuid list"
  vr_studentIds :: "uuid list"
  vr_summary :: validation_summary

definition isValid :: "validation_result \<Rightarrow> bool" where "isValid r \<longleftrightarrow> vr_blockingErrors r = []"

definition empty_summary :: validation_summary where
  "empty_summary = \<lparr>vm_totalStudents = 0, vm_totalClasses = 0, vm_workingDays = 0, vm_totalSessions = 0, vm_finalizedSessions = 0,
     vm_missingBanglarShikshaCount = 0, vm_missingBengaliNameCount = 0, vm_duplicateRollCount = 0, vm_unmarkedCount = 0,
     vm_correctionsCount = 0, vm_estimatedCells = 0\<rparr>"

definition emptyResult :: "validation_item list \<Rightarrow> validation_item list \<Rightarrow> validation_result" where
  "emptyResult blocking warnings =
     \<lparr>vr_blockingErrors = blocking, vr_warnings = warnings, vr_classSectionIds = [], vr_studentIds = [], vr_summary = empty_summary\<rparr>"

text \<open>\<open>[...new Set(values)]\<close> keeps the first of equal values.\<close>

definition set_values :: "'a list \<Rightarrow> 'a list" where
  "set_values xs = rev (remdups (rev xs))"

definition unique_ids :: "uuid list option \<Rightarrow> uuid list" where
  "unique_ids v = set_values (filter (\<lambda>x. x \<noteq> []) (the_or [] v))"

definition item_if :: "bool \<Rightarrow> string \<Rightarrow> int list \<Rightarrow> validation_item list" where
  "item_if b code n = (if b then [(code, n)] else [])"

definition student_scope :: "scope_request \<Rightarrow> bool" where
  "student_scope q \<longleftrightarrow> vs_scopeType q \<in> {''SELECTED_STUDENTS'', ''ONE_STUDENT''}"

definition all_class_scope :: "scope_request \<Rightarrow> bool" where
  "all_class_scope q \<longleftrightarrow> vs_scopeType q \<in> {''WHOLE_SCHOOL'', ''ALL_CLASSES''}"

definition selection_errors :: "scope_request \<Rightarrow> validation_item list" where
  "selection_errors q =
     (let classes = length (unique_ids (vs_classSectionIds q)); students = length (unique_ids (vs_studentIds q)); t = vs_scopeType q
      in (if t = ''ONE_STUDENT'' \<and> students \<noteq> 1 then [(''ONE_STUDENT_SCOPE_REQUIRES_ONE'', [])]
          else item_if (t = ''SELECTED_STUDENTS'' \<and> students = 0) ''EMPTY_STUDENT_SCOPE'' [])
       @ (if t = ''SELECTED_SECTION'' \<and> classes \<noteq> 1 then [(''SELECTED_SECTION_REQUIRES_ONE'', [])]
          else item_if (\<not> student_scope q \<and> \<not> all_class_scope q \<and> classes = 0) ''EMPTY_CLASS_SCOPE'' []))"

section \<open>Who is in the scope\<close>

definition target_sections :: "scope_request \<Rightarrow> db \<Rightarrow> uuid list" where
  "target_sections q d =
     map cs_id (filter (\<lambda>c. cs_schoolId c = vs_schoolId q
        \<and> (all_class_scope q \<or> cs_id c \<in> set (unique_ids (vs_classSectionIds q)))) (t_classSections d))"

record scope_row =
  srow_classSectionId :: uuid
  srow_studentId :: uuid
  srow_rollNumber :: int
  srow_studentNameBn :: "ustring option"
  srow_banglarShikshaId :: "ustring option"

definition scope_rows :: "uuid \<Rightarrow> (enrollment \<Rightarrow> bool) \<Rightarrow> db \<Rightarrow> scope_row list" where
  "scope_rows schoolId wanted d =
     concat (map (\<lambda>e. map (\<lambda>s. \<lparr>srow_classSectionId = en_classSectionId e, srow_studentId = en_studentId e, srow_rollNumber = en_rollNumber e,
                           srow_studentNameBn = st_nameBn s, srow_banglarShikshaId = st_banglarShikshaId s\<rparr>)
                (filter (\<lambda>s. st_id s = en_studentId e \<and> st_schoolId s = schoolId \<and> st_status s = ''ACTIVE'') (t_students d)))
       (filter (\<lambda>e. en_schoolId e = schoolId \<and> en_status e = ''ACTIVE'' \<and> wanted e) (t_enrollments d)))"

text \<open>The sections, the enrolments and the errors of a selection by pupils and of one by classes.\<close>

definition scope_by_students :: "scope_request \<Rightarrow> db \<Rightarrow> uuid list \<times> scope_row list \<times> validation_item list" where
  "scope_by_students q d =
     (let wanted = unique_ids (vs_studentIds q);
          rows = scope_rows (vs_schoolId q) (\<lambda>e. en_studentId e \<in> set wanted
             \<and> (\<exists>c \<in> set (t_classSections d). cs_id c = en_classSectionId e \<and> cs_schoolId c = vs_schoolId q)) d
      in (set_values (map srow_classSectionId rows), rows,
          item_if (length (set_values (map srow_studentId rows)) \<noteq> length wanted) ''CROSS_SCHOOL_STUDENT_DETECTED'' []))"

definition scope_by_classes :: "scope_request \<Rightarrow> db \<Rightarrow> uuid list \<times> scope_row list \<times> validation_item list" where
  "scope_by_classes q d =
     (let sections = target_sections q d
      in (set_values sections,
          (if sections = [] then [] else scope_rows (vs_schoolId q) (\<lambda>e. en_classSectionId e \<in> set sections) d),
          item_if (\<not> all_class_scope q \<and> length sections \<noteq> length (unique_ids (vs_classSectionIds q))) ''CROSS_SCHOOL_CLASS_DETECTED'' []))"

text \<open>Enrolments whose roll number an earlier one of the same section has.\<close>

fun duplicate_rolls :: "(uuid \<times> int) list \<Rightarrow> scope_row list \<Rightarrow> nat" where
  "duplicate_rolls seen [] = 0"
| "duplicate_rolls seen (r # rs) =
     (let k = (srow_classSectionId r, srow_rollNumber r)
      in (if k \<in> set seen then 1 else 0) + duplicate_rolls (k # seen) rs)"

definition blank_text :: "ustring option \<Rightarrow> bool" where
  "blank_text v \<longleftrightarrow> (case v of None \<Rightarrow> True | Some s \<Rightarrow> utrim s = [])"

section \<open>Attendance in the scope\<close>

definition scope_sessions :: "scope_request \<Rightarrow> uuid list \<Rightarrow> db \<Rightarrow> att_session list" where
  "scope_sessions q sections d =
     filter (\<lambda>s. as_schoolId s = vs_schoolId q \<and> as_classSectionId s \<in> set sections
        \<and> vs_startDate q \<le> as_sessionDate s \<and> as_sessionDate s \<le> vs_endDate q) (t_sessions d)"

definition unmarked_count :: "scope_request \<Rightarrow> att_session list \<Rightarrow> scope_row list \<Rightarrow> db \<Rightarrow> nat" where
  "unmarked_count q sessions rows d =
     sum_list (map (\<lambda>s. length (filter (\<lambda>r. srow_classSectionId r = as_classSectionId s) rows)) sessions)
     - length (filter (\<lambda>r. ar_schoolId r = vs_schoolId q \<and> ar_sessionId r \<in> as_id ` set sessions \<and> ar_status r \<noteq> UNMARKED) (t_records d))"

definition corrections_count :: "world \<Rightarrow> scope_request \<Rightarrow> instant \<Rightarrow> db \<Rightarrow> nat" where
  "corrections_count w q start d =
     length (filter (\<lambda>c. co_schoolId c = vs_schoolId q \<and> start \<le> co_correctedAt c
        \<and> co_correctedAt c \<le> the_or 0 (date_parse w (vs_endDate q @ ''T23:59:59.999Z''))) (t_corrections d))"

definition validate_selection ::
  "world \<Rightarrow> report_limits \<Rightarrow> scope_request \<Rightarrow> instant \<Rightarrow> validation_item list \<Rightarrow> db \<Rightarrow> validation_result result" where
  "validate_selection w limits q start warnings0 d =
     (case (if student_scope q then scope_by_students q d else scope_by_classes q d) of (sections, rows, errors0) \<Rightarrow>
      bind_result (getWorkingDaysMap w (vs_schoolId q) (vs_startDate q) (vs_endDate q) d) (\<lambda>days.
      bind_result (getCalendarCoverageStatus w (vs_schoolId q) (vs_startDate q) (vs_endDate q) d) (\<lambda>missingYears.
        let sessions = (if sections = [] then [] else scope_sessions q sections d);
            finalized = length (filter (\<lambda>s. as_status s = FINALIZED) sessions); pending = length sessions - finalized;
            unmarked = (if sections = [] then 0 else unmarked_count q sessions rows d);
            dups = duplicate_rolls [] rows;
            noId = length (filter (\<lambda>r. blank_text (srow_banglarShikshaId r)) rows);
            noName = length (filter (\<lambda>r. blank_text (srow_studentNameBn r)) rows);
            bounds = assertReportGenerationBounds w limits (vs_startDate q) (vs_endDate q) (int (length rows));
            errors = errors0
              @ item_if (sections = []) ''EMPTY_CLASS_SCOPE'' [] @ item_if (rows = []) ''NO_STUDENTS_IN_SCOPE'' []
              @ item_if (case vs_allowedClassSectionIds q of None \<Rightarrow> False | Some allowed \<Rightarrow> \<exists>x \<in> set sections. x \<notin> set allowed)
                  ''TEACHER_SCOPE_FORBIDDEN'' []
              @ item_if (0 < dups) ''DUPLICATE_ROLL_NUMBER'' [int dups]
              @ item_if (case bounds of Inl _ \<Rightarrow> True | Inr _ \<Rightarrow> False) ''REPORT_SIZE_LIMIT'' [];
            warnings = warnings0
              @ item_if (0 < noId) ''MISSING_BANGLAR_SHIKSHA_ID'' [int noId] @ item_if (0 < noName) ''MISSING_BENGALI_NAME'' [int noName]
              @ item_if (missingYears \<noteq> []) ''MISSING_APPROVED_CALENDAR'' missingYears
              @ item_if (sections \<noteq> [] \<and> sessions = []) ''NO_ATTENDANCE_SESSIONS'' []
              @ item_if (0 < pending) ''UNFINALIZED_ATTENDANCE_SESSION'' [int pending]
              @ item_if (0 < unmarked) ''UNMARKED_ATTENDANCE'' [int unmarked]
        in Inr \<lparr>vr_blockingErrors = errors, vr_warnings = warnings, vr_classSectionIds = sections,
                vr_studentIds = (if student_scope q then set_values (map srow_studentId rows) else []),
                vr_summary = \<lparr>vm_totalStudents = length rows, vm_totalClasses = length sections,
                  vm_workingDays = length (filter (ds_isWorkingDay \<circ> snd) days), vm_totalSessions = length sessions,
                  vm_finalizedSessions = finalized, vm_missingBanglarShikshaCount = noId, vm_missingBengaliNameCount = noName,
                  vm_duplicateRollCount = dups, vm_unmarkedCount = unmarked, vm_correctionsCount = corrections_count w q start d,
                  vm_estimatedCells = (case bounds of Inl _ \<Rightarrow> 0 | Inr (_, cells) \<Rightarrow> cells)\<rparr>\<rparr>)))"

definition validateReportScope :: "world \<Rightarrow> report_limits \<Rightarrow> scope_request \<Rightarrow> db \<Rightarrow> validation_result result" where
  "validateReportScope w limits q d =
     (case sel1 (\<lambda>s. sc_id s = vs_schoolId q) (t_schools d) of
        None \<Rightarrow> Inr (emptyResult [(''SCHOOL_NOT_FOUND'', [])] [])
      | Some school \<Rightarrow>
          let warnings = item_if (sc_udiseCode school = []) ''MISSING_UDISE_CODE'' []
          in if \<not> date_shape (vs_startDate q) \<or> \<not> date_shape (vs_endDate q)
             then Inr (emptyResult [(''INVALID_DATE_FORMAT'', [])] warnings)
             else case (midnight w (vs_startDate q), midnight w (vs_endDate q)) of
               (Some start, Some end) \<Rightarrow>
                 if end < start then Inr (emptyResult [(''INVALID_DATE_RANGE'', [])] warnings)
                 else if selection_errors q \<noteq> [] then Inr (emptyResult (selection_errors q) warnings)
                 else validate_selection w limits q start warnings d
             | _ \<Rightarrow> Inr (emptyResult [(''INVALID_DATE_FORMAT'', [])] warnings))"

section \<open>What a valid scope guarantees\<close>

lemma set_set_values [simp]: "set (set_values xs) = set xs"
  by (simp add: set_values_def)

lemma distinct_set_values [simp]: "distinct (set_values xs)"
  by (simp add: set_values_def)

lemma length_set_values: "length (set_values xs) = card (set xs)"
  by (metis distinct_card distinct_set_values set_set_values)

lemma item_if_Nil [simp]: "item_if b c n = [] \<longleftrightarrow> \<not> b"
  by (simp add: item_if_def)

lemma scope_rows_mem:
  assumes "r \<in> set (scope_rows sid wanted d)"
  obtains e s where "e \<in> set (t_enrollments d)" "s \<in> set (t_students d)" "st_id s = en_studentId e" "st_schoolId s = sid"
    "st_status s = ''ACTIVE''" "en_schoolId e = sid" "en_status e = ''ACTIVE''" "wanted e"
    "srow_classSectionId r = en_classSectionId e" "srow_studentId r = en_studentId e" "srow_rollNumber r = en_rollNumber e"
  using assms by (auto simp: scope_rows_def)

lemma no_duplicate_rolls:
  assumes "duplicate_rolls seen rs = 0"
  shows "distinct (map (\<lambda>r. (srow_classSectionId r, srow_rollNumber r)) rs)"
    and "(\<lambda>r. (srow_classSectionId r, srow_rollNumber r)) ` set rs \<inter> set seen = {}"
proof -
  have "distinct (map (\<lambda>r. (srow_classSectionId r, srow_rollNumber r)) rs)
      \<and> (\<lambda>r. (srow_classSectionId r, srow_rollNumber r)) ` set rs \<inter> set seen = {}"
    using assms
  proof (induction rs arbitrary: seen)
    case (Cons r rs)
    let ?k = "\<lambda>r. (srow_classSectionId r, srow_rollNumber r)"
    from Cons.prems have "?k r \<notin> set seen" "duplicate_rolls (?k r # seen) rs = 0" by (auto simp: Let_def split: if_splits)
    with Cons.IH [of "?k r # seen"] show ?case by auto
  qed simp
  then show "distinct (map (\<lambda>r. (srow_classSectionId r, srow_rollNumber r)) rs)"
    "(\<lambda>r. (srow_classSectionId r, srow_rollNumber r)) ` set rs \<inter> set seen = {}" by auto
qed

lemma bounds_Inr:
  "assertReportGenerationBounds w l s e n = Inr (days, cells) \<longleftrightarrow>
     (\<exists>a b. midnight w s = Some a \<and> midnight w e = Some b \<and> days = (b - a) div DAY + 1 \<and> cells = max 1 n * (days + 12)
        \<and> 1 \<le> days \<and> days \<le> rl_maxPeriodDays l \<and> n \<le> rl_maxStudents l \<and> cells \<le> rl_maxEstimatedCells l)"
  by (auto simp: assertReportGenerationBounds_def Let_def throw_if_def split: option.splits if_splits)

lemma validate_selectionE:
  assumes v: "validate_selection w l q start ws d = Inr r" "isValid r"
  obtains sections rows days cells where
    "(if student_scope q then scope_by_students q d else scope_by_classes q d) = (sections, rows, [])"
    "vr_classSectionIds r = sections" "vr_studentIds r = (if student_scope q then set_values (map srow_studentId rows) else [])"
    "sections \<noteq> []" "duplicate_rolls [] rows = 0"
    "case vs_allowedClassSectionIds q of None \<Rightarrow> True | Some allowed \<Rightarrow> set sections \<subseteq> set allowed"
    "assertReportGenerationBounds w l (vs_startDate q) (vs_endDate q) (int (length rows)) = Inr (days, cells)"
    "vm_totalStudents (vr_summary r) = length rows" "vm_estimatedCells (vr_summary r) = cells"
proof -
  obtain sections rows errors where sel: "(if student_scope q then scope_by_students q d else scope_by_classes q d) = (sections, rows, errors)"
    by (metis prod_cases3)
  from v(1) obtain days missing where r: "getWorkingDaysMap w (vs_schoolId q) (vs_startDate q) (vs_endDate q) d = Inr days"
    "getCalendarCoverageStatus w (vs_schoolId q) (vs_startDate q) (vs_endDate q) d = Inr missing"
    unfolding validate_selection_def sel prod.case bind_result_Inr_iff by blast
  note v' = v [unfolded validate_selection_def sel prod.case r bind_result_simps Let_def]
  have b: "case assertReportGenerationBounds w l (vs_startDate q) (vs_endDate q) (int (length rows)) of Inl _ \<Rightarrow> False | Inr _ \<Rightarrow> True"
    using v' by (auto simp: isValid_def split: sum.splits)
  then obtain n cells where b': "assertReportGenerationBounds w l (vs_startDate q) (vs_endDate q) (int (length rows)) = Inr (n, cells)"
    by (auto split: sum.splits)
  have "errors = []" "sections \<noteq> []" "duplicate_rolls [] rows = 0"
    "case vs_allowedClassSectionIds q of None \<Rightarrow> True | Some allowed \<Rightarrow> set sections \<subseteq> set allowed"
    using v' by (auto simp: isValid_def split: option.splits)
  moreover have "vr_classSectionIds r = sections" "vr_studentIds r = (if student_scope q then set_values (map srow_studentId rows) else [])"
    "vm_totalStudents (vr_summary r) = length rows" "vm_estimatedCells (vr_summary r) = cells"
    using v'(1) by (simp_all only: sum.inject, auto simp: b')
  ultimately show thesis using sel b' by (intro that [of sections rows n cells]) simp_all
qed

text \<open>The scope by classes: sections of the school, and as many as were asked for.\<close>

lemma scope_by_classes_sections:
  assumes "scope_by_classes q d = (sections, rows, [])"
  shows "\<And>c. c \<in> set sections \<Longrightarrow> \<exists>x \<in> set (t_classSections d). cs_id x = c \<and> cs_schoolId x = vs_schoolId q"
    and "rows = (if sections = [] then [] else scope_rows (vs_schoolId q) (\<lambda>e. en_classSectionId e \<in> set sections) d)"
    and "distinct (map cs_id (t_classSections d)) \<Longrightarrow> \<not> all_class_scope q \<Longrightarrow> set sections = set (unique_ids (vs_classSectionIds q))"
proof -
  let ?t = "target_sections q d"
  from assms have s: "sections = set_values ?t" and len: "\<not> all_class_scope q \<longrightarrow> length ?t = length (unique_ids (vs_classSectionIds q))"
    and rows: "rows = (if ?t = [] then [] else scope_rows (vs_schoolId q) (\<lambda>e. en_classSectionId e \<in> set ?t) d)"
    by (auto simp: scope_by_classes_def Let_def)
  show "\<And>c. c \<in> set sections \<Longrightarrow> \<exists>x \<in> set (t_classSections d). cs_id x = c \<and> cs_schoolId x = vs_schoolId q"
    by (auto simp: s target_sections_def)
  have "sections = [] \<longleftrightarrow> ?t = []" by (metis s set_empty2 set_set_values)
  then show "rows = (if sections = [] then [] else scope_rows (vs_schoolId q) (\<lambda>e. en_classSectionId e \<in> set sections) d)"
    by (simp add: rows s)
  assume dist: "distinct (map cs_id (t_classSections d))" and "\<not> all_class_scope q"
  then have sub: "set ?t \<subseteq> set (unique_ids (vs_classSectionIds q))" by (auto simp: target_sections_def)
  from dist have "distinct ?t" by (auto simp: target_sections_def distinct_map intro: inj_on_subset)
  moreover have "distinct (unique_ids (vs_classSectionIds q))" by (simp add: unique_ids_def)
  ultimately have "card (set ?t) = card (set (unique_ids (vs_classSectionIds q)))"
    using len \<open>\<not> all_class_scope q\<close> by (simp add: distinct_card)
  with sub have "set ?t = set (unique_ids (vs_classSectionIds q))" by (simp add: card_subset_eq)
  then show "set sections = set (unique_ids (vs_classSectionIds q))" by (simp add: s)
qed

lemma scope_by_students_rows:
  assumes "scope_by_students q d = (sections, rows, [])"
  shows "\<And>c. c \<in> set sections \<Longrightarrow> \<exists>x \<in> set (t_classSections d). cs_id x = c \<and> cs_schoolId x = vs_schoolId q"
    and "set (map srow_studentId rows) = set (unique_ids (vs_studentIds q))"
    and "\<And>r. r \<in> set rows \<Longrightarrow> \<exists>e \<in> set (t_enrollments d). \<exists>s \<in> set (t_students d). en_studentId e = srow_studentId r \<and> st_id s = srow_studentId r
      \<and> en_schoolId e = vs_schoolId q \<and> st_schoolId s = vs_schoolId q \<and> en_status e = ''ACTIVE'' \<and> st_status s = ''ACTIVE''
      \<and> en_classSectionId e \<in> set sections"
proof -
  let ?wanted = "unique_ids (vs_studentIds q)"
  let ?p = "\<lambda>e. en_studentId e \<in> set ?wanted \<and> (\<exists>c \<in> set (t_classSections d). cs_id c = en_classSectionId e \<and> cs_schoolId c = vs_schoolId q)"
  from assms have s: "sections = set_values (map srow_classSectionId rows)" "rows = scope_rows (vs_schoolId q) ?p d"
    and len: "length (set_values (map srow_studentId rows)) = length ?wanted"
    by (auto simp: scope_by_students_def Let_def)
  have row: "\<exists>e \<in> set (t_enrollments d). \<exists>s \<in> set (t_students d). en_studentId e = srow_studentId r \<and> st_id s = srow_studentId r
      \<and> en_schoolId e = vs_schoolId q \<and> st_schoolId s = vs_schoolId q \<and> en_status e = ''ACTIVE'' \<and> st_status s = ''ACTIVE''
      \<and> en_classSectionId e = srow_classSectionId r \<and> ?p e" if "r \<in> set rows" for r
    using that unfolding s(2) by (rule scope_rows_mem) metis
  then show "\<And>r. r \<in> set rows \<Longrightarrow> \<exists>e \<in> set (t_enrollments d). \<exists>s \<in> set (t_students d). en_studentId e = srow_studentId r \<and> st_id s = srow_studentId r
      \<and> en_schoolId e = vs_schoolId q \<and> st_schoolId s = vs_schoolId q \<and> en_status e = ''ACTIVE'' \<and> st_status s = ''ACTIVE''
      \<and> en_classSectionId e \<in> set sections" by (fastforce simp: s(1))
  show "\<And>c. c \<in> set sections \<Longrightarrow> \<exists>x \<in> set (t_classSections d). cs_id x = c \<and> cs_schoolId x = vs_schoolId q"
    using row by (fastforce simp: s(1))
  have "set (map srow_studentId rows) \<subseteq> set ?wanted" using row by fastforce
  moreover have "card (set (map srow_studentId rows)) = card (set ?wanted)"
    using len by (simp add: length_set_values unique_ids_def)
  ultimately show "set (map srow_studentId rows) = set ?wanted" by (simp add: card_subset_eq)
qed

text \<open>
  C22: A report that may be generated stays in its scope.  When the validation of a report has no blocking error, its
  sections exist and belong to the school, they are exactly the ones asked for, and a teacher is assigned to all of
  them; pupils selected one by one are exactly those asked for and every one is an active pupil of the school with
  an active enrolment in one of these sections; no two pupils of a section share a roll number; and the period,
  the pupils and the cells are within the limits.
\<close>

theorem valid_report_stays_in_scope:
  assumes "validateReportScope w limits q d = Inr r" "isValid r" "distinct (map cs_id (t_classSections d))"
  shows "vr_classSectionIds r \<noteq> []
    \<and> (\<forall>c \<in> set (vr_classSectionIds r). \<exists>x \<in> set (t_classSections d). cs_id x = c \<and> cs_schoolId x = vs_schoolId q)
    \<and> (case vs_allowedClassSectionIds q of None \<Rightarrow> True | Some allowed \<Rightarrow> set (vr_classSectionIds r) \<subseteq> set allowed)
    \<and> (if student_scope q
       then set (vr_studentIds r) = set (unique_ids (vs_studentIds q))
          \<and> (\<forall>i \<in> set (vr_studentIds r). \<exists>e \<in> set (t_enrollments d). \<exists>s \<in> set (t_students d). en_studentId e = i \<and> st_id s = i
               \<and> en_schoolId e = vs_schoolId q \<and> st_schoolId s = vs_schoolId q \<and> en_status e = ''ACTIVE'' \<and> st_status s = ''ACTIVE''
               \<and> en_classSectionId e \<in> set (vr_classSectionIds r))
       else (all_class_scope q \<or> set (vr_classSectionIds r) = set (unique_ids (vs_classSectionIds q)))
          \<and> distinct (map (\<lambda>x. (srow_classSectionId x, srow_rollNumber x))
              (scope_rows (vs_schoolId q) (\<lambda>e. en_classSectionId e \<in> set (vr_classSectionIds r)) d)))
    \<and> (\<exists>start end. midnight w (vs_startDate q) = Some start \<and> midnight w (vs_endDate q) = Some end \<and> start \<le> end
         \<and> (end - start) div DAY + 1 \<le> rl_maxPeriodDays limits
         \<and> int (vm_totalStudents (vr_summary r)) \<le> rl_maxStudents limits
         \<and> vm_estimatedCells (vr_summary r) = max 1 (int (vm_totalStudents (vr_summary r))) * ((end - start) div DAY + 13)
         \<and> vm_estimatedCells (vr_summary r) \<le> rl_maxEstimatedCells limits)"
proof -
  from assms(1,2) obtain start "end" ws where se: "midnight w (vs_startDate q) = Some start" "midnight w (vs_endDate q) = Some end" "start \<le> end"
    "validate_selection w limits q start ws d = Inr r"
    by (auto simp: validateReportScope_def emptyResult_def isValid_def Let_def split: option.splits if_splits)
  from se(4) assms(2) obtain sections rows days cells where v:
    "(if student_scope q then scope_by_students q d else scope_by_classes q d) = (sections, rows, [])"
    "vr_classSectionIds r = sections" "vr_studentIds r = (if student_scope q then set_values (map srow_studentId rows) else [])"
    "sections \<noteq> []" "duplicate_rolls [] rows = 0"
    "case vs_allowedClassSectionIds q of None \<Rightarrow> True | Some allowed \<Rightarrow> set sections \<subseteq> set allowed"
    "assertReportGenerationBounds w limits (vs_startDate q) (vs_endDate q) (int (length rows)) = Inr (days, cells)"
    "vm_totalStudents (vr_summary r) = length rows" "vm_estimatedCells (vr_summary r) = cells" by (rule validate_selectionE)
  have size: "\<exists>start end. midnight w (vs_startDate q) = Some start \<and> midnight w (vs_endDate q) = Some end \<and> start \<le> end
         \<and> (end - start) div DAY + 1 \<le> rl_maxPeriodDays limits \<and> int (length rows) \<le> rl_maxStudents limits
         \<and> cells = max 1 (int (length rows)) * ((end - start) div DAY + 13) \<and> cells \<le> rl_maxEstimatedCells limits"
    using v(7) se(1-3) unfolding bounds_Inr by (intro exI [of _ start] exI [of _ "end"]) (auto simp: add.commute)
  show ?thesis
  proof (cases "student_scope q")
    case True
    with v(1) have st: "scope_by_students q d = (sections, rows, [])" by simp
    have ids: "set (vr_studentIds r) = srow_studentId ` set rows" using True v(3) by simp
    note f = scope_by_students_rows [OF st]
    from f(3) have "\<forall>i \<in> set (vr_studentIds r). \<exists>e \<in> set (t_enrollments d). \<exists>s \<in> set (t_students d). en_studentId e = i \<and> st_id s = i
               \<and> en_schoolId e = vs_schoolId q \<and> st_schoolId s = vs_schoolId q \<and> en_status e = ''ACTIVE'' \<and> st_status s = ''ACTIVE''
               \<and> en_classSectionId e \<in> set sections" unfolding ids by blast
    with True f(1,2) v(4,6) size ids show ?thesis unfolding v(2,8,9) by simp
  next
    case False
    with v(1) have cl: "scope_by_classes q d = (sections, rows, [])" by simp
    note f = scope_by_classes_sections [OF cl]
    from no_duplicate_rolls(1) [OF v(5)] f(2) v(4)
    have "distinct (map (\<lambda>x. (srow_classSectionId x, srow_rollNumber x)) (scope_rows (vs_schoolId q) (\<lambda>e. en_classSectionId e \<in> set sections) d))"
      by simp
    moreover have "all_class_scope q \<or> set sections = set (unique_ids (vs_classSectionIds q))" using f(3) [OF assms(3)] by blast
    ultimately show ?thesis using False f(1) v(4,6) size unfolding v(2,8,9) by simp
  qed
qed

section \<open>What the queue guarantees\<close>

lemma positiveInteger_pos: "0 < fallback \<Longrightarrow> 0 < positiveInteger w v fallback"
proof -
  have "0 < \<lfloor>q\<rfloor>" if "q = of_int \<lfloor>q\<rfloor>" "0 < q" for q :: rat using that by (metis of_int_0_less_iff)
  then show "0 < fallback \<Longrightarrow> ?thesis" by (auto simp: positiveInteger_def simp del: zero_less_floor split: option.splits)
qed

lemma limits_pos: "0 < rl_maxConcurrent (getReportGenerationLimits w env)" "0 < rl_maxPending (getReportGenerationLimits w env)"
  by (simp_all add: getReportGenerationLimits_def positiveInteger_pos)

lemma start_jobs_facts:
  "start_jobs c r js = (started, r', waiting) \<Longrightarrow> js = started @ waiting \<and> r' = r + int (length started)
     \<and> (r \<le> c \<longrightarrow> r' \<le> c) \<and> (waiting = [] \<or> c \<le> r') \<and> (js = [] \<or> c \<le> r \<or> started \<noteq> [])"
  by (induction c r js arbitrary: started r' waiting rule: start_jobs.induct) (fastforce split: if_splits prod.splits)+

text \<open>
  Reports are submitted and end in any order; a run keeps the queue, the jobs started so far and the jobs
  accepted so far.
\<close>

datatype 'j queue_event = Submit 'j | JobEnds

fun queue_step :: "report_limits \<Rightarrow> 'j report_queue \<times> 'j list \<times> 'j list \<Rightarrow> 'j queue_event \<Rightarrow> 'j report_queue \<times> 'j list \<times> 'j list" where
  "queue_step limits (q, started, accepted) (Submit j) =
     (case enqueue limits j q of
        Inl _ \<Rightarrow> (q, started, accepted)
      | Inr (st, q1) \<Rightarrow> (q1, started @ st, accepted @ [j]))"
| "queue_step limits (q, started, accepted) JobEnds =
     (if rq_running q = 0 then (q, started, accepted)
      else (case queue_finished limits q of (st, q1) \<Rightarrow> (q1, started @ st, accepted)))"

definition queue_ok :: "report_limits \<Rightarrow> 'j report_queue \<times> 'j list \<times> 'j list \<Rightarrow> bool" where
  "queue_ok limits s = (case s of (q, started, accepted) \<Rightarrow>
     0 \<le> rq_running q \<and> rq_running q \<le> rl_maxConcurrent limits \<and> int (length (rq_waiting q)) \<le> rl_maxPending limits
     \<and> accepted = started @ rq_waiting q \<and> (rq_waiting q = [] \<or> rq_running q = rl_maxConcurrent limits))"

lemma drain_facts:
  assumes "drain limits q = (st, q1)" "rq_running q \<le> rl_maxConcurrent limits"
  shows "rq_waiting q = st @ rq_waiting q1 \<and> rq_running q1 = rq_running q + int (length st) \<and> rq_running q1 \<le> rl_maxConcurrent limits
    \<and> (rq_waiting q1 = [] \<or> rq_running q1 = rl_maxConcurrent limits)
    \<and> (rq_waiting q = [] \<or> rl_maxConcurrent limits \<le> rq_running q \<or> st \<noteq> [])"
  using assms start_jobs_facts [of "rl_maxConcurrent limits" "rq_running q" "rq_waiting q"]
  by (auto simp: drain_def split: prod.splits)

lemma queue_step_ok:
  assumes "0 < rl_maxConcurrent limits" "queue_ok limits s"
  shows "queue_ok limits (queue_step limits s e)"
proof -
  obtain q started accepted where s: "s = (q, started, accepted)" by (metis prod_cases3)
  show ?thesis
  proof (cases e)
    case (Submit j)
    show ?thesis
    proof (cases "enqueue limits j q")
      case (Inr p)
      obtain st q1 where p: "p = (st, q1)" by (cases p)
      from Inr have room: "\<not> (rl_maxConcurrent limits \<le> rq_running q \<and> rl_maxPending limits \<le> int (length (rq_waiting q)))"
        and d: "drain limits (q\<lparr>rq_waiting := rq_waiting q @ [j]\<rparr>) = (st, q1)" by (auto simp: enqueue_def p split: if_splits)
      from assms(2) have q: "0 \<le> rq_running q" "rq_running q \<le> rl_maxConcurrent limits" "int (length (rq_waiting q)) \<le> rl_maxPending limits"
        "accepted = started @ rq_waiting q" "rq_waiting q = [] \<or> rq_running q = rl_maxConcurrent limits" by (simp_all add: s queue_ok_def)
      from drain_facts [OF d] q(2) have f: "rq_waiting q @ [j] = st @ rq_waiting q1" "rq_running q1 = rq_running q + int (length st)"
        "rq_running q1 \<le> rl_maxConcurrent limits" "rq_waiting q1 = [] \<or> rq_running q1 = rl_maxConcurrent limits"
        "rl_maxConcurrent limits \<le> rq_running q \<or> st \<noteq> []" by auto
      from arg_cong [OF f(1), of length] have len: "length (rq_waiting q) + 1 = length st + length (rq_waiting q1)" by simp
      have "int (length (rq_waiting q1)) \<le> rl_maxPending limits"
      proof (cases "rl_maxConcurrent limits \<le> rq_running q")
        case True
        with room len show ?thesis by linarith
      next
        case False
        with f(5) have "st \<noteq> []" by simp
        then have "0 < length st" by simp
        with len q(3) show ?thesis by linarith
      qed
      with q f(1-4) show ?thesis by (simp add: s Submit Inr p queue_ok_def)
    qed (use assms(2) in \<open>simp add: s Submit\<close>)
  next
    case JobEnds
    show ?thesis
    proof (cases "rq_running q = 0")
      case False
      obtain st q1 where d: "queue_finished limits q = (st, q1)" by (metis surj_pair)
      with assms(2) drain_facts [of limits "q\<lparr>rq_running := rq_running q - 1\<rparr>" st q1] False show ?thesis
        by (auto simp: s JobEnds queue_ok_def queue_finished_def)
    qed (use assms(2) in \<open>simp add: s JobEnds\<close>)
  qed
qed

interpretation generation_queue: guarded_machine "queue_step limits" "\<lambda>s. 0 < rl_maxConcurrent limits \<and> queue_ok limits s" for limits
  using queue_step_ok by unfold_locales blast

lemma job_end_starts_next:
  assumes "0 < rl_maxConcurrent limits" "queue_ok limits (q, started, accepted)" "rq_waiting q \<noteq> []"
  shows "\<exists>q1 st. queue_step limits (q, started, accepted) JobEnds = (q1, started @ st, accepted) \<and> rq_waiting q = st @ rq_waiting q1 \<and> st \<noteq> []"
proof -
  obtain st q1 where d: "queue_finished limits q = (st, q1)" by (metis surj_pair)
  from assms have "rq_running q = rl_maxConcurrent limits" by (simp add: queue_ok_def)
  with assms d drain_facts [of limits "q\<lparr>rq_running := rq_running q - 1\<rparr>" st q1] show ?thesis
    by (auto simp: queue_finished_def)
qed

lemma job_ends_start_all:
  assumes "0 < rl_maxConcurrent limits" "queue_ok limits (q, started, accepted)" "length (rq_waiting q) \<le> n"
  shows "fst (snd (foldl (queue_step limits) (q, started, accepted) (replicate n JobEnds))) = accepted
    \<and> snd (snd (foldl (queue_step limits) (q, started, accepted) (replicate n JobEnds))) = accepted"
  using assms(2,3)
proof (induction n arbitrary: q started)
  case 0
  then show ?case by (simp add: queue_ok_def)
next
  case (Suc n)
  obtain q1 started1 where s: "queue_step limits (q, started, accepted) JobEnds = (q1, started1, accepted)"
    by (cases "rq_running q = 0"; cases "queue_finished limits q") auto
  from queue_step_ok [OF assms(1) Suc.prems(1), of JobEnds] s have "queue_ok limits (q1, started1, accepted)" by simp
  moreover have "length (rq_waiting q1) \<le> n"
  proof (cases "rq_waiting q = []")
    case True
    from calculation Suc.prems(1) True have "started1 @ rq_waiting q1 = started" by (simp add: queue_ok_def)
    moreover have "length started \<le> length started1" using s by (auto split: if_splits prod.splits)
    ultimately show ?thesis by (metis add_cancel_right_right le_antisym le_zero_eq length_append linorder_le_cases trans_le_add1)
  next
    case False
    from job_end_starts_next [OF assms(1) Suc.prems(1) False] s obtain st where "rq_waiting q = st @ rq_waiting q1" "st \<noteq> []" by auto
    then have "length (rq_waiting q1) < length (rq_waiting q)" by (cases st) auto
    with Suc.prems(2) show ?thesis by simp
  qed
  ultimately show ?case using Suc.IH by (simp add: s del: queue_step.simps)
qed

definition queue_run :: "report_limits \<Rightarrow> 'j queue_event list \<Rightarrow> 'j report_queue \<times> 'j list \<times> 'j list" where
  "queue_run limits events = foldl (queue_step limits) (\<lparr>rq_running = 0, rq_waiting = []\<rparr>, [], []) events"

text \<open>
  C23: No accepted report is forgotten.  Whatever sequence of submissions and of jobs that end the queue has seen, no
  more jobs run or wait than the configuration allows, jobs start in the order in which they were accepted, a job
  waits only while all places are taken, a submission is refused only when the running and the waiting places are
  full, and as soon as as many jobs have ended as are waiting, every accepted job has been started.
\<close>

theorem accepted_reports_are_started:
  fixes events :: "'j queue_event list"
  shows "let limits = getReportGenerationLimits w env; run = queue_run limits in
    case run events of (q, started, accepted) \<Rightarrow>
      rq_running q \<le> rl_maxConcurrent limits \<and> int (length (rq_waiting q)) \<le> rl_maxPending limits
    \<and> accepted = started @ rq_waiting q
    \<and> (rq_waiting q = [] \<or> rq_running q = rl_maxConcurrent limits)
    \<and> (case enqueue limits j q of
         Inl e \<Rightarrow> rq_running q = rl_maxConcurrent limits \<and> int (length (rq_waiting q)) = rl_maxPending limits
       | Inr _ \<Rightarrow> snd (snd (run (events @ [Submit j]))) = accepted @ [j])
    \<and> fst (snd (run (events @ replicate (length (rq_waiting q)) JobEnds))) = accepted"
proof -
  define limits where "limits = getReportGenerationLimits w env"
  define run :: "'j queue_event list \<Rightarrow> 'j report_queue \<times> 'j list \<times> 'j list" where "run = queue_run limits"
  obtain q started accepted where r: "run events = (q, started, accepted)" by (metis prod_cases3)
  have pos: "0 < rl_maxConcurrent limits" "0 < rl_maxPending limits" unfolding limits_def by (rule limits_pos)+
  have "queue_ok limits (\<lparr>rq_running = 0, rq_waiting = []\<rparr>, [], [])" using pos by (simp add: queue_ok_def)
  with generation_queue.run_inv [of limits _ events] pos(1) have ok: "queue_ok limits (q, started, accepted)"
    unfolding r [unfolded run_def queue_run_def, symmetric] by blast
  have more: "run (events @ es) = foldl (queue_step limits) (q, started, accepted) es" for es
    using r by (simp add: run_def queue_run_def)
  from ok have q: "rq_running q \<le> rl_maxConcurrent limits" "int (length (rq_waiting q)) \<le> rl_maxPending limits"
    "accepted = started @ rq_waiting q" "rq_waiting q = [] \<or> rq_running q = rl_maxConcurrent limits" by (simp_all add: queue_ok_def)
  moreover have "case enqueue limits j q of
         Inl e \<Rightarrow> rq_running q = rl_maxConcurrent limits \<and> int (length (rq_waiting q)) = rl_maxPending limits
       | Inr _ \<Rightarrow> snd (snd (run (events @ [Submit j]))) = accepted @ [j]"
    using q(1,2) by (auto simp: more split: sum.splits) (auto simp: enqueue_def split: if_splits)
  moreover have "fst (snd (run (events @ replicate (length (rq_waiting q)) JobEnds))) = accepted"
    by (simp add: more job_ends_start_all [OF pos(1) ok order_refl])
  ultimately show ?thesis unfolding Let_def limits_def [symmetric] run_def [symmetric] r prod.case by blast
qed

section \<open>Examples\<close>

definition report_limits_default :: report_limits where
  "report_limits_default = \<lparr>rl_maxConcurrent = 1, rl_maxPending = 8, rl_maxEstimatedCells = 750000, rl_maxPeriodDays = 370, rl_maxStudents = 5000\<rparr>"

definition report_school :: uuid where "report_school = ''aaaaaaaa-aaaa-4aaa-8aaa-aaaaaaaaaaaa''"

definition report_pupil :: "uuid \<Rightarrow> student" where
  "report_pupil i = \<lparr>st_id = i, st_schoolId = report_school, st_studentCode = utext i, st_banglarShikshaId = None, st_name = utext i,
     st_nameBn = None, st_dateOfBirth = None, st_gender = None, st_photoUrl = None, st_status = ''ACTIVE''\<rparr>"

definition report_enrolment :: "uuid \<Rightarrow> int \<Rightarrow> enrollment" where
  "report_enrolment i n = \<lparr>en_id = i @ ''-e'', en_schoolId = report_school, en_studentId = i, en_classSectionId = ''section'',
     en_academicYearId = ''year'', en_rollNumber = n, en_startDate = ''2025-01-01'', en_status = ''ACTIVE''\<rparr>"

definition report_db :: db where
  "report_db = empty_db\<lparr>
     t_schools := [\<lparr>sc_id = report_school, sc_name = [], sc_slug = [], sc_udiseCode = [], sc_district = [], sc_block = None,
       sc_preferredLanguage = ''en'', sc_timezone = ''Asia/Kolkata'', sc_rfidMode = ''OFF'', sc_status = ''ACTIVE''\<rparr>],
     t_classSections := [\<lparr>cs_id = ''section'', cs_schoolId = report_school, cs_academicYearId = ''year'', cs_className = [], cs_sectionName = []\<rparr>],
     t_students := [report_pupil ''p1'', report_pupil ''p2''],
     t_enrollments := [report_enrolment ''p1'' 1, report_enrolment ''p2'' 2]\<rparr>"

definition report_scope_request :: scope_request where
  "report_scope_request = \<lparr>vs_schoolId = report_school, vs_scopeType = ''SELECTED_CLASSES'', vs_classSectionIds = Some [''section'', ''section''],
     vs_studentIds = None, vs_allowedClassSectionIds = Some [''section'', ''other''], vs_startDate = ''2025-01-04'', vs_endDate = ''2025-01-07''\<rparr>"

lemma report_scope_view:
  "case validateReportScope calendar_world report_limits_default report_scope_request report_db of Inl _ \<Rightarrow> False
   | Inr r \<Rightarrow> isValid r \<and> vm_workingDays (vr_summary r) = 3 \<and> map fst (vr_warnings r)
       = [''MISSING_UDISE_CODE'', ''MISSING_BANGLAR_SHIKSHA_ID'', ''MISSING_BENGALI_NAME'', ''MISSING_APPROVED_CALENDAR'', ''NO_ATTENDANCE_SESSIONS'']"
  by code_simp

theorem valid_report_stays_in_scope_witness:
  "\<exists>r. validateReportScope calendar_world report_limits_default report_scope_request report_db = Inr r \<and> isValid r
     \<and> set (vr_classSectionIds r) = {''section''}"
proof -
  from report_scope_view obtain r where r: "validateReportScope calendar_world report_limits_default report_scope_request report_db = Inr r" "isValid r"
    by (auto split: sum.splits)
  have "distinct (map cs_id (t_classSections report_db))" by code_simp
  from valid_report_stays_in_scope [OF r this] r show ?thesis
    by (auto simp: report_scope_request_def student_scope_def all_class_scope_def unique_ids_def the_or_def)
qed

end
