(* ===== verification/Reports.thy ===== *)
theory Reports
  imports Report_Scope Access
begin

text \<open>
  Models the life of an official report: src/src/services/reportProfileService.ts, reportArtifactService.ts,
  reportApprovalService.ts and the handlers of src/src/routes/governmentReportRoutes.ts.  A report is drafted,
  its file is built and stored, then it is reviewed, approved and superseded by the next version.  The file
  builder (workbooks, CSV, HTML) is a parameter, as are the decoding of UTF-8 and the schemas of profiles.
  The files live in the database or in a directory that others can write to; UUIDs have no separators, so a
  storage key stays below its root.
\<close>

section \<open>Profiles\<close>

record report_profile =
  pf_id :: uuid
  pf_schoolId :: "uuid option"
  pf_profileName :: string
  pf_version :: string
  pf_isDefault :: bool
  pf_configuration :: json
  pf_updatedAt :: instant

record profile_snapshot =
  ps_id :: uuid
  ps_profileName :: string
  ps_version :: string

definition FALLBACK_REPORTING_PROFILE :: profile_snapshot where
  "FALLBACK_REPORTING_PROFILE = \<lparr>ps_id = ''00000000-0000-4000-8000-000000000070'',
     ps_profileName = ''West Bengal School Management Register'', ps_version = ''2.0.0''\<rparr>"

text \<open>\<open>config_ok\<close>: the schema accepts the configuration.\<close>

definition toSnapshot :: "(json \<Rightarrow> bool) \<Rightarrow> report_profile \<Rightarrow> profile_snapshot result" where
  "toSnapshot config_ok p =
     (if config_ok (pf_configuration p) then Inr \<lparr>ps_id = pf_id p, ps_profileName = pf_profileName p, ps_version = pf_version p\<rparr>
      else Inl (JsErr ''ZodError''))"

definition latest_profile :: "(report_profile \<Rightarrow> bool) \<Rightarrow> report_profile list \<Rightarrow> report_profile option" where
  "latest_profile wanted ps = sel1 (\<lambda>p. True) (sort_key (\<lambda>p. - pf_updatedAt p) (filter wanted ps))"

definition resolveReportingProfile ::
  "(json \<Rightarrow> bool) \<Rightarrow> report_profile list \<Rightarrow> uuid \<Rightarrow> uuid option \<Rightarrow> profile_snapshot result" where
  "resolveReportingProfile config_ok profiles schoolId requested =
     (if truthy requested then
        (case sel1 (\<lambda>p. Some (pf_id p) = requested \<and> (pf_schoolId p = Some schoolId \<or> pf_schoolId p = None)) profiles of
           None \<Rightarrow> Inl (JsErr ''REPORT_PROFILE_NOT_FOUND_OR_FORBIDDEN'')
         | Some p \<Rightarrow> toSnapshot config_ok p)
      else case latest_profile (\<lambda>p. pf_schoolId p = Some schoolId \<and> pf_isDefault p) profiles of
        Some p \<Rightarrow> toSnapshot config_ok p
      | None \<Rightarrow>
          (case latest_profile (\<lambda>p. pf_schoolId p = None \<and> pf_isDefault p) profiles of
             Some p \<Rightarrow> toSnapshot config_ok p
           | None \<Rightarrow> Inr FALLBACK_REPORTING_PROFILE))"

section \<open>Files\<close>

record generated_file =
  gf_format :: string
  gf_contentType :: string
  gf_filename :: string
  gf_content :: string

record report_artifact =
  at_id :: uuid
  at_schoolId :: uuid
  at_reportId :: uuid
  at_file :: generated_file
  at_byteSize :: nat
  at_sha256 :: string
  at_storageBackend :: string
  at_storageKey :: "string option"
  at_content :: "string option"
  at_createdAt :: instant

text \<open>What a request asks for, and the job it hands to the queue.\<close>

record report_request =
  rr_reportType :: string
  rr_format :: string
  rr_scopeType :: string
  rr_classSectionIds :: "uuid list option"
  rr_studentIds :: "uuid list option"
  rr_periodType :: string
  rr_startDate :: string
  rr_endDate :: string
  rr_profileId :: "uuid option"

record report_job =
  rj_schoolId :: uuid
  rj_userId :: uuid
  rj_request :: report_request
  rj_profile :: profile_snapshot
  rj_validation :: validation_result

record report_state =
  rs_db :: db
  rs_artifacts :: "report_artifact list"
  rs_files :: "(string \<times> string) list"
  rs_queue :: "report_job report_queue"

text \<open>The configuration and the runtime the handlers use.\<close>

record report_runtime =
  rt_world :: world
  rt_env :: report_env
  rt_decode :: "string \<Rightarrow> ustring"
  rt_uuid :: "string \<Rightarrow> bool"
  rt_config_ok :: "json \<Rightarrow> bool"
  rt_profiles :: "report_profile list"
  rt_build :: "report_approval \<Rightarrow> validation_result \<Rightarrow> string \<Rightarrow> generated_file result"

definition artifact_uuid :: "string \<Rightarrow> bool" where
  "artifact_uuid s \<longleftrightarrow> isUuid s \<and> s ! 14 \<in> set ''12345'' \<and> s ! 19 \<in> set ''89abAB''"

text \<open>Extension and content type of a format.\<close>

definition REPORT_FORMAT_CONTRACT :: "string \<Rightarrow> (string \<times> string) option" where
  "REPORT_FORMAT_CONTRACT format =
     map_of [(''xlsx'', (''.xlsx'', ''application/vnd.openxmlformats-officedocument.spreadsheetml.sheet'')),
             (''csv'', (''.csv'', ''text/csv; charset=utf-8'')), (''html'', (''.html'', ''text/html; charset=utf-8''))] format"

definition getReportArtifactMaxBytes :: "report_runtime \<Rightarrow> int" where
  "getReportArtifactMaxBytes rt = positiveInteger (rt_world rt) (re_maxBytes (rt_env rt)) 52428800"

definition getStorageBackend :: "report_env \<Rightarrow> string result" where
  "getStorageBackend env =
     (let configured = to_lower (the (js_or (re_storage env) (Some ''database'')))
      in if configured \<noteq> ''database'' \<and> configured \<noteq> ''filesystem'' then Inl (JsErr ''REPORT_ARTIFACT_STORAGE_INVALID'') else Inr configured)"

definition looksLikeXlsx :: "string \<Rightarrow> bool" where
  "looksLikeXlsx content \<longleftrightarrow> 4 \<le> length content \<and> take 2 content = ''PK''"

definition text_starts :: "string \<Rightarrow> ustring \<Rightarrow> bool" where
  "text_starts p s \<longleftrightarrow> take (length p) s = utext p"

definition looksLikeHtml :: "report_runtime \<Rightarrow> string \<Rightarrow> bool" where
  "looksLikeHtml rt content \<longleftrightarrow>
     (let prefix = unicode_lower (rt_world rt) (dropWhile u_space (rt_decode rt (take 512 content)))
      in text_starts ''<!doctype html'' prefix \<or> text_starts ''<html'' prefix)"

definition looksLikeCsv :: "report_runtime \<Rightarrow> string \<Rightarrow> bool" where
  "looksLikeCsv rt content \<longleftrightarrow> content \<noteq> [] \<and> \<not> looksLikeXlsx content \<and> \<not> looksLikeHtml rt content
     \<and> (let prefix = rt_decode rt (take 4096 content) in 44 \<in> set prefix \<and> (10 \<in> set prefix \<or> 13 \<in> set prefix))"

definition name_ends :: "string \<Rightarrow> string \<Rightarrow> bool" where
  "name_ends p s \<longleftrightarrow> drop (length s - length p) s = p"

definition assertReportArtifactContract :: "report_runtime \<Rightarrow> generated_file \<Rightarrow> unit result" where
  "assertReportArtifactContract rt f =
     (case REPORT_FORMAT_CONTRACT (gf_format f) of
        None \<Rightarrow> Inl (JsErr ''REPORT_FORMAT_UNSUPPORTED'')
      | Some (extension, contentType) \<Rightarrow>
          if gf_contentType f \<noteq> contentType then Inl (JsErr ''REPORT_MIME_MISMATCH'')
          else if \<not> name_ends extension (to_lower (gf_filename f)) then Inl (JsErr ''REPORT_EXTENSION_MISMATCH'')
          else if CHR ''/'' \<in> set (gf_filename f) \<or> CHR 0x5C \<in> set (gf_filename f) \<or> js_includes (gf_filename f) ''..''
          then Inl (JsErr ''REPORT_FILENAME_UNSAFE'')
          else if gf_content f = [] then Inl (JsErr ''REPORT_ARTIFACT_EMPTY'')
          else throw_if (\<not> (if gf_format f = ''xlsx'' then looksLikeXlsx (gf_content f)
                            else if gf_format f = ''html'' then looksLikeHtml rt (gf_content f) else looksLikeCsv rt (gf_content f)))
                 (JsErr ''REPORT_BYTES_FORMAT_MISMATCH''))"

definition storage_key :: "uuid \<Rightarrow> uuid \<Rightarrow> string \<Rightarrow> string" where
  "storage_key schoolId reportId format = schoolId @ ''/'' @ reportId @ ''/artifact.'' @ format"

definition insert_artifact :: "report_artifact \<Rightarrow> report_artifact list \<Rightarrow> report_artifact list option" where
  "insert_artifact a t = (if \<exists>x \<in> set t. at_reportId x = at_reportId a then None else Some (t @ [a]))"

interpretation artifact_index: unique_index "\<lambda>a b. at_reportId a = at_reportId b" insert_artifact
  by unfold_locales (auto simp: insert_artifact_def)

text \<open>A file that was written is removed again when the row is refused.\<close>

definition persistReportArtifact ::
  "report_runtime \<Rightarrow> instant \<Rightarrow> uuid \<Rightarrow> uuid \<Rightarrow> generated_file \<Rightarrow> report_state \<Rightarrow> report_state \<times> report_artifact result" where
  "persistReportArtifact rt now schoolId reportId f s =
     (if \<not> artifact_uuid schoolId then (s, Inl (JsErr ''REPORT_SCHOOL_ID_INVALID''))
      else if \<not> artifact_uuid reportId then (s, Inl (JsErr ''REPORT_ID_INVALID''))
      else case assertReportArtifactContract rt f of
        Inl e \<Rightarrow> (s, Inl e)
      | Inr _ \<Rightarrow>
          if getReportArtifactMaxBytes rt < int (length (gf_content f)) then (s, Inl (JsErr ''REPORT_ARTIFACT_SIZE_LIMIT_EXCEEDED''))
          else case getStorageBackend (rt_env rt) of
            Inl e \<Rightarrow> (s, Inl e)
          | Inr backend \<Rightarrow>
              let w = rt_world rt; d = rs_db s; key = storage_key schoolId reportId (gf_format f);
                  file = backend = ''filesystem'';
                  a = \<lparr>at_id = gen_uuid w (seq d), at_schoolId = schoolId, at_reportId = reportId, at_file = f,
                       at_byteSize = length (gf_content f), at_sha256 = sha256 w (gf_content f), at_storageBackend = backend,
                       at_storageKey = (if file then Some key else None), at_content = (if file then None else Some (gf_content f)),
                       at_createdAt = now\<rparr>
              in (case insert_artifact a (rs_artifacts s) of
                    None \<Rightarrow> (s\<lparr>rs_files := (if file then AList.delete key (rs_files s) else rs_files s)\<rparr>,
                             Inl (DbErr ''report_artifacts_report_id_key''))
                  | Some t \<Rightarrow> (s\<lparr>rs_db := d\<lparr>seq := Suc (seq d)\<rparr>, rs_artifacts := t,
                                rs_files := (if file then AList.update key (gf_content f) (rs_files s) else rs_files s)\<rparr>, Inr a)))"

text \<open>The stored content replaces the one of the row; it must still be what was stored.\<close>

definition loadReportArtifact :: "report_runtime \<Rightarrow> uuid \<Rightarrow> uuid \<Rightarrow> report_state \<Rightarrow> report_artifact option result" where
  "loadReportArtifact rt schoolId reportId s =
     (if \<not> artifact_uuid schoolId then Inl (JsErr ''REPORT_SCHOOL_ID_INVALID'')
      else if \<not> artifact_uuid reportId then Inl (JsErr ''REPORT_ID_INVALID'')
      else case sel1 (\<lambda>a. at_schoolId a = schoolId \<and> at_reportId a = reportId) (rs_artifacts s) of
        None \<Rightarrow> Inr None
      | Some row \<Rightarrow>
          (case (if at_storageBackend row = ''database'' then at_content row
                 else map_of (rs_files s) (the_or [] (at_storageKey row))) of
             None \<Rightarrow> Inl (JsErr ''ENOENT'')
           | Some content \<Rightarrow>
               let f = (at_file row)\<lparr>gf_content := content\<rparr>
               in bind_result (assertReportArtifactContract rt f) (\<lambda>_.
                  bind_result (throw_if (length content \<noteq> at_byteSize row) (JsErr ''REPORT_ARTIFACT_SIZE_MISMATCH'')) (\<lambda>_.
                  bind_result (throw_if (sha256 (rt_world rt) content \<noteq> at_sha256 row) (JsErr ''REPORT_ARTIFACT_HASH_MISMATCH'')) (\<lambda>_.
                  Inr (Some (row\<lparr>at_file := f\<rparr>)))))))"

section \<open>Drafts and approvals\<close>

record draft_params =
  dp_schoolId :: uuid
  dp_reportType :: string
  dp_scopeType :: string
  dp_periodType :: string
  dp_startDate :: string
  dp_endDate :: string
  dp_actorId :: uuid

definition same_period :: "uuid \<Rightarrow> string \<Rightarrow> string \<Rightarrow> string \<Rightarrow> report_approval \<Rightarrow> bool" where
  "same_period schoolId reportType startDate endDate r \<longleftrightarrow> ra_schoolId r = schoolId \<and> ra_reportType r = reportType
     \<and> ra_periodStartDate r = startDate \<and> ra_periodEndDate r = endDate"

definition latest_report_version :: "draft_params \<Rightarrow> db \<Rightarrow> int" where
  "latest_report_version p d =
     foldr max (map ra_reportVersion
       (filter (same_period (dp_schoolId p) (dp_reportType p) (dp_startDate p) (dp_endDate p)) (t_reports d))) 0"

definition createReportDraft ::
  "world \<Rightarrow> instant \<Rightarrow> draft_params \<Rightarrow> profile_snapshot \<Rightarrow> validation_result \<Rightarrow> db \<Rightarrow> (report_approval \<times> db) result" where
  "createReportDraft w now p profile validation d =
     (if \<not> isValid validation then Inl (JsErr ''REPORT_VALIDATION_BLOCKED'')
      else if \<not> pg_date (dp_startDate p) \<or> \<not> pg_date (dp_endDate p) \<or> dp_endDate p < dp_startDate p
      then Inl (DbErr ''report_approvals_date_range_ck'')
      else
        let r = \<lparr>ra_id = gen_uuid w (seq d), ra_schoolId = dp_schoolId p, ra_reportType = dp_reportType p,
                 ra_scopeType = dp_scopeType p, ra_scopeSections = vr_classSectionIds validation,
                 ra_scopeStudents = vr_studentIds validation, ra_periodType = dp_periodType p,
                 ra_periodStartDate = dp_startDate p, ra_periodEndDate = dp_endDate p, ra_profileId = ps_id profile,
                 ra_profileVersion = ps_version profile, ra_reportVersion = latest_report_version p d + 1,
                 ra_status = ''VALIDATED'', ra_fileHashSha256 = None, ra_artifactId = None, ra_generatedBy = Some (dp_actorId p),
                 ra_generatedAt = now, ra_approvedBy = None, ra_approvedAt = None, ra_downloadCount = 0,
                 ra_supersededAt = None, ra_supersededBy = None\<rparr>
        in Inr (r, createAuditLog (dp_schoolId p) (dp_actorId p) ''REPORT_DRAFT_CREATED'' ''REPORT'' (ra_id r) JNull
             (d\<lparr>t_reports := t_reports d @ [r], seq := Suc (seq d)\<rparr>)))"

definition find_report :: "uuid \<Rightarrow> uuid \<Rightarrow> db \<Rightarrow> report_approval option" where
  "find_report schoolId reportId d = sel1 (\<lambda>r. ra_id r = reportId \<and> ra_schoolId r = schoolId) (t_reports d)"

definition set_report :: "uuid \<Rightarrow> uuid \<Rightarrow> (report_approval \<Rightarrow> report_approval) \<Rightarrow> db \<Rightarrow> db" where
  "set_report schoolId reportId f d = d\<lparr>t_reports := upd (\<lambda>r. ra_id r = reportId \<and> ra_schoolId r = schoolId) f (t_reports d)\<rparr>"

definition recordReportArtifact :: "uuid \<Rightarrow> uuid \<Rightarrow> report_artifact \<Rightarrow> uuid \<Rightarrow> db \<Rightarrow> db result" where
  "recordReportArtifact schoolId reportId a actorId d =
     (case find_report schoolId reportId d of
        None \<Rightarrow> Inl (JsErr ''REPORT_NOT_FOUND'')
      | Some current \<Rightarrow>
          if truthy (ra_fileHashSha256 current) then Inl (JsErr ''REPORT_ARTIFACT_ALREADY_ATTACHED'')
          else if ra_status current \<noteq> ''VALIDATED'' then Inl (JsErr ''REPORT_ARTIFACT_TRANSITION_INVALID'')
          else Inr (createAuditLog schoolId actorId ''REPORT_ARTIFACT_CREATED'' ''REPORT'' reportId JNull
                 (set_report schoolId reportId (\<lambda>r. r\<lparr>ra_fileHashSha256 := Some (at_sha256 a), ra_status := ''READY_FOR_REVIEW'',
                    ra_artifactId := Some (at_id a)\<rparr>) d)))"

definition supersede_reports :: "instant \<Rightarrow> uuid \<Rightarrow> report_approval \<Rightarrow> report_approval list \<Rightarrow> report_approval list" where
  "supersede_reports now actorId current =
     upd (\<lambda>r. same_period (ra_schoolId current) (ra_reportType current) (ra_periodStartDate current) (ra_periodEndDate current) r
            \<and> ra_status r = ''APPROVED_INTERNALLY'')
       (\<lambda>r. r\<lparr>ra_status := ''SUPERSEDED'', ra_supersededAt := Some now, ra_supersededBy := Some actorId\<rparr>)"

definition approve_report :: "instant \<Rightarrow> uuid \<Rightarrow> uuid \<Rightarrow> uuid \<Rightarrow> report_approval list \<Rightarrow> report_approval list" where
  "approve_report now actorId schoolId reportId =
     upd (\<lambda>r. ra_id r = reportId \<and> ra_schoolId r = schoolId \<and> ra_status r = ''READY_FOR_REVIEW'')
       (\<lambda>r. r\<lparr>ra_status := ''APPROVED_INTERNALLY'', ra_approvedBy := Some actorId, ra_approvedAt := Some now\<rparr>)"

definition approveReportInternally :: "instant \<Rightarrow> uuid \<Rightarrow> uuid \<Rightarrow> uuid \<Rightarrow> string \<Rightarrow> db \<Rightarrow> db result" where
  "approveReportInternally now schoolId reportId actorId userRole d =
     (if userRole \<notin> {''SUPER_ADMIN'', ''SCHOOL_ADMIN''} then Inl (JsErr ''REPORT_APPROVAL_FORBIDDEN'')
      else case find_report schoolId reportId d of
        None \<Rightarrow> Inl (JsErr ''REPORT_NOT_FOUND'')
      | Some current \<Rightarrow>
          let audit = createAuditLog schoolId actorId ''REPORT_APPROVED_INTERNALLY'' ''REPORT'' reportId JNull
          in if ra_status current = ''APPROVED_INTERNALLY'' then Inr (audit d)
             else if ra_status current \<noteq> ''READY_FOR_REVIEW'' \<or> \<not> truthy (ra_fileHashSha256 current)
             then Inl (JsErr ''REPORT_APPROVAL_TRANSITION_INVALID'')
             else Inr (audit (d\<lparr>t_reports := approve_report now actorId schoolId reportId
                                (supersede_reports now actorId current (t_reports d))\<rparr>)))"

definition recordReportDownload :: "uuid \<Rightarrow> uuid \<Rightarrow> string \<Rightarrow> uuid \<Rightarrow> db \<Rightarrow> db result" where
  "recordReportDownload schoolId reportId artifactHash actorId d =
     (case find_report schoolId reportId d of
        None \<Rightarrow> Inl (JsErr ''REPORT_NOT_FOUND'')
      | Some current \<Rightarrow>
          if \<not> truthy (ra_fileHashSha256 current) \<or> ra_fileHashSha256 current \<noteq> Some artifactHash
          then Inl (JsErr ''REPORT_ARTIFACT_HASH_MISMATCH'')
          else Inr (createAuditLog schoolId actorId ''REPORT_DOWNLOADED'' ''REPORT'' reportId JNull
                 (set_report schoolId reportId (\<lambda>r. r\<lparr>ra_downloadCount := ra_downloadCount r + 1\<rparr>) d)))"

section \<open>The routes\<close>

definition roleFor :: "session_context \<Rightarrow> string option \<Rightarrow> string" where
  "roleFor c userRole =
     (if cx_platformRole c = Some ''SUPER_ADMIN'' \<or> su_platformRole (cx_user c) = Some ''SUPER_ADMIN'' then ''SUPER_ADMIN''
      else the_or [] (js_or userRole (map_option am_role (cx_activeMembership c))))"

definition report_types :: "string list" where
  "report_types = [''monthly-register'', ''daily-register'', ''daily-school'', ''academic-year'', ''custom-range'', ''absentee'',
     ''consecutive-absence'', ''corrections'', ''missing-data'', ''complete-package'']"

definition report_scopes :: "string list" where
  "report_scopes = [''WHOLE_SCHOOL'', ''ALL_CLASSES'', ''SELECTED_CLASSES'', ''SELECTED_SECTION'', ''SELECTED_STUDENTS'', ''ONE_STUDENT'']"

definition uuids_at_most :: "report_runtime \<Rightarrow> nat \<Rightarrow> uuid list option \<Rightarrow> bool" where
  "uuids_at_most rt n v \<longleftrightarrow> length (the_or [] v) \<le> n \<and> list_all (rt_uuid rt) (the_or [] v)"

definition valid_report_request :: "report_runtime \<Rightarrow> report_request \<Rightarrow> bool" where
  "valid_report_request rt q \<longleftrightarrow>
     (let t = rr_scopeType q; classes = length (the_or [] (rr_classSectionIds q)); students = length (the_or [] (rr_studentIds q))
      in rr_reportType q \<in> set report_types \<and> rr_format q \<in> {''xlsx'', ''csv'', ''html''} \<and> t \<in> set report_scopes
         \<and> uuids_at_most rt 500 (rr_classSectionIds q) \<and> uuids_at_most rt 5000 (rr_studentIds q)
         \<and> 1 \<le> length (rr_periodType q) \<and> length (rr_periodType q) \<le> 50 \<and> date_shape (rr_startDate q) \<and> date_shape (rr_endDate q)
         \<and> (case rr_profileId q of None \<Rightarrow> True | Some i \<Rightarrow> rt_uuid rt i) \<and> rr_startDate q \<le> rr_endDate q
         \<and> (t = ''SELECTED_SECTION'' \<longrightarrow> classes = 1) \<and> (t = ''SELECTED_CLASSES'' \<longrightarrow> 0 < classes)
         \<and> (t = ''ONE_STUDENT'' \<longrightarrow> students = 1) \<and> (t = ''SELECTED_STUDENTS'' \<longrightarrow> 0 < students))"

definition assignedSections :: "string \<Rightarrow> uuid \<Rightarrow> uuid \<Rightarrow> db \<Rightarrow> uuid list option" where
  "assignedSections role userId schoolId d =
     (if role \<noteq> ''TEACHER'' then None
      else Some (map ta_classSectionId (filter (\<lambda>t. ta_schoolId t = schoolId \<and> ta_teacherId t = userId) (t_teacherAssignments d))))"

definition assertRead :: "string \<Rightarrow> uuid \<Rightarrow> report_approval \<Rightarrow> db \<Rightarrow> unit result" where
  "assertRead role userId report d =
     (case assignedSections role userId (ra_schoolId report) d of
        None \<Rightarrow> Inr ()
      | Some allowed \<Rightarrow> throw_if (ra_scopeSections report = [] \<or> (\<exists>i \<in> set (ra_scopeSections report). i \<notin> set allowed))
          (JsErr ''REPORT_READ_FORBIDDEN''))"

text \<open>
  A handler catches an error and answers it, and the transaction of the request is committed; only a statement
  the database refused leaves nothing to commit.
\<close>

definition settle :: "report_state \<Rightarrow> report_state \<times> 'a result \<Rightarrow> report_state \<times> 'a result" where
  "settle s p = (case p of
      (s1, Inl (DbErr e)) \<Rightarrow> (s1\<lparr>rs_db := rs_db s, rs_artifacts := rs_artifacts s\<rparr>, Inl (DbErr e))
    | _ \<Rightarrow> p)"

definition scope_request_of :: "string \<Rightarrow> uuid \<Rightarrow> uuid \<Rightarrow> report_request \<Rightarrow> db \<Rightarrow> scope_request" where
  "scope_request_of role userId schoolId q d =
     \<lparr>vs_schoolId = schoolId, vs_scopeType = rr_scopeType q, vs_classSectionIds = rr_classSectionIds q, vs_studentIds = rr_studentIds q,
      vs_allowedClassSectionIds = assignedSections role userId schoolId d, vs_startDate = rr_startDate q, vs_endDate = rr_endDate q\<rparr>"

definition draft_params_of :: "uuid \<Rightarrow> uuid \<Rightarrow> report_request \<Rightarrow> draft_params" where
  "draft_params_of schoolId userId q =
     \<lparr>dp_schoolId = schoolId, dp_reportType = rr_reportType q, dp_scopeType = rr_scopeType q, dp_periodType = rr_periodType q,
      dp_startDate = rr_startDate q, dp_endDate = rr_endDate q, dp_actorId = userId\<rparr>"

record generated_report =
  ga_reportId :: uuid
  ga_reportVersion :: int
  ga_sha256 :: string

text \<open>The job the queue runs: draft, file, artifact, hash.\<close>

definition generate_job ::
  "report_runtime \<Rightarrow> instant \<Rightarrow> uuid \<Rightarrow> uuid \<Rightarrow> report_request \<Rightarrow> profile_snapshot \<Rightarrow> validation_result \<Rightarrow> report_state
     \<Rightarrow> report_state \<times> generated_report result" where
  "generate_job rt now schoolId userId q profile validation s =
     (case createReportDraft (rt_world rt) now (draft_params_of schoolId userId q) profile validation (rs_db s) of
        Inl e \<Rightarrow> (s, Inl e)
      | Inr (report, d1) \<Rightarrow>
          let s1 = s\<lparr>rs_db := d1\<rparr> in
          (case rt_build rt report validation (rr_format q) of
             Inl e \<Rightarrow> (s1, Inl e)
           | Inr f \<Rightarrow>
               (case persistReportArtifact rt now schoolId (ra_id report) f s1 of
                  (s2, Inl e) \<Rightarrow> (s2, Inl e)
                | (s2, Inr a) \<Rightarrow>
                    (case recordReportArtifact schoolId (ra_id report) a userId (rs_db s2) of
                       Inl e \<Rightarrow> (s2, Inl e)
                     | Inr d3 \<Rightarrow> (s2\<lparr>rs_db := d3\<rparr>,
                         Inr \<lparr>ga_reportId = ra_id report, ga_reportVersion = ra_reportVersion report, ga_sha256 = at_sha256 a\<rparr>)))))"

definition run_job :: "report_runtime \<Rightarrow> instant \<Rightarrow> report_job \<Rightarrow> report_state \<Rightarrow> report_state \<times> generated_report result" where
  "run_job rt now j = generate_job rt now (rj_schoolId j) (rj_userId j) (rj_request j) (rj_profile j) (rj_validation j)"

text \<open>The handler up to the queue: the role, the request, the profile and the validation.\<close>

definition prepare_report ::
  "report_runtime \<Rightarrow> uuid \<Rightarrow> uuid \<Rightarrow> string \<Rightarrow> report_request \<Rightarrow> report_state \<Rightarrow> report_job result" where
  "prepare_report rt schoolId userId role q s =
     (if role \<notin> {''SUPER_ADMIN'', ''SCHOOL_ADMIN'', ''TEACHER'', ''REPORT_VIEWER''} then Inl (AppErr ''FORBIDDEN_ROLE'' 403)
      else if \<not> valid_report_request rt q then Inl (AppErr ''REPORT_REQUEST_INVALID'' 400)
      else case resolveReportingProfile (rt_config_ok rt) (rt_profiles rt) schoolId (rr_profileId q) of
        Inl e \<Rightarrow> Inl e
      | Inr profile \<Rightarrow>
          (case validateReportScope (rt_world rt) (getReportGenerationLimits (rt_world rt) (rt_env rt))
                  (scope_request_of role userId schoolId q (rs_db s)) (rs_db s) of
             Inl e \<Rightarrow> Inl e
           | Inr validation \<Rightarrow>
               if \<not> isValid validation then Inl (AppErr ''REPORT_VALIDATION_BLOCKED'' 422)
               else Inr \<lparr>rj_schoolId = schoolId, rj_userId = userId, rj_request = q, rj_profile = profile, rj_validation = validation\<rparr>))"

text \<open>
  A queue that has jobs waiting runs as many as it may (C23), so a new job is the only one its request starts.
\<close>

lemma enqueue_starts:
  assumes "enqueue limits j q = Inr (started, q1)" "rq_waiting q = [] \<or> rq_running q = rl_maxConcurrent limits"
  shows "started = [] \<or> started = [j]"
proof (cases "rq_waiting q")
  case Nil
  with assms(1) show ?thesis by (auto simp: enqueue_def drain_def split: if_splits)
next
  case (Cons k ks)
  with assms show ?thesis by (auto simp: enqueue_def drain_def split: if_splits)
qed

text \<open>
  The queue refuses the job, starts it at once, within the request, or keeps it waiting; then the answer is
  pending, \<open>None\<close>.  A job that has started keeps its place in the queue until it ends (\<open>job_ends\<close>).
\<close>

definition generate_report ::
  "report_runtime \<Rightarrow> instant \<Rightarrow> uuid \<Rightarrow> uuid \<Rightarrow> string \<Rightarrow> report_request \<Rightarrow> report_state \<Rightarrow> report_state \<times> generated_report option result" where
  "generate_report rt now schoolId userId role q s =
     (case prepare_report rt schoolId userId role q s of
        Inl e \<Rightarrow> (s, Inl e)
      | Inr j \<Rightarrow>
          (case enqueue (getReportGenerationLimits (rt_world rt) (rt_env rt)) j (rs_queue s) of
             Inl e \<Rightarrow> (s, Inl e)
           | Inr (started, queue) \<Rightarrow>
               let s1 = s\<lparr>rs_queue := queue\<rparr>
               in if started = [] then (s1, Inr None)
                  else (case settle s1 (run_job rt now j s1) of
                          (s2, Inl e) \<Rightarrow> (s2, Inl e)
                        | (s2, Inr g) \<Rightarrow> (s2, Inr (Some g)))))"

text \<open>
  A job that waited is started when another one ends, in the asynchronous context of that job: its statements go
  to the transaction of the other request, which is about to end, and not to one of its own.  How much of its work
  is kept is not determined by the code; the model lets \<open>n\<close> choose how many of its writes (the draft, the
  artifact, the hash) are.
\<close>

definition waited_job :: "report_runtime \<Rightarrow> instant \<Rightarrow> nat \<Rightarrow> report_job \<Rightarrow> report_state \<Rightarrow> report_state" where
  "waited_job rt now n j s =
     (if n = 0 then s
      else case createReportDraft (rt_world rt) now (draft_params_of (rj_schoolId j) (rj_userId j) (rj_request j))
                  (rj_profile j) (rj_validation j) (rs_db s) of
        Inl e \<Rightarrow> s
      | Inr (report, d1) \<Rightarrow>
          let s1 = s\<lparr>rs_db := d1\<rparr>
          in if n = 1 then s1
             else case rt_build rt report (rj_validation j) (rr_format (rj_request j)) of
               Inl e \<Rightarrow> s1
             | Inr f \<Rightarrow>
                 if n = 2 then fst (persistReportArtifact rt now (rj_schoolId j) (ra_id report) f s1)
                 else fst (run_job rt now j s))"

fun waited_jobs :: "report_runtime \<Rightarrow> (instant \<times> nat) list \<Rightarrow> report_job list \<Rightarrow> report_state \<Rightarrow> report_state" where
  "waited_jobs rt ((now, n) # kept) (j # js) s = waited_jobs rt kept js (waited_job rt now n j s)"
| "waited_jobs rt kept js s = s"

definition job_ends :: "report_runtime \<Rightarrow> (instant \<times> nat) list \<Rightarrow> report_state \<Rightarrow> report_state" where
  "job_ends rt kept s =
     (if rq_running (rs_queue s) \<le> 0 then s
      else case queue_finished (getReportGenerationLimits (rt_world rt) (rt_env rt)) (rs_queue s) of
        (started, queue) \<Rightarrow> waited_jobs rt kept started (s\<lparr>rs_queue := queue\<rparr>))"

definition download_report ::
  "report_runtime \<Rightarrow> uuid \<Rightarrow> uuid \<Rightarrow> string \<Rightarrow> uuid \<Rightarrow> string option \<Rightarrow> report_state \<Rightarrow> report_state \<times> report_artifact result" where
  "download_report rt schoolId userId role reportId requestedFormat s =
     (case find_report schoolId reportId (rs_db s) of
        None \<Rightarrow> (s, Inl (JsErr ''REPORT_NOT_FOUND''))
      | Some report \<Rightarrow>
          (case assertRead role userId report (rs_db s) of
             Inl e \<Rightarrow> (s, Inl e)
           | Inr _ \<Rightarrow>
               (case loadReportArtifact rt schoolId reportId s of
                  Inl e \<Rightarrow> (s, Inl e)
                | Inr None \<Rightarrow> (s, Inl (JsErr ''REPORT_ARTIFACT_NOT_FOUND''))
                | Inr (Some a) \<Rightarrow>
                    if truthy requestedFormat \<and> requestedFormat \<noteq> Some (gf_format (at_file a))
                    then (s, Inl (JsErr ''REPORT_DOWNLOAD_FORMAT_MISMATCH''))
                    else if ra_fileHashSha256 report \<noteq> Some (at_sha256 a) then (s, Inl (JsErr ''REPORT_ARTIFACT_HASH_MISMATCH''))
                    else (case recordReportDownload schoolId reportId (at_sha256 a) userId (rs_db s) of
                       Inl e \<Rightarrow> (s, Inl e)
                     | Inr d1 \<Rightarrow> (s\<lparr>rs_db := d1\<rparr>, Inr a)))))"

section \<open>Runs\<close>

text \<open>
  What can happen to the reports: the requests of users, the end of a job of the queue, somebody writing to or deleting from the directory of the
  files, and any work of the other services, which do not touch reports.
\<close>

datatype report_op =
    Generate instant uuid uuid string report_request
  | JobEnds "(instant \<times> nat) list"
  | ApproveReport instant uuid uuid string uuid
  | Download uuid uuid string uuid "string option"
  | WriteFile string string
  | DeleteFile string
  | Elsewhere db

fun report_step :: "report_runtime \<Rightarrow> report_state \<Rightarrow> report_op \<Rightarrow> report_state" where
  "report_step rt s (Generate now schoolId userId role q) = fst (generate_report rt now schoolId userId role q s)"
| "report_step rt s (JobEnds kept) = job_ends rt kept s"
| "report_step rt s (ApproveReport now schoolId userId role reportId) =
     (case approveReportInternally now schoolId reportId userId role (rs_db s) of Inl _ \<Rightarrow> s | Inr d \<Rightarrow> s\<lparr>rs_db := d\<rparr>)"
| "report_step rt s (Download schoolId userId role reportId f) = fst (download_report rt schoolId userId role reportId f s)"
| "report_step rt s (WriteFile key content) = s\<lparr>rs_files := AList.update key content (rs_files s)\<rparr>"
| "report_step rt s (DeleteFile key) = s\<lparr>rs_files := AList.delete key (rs_files s)\<rparr>"
| "report_step rt s (Elsewhere d) = (if t_reports d = t_reports (rs_db s) \<and> seq (rs_db s) \<le> seq d then s\<lparr>rs_db := d\<rparr> else s)"

section \<open>The life of a report\<close>

definition report_rank :: "string \<Rightarrow> nat" where
  "report_rank status = (if status = ''VALIDATED'' then 0 else if status = ''READY_FOR_REVIEW'' then 1
     else if status = ''APPROVED_INTERNALLY'' then 2 else 3)"

definition one_approved_report :: "report_approval list \<Rightarrow> bool" where
  "one_approved_report rs \<longleftrightarrow> (\<forall>r \<in> set rs. \<forall>r' \<in> set rs. ra_status r = ''APPROVED_INTERNALLY'' \<and> ra_status r' = ''APPROVED_INTERNALLY''
     \<and> same_period (ra_schoolId r) (ra_reportType r) (ra_periodStartDate r) (ra_periodEndDate r) r' \<longrightarrow> r' = r)"

definition reports_ok :: "world \<Rightarrow> db \<Rightarrow> bool" where
  "reports_ok w d \<longleftrightarrow> distinct (map ra_id (t_reports d)) \<and> (\<forall>r \<in> set (t_reports d). \<exists>k < seq d. ra_id r = gen_uuid w k)
     \<and> one_approved_report (t_reports d)
     \<and> (\<forall>r \<in> set (t_reports d). ra_status r = ''VALIDATED'' \<or> ra_fileHashSha256 r \<noteq> None)"

text \<open>
  A report is kept, moves forward only, keeps the hash of its file once it is reviewed, and is approved only by
  somebody \<open>approver\<close> allows.
\<close>

definition report_kept :: "(uuid \<Rightarrow> uuid option \<Rightarrow> bool) \<Rightarrow> report_approval \<Rightarrow> report_approval \<Rightarrow> bool" where
  "report_kept approver r r' \<longleftrightarrow> ra_id r' = ra_id r \<and> ra_schoolId r' = ra_schoolId r \<and> ra_reportType r' = ra_reportType r
     \<and> ra_periodStartDate r' = ra_periodStartDate r \<and> ra_periodEndDate r' = ra_periodEndDate r
     \<and> ra_scopeSections r' = ra_scopeSections r
     \<and> report_rank (ra_status r) \<le> report_rank (ra_status r')
     \<and> (ra_status r \<noteq> ''VALIDATED'' \<longrightarrow> ra_fileHashSha256 r' = ra_fileHashSha256 r)
     \<and> (report_rank (ra_status r) < 2 \<and> 2 \<le> report_rank (ra_status r') \<longrightarrow> approver (ra_id r') (ra_approvedBy r'))
     \<and> (2 \<le> report_rank (ra_status r) \<longrightarrow> ra_approvedBy r' = ra_approvedBy r)"

definition reports_move :: "world \<Rightarrow> (uuid \<Rightarrow> uuid option \<Rightarrow> bool) \<Rightarrow> db \<Rightarrow> db \<Rightarrow> bool" where
  "reports_move w approver d d' \<longleftrightarrow> (reports_ok w d \<longrightarrow> reports_ok w d'
     \<and> (\<forall>r \<in> set (t_reports d). \<exists>r' \<in> set (t_reports d'). report_kept approver r r')
     \<and> (\<forall>r' \<in> set (t_reports d'). (\<exists>r \<in> set (t_reports d). report_kept approver r r') \<or> report_rank (ra_status r') < 2
          \<or> approver (ra_id r') (ra_approvedBy r')))"

lemma rank_VALIDATED: "report_rank s = 0 \<longleftrightarrow> s = ''VALIDATED''"
  by (simp add: report_rank_def)

lemma report_kept_refl: "report_kept p r r"
  by (auto simp: report_kept_def)

lemma report_kept_trans:
  assumes "report_kept p r r'" "report_kept p r' r''"
  shows "report_kept p r r''"
proof -
  have v: "ra_status r' \<noteq> ''VALIDATED''" if "ra_status r \<noteq> ''VALIDATED''"
    using that assms(1) rank_VALIDATED [of "ra_status r"] rank_VALIDATED [of "ra_status r'"] by (auto simp: report_kept_def)
  show ?thesis
    using assms v by (cases "2 \<le> report_rank (ra_status r')") (auto simp: report_kept_def)
qed

lemma report_kept_approved: "report_kept p r r' \<Longrightarrow> p (ra_id r) (ra_approvedBy r) \<or> report_rank (ra_status r) < 2
   \<Longrightarrow> p (ra_id r') (ra_approvedBy r') \<or> report_rank (ra_status r') < 2"
  unfolding report_kept_def by (metis not_less)

lemma reports_move_refl [simp]: "reports_move w p d d"
  unfolding reports_move_def using report_kept_refl by blast

lemma reports_move_trans:
  assumes "reports_move w p d d'" "reports_move w p d' d''"
  shows "reports_move w p d d''"
  unfolding reports_move_def
proof (intro impI conjI ballI)
  assume ok: "reports_ok w d"
  with assms(1) have a: "reports_ok w d'" "\<forall>r \<in> set (t_reports d). \<exists>r' \<in> set (t_reports d'). report_kept p r r'"
    "\<forall>r' \<in> set (t_reports d'). (\<exists>r \<in> set (t_reports d). report_kept p r r') \<or> report_rank (ra_status r') < 2 \<or> p (ra_id r') (ra_approvedBy r')"
    by (simp_all add: reports_move_def)
  with assms(2) have b: "reports_ok w d''" "\<forall>r \<in> set (t_reports d'). \<exists>r' \<in> set (t_reports d''). report_kept p r r'"
    "\<forall>r' \<in> set (t_reports d''). (\<exists>r \<in> set (t_reports d'). report_kept p r r') \<or> report_rank (ra_status r') < 2 \<or> p (ra_id r') (ra_approvedBy r')"
    by (simp_all add: reports_move_def)
  show "reports_ok w d''" by (rule b(1))
  show "\<exists>r' \<in> set (t_reports d''). report_kept p r r'" if "r \<in> set (t_reports d)" for r
    using a(2) b(2) that report_kept_trans by meson
  show "(\<exists>r \<in> set (t_reports d). report_kept p r r') \<or> report_rank (ra_status r') < 2 \<or> p (ra_id r') (ra_approvedBy r')"
    if "r' \<in> set (t_reports d'')" for r'
  proof -
    from b(3) that consider r where "r \<in> set (t_reports d')" "report_kept p r r'"
      | "report_rank (ra_status r') < 2 \<or> p (ra_id r') (ra_approvedBy r')" by blast
    then show ?thesis
    proof cases
      case (1 r)
      with a(3) consider r0 where "r0 \<in> set (t_reports d)" "report_kept p r0 r"
        | "p (ra_id r) (ra_approvedBy r) \<or> report_rank (ra_status r) < 2" by blast
      then show ?thesis using 1(2) report_kept_trans report_kept_approved by cases blast+
    qed blast
  qed
qed

lemma reports_move_mono:
  assumes "reports_move w p d d'" "\<And>i a. p i a \<Longrightarrow> q i a"
  shows "reports_move w q d d'"
proof -
  have "report_kept q r r'" if "report_kept p r r'" for r r' using that assms(2) unfolding report_kept_def by blast
  with assms show ?thesis unfolding reports_move_def by meson
qed

lemma reports_move_frame:
  assumes "t_reports d' = t_reports d" "seq d \<le> seq d'"
  shows "reports_move w p d d'"
proof -
  have "\<exists>k < seq d'. ra_id r = gen_uuid w k" if "\<exists>k < seq d. ra_id r = gen_uuid w k" for r
    using that assms(2) by (meson less_le_trans)
  then show ?thesis unfolding reports_move_def reports_ok_def assms(1) using report_kept_refl [of p] by (intro impI conjI ballI) blast+
qed

lemma reports_move_map:
  assumes "t_reports d' = map g (t_reports d)" "seq d' = seq d"
    and "\<And>r. reports_ok w d \<Longrightarrow> r \<in> set (t_reports d) \<Longrightarrow> report_kept p r (g r)"
    and "\<And>r. reports_ok w d \<Longrightarrow> r \<in> set (t_reports d) \<Longrightarrow> ra_status (g r) = ''VALIDATED'' \<or> ra_fileHashSha256 (g r) \<noteq> None"
    and "reports_ok w d \<Longrightarrow> one_approved_report (map g (t_reports d))"
  shows "reports_move w p d d'"
  unfolding reports_move_def
proof (intro impI conjI ballI)
  assume ok: "reports_ok w d"
  have ids: "\<forall>r \<in> set (t_reports d). ra_id (g r) = ra_id r" using assms(3) [OF ok] by (simp add: report_kept_def)
  then have "map ra_id (map g (t_reports d)) = map ra_id (t_reports d)" by simp
  then have "distinct (map ra_id (map g (t_reports d)))" using ok by (simp only: reports_ok_def)
  moreover have "\<forall>r \<in> set (map g (t_reports d)). \<exists>k < seq d. ra_id r = gen_uuid w k" using ok ids by (auto simp: reports_ok_def)
  moreover have "\<forall>r \<in> set (map g (t_reports d)). ra_status r = ''VALIDATED'' \<or> ra_fileHashSha256 r \<noteq> None"
    using assms(4) [OF ok] by auto
  ultimately show "reports_ok w d'" using assms(5) [OF ok] unfolding reports_ok_def assms(1,2) by blast
  show "\<exists>r' \<in> set (t_reports d'). report_kept p r r'" if "r \<in> set (t_reports d)" for r
    using assms(3) [OF ok that] that by (auto simp: assms(1))
  show "(\<exists>r \<in> set (t_reports d). report_kept p r r') \<or> report_rank (ra_status r') < 2 \<or> p (ra_id r') (ra_approvedBy r')"
    if "r' \<in> set (t_reports d')" for r'
    using assms(3) [OF ok] that by (auto simp: assms(1))
qed

lemma report_by_id:
  assumes "reports_ok w d" "r \<in> set (t_reports d)" "r' \<in> set (t_reports d)" "ra_id r' = ra_id r"
  shows "r' = r"
  using assms by (auto simp: reports_ok_def distinct_map dest: inj_onD)

lemma one_approved_map:
  assumes "one_approved_report rs" "\<And>r. r \<in> set rs \<Longrightarrow> ra_status (g r) = ''APPROVED_INTERNALLY'' \<Longrightarrow> ra_status r = ''APPROVED_INTERNALLY''"
    and "\<And>r. r \<in> set rs \<Longrightarrow> report_kept p r (g r)"
  shows "one_approved_report (map g rs)"
proof -
  have "g r' = g r" if "r \<in> set rs" "r' \<in> set rs" "ra_status (g r) = ''APPROVED_INTERNALLY''" "ra_status (g r') = ''APPROVED_INTERNALLY''"
    "same_period (ra_schoolId (g r)) (ra_reportType (g r)) (ra_periodStartDate (g r)) (ra_periodEndDate (g r)) (g r')" for r r'
  proof -
    have "same_period (ra_schoolId r) (ra_reportType r) (ra_periodStartDate r) (ra_periodEndDate r) r'"
      using that(5) assms(3) [OF that(1)] assms(3) [OF that(2)] by (simp add: report_kept_def same_period_def)
    with assms(1,2) that(1-4) have "r' = r" unfolding one_approved_report_def by blast
    then show ?thesis by simp
  qed
  then show ?thesis unfolding one_approved_report_def by auto
qed

lemma reports_move_audit: "reports_move w p d d' \<Longrightarrow> reports_move w p d (createAuditLog a b c e f g d')"
  by (erule reports_move_trans) (rule reports_move_frame, simp_all add: createAuditLog_def)

lemma reports_move_draft:
  assumes "createReportDraft w now p profile v d = Inr (r, d1)" "inj (gen_uuid w)"
  shows "reports_move w q d d1" "r \<in> set (t_reports d1)" "ra_status r = ''VALIDATED''" "ra_id r = gen_uuid w (seq d)"
    "seq d < seq d1" "ra_schoolId r = dp_schoolId p" "ra_fileHashSha256 r = None"
proof -
  from assms(1) have r: "ra_id r = gen_uuid w (seq d)" "ra_status r = ''VALIDATED''" "ra_schoolId r = dp_schoolId p" "ra_fileHashSha256 r = None"
    and d1: "t_reports d1 = t_reports d @ [r]" "seq d1 = Suc (seq d)"
    by (auto simp: createReportDraft_def Let_def createAuditLog_def split: if_splits)
  have fresh: "gen_uuid w k \<noteq> gen_uuid w (seq d)" if "k < seq d" for k using assms(2) that by (auto dest: injD)
  have "reports_ok w d1" if ok: "reports_ok w d"
  proof -
    have "ra_id r \<notin> ra_id ` set (t_reports d)" using ok fresh by (force simp: reports_ok_def r(1))
    moreover have "one_approved_report (t_reports d @ [r])" using ok r(2) by (auto simp: reports_ok_def one_approved_report_def)
    moreover have "\<forall>x \<in> set (t_reports d). \<exists>k < Suc (seq d). ra_id x = gen_uuid w k" using ok by (auto simp: reports_ok_def less_Suc_eq)
    ultimately show ?thesis using ok r unfolding reports_ok_def d1 by auto
  qed
  moreover have "report_rank (ra_status r) < 2" by (simp add: r(2) report_rank_def)
  ultimately show "reports_move w q d d1" unfolding reports_move_def d1(1) set_append using report_kept_refl [of q] by simp blast
  show "r \<in> set (t_reports d1)" "ra_status r = ''VALIDATED''" "ra_id r = gen_uuid w (seq d)" "seq d < seq d1"
    "ra_schoolId r = dp_schoolId p" "ra_fileHashSha256 r = None" using r d1 by simp_all
qed

lemma find_reportD: "find_report sid i d = Some r \<Longrightarrow> r \<in> set (t_reports d) \<and> ra_id r = i \<and> ra_schoolId r = sid"
  by (auto simp: find_report_def dest: sel1_SomeD)

lemma reports_move_set:
  assumes "find_report sid i d = Some current" "report_kept p current (f current)"
    and "ra_status (f current) = ''APPROVED_INTERNALLY'' \<Longrightarrow> ra_status current = ''APPROVED_INTERNALLY''"
    and "ra_fileHashSha256 (f current) \<noteq> None"
  shows "reports_move w p d (set_report sid i f d)"
proof (rule reports_move_map [of _ "\<lambda>r. if ra_id r = i \<and> ra_schoolId r = sid then f r else r"])
  note c = find_reportD [OF assms(1)]
  have only: "r = current" if "reports_ok w d" "r \<in> set (t_reports d)" "ra_id r = i" for r
    using report_by_id [OF that(1)] c that(2,3) by blast
  show "t_reports (set_report sid i f d) = map (\<lambda>r. if ra_id r = i \<and> ra_schoolId r = sid then f r else r) (t_reports d)"
    by (simp add: set_report_def upd_def)
  show "seq (set_report sid i f d) = seq d" by (simp add: set_report_def)
  fix r assume ok: "reports_ok w d"
  show kept: "r \<in> set (t_reports d) \<Longrightarrow> report_kept p r (if ra_id r = i \<and> ra_schoolId r = sid then f r else r)" for r
    using only [OF ok] assms(2) report_kept_refl by auto
  show "r \<in> set (t_reports d) \<Longrightarrow> ra_status (if ra_id r = i \<and> ra_schoolId r = sid then f r else r) = ''VALIDATED''
      \<or> ra_fileHashSha256 (if ra_id r = i \<and> ra_schoolId r = sid then f r else r) \<noteq> None" for r
    using only [OF ok] assms(4) ok by (auto simp: reports_ok_def)
next
  note c = find_reportD [OF assms(1)]
  assume ok: "reports_ok w d"
  have only: "r = current" if "r \<in> set (t_reports d)" "ra_id r = i" for r
    using report_by_id [OF ok] c that by blast
  from ok have "one_approved_report (t_reports d)" by (simp add: reports_ok_def)
  then show "one_approved_report (map (\<lambda>r. if ra_id r = i \<and> ra_schoolId r = sid then f r else r) (t_reports d))"
  proof (rule one_approved_map)
    show "ra_status r = ''APPROVED_INTERNALLY''"
      if "r \<in> set (t_reports d)" "ra_status (if ra_id r = i \<and> ra_schoolId r = sid then f r else r) = ''APPROVED_INTERNALLY''" for r
      using only [OF that(1)] that(2) assms(3) by (auto split: if_splits)
    show "report_kept p r (if ra_id r = i \<and> ra_schoolId r = sid then f r else r)" if "r \<in> set (t_reports d)" for r
      using only [OF that] assms(2) report_kept_refl by auto
  qed
qed

lemma recordReportArtifact_moves:
  assumes "recordReportArtifact sid i a u d = Inr d1"
  shows "reports_move w p d d1"
proof -
  from assms obtain c where c: "find_report sid i d = Some c" "ra_status c = ''VALIDATED''"
    and d1: "d1 = createAuditLog sid u ''REPORT_ARTIFACT_CREATED'' ''REPORT'' i JNull
      (set_report sid i (\<lambda>r. r\<lparr>ra_fileHashSha256 := Some (at_sha256 a), ra_status := ''READY_FOR_REVIEW'', ra_artifactId := Some (at_id a)\<rparr>) d)"
    by (auto simp: recordReportArtifact_def split: option.splits if_splits)
  from c(2) show ?thesis unfolding d1
    by (intro reports_move_audit reports_move_set [OF c(1)]) (simp_all add: report_kept_def report_rank_def)
qed

lemma recordReportDownload_moves:
  assumes "recordReportDownload sid i h u d = Inr d1"
  shows "reports_move w p d d1"
proof -
  from assms obtain c where c: "find_report sid i d = Some c" "ra_fileHashSha256 c = Some h"
    and d1: "d1 = createAuditLog sid u ''REPORT_DOWNLOADED'' ''REPORT'' i JNull
      (set_report sid i (\<lambda>r. r\<lparr>ra_downloadCount := ra_downloadCount r + 1\<rparr>) d)"
    by (auto simp: recordReportDownload_def split: option.splits if_splits)
  show ?thesis unfolding d1
    by (intro reports_move_audit reports_move_set [OF c(1)]) (use c(2) in \<open>auto simp: report_kept_def\<close>)
qed

definition after_report_approval :: "instant \<Rightarrow> uuid \<Rightarrow> report_approval \<Rightarrow> report_approval \<Rightarrow> report_approval" where
  "after_report_approval now u current r =
     (if r = current then r\<lparr>ra_status := ''APPROVED_INTERNALLY'', ra_approvedBy := Some u, ra_approvedAt := Some now\<rparr>
      else if same_period (ra_schoolId current) (ra_reportType current) (ra_periodStartDate current) (ra_periodEndDate current) r
              \<and> ra_status r = ''APPROVED_INTERNALLY''
      then r\<lparr>ra_status := ''SUPERSEDED'', ra_supersededAt := Some now, ra_supersededBy := Some u\<rparr> else r)"

lemma after_report_approval_simps [simp]:
  "ra_id (after_report_approval now u c r) = ra_id r" "ra_schoolId (after_report_approval now u c r) = ra_schoolId r"
  "ra_reportType (after_report_approval now u c r) = ra_reportType r"
  "ra_periodStartDate (after_report_approval now u c r) = ra_periodStartDate r"
  "ra_periodEndDate (after_report_approval now u c r) = ra_periodEndDate r"
  "ra_fileHashSha256 (after_report_approval now u c r) = ra_fileHashSha256 r"
  "ra_scopeSections (after_report_approval now u c r) = ra_scopeSections r"
  by (simp_all add: after_report_approval_def)

lemma report_approval_rows:
  assumes "reports_ok w d" "c \<in> set (t_reports d)" "ra_status c = ''READY_FOR_REVIEW''"
  shows "approve_report now u (ra_schoolId c) (ra_id c) (supersede_reports now u c (t_reports d)) = map (after_report_approval now u c) (t_reports d)"
proof -
  have "ra_id r = ra_id c \<longleftrightarrow> r = c" if "r \<in> set (t_reports d)" for r using report_by_id [OF assms(1,2) that] by auto
  with assms(3) show ?thesis
    by (simp add: approve_report_def supersede_reports_def upd_def after_report_approval_def cong: if_cong)
qed

lemma approve_status:
  "ra_status (after_report_approval now u c r) = ''APPROVED_INTERNALLY'' \<longleftrightarrow> r = c \<or> (ra_status r = ''APPROVED_INTERNALLY''
     \<and> \<not> same_period (ra_schoolId c) (ra_reportType c) (ra_periodStartDate c) (ra_periodEndDate c) r)"
  by (auto simp: after_report_approval_def)

lemma approve_one:
  assumes "one_approved_report rs"
  shows "one_approved_report (map (after_report_approval now u c) rs)"
proof -
  have "r' = r" if "r \<in> set rs" "r' \<in> set rs" "ra_status (after_report_approval now u c r) = ''APPROVED_INTERNALLY''"
    "ra_status (after_report_approval now u c r') = ''APPROVED_INTERNALLY''"
    "same_period (ra_schoolId r) (ra_reportType r) (ra_periodStartDate r) (ra_periodEndDate r) r'" for r r'
  proof (cases "r = c \<or> r' = c")
    case True
    with that(3-5) show ?thesis unfolding approve_status by (auto simp: same_period_def)
  next
    case False
    with that assms show ?thesis unfolding approve_status one_approved_report_def by blast
  qed
  then show ?thesis unfolding one_approved_report_def set_map by (auto simp: same_period_def)
qed

lemma approveReportInternally_moves:
  assumes "approveReportInternally now sid i u role d = Inr d1"
  shows "reports_move w (\<lambda>j a. j = i \<and> a = Some u \<and> role \<in> {''SUPER_ADMIN'', ''SCHOOL_ADMIN''}) d d1"
proof -
  let ?p = "\<lambda>j a. j = i \<and> a = Some u \<and> role \<in> {''SUPER_ADMIN'', ''SCHOOL_ADMIN''}"
  from assms obtain c where role: "role \<in> {''SUPER_ADMIN'', ''SCHOOL_ADMIN''}" and f: "find_report sid i d = Some c"
    by (auto simp: approveReportInternally_def split: if_splits option.splits)
  note c = find_reportD [OF f]
  show ?thesis
  proof (cases "ra_status c = ''APPROVED_INTERNALLY''")
    case True
    with assms role f have d1: "d1 = createAuditLog sid u ''REPORT_APPROVED_INTERNALLY'' ''REPORT'' i JNull d"
      by (auto simp: approveReportInternally_def Let_def)
    show ?thesis unfolding d1 by (rule reports_move_audit [OF reports_move_refl])
  next
    case False
    with assms role f have ready: "ra_status c = ''READY_FOR_REVIEW''" and hash: "truthy (ra_fileHashSha256 c)"
      and d1: "d1 = createAuditLog sid u ''REPORT_APPROVED_INTERNALLY'' ''REPORT'' i JNull
        (d\<lparr>t_reports := approve_report now u sid i (supersede_reports now u c (t_reports d))\<rparr>)"
      by (auto simp: approveReportInternally_def Let_def split: if_splits)
    have "reports_move w ?p d (d\<lparr>t_reports := approve_report now u sid i (supersede_reports now u c (t_reports d))\<rparr>)"
    proof (cases "reports_ok w d")
      case True
      show ?thesis
      proof (rule reports_move_map [of _ "after_report_approval now u c"])
        show "t_reports (d\<lparr>t_reports := approve_report now u sid i (supersede_reports now u c (t_reports d))\<rparr>)
            = map (after_report_approval now u c) (t_reports d)"
          using report_approval_rows [OF True _ ready, of now u] c by auto
        show "report_kept ?p r (after_report_approval now u c r)" for r
          using role c ready by (auto simp: report_kept_def after_report_approval_def report_rank_def)
        show "ra_status (after_report_approval now u c r) = ''VALIDATED'' \<or> ra_fileHashSha256 (after_report_approval now u c r) \<noteq> None"
          if "r \<in> set (t_reports d)" for r
          using True that ready unfolding reports_ok_def after_report_approval_def by fastforce
        show "one_approved_report (map (after_report_approval now u c) (t_reports d))"
          using True by (intro approve_one) (simp add: reports_ok_def)
      qed simp
    qed (simp add: reports_move_def)
    then show ?thesis unfolding d1 by (rule reports_move_audit)
  qed
qed

lemma persistReportArtifact_db:
  assumes "persistReportArtifact rt now sid i f s = (s1, r)"
  shows "t_reports (rs_db s1) = t_reports (rs_db s) \<and> seq (rs_db s) \<le> seq (rs_db s1)
    \<and> (\<forall>a. r = Inr a \<longrightarrow> at_sha256 a = sha256 (rt_world rt) (gf_content f))"
  using assms by (auto simp: persistReportArtifact_def Let_def split: if_splits sum.splits option.splits)

lemma generate_jobE:
  assumes "generate_job rt now sid u q profile v s = (s1, r)" "inj (gen_uuid (rt_world rt))"
  shows "reports_move (rt_world rt) p (rs_db s) (rs_db s1)"
    "r = Inr g \<Longrightarrow> \<exists>report f x. rt_build rt report v (rr_format q) = Inr f \<and> ga_reportId g = ra_id report \<and> ga_sha256 g = sha256 (rt_world rt) (gf_content f)
       \<and> ra_scopeSections report = vr_classSectionIds v
       \<and> x \<in> set (t_reports (rs_db s1)) \<and> ra_id x = ra_id report \<and> ra_schoolId x = sid \<and> ra_status x = ''READY_FOR_REVIEW''
       \<and> ra_fileHashSha256 x = Some (ga_sha256 g) \<and> ra_scopeSections x = ra_scopeSections report"
proof -
  let ?w = "rt_world rt"
  have "reports_move ?w p (rs_db s) (rs_db s1) \<and> (r = Inr g \<longrightarrow>
     (\<exists>report f x. rt_build rt report v (rr_format q) = Inr f \<and> ga_reportId g = ra_id report \<and> ga_sha256 g = sha256 ?w (gf_content f)
       \<and> ra_scopeSections report = vr_classSectionIds v
       \<and> x \<in> set (t_reports (rs_db s1)) \<and> ra_id x = ra_id report \<and> ra_schoolId x = sid \<and> ra_status x = ''READY_FOR_REVIEW''
       \<and> ra_fileHashSha256 x = Some (ga_sha256 g) \<and> ra_scopeSections x = ra_scopeSections report))"
  proof (cases "createReportDraft ?w now (draft_params_of sid u q) profile v (rs_db s)")
    case (Inl e)
    with assms(1) show ?thesis by (auto simp: generate_job_def)
  next
    case (Inr pr)
    obtain report d1 where pr: "pr = (report, d1)" by (cases pr)
    note dr = reports_move_draft [OF Inr [unfolded pr] assms(2)]
    from Inr have sections: "ra_scopeSections report = vr_classSectionIds v" by (auto simp: pr createReportDraft_def Let_def split: if_splits)
    have school: "ra_schoolId report = sid" using dr(6) by (simp add: draft_params_of_def)
    show ?thesis
    proof (cases "rt_build rt report v (rr_format q)")
      case (Inl e)
      with assms(1) Inr pr dr(1) show ?thesis by (auto simp: generate_job_def)
    next
      case build: (Inr f)
      obtain s2 r2 where p2: "persistReportArtifact rt now sid (ra_id report) f (s\<lparr>rs_db := d1\<rparr>) = (s2, r2)" by (metis surj_pair)
      from persistReportArtifact_db [OF p2] have f2: "t_reports (rs_db s2) = t_reports d1" "seq d1 \<le> seq (rs_db s2)"
        "\<And>a. r2 = Inr a \<Longrightarrow> at_sha256 a = sha256 ?w (gf_content f)" by auto
      have m2: "reports_move ?w p (rs_db s) (rs_db s2)" by (rule reports_move_trans [OF dr(1) reports_move_frame [OF f2(1,2)]])
      show ?thesis
      proof (cases r2)
        case (Inl e)
        with assms(1) Inr pr build p2 m2 show ?thesis by (auto simp: generate_job_def)
      next
        case art: (Inr a)
        show ?thesis
        proof (cases "recordReportArtifact sid (ra_id report) a u (rs_db s2)")
          case (Inl e)
          with assms(1) Inr pr build p2 art m2 show ?thesis by (auto simp: generate_job_def)
        next
          case rec: (Inr d3)
          from assms(1) Inr pr build p2 art rec have s1: "s1 = s2\<lparr>rs_db := d3\<rparr>"
            and r: "r = Inr \<lparr>ga_reportId = ra_id report, ga_reportVersion = ra_reportVersion report, ga_sha256 = at_sha256 a\<rparr>"
            by (auto simp: generate_job_def)
          from rec have d3: "t_reports d3 = upd (\<lambda>r. ra_id r = ra_id report \<and> ra_schoolId r = sid)
              (\<lambda>r. r\<lparr>ra_fileHashSha256 := Some (at_sha256 a), ra_status := ''READY_FOR_REVIEW'', ra_artifactId := Some (at_id a)\<rparr>) (t_reports d1)"
            by (auto simp: recordReportArtifact_def set_report_def createAuditLog_def f2(1) split: option.splits if_splits)
          have "report\<lparr>ra_fileHashSha256 := Some (at_sha256 a), ra_status := ''READY_FOR_REVIEW'', ra_artifactId := Some (at_id a)\<rparr> \<in> set (t_reports d3)"
            using dr(2) school by (auto simp: d3 in_upd)
          moreover have "reports_move ?w p (rs_db s) (rs_db s1)"
            using reports_move_trans [OF m2 recordReportArtifact_moves [OF rec]] by (simp add: s1)
          ultimately show ?thesis using build f2(3) [OF art] sections school r by (fastforce simp: s1)
        qed
      qed
    qed
  qed
  then show "reports_move ?w p (rs_db s) (rs_db s1)"
    "r = Inr g \<Longrightarrow> \<exists>report f x. rt_build rt report v (rr_format q) = Inr f \<and> ga_reportId g = ra_id report \<and> ga_sha256 g = sha256 ?w (gf_content f)
       \<and> ra_scopeSections report = vr_classSectionIds v
       \<and> x \<in> set (t_reports (rs_db s1)) \<and> ra_id x = ra_id report \<and> ra_schoolId x = sid \<and> ra_status x = ''READY_FOR_REVIEW''
       \<and> ra_fileHashSha256 x = Some (ga_sha256 g) \<and> ra_scopeSections x = ra_scopeSections report" by auto
qed

lemma settleE: "settle s p = (s1, r) \<Longrightarrow> p = (s1, r) \<or> (rs_db s1 = rs_db s \<and> (\<exists>e. r = Inl e))"
  by (auto simp: settle_def split: prod.splits sum.splits error.splits)

lemma run_job_moves:
  "run_job rt now j s = (s1, r) \<Longrightarrow> inj (gen_uuid (rt_world rt)) \<Longrightarrow> reports_move (rt_world rt) p (rs_db s) (rs_db s1)"
  unfolding run_job_def by (rule generate_jobE(1))

lemma generate_reportE:
  assumes "generate_report rt now sid u role q s = (s1, r)" "inj (gen_uuid (rt_world rt))"
  shows "reports_move (rt_world rt) p (rs_db s) (rs_db s1)"
    "r = Inr (Some g) \<Longrightarrow> \<exists>profile v s0. isValid v \<and> rs_db s0 = rs_db s \<and> generate_job rt now sid u q profile v s0 = (s1, Inr g)"
proof -
  have prep: "rj_schoolId j = sid \<and> rj_userId j = u \<and> rj_request j = q \<and> isValid (rj_validation j)"
    if "prepare_report rt sid u role q s = Inr j" for j
    using that by (auto simp: prepare_report_def split: if_splits sum.splits)
  have cases: "(rs_db s1 = rs_db s \<and> (\<forall>g. r \<noteq> Inr (Some g)))
    \<or> (\<exists>(j :: report_job) s0 r0. isValid (rj_validation j) \<and> rs_db s0 = rs_db s \<and> generate_job rt now sid u q (rj_profile j) (rj_validation j) s0 = (s1, r0)
          \<and> (\<forall>g. r = Inr (Some g) \<longrightarrow> r0 = Inr g))"
  proof (cases "prepare_report rt sid u role q s")
    case (Inl e)
    with assms(1) show ?thesis by (auto simp: generate_report_def)
  next
    case (Inr j)
    show ?thesis
    proof (cases "enqueue (getReportGenerationLimits (rt_world rt) (rt_env rt)) j (rs_queue s)")
      case (Inl e)
      with assms(1) Inr show ?thesis by (auto simp: generate_report_def)
    next
      case q: (Inr sq)
      obtain started queue where sq: "sq = (started, queue)" by (cases sq)
      show ?thesis
      proof (cases "started = []")
        case True
        with assms(1) Inr q sq show ?thesis by (auto simp: generate_report_def Let_def)
      next
        case False
        obtain r0 where st: "settle (s\<lparr>rs_queue := queue\<rparr>) (run_job rt now j (s\<lparr>rs_queue := queue\<rparr>)) = (s1, r0)"
          and r: "\<forall>g. r = Inr (Some g) \<longrightarrow> r0 = Inr g"
          using assms(1) Inr q sq False by (auto simp: generate_report_def Let_def split: prod.splits sum.splits)
        note j = prep [OF Inr]
        from settleE [OF st] show ?thesis
        proof
          assume "run_job rt now j (s\<lparr>rs_queue := queue\<rparr>) = (s1, r0)"
          with j have "generate_job rt now sid u q (rj_profile j) (rj_validation j) (s\<lparr>rs_queue := queue\<rparr>) = (s1, r0)"
            by (simp add: run_job_def)
          with j r show ?thesis by (intro disjI2 exI [of _ j] exI [of _ "s\<lparr>rs_queue := queue\<rparr>"] exI [of _ r0]) simp
        qed (use r in auto)
      qed
    qed
  qed
  then show "reports_move (rt_world rt) p (rs_db s) (rs_db s1)"
    using generate_jobE(1) [OF _ assms(2), where p = p] reports_move_refl by metis
  show "r = Inr (Some g) \<Longrightarrow> \<exists>profile v s0. isValid v \<and> rs_db s0 = rs_db s \<and> generate_job rt now sid u q profile v s0 = (s1, Inr g)"
    using cases by blast
qed

lemma waited_job_moves:
  assumes "inj (gen_uuid (rt_world rt))"
  shows "reports_move (rt_world rt) p (rs_db s) (rs_db (waited_job rt now n j s))"
proof (cases "createReportDraft (rt_world rt) now (draft_params_of (rj_schoolId j) (rj_userId j) (rj_request j))
    (rj_profile j) (rj_validation j) (rs_db s)")
  case (Inl e)
  then show ?thesis by (simp add: waited_job_def)
next
  case (Inr pr)
  obtain report d1 where pr: "pr = (report, d1)" by (cases pr)
  note draft = reports_move_draft(1) [OF Inr [unfolded pr] assms, of p]
  obtain s3 r3 where j: "run_job rt now j s = (s3, r3)" by (metis surj_pair)
  note all = run_job_moves [OF j assms, of p]
  show ?thesis
  proof (cases "rt_build rt report (rj_validation j) (rr_format (rj_request j))")
    case (Inl e)
    with Inr pr draft show ?thesis by (simp add: waited_job_def Let_def)
  next
    case build: (Inr f)
    obtain s2 r2 where p2: "persistReportArtifact rt now (rj_schoolId j) (ra_id report) f (s\<lparr>rs_db := d1\<rparr>) = (s2, r2)" by (metis surj_pair)
    from persistReportArtifact_db [OF p2] have "reports_move (rt_world rt) p d1 (rs_db s2)" by (intro reports_move_frame) simp_all
    with draft have two: "reports_move (rt_world rt) p (rs_db s) (rs_db s2)" by (rule reports_move_trans)
    show ?thesis using Inr pr build p2 j draft two all by (simp add: waited_job_def Let_def)
  qed
qed

lemma waited_jobs_moves:
  assumes "inj (gen_uuid (rt_world rt))"
  shows "reports_move (rt_world rt) p (rs_db s) (rs_db (waited_jobs rt kept js s))"
  using assms by (induction rt kept js s rule: waited_jobs.induct) (auto intro: reports_move_trans waited_job_moves)

lemma job_ends_moves:
  assumes "inj (gen_uuid (rt_world rt))"
  shows "reports_move (rt_world rt) p (rs_db s) (rs_db (job_ends rt kept s))"
  using waited_jobs_moves [OF assms, of p "s\<lparr>rs_queue := queue\<rparr>" for queue]
  by (auto simp: job_ends_def split: prod.split)

lemma download_reportE:
  assumes "download_report rt sid u role i fmt s = (s1, r)"
  shows "reports_move w p (rs_db s) (rs_db s1)"
    "r = Inr a \<Longrightarrow> \<exists>report \<in> set (t_reports (rs_db s)). ra_id report = i \<and> ra_schoolId report = sid
       \<and> ra_fileHashSha256 report = Some (at_sha256 a) \<and> sha256 (rt_world rt) (gf_content (at_file a)) = at_sha256 a
       \<and> assertRead role u report (rs_db s) = Inr ()"
proof -
  have "rs_db s1 = rs_db s \<or> (\<exists>h d1. recordReportDownload sid i h u (rs_db s) = Inr d1 \<and> rs_db s1 = d1)"
    using assms by (auto simp: download_report_def split: option.splits sum.splits if_splits)
  then show "reports_move w p (rs_db s) (rs_db s1)" using recordReportDownload_moves by auto
  assume r: "r = Inr a"
  with assms obtain report where report: "find_report sid i (rs_db s) = Some report" "assertRead role u report (rs_db s) = Inr ()"
    "loadReportArtifact rt sid i s = Inr (Some a)" "ra_fileHashSha256 report = Some (at_sha256 a)"
    by (auto simp: download_report_def split: option.splits sum.splits if_splits)
  from report(3) have "sha256 (rt_world rt) (gf_content (at_file a)) = at_sha256 a"
    by (auto simp: loadReportArtifact_def Let_def bind_result_Inr_iff throw_if_Inr split: option.splits if_splits)
  with report find_reportD [OF report(1)] show "\<exists>report \<in> set (t_reports (rs_db s)). ra_id report = i \<and> ra_schoolId report = sid
       \<and> ra_fileHashSha256 report = Some (at_sha256 a) \<and> sha256 (rt_world rt) (gf_content (at_file a)) = at_sha256 a
       \<and> assertRead role u report (rs_db s) = Inr ()" by blast
qed

text \<open>The approvals among the operations of a run.\<close>

definition approved_by_admin :: "report_op list \<Rightarrow> uuid \<Rightarrow> uuid option \<Rightarrow> bool" where
  "approved_by_admin ops i a \<longleftrightarrow> (\<exists>now sid u role. ApproveReport now sid u role i \<in> set ops \<and> role \<in> {''SUPER_ADMIN'', ''SCHOOL_ADMIN''} \<and> a = Some u)"

lemma report_step_moves:
  assumes "inj (gen_uuid (rt_world rt))"
  shows "reports_move (rt_world rt) (approved_by_admin [x]) (rs_db s) (rs_db (report_step rt s x))"
proof (cases x)
  case (Generate now sid u role q)
  obtain s1 r where g: "generate_report rt now sid u role q s = (s1, r)" by (metis surj_pair)
  from generate_reportE(1) [OF g assms] show ?thesis by (simp add: Generate g)
next
  case (ApproveReport now sid u role i)
  have "reports_move (rt_world rt) (approved_by_admin [x]) (rs_db s) d"
    if "approveReportInternally now sid i u role (rs_db s) = Inr d" for d
    by (rule reports_move_mono [OF approveReportInternally_moves [OF that]]) (auto simp: approved_by_admin_def ApproveReport)
  then show ?thesis by (auto simp: ApproveReport split: sum.splits)
next
  case (Download sid u role i fmt)
  obtain s1 r where g: "download_report rt sid u role i fmt s = (s1, r)" by (metis surj_pair)
  from download_reportE(1) [OF g] show ?thesis by (simp add: Download g)
next
  case (JobEnds kept)
  show ?thesis by (simp add: JobEnds job_ends_moves [OF assms])
qed (auto intro: reports_move_frame)

lemma report_steps_move:
  assumes "inj (gen_uuid (rt_world rt))"
  shows "reports_move (rt_world rt) (approved_by_admin xs) (rs_db s) (rs_db (foldl (report_step rt) s xs))"
proof (induction xs rule: rev_induct)
  case (snoc x xs)
  have "reports_move (rt_world rt) (approved_by_admin (xs @ [x])) (rs_db s) (rs_db (foldl (report_step rt) s xs))"
    by (rule reports_move_mono [OF snoc]) (auto simp: approved_by_admin_def)
  moreover have "reports_move (rt_world rt) (approved_by_admin (xs @ [x])) (rs_db (foldl (report_step rt) s xs))
      (rs_db (report_step rt (foldl (report_step rt) s xs) x))"
    by (rule reports_move_mono [OF report_step_moves [OF assms]]) (auto simp: approved_by_admin_def)
  ultimately show ?case by (auto intro: reports_move_trans)
qed simp

interpretation report_run: guarded_machine "report_step rt" "\<lambda>s. inj (gen_uuid (rt_world rt)) \<and> reports_ok (rt_world rt) (rs_db s)" for rt
  using report_step_moves by unfold_locales (auto simp: reports_move_def)

lemma no_reports_ok: "t_reports d = [] \<Longrightarrow> reports_ok w d"
  by (simp add: reports_ok_def one_approved_report_def)

text \<open>
  C16: What is downloaded is what was generated.  Once a report has been generated (by a job the queue started
  at once, so that the request has answered), whatever users request afterwards
  and whatever is written to or deleted from the directory of the files, a download of it answers, if it answers a
  file, exactly the bytes that were built then, with the hash that the generation announced; it belongs to the same
  school, and a teacher gets it only while assigned to every section in it.
\<close>

theorem downloaded_report_is_the_generated_one:
  assumes "inj (gen_uuid (rt_world rt))" "inj (sha256 (rt_world rt))" "t_reports (rs_db s0) = []"
    and "generate_report rt now schoolId userId role q (foldl (report_step rt) s0 xs) = (s1, Inr (Some g))"
    and "download_report rt school2 user2 role2 (ga_reportId g) fmt (foldl (report_step rt) s1 ys) = (s3, Inr a)"
  shows "\<exists>report validation f. rt_build rt report validation (rr_format q) = Inr f \<and> isValid validation \<and> ra_id report = ga_reportId g
    \<and> gf_content (at_file a) = gf_content f \<and> at_sha256 a = ga_sha256 g \<and> sha256 (rt_world rt) (gf_content (at_file a)) = ga_sha256 g
    \<and> school2 = schoolId
    \<and> (role2 = ''TEACHER'' \<longrightarrow> (\<forall>i \<in> set (vr_classSectionIds validation).
         \<exists>t \<in> set (t_teacherAssignments (rs_db (foldl (report_step rt) s1 ys))).
           ta_schoolId t = schoolId \<and> ta_teacherId t = user2 \<and> ta_classSectionId t = i))"
proof -
  let ?s2 = "foldl (report_step rt) s1 ys"
  from report_run.run_inv [of rt s0 xs] no_reports_ok assms(1,3) have ok0: "reports_ok (rt_world rt) (rs_db (foldl (report_step rt) s0 xs))" by blast
  with generate_reportE(1) [OF assms(4,1), of "\<lambda>_ _. True"] have ok1: "reports_ok (rt_world rt) (rs_db s1)" by (simp add: reports_move_def)
  from generate_reportE(2) [OF assms(4,1) refl] obtain profile v sq where v: "isValid v"
    "generate_job rt now schoolId userId q profile v sq = (s1, Inr g)" by blast
  from generate_jobE(2) [OF v(2) assms(1) refl] obtain report f x where x: "rt_build rt report v (rr_format q) = Inr f"
    "ga_reportId g = ra_id report" "ga_sha256 g = sha256 (rt_world rt) (gf_content f)" "ra_scopeSections report = vr_classSectionIds v"
    "x \<in> set (t_reports (rs_db s1))" "ra_id x = ra_id report" "ra_schoolId x = schoolId" "ra_status x = ''READY_FOR_REVIEW''"
    "ra_fileHashSha256 x = Some (ga_sha256 g)" "ra_scopeSections x = ra_scopeSections report" by blast
  from report_steps_move [OF assms(1), of ys s1] ok1 x(5) obtain x' where x': "x' \<in> set (t_reports (rs_db ?s2))"
    "report_kept (approved_by_admin ys) x x'" and ok2: "reports_ok (rt_world rt) (rs_db ?s2)" unfolding reports_move_def by blast
  from download_reportE(2) [OF assms(5) refl] obtain r where r: "r \<in> set (t_reports (rs_db ?s2))" "ra_id r = ga_reportId g" "ra_schoolId r = school2"
    "ra_fileHashSha256 r = Some (at_sha256 a)" "sha256 (rt_world rt) (gf_content (at_file a)) = at_sha256 a"
    "assertRead role2 user2 r (rs_db ?s2) = Inr ()" by blast
  from x'(2) x(2,6) r(2) have "ra_id x' = ra_id r" by (simp add: report_kept_def)
  from report_by_id [OF ok2 r(1) x'(1) this] have "x' = r" .
  with x'(2) x(7-10) r(3,4) have same: "at_sha256 a = ga_sha256 g" "school2 = schoolId" "ra_scopeSections r = ra_scopeSections report"
    by (auto simp: report_kept_def)
  have "gf_content (at_file a) = gf_content f" using same(1) r(5) x(3) assms(2) by (auto dest: injD)
  moreover have "\<exists>t \<in> set (t_teacherAssignments (rs_db ?s2)). ta_schoolId t = schoolId \<and> ta_teacherId t = user2 \<and> ta_classSectionId t = i"
    if "role2 = ''TEACHER''" "i \<in> set (vr_classSectionIds v)" for i
    using r(3,6) that same(2,3) x(4) by (auto simp: assertRead_def assignedSections_def throw_if_Inr)
  ultimately show ?thesis using x v(1) same r(5) by (intro exI [of _ report] exI [of _ v] exI [of _ f]) auto
qed

text \<open>
  C17: Approval of reports is governed.  Over any run from a database without reports, no two approved reports
  of a school have the same type, period and scope; a report that is or was approved has been approved by a request
  of somebody with the role SUPER_ADMIN or SCHOOL_ADMIN (the documentation names SCHOOL_ADMIN and HEAD_TEACHER, a role
  the code does not know), who is the one recorded; and whatever follows, no report disappears, its status never
  goes back, and once it has been reviewed the hash of its file never changes.  (An approval also withdraws approved
  reports of other scopes: \<open>approval_withdraws_other_scopes\<close>.)
\<close>

theorem report_approval_is_governed:
  assumes "inj (gen_uuid (rt_world rt))" "t_reports (rs_db s0) = []" "s = foldl (report_step rt) s0 xs"
    and "r \<in> set (t_reports (rs_db s))"
  shows "(ra_status r = ''APPROVED_INTERNALLY'' \<longrightarrow> (\<forall>r' \<in> set (t_reports (rs_db s)).
        ra_status r' = ''APPROVED_INTERNALLY'' \<and> ra_schoolId r' = ra_schoolId r \<and> ra_reportType r' = ra_reportType r
        \<and> ra_periodStartDate r' = ra_periodStartDate r \<and> ra_periodEndDate r' = ra_periodEndDate r
        \<and> ra_scopeType r' = ra_scopeType r \<and> ra_scopeSections r' = ra_scopeSections r \<and> ra_scopeStudents r' = ra_scopeStudents r
        \<longrightarrow> r' = r))
    \<and> (2 \<le> report_rank (ra_status r) \<longrightarrow> approved_by_admin xs (ra_id r) (ra_approvedBy r) \<and> ra_fileHashSha256 r \<noteq> None)
    \<and> (\<exists>r' \<in> set (t_reports (rs_db (foldl (report_step rt) s ys))). ra_id r' = ra_id r \<and> ra_schoolId r' = ra_schoolId r
        \<and> report_rank (ra_status r) \<le> report_rank (ra_status r')
        \<and> (ra_status r \<noteq> ''VALIDATED'' \<longrightarrow> ra_fileHashSha256 r' = ra_fileHashSha256 r))"
proof -
  from report_run.run_inv [of rt s0 xs] no_reports_ok assms(1-3) have ok: "reports_ok (rt_world rt) (rs_db s)" by blast
  from report_steps_move [OF assms(1), of xs s0] no_reports_ok [OF assms(2)] assms(2-4)
  have by_admin: "report_rank (ra_status r) < 2 \<or> approved_by_admin xs (ra_id r) (ra_approvedBy r)" unfolding reports_move_def by fastforce
  have hash: "2 \<le> report_rank (ra_status r) \<Longrightarrow> ra_fileHashSha256 r \<noteq> None"
    using ok assms(4) rank_VALIDATED [of "ra_status r"] by (auto simp: reports_ok_def)
  from report_steps_move [OF assms(1), of ys s] ok assms(4) obtain r' where
    r': "r' \<in> set (t_reports (rs_db (foldl (report_step rt) s ys)))" "report_kept (approved_by_admin ys) r r'" unfolding reports_move_def by blast
  have "\<exists>r' \<in> set (t_reports (rs_db (foldl (report_step rt) s ys))). ra_id r' = ra_id r \<and> ra_schoolId r' = ra_schoolId r
        \<and> report_rank (ra_status r) \<le> report_rank (ra_status r') \<and> (ra_status r \<noteq> ''VALIDATED'' \<longrightarrow> ra_fileHashSha256 r' = ra_fileHashSha256 r)"
    using r' by (intro bexI [of _ r']) (auto simp: report_kept_def)
  moreover have "ra_status r = ''APPROVED_INTERNALLY'' \<longrightarrow> (\<forall>r' \<in> set (t_reports (rs_db s)).
        ra_status r' = ''APPROVED_INTERNALLY'' \<and> ra_schoolId r' = ra_schoolId r \<and> ra_reportType r' = ra_reportType r
        \<and> ra_periodStartDate r' = ra_periodStartDate r \<and> ra_periodEndDate r' = ra_periodEndDate r
        \<and> ra_scopeType r' = ra_scopeType r \<and> ra_scopeSections r' = ra_scopeSections r \<and> ra_scopeStudents r' = ra_scopeStudents r
        \<longrightarrow> r' = r)"
    using ok assms(4) unfolding reports_ok_def one_approved_report_def same_period_def by blast
  ultimately show ?thesis using by_admin hash by auto
qed

text \<open>
  What an approval does to the other reports, whatever their scope: the approved report of another section, of the
  same type and period, is withdrawn.
\<close>

lemma approval_withdraws_other_scopes:
  assumes "approveReportInternally now schoolId reportId actorId userRole d = Inr d'" "reports_ok w d"
    and "find_report schoolId reportId d = Some current" "ra_status current = ''READY_FOR_REVIEW''"
    and "r \<in> set (t_reports d)" "ra_status r = ''APPROVED_INTERNALLY''"
    "same_period (ra_schoolId current) (ra_reportType current) (ra_periodStartDate current) (ra_periodEndDate current) r"
  shows "r\<lparr>ra_status := ''SUPERSEDED'', ra_supersededAt := Some now, ra_supersededBy := Some actorId\<rparr> \<in> set (t_reports d')"
proof -
  from find_reportD [OF assms(3)] have c: "current \<in> set (t_reports d)" "ra_id current = reportId" "ra_schoolId current = schoolId" by auto
  from assms(1,3,4) have d': "t_reports d' = approve_report now actorId schoolId reportId (supersede_reports now actorId current (t_reports d))"
    by (auto simp: approveReportInternally_def Let_def createAuditLog_def split: if_splits)
  have "after_report_approval now actorId current r \<in> set (t_reports d')"
    using report_approval_rows [OF assms(2) c(1) assms(4), of now actorId] c assms(5) by (auto simp: d')
  moreover have "r \<noteq> current" using assms(4,6) by auto
  ultimately show ?thesis using assms(6,7) by (simp add: after_report_approval_def)
qed

section \<open>Examples\<close>

text \<open>A runtime whose builder answers one small workbook; an administrator generates a report and approves it.\<close>

definition report_runtime_example :: report_runtime where
  "report_runtime_example = \<lparr>rt_world = calendar_world,
     rt_env = \<lparr>re_concurrency = None, re_maxPending = None, re_maxCells = None, re_maxPeriodDays = None, re_maxStudents = None,
       re_storage = None, re_maxBytes = None\<rparr>,
     rt_decode = utext, rt_uuid = (\<lambda>i. True), rt_config_ok = (\<lambda>c. True), rt_profiles = [],
     rt_build = (\<lambda>report validation format. Inr \<lparr>gf_format = format,
       gf_contentType = ''application/vnd.openxmlformats-officedocument.spreadsheetml.sheet'', gf_filename = ''register.xlsx'',
       gf_content = ''PK34''\<rparr>)\<rparr>"

definition report_request_example :: report_request where
  "report_request_example = \<lparr>rr_reportType = ''monthly-register'', rr_format = ''xlsx'', rr_scopeType = ''SELECTED_CLASSES'',
     rr_classSectionIds = Some [''section''], rr_studentIds = None, rr_periodType = ''CUSTOM_RANGE'', rr_startDate = ''2025-01-04'',
     rr_endDate = ''2025-01-07'', rr_profileId = None\<rparr>"

definition report_start :: report_state where "report_start = \<lparr>rs_db = report_db, rs_artifacts = [], rs_files = [], rs_queue = \<lparr>rq_running = 0, rq_waiting = []\<rparr>\<rparr>"

definition report_ops :: "report_op list" where
  "report_ops =
     [Generate 1 report_school ''head'' ''SCHOOL_ADMIN'' report_request_example,
      ApproveReport 2 report_school ''head'' ''SCHOOL_ADMIN'' ''00000000-0000-4000-8000-000000000001'',
      WriteFile ''elsewhere'' ''PK00'']"

lemma inj_report_world:
  "inj (gen_uuid (rt_world report_runtime_example))" "inj (sha256 (rt_world report_runtime_example))"
  using inj_calendar_world by (simp_all add: report_runtime_example_def) (simp add: calendar_world_def example_world_def inj_def)

lemma report_view:
  "map ra_status (t_reports (rs_db (foldl (report_step report_runtime_example) report_start report_ops))) = [''APPROVED_INTERNALLY'']"
  "case generate_report report_runtime_example 1 report_school ''head'' ''SCHOOL_ADMIN'' report_request_example report_start of
     (s1, Inl e) \<Rightarrow> False
   | (s1, Inr None) \<Rightarrow> False
   | (s1, Inr (Some g)) \<Rightarrow> ga_reportId g = ''00000000-0000-4000-8000-000000000001'' \<and>
      (case download_report report_runtime_example report_school ''head'' ''SCHOOL_ADMIN'' (ga_reportId g) None
          (foldl (report_step report_runtime_example) s1 (tl report_ops)) of (s2, Inl e) \<Rightarrow> False | (s2, Inr a) \<Rightarrow> True)"
  by code_simp+

theorem downloaded_report_is_the_generated_one_witness:
  "\<exists>s1 g s3 a. generate_report report_runtime_example 1 report_school ''head'' ''SCHOOL_ADMIN'' report_request_example report_start = (s1, Inr (Some g))
     \<and> download_report report_runtime_example report_school ''head'' ''SCHOOL_ADMIN'' (ga_reportId g) None
          (foldl (report_step report_runtime_example) s1 (tl report_ops)) = (s3, Inr a)
     \<and> gf_content (at_file a) = ''PK34'' \<and> at_sha256 a = ga_sha256 g"
proof -
  let ?gen = "generate_report report_runtime_example 1 report_school ''head'' ''SCHOOL_ADMIN'' report_request_example report_start"
  obtain s1 g' where "?gen = (s1, g')" by (cases ?gen)
  with report_view(2) obtain g where g: "?gen = (s1, Inr (Some g))" by (cases g') (auto split: option.splits)
  let ?down = "download_report report_runtime_example report_school ''head'' ''SCHOOL_ADMIN'' (ga_reportId g) None
          (foldl (report_step report_runtime_example) s1 (tl report_ops))"
  obtain s3 a' where "?down = (s3, a')" by (cases ?down)
  with report_view(2) g obtain a where a: "?down = (s3, Inr a)" by (cases a') auto
  have empty: "t_reports (rs_db report_start) = []" by (simp add: report_start_def report_db_def empty_db_def)
  from downloaded_report_is_the_generated_one [where xs = "[]", OF inj_report_world empty _ a, unfolded foldl_Nil, OF g]
  have "gf_content (at_file a) = ''PK34'' \<and> at_sha256 a = ga_sha256 g"
    by (elim exE conjE) (simp add: report_runtime_example_def)
  with g a show ?thesis by blast
qed

theorem report_approval_is_governed_witness:
  "\<exists>s r. s = foldl (report_step report_runtime_example) report_start report_ops \<and> r \<in> set (t_reports (rs_db s))
     \<and> ra_status r = ''APPROVED_INTERNALLY'' \<and> approved_by_admin report_ops (ra_id r) (ra_approvedBy r)"
proof -
  let ?s = "foldl (report_step report_runtime_example) report_start report_ops"
  from report_view(1) obtain r :: report_approval where r: "r \<in> set (t_reports (rs_db ?s))" "ra_status r = ''APPROVED_INTERNALLY''"
    by (cases "t_reports (rs_db ?s)") auto
  have empty: "t_reports (rs_db report_start) = []" by (simp add: report_start_def report_db_def empty_db_def)
  from report_approval_is_governed [OF inj_report_world(1) empty refl r(1), of "[]"] r(2)
  have "approved_by_admin report_ops (ra_id r) (ra_approvedBy r)" by (simp add: report_rank_def)
  with r show ?thesis by blast
qed

end
