(* ===== verification/Spec2Isabelle.thy ===== *)
theory Spec2Isabelle
  imports Ingest Notification_Worker Outbox_Link Csv Slug Credentials Qr Import Retention Csrf Reports
begin

text \<open>
  A model of the school attendance server (src/src) and what is proved of it.

  \<^bold>\<open>The program.\<close>  Schools record who is present in three ways: a gate with RFID readers posts batches of
  tag reads, teachers scan QR badges or set a status by hand, and phones without a network do the same
  and upload their scans later.  All three end in the same tables: a session per section, day and kind
  with a snapshot of its roster, an append-only log of events, and one record per pupil that is the
  state of the day.  Finalizing a session marks the rest absent and queues SMS messages to guardians,
  which a worker sends; a correction undoes or follows up what was announced.  Around this stand the
  badges themselves (RFID credentials, QR codes, authorized phones), logins and permissions, the import of
  pupil lists, exports, consent, the audit log and the retention job.

  \<^bold>\<open>State and errors.\<close>  The PostgreSQL tables are one record \<open>db\<close> of lists of rows (Schema, after
  src/src/db/schema.ts); a service is a function from its arguments and a \<open>db\<close> to a \<open>result\<close>: \<open>Inl\<close> an error
  (a JavaScript error, an application error with its status, or a database error) or \<open>Inr\<close> the answer and
  the new \<open>db\<close>.  A transaction or savepoint that fails returns the old tables; where the code commits in
  spite of an error (\<open>after_failed_sync\<close>, \<open>executeTransactionalImport\<close>, the ingest gateway) the state is
  returned beside the error.  The runtime is the record \<open>world\<close>: hashes, random identifiers and tokens,
  time zones, number and date parsing, Unicode tables, configuration.  The time is an argument.
  Identifiers come from a supply counted by the field \<open>seq\<close>; theorems about fresh rows assume it injective.

  \<^bold>\<open>Theories.\<close>
  \<^item> Prelude: JavaScript operators, select, update and insert on tables, rendering of numbers, batches, and
    three interfaces as locales (\<open>unique_index\<close>, \<open>guarded_machine\<close>, \<open>append_only\<close>) which the components
    interpret on their own tables and operations.
  \<^item> Schema: rows, enumerations, errors, \<open>db\<close>, \<open>world\<close>.
  \<^item> Crypto, Zebra_Auth: canonical tag codes and digests, signatures and tokens
    (services/rfid/cryptoService.ts, auth/readerTokens.ts), tenant contexts (db/index.ts) and the three ways
    a reader authenticates (services/rfid/zebraAuth.ts).
  \<^item> Ingest_Reads, Ingest_Decide, Ingest_Write, Ingest_Gate, Ingest: services/rfid/ingest, one webhook call
    from the payload to the answer: every read is accounted for by position; an accepted read is backed
    by active rows; records made by hand survive; replays add nothing; errors have causes.
  \<^item> Attendance, Attendance_Scan: services/attendanceService.ts and sessionReconciler.ts.  Attendance_Log,
    Attendance_Gate and Attendance_Run state the contract of the attendance tables as a refinement: the
    records are the projection (\<open>project\<close>) of the event log.  Every operation, the gate transaction and the
    upload included, extends the log and keeps that; \<open>runs\<close> lets them interleave in any order.
  \<^item> Sync, Outbox, Outbox_Link: services/syncService.ts, the phone (services/offlineSyncService.ts,
    offline/offlineDb.ts) and the two joined by a network.  What the phone relies on of the server is the
    locale \<open>sync_server\<close>, interpreted on the upload route (routes/syncRoutes.ts) behind a network that loses
    requests and answers.
  \<^item> Notification, Notification_Worker, Sms, Audit_Entry: services/notificationService.ts,
    notifications/absenceScheduler.ts, notificationWorker.ts, sms/smsUtils.ts, privacy/consent.ts,
    auditLogService.ts and the operations of routes/notificationRoutes.ts that change a job.
  \<^item> Credentials, Qr, Slug, Import, Csv, Retention: services/rfid/credentialService.ts, qrService.ts and
    deviceService.ts, schoolSlug.ts with the slug step of schoolService.ts, importService.ts, the CSV writers
    of excelExportService.ts and reportService.ts, jobs/retention.ts.
  \<^item> Session, Access, Csrf: auth/session.ts with db/authFunctions.ts and routes/authRoutes.ts; the guards
    between a request and a handler (middleware/authMiddleware.ts, tenantMiddleware.ts, resolveSchoolId.ts,
    http/tenantRoute.ts) with auth/permissions.ts; middleware/csrfProtection.ts and csrfExemptions.ts.
  \<^item> Calendar: services/calendarService.ts and routes/calendarRoutes.ts, the versions of a school's calendar
    and the working days counted from them; \<open>calendar_moves\<close> is what any request may do to them.
  \<^item> Report_Scope, Reports: official reports (services/reportGenerationQueue.ts, reportValidationService.ts,
    reportProfileService.ts, reportArtifactService.ts, reportApprovalService.ts,
    routes/governmentReportRoutes.ts), from the check of the scope to the download of the stored file;
    \<open>reports_move\<close> is what any request may do to the reports.  The queue of the generation is part of the state:
    it refuses a job when it is full, starts it within its request, or lets it wait.  A waiting job is started in
    the transaction of the request whose job ended, which is about to be committed; the model leaves open how many
    of the writes of such a job are kept (\<open>waited_job\<close>).

  \<^bold>\<open>What is proved.\<close>  Safety: what an accepted read, a sent message, an authenticated reader, an exported
  cell, an authorized request and an event marked as synchronized are backed by; that a finalized session is
  frozen, for teachers, phones and the gate, and reopening leaves a trace (an offline scan that comes too late is
  refused and not logged; it only sets the conflict flag of the record of the pupil it names); that a downloaded report is the generated one; that a revoked badge stays refused and an
  ended login session stays dead over any sequence of operations.  Refinement of the
  log by the records.  Round trip of the CSV writer and parser.  Equivalence of one and of two uploads.
  Liveness: the outbox of a phone drains, the queue of reports starts every
  job it accepted.  Termination of the retention job.  Exact counts and bounds:
  segments, attempts, balances, results per read and per event.  Errors: what a failed import, a failed
  batch and a failed bulk enrolment leave behind.  Properties with a hypothesis are applied in a witness at
  an example evaluated by the kernel.

  \<^bold>\<open>Loops and bounds.\<close>  No model uses fuel.  Loops over lists are structural recursion; the batches of an
  upload (75) and of an import (100) are \<open>chunks\<close>, with a termination proof; the deletion loop of the
  retention job is a partial function proved to return.  Retries are bounded by the constants of the code
  (five attempts of an event, three of a job by default).  Integer columns of 32 bits reject what does not
  fit, as the database does; counters in JavaScript stay below the point where numbers lose precision.

  \<^bold>\<open>Assumptions.\<close>  A request is one step: two requests interleave between, not within, their transactions,
  and the commit that follows the answer succeeds.  Row locks and isolation levels are therefore not
  modelled; where a statement guards itself against a race (unique indexes, conditional updates) the guard
  is in the model.

  \<^bold>\<open>Not modelled.\<close>  The user interface and the camera decoder; spreadsheet layout and the queries of the
  reports, so the builder of a report file is a parameter; the first connector for readers
  (services/rfid/zebraIotConnector.ts), superseded by the ingest pipeline; cloud key services, Redis, backups and alerts, which the sources only call; request parsing of
  most routes; the services that only create, list and change single rows
  (academic years, sections, students).  Row-level security is a property of the database roles:
  the model has the tenant checks the code makes itself.
\<close>

end
